(* ===== verification/Owsd_Prelude.thy ===== *)
theory Owsd_Prelude
  imports Main "HOL-Library.Word" "HOL-Library.List_Lexorder" "HOL-Library.Monad_Syntax"
begin

text \<open>
  The prelude of the development: the functions of the C library the sources call on
  strings, written out over \<^typ>\<open>string\<close>; a few facts on lists, on the option monad and on
  words that several components share; and a rule calculus for partial correctness.

  A C string is a \<^typ>\<open>string\<close> without its terminating NUL. \<open>strcmp\<close> and \<open>strncmp\<close>
  are only specified up to their sign by C, so the model returns -1, 0 or 1, with the
  bytes compared as unsigned values.

  A computation that can touch freed or null memory, or that can fail an \<open>assert\<close>, is of
  type \<open>'a option\<close>: \<^term>\<open>None\<close> is the run that goes wrong.
\<close>

type_synonym addr = nat
type_synonym wsi = nat
type_synonym u8 = "8 word"
type_synonym u16 = "16 word"
type_synonym u32 = "32 word"
type_synonym u64 = "64 word"

section \<open>C strings\<close>

definition byte_of :: "char \<Rightarrow> nat" where
  "byte_of c = of_char c"

fun strcmp :: "string \<Rightarrow> string \<Rightarrow> int" where
  "strcmp [] [] = 0"
| "strcmp [] (b # bs) = -1"
| "strcmp (a # as) [] = 1"
| "strcmp (a # as) (b # bs) =
     (if byte_of a = byte_of b then strcmp as bs else if byte_of a < byte_of b then -1 else 1)"

fun strncmp :: "string \<Rightarrow> string \<Rightarrow> nat \<Rightarrow> int" where
  "strncmp as bs 0 = 0"
| "strncmp [] [] (Suc n) = 0"
| "strncmp [] (b # bs) (Suc n) = -1"
| "strncmp (a # as) [] (Suc n) = 1"
| "strncmp (a # as) (b # bs) (Suc n) =
     (if byte_of a = byte_of b then strncmp as bs n else if byte_of a < byte_of b then -1 else 1)"

text \<open>\<open>strstr(s, p) == s\<close>, the idiom of the sources for ``\<open>s\<close> starts with \<open>p\<close>''.\<close>

definition strstr_at_start :: "string \<Rightarrow> string \<Rightarrow> bool" where
  "strstr_at_start s p \<longleftrightarrow> take (length p) s = p"

text \<open>\<open>strstr(s, p) != NULL\<close>.\<close>

fun strstr_found :: "string \<Rightarrow> string \<Rightarrow> bool" where
  "strstr_found [] p = (p = [])"
| "strstr_found (c # s) p = (take (length p) (c # s) = p \<or> strstr_found s p)"

text \<open>\<open>strncat(dst, src, n)\<close> on an empty destination: at most \<open>n\<close> bytes of the source.\<close>

definition strncat_empty :: "string \<Rightarrow> nat \<Rightarrow> string" where
  "strncat_empty src n = take n src"

lemma byte_of_eq [simp]: "byte_of a = byte_of b \<longleftrightarrow> a = b"
  by (simp add: byte_of_def)

lemma byte_of_not_less: "\<not> byte_of a < byte_of b \<Longrightarrow> a \<noteq> b \<Longrightarrow> byte_of b < byte_of a"
  by (metis byte_of_eq linorder_neqE_nat)

lemma byte_of_less_256 [simp]: "byte_of c < 256"
proof -
  have "(of_char c :: nat) \<in> {0..<256}"
    using range_nat_of_char by blast
  then show ?thesis
    by (simp add: byte_of_def)
qed

lemma byte_of_256 [simp]: "byte_of c \<noteq> 256" "\<not> 256 < byte_of c"
  using byte_of_less_256 [of c] by linarith+

lemma strcmp_swap: "strcmp b a = - strcmp a b"
  by (induction a b rule: strcmp.induct) (auto dest: byte_of_not_less)

lemma strncmp_swap: "strncmp b a n = - strncmp a b n"
  by (induction a b n rule: strncmp.induct) (auto dest: byte_of_not_less)

lemma strcmp_eq_0 [simp]: "strcmp a b = 0 \<longleftrightarrow> a = b"
  by (induction a b rule: strcmp.induct) auto

lemma strncmp_eq_0: "strncmp a b n = 0 \<longleftrightarrow> take n a = take n b"
  by (induction a b n rule: strncmp.induct) auto

text \<open>
  The order both functions decide is the lexicographic order of the byte values, the order
  \<open>HOL-Library.List_Lexorder\<close> puts on \<^typ>\<open>nat list\<close>.
\<close>

abbreviation bytes :: "string \<Rightarrow> nat list" where
  "bytes s \<equiv> map byte_of s"

lemma bytes_eq [simp]: "bytes a = bytes b \<longleftrightarrow> a = b"
  by (rule inj_map_eq_map) (auto intro: injI)

lemma strcmp_neg: "strcmp a b < 0 \<longleftrightarrow> bytes a < bytes b"
  by (induction a b rule: strcmp.induct) (auto intro: byte_of_not_less)

lemma strcmp_pos: "0 < strcmp a b \<longleftrightarrow> bytes b < bytes a"
  by (induction a b rule: strcmp.induct) (auto intro: byte_of_not_less)

lemma strncmp_neg: "strncmp a b n < 0 \<longleftrightarrow> bytes (take n a) < bytes (take n b)"
  by (induction a b n rule: strncmp.induct) (auto intro: byte_of_not_less)

lemma strncmp_pos: "0 < strncmp a b n \<longleftrightarrow> bytes (take n b) < bytes (take n a)"
  by (induction a b n rule: strncmp.induct) (auto intro: byte_of_not_less)

section \<open>Lists and options\<close>

lemma sorted_wrt_remove1: "sorted_wrt P xs \<Longrightarrow> sorted_wrt P (remove1 x xs)"
  by (induction xs) (auto dest: in_set_remove1 [THEN iffD1, rotated] simp: notin_set_remove1
      intro: set_remove1_subset [THEN subsetD])

lemma count_list_distinct: "distinct xs \<Longrightarrow> x \<in> set xs \<Longrightarrow> count_list xs x = 1"
  by (induction xs) (auto simp: count_notin)

lemmas bind_conv = Option.bind_eq_Some_conv Option.bind_eq_None_conv

section \<open>Partial correctness of computations that may fail\<close>

text \<open>
  \<open>wp m Q\<close>: if the computation \<open>m\<close> returns, its result satisfies \<open>Q\<close>. That the computations of
  the model do return is proved separately.
\<close>

definition wp :: "'a option \<Rightarrow> ('a \<Rightarrow> bool) \<Rightarrow> bool" where
  "wp m Q \<longleftrightarrow> (\<forall>x. m = Some x \<longrightarrow> Q x)"

lemma wp_simps [simp]:
  "wp None Q" "wp (Some x) Q = Q x" "wp (Option.bind k f) Q = wp k (\<lambda>y. wp (f y) Q)"
  "wp (map_option g l) Q = wp l (\<lambda>z. Q (g z))"
  "wp (if b then m else n) Q = ((b \<longrightarrow> wp m Q) \<and> (\<not> b \<longrightarrow> wp n Q))"
  by (auto simp: wp_def bind_conv)

lemma wp_case [simp]:
  "wp (case v of None \<Rightarrow> m | Some x \<Rightarrow> f x) Q = ((v = None \<longrightarrow> wp m Q) \<and> (\<forall>x. v = Some x \<longrightarrow> wp (f x) Q))"
  "wp (case p of (x, y) \<Rightarrow> h x y) Q = (\<forall>x y. p = (x, y) \<longrightarrow> wp (h x y) Q)"
  by (auto split: option.splits prod.splits)

lemma wp_True [simp]: "wp m (\<lambda>_. True)"
  by (simp add: wp_def)

lemma wp_mono: "wp m P \<Longrightarrow> (\<And>x. P x \<Longrightarrow> Q x) \<Longrightarrow> wp m Q"
  by (simp add: wp_def)

lemma wpD: "wp m Q \<Longrightarrow> m = Some x \<Longrightarrow> Q x"
  by (simp add: wp_def)

end
