(* ===== verification/Json_Rpc.thy ===== *)
theory Json_Rpc
  imports Owsd_Prelude
begin

text \<open>
  Messages: the blobmsg values of libubox as a datatype, the JSON-RPC responses and requests
  that \<open>src/src/util_jsonrpc.c\<close> builds, and the type names of \<open>src/src/util_ubus_blob.h\<close>.

  A blob attribute is its name and its value; an array's elements carry names too (the
  sources give them the empty name). Parsing a table by a policy, reading a value as a
  string, walking a value's attributes and printing JSON are library code: they are the
  fields of the record \<open>libubox\<close>, an argument of the definitions that use them. What the
  sources rely on is stated by the predicate \<open>libubox_ok\<close>.
\<close>

section \<open>Blob messages\<close>

datatype blobmsg_type =
    BLOBMSG_TYPE_UNSPEC | BLOBMSG_TYPE_ARRAY | BLOBMSG_TYPE_TABLE | BLOBMSG_TYPE_STRING
  | BLOBMSG_TYPE_INT64 | BLOBMSG_TYPE_INT32 | BLOBMSG_TYPE_INT16 | BLOBMSG_TYPE_INT8
  | BLOBMSG_TYPE_DOUBLE | BLOBMSG_TYPE_LAST

text \<open>libubox defines \<open>BLOBMSG_TYPE_BOOL\<close> to be \<open>BLOBMSG_TYPE_INT8\<close>.\<close>

datatype blob =
    BUnspec
  | BArray "(string \<times> blob) list"
  | BTable "(string \<times> blob) list"
  | BString string
  | BInt64 u64
  | BInt32 u32
  | BInt16 u16
  | BInt8 u8
  | BDouble u64

type_synonym blob_attr = "string \<times> blob"

fun type_of_blob :: "blob \<Rightarrow> blobmsg_type" where
  "type_of_blob BUnspec = BLOBMSG_TYPE_UNSPEC"
| "type_of_blob (BArray _) = BLOBMSG_TYPE_ARRAY"
| "type_of_blob (BTable _) = BLOBMSG_TYPE_TABLE"
| "type_of_blob (BString _) = BLOBMSG_TYPE_STRING"
| "type_of_blob (BInt64 _) = BLOBMSG_TYPE_INT64"
| "type_of_blob (BInt32 _) = BLOBMSG_TYPE_INT32"
| "type_of_blob (BInt16 _) = BLOBMSG_TYPE_INT16"
| "type_of_blob (BInt8 _) = BLOBMSG_TYPE_INT8"
| "type_of_blob (BDouble _) = BLOBMSG_TYPE_DOUBLE"

record libubox =
  blobmsg_parse :: "(string \<times> blobmsg_type) list \<Rightarrow> blob_attr list \<Rightarrow> blob_attr option list"
  blobmsg_parse_array :: "blobmsg_type list \<Rightarrow> blob_attr list \<Rightarrow> blob_attr option list"
  blobmsg_get_string :: "blob \<Rightarrow> string"
  blobmsg_attrs :: "blob \<Rightarrow> blob_attr list"
  blobmsg_format_json :: "blob_attr list \<Rightarrow> string option"

text \<open>
  The documented behaviour of the library functions: a parse fills one slot per policy entry,
  a filled slot holds an attribute of the input of the wanted type (any type for
  \<open>BLOBMSG_TYPE_UNSPEC\<close>) and, for tables, of the wanted name; a string attribute reads back
  as its string and a table or array walks its own attributes.
\<close>

definition fits :: "blobmsg_type \<Rightarrow> blob \<Rightarrow> bool" where
  "fits ty v \<longleftrightarrow> ty = BLOBMSG_TYPE_UNSPEC \<or> type_of_blob v = ty"

definition libubox_ok :: "libubox \<Rightarrow> bool" where
  "libubox_ok L \<longleftrightarrow>
     (\<forall>pol xs. length (blobmsg_parse L pol xs) = length pol) \<and>
     (\<forall>pol xs i n v. i < length pol \<longrightarrow> blobmsg_parse L pol xs ! i = Some (n, v) \<longrightarrow>
        (n, v) \<in> set xs \<and> n = fst (pol ! i) \<and> fits (snd (pol ! i)) v) \<and>
     (\<forall>pol xs. length (blobmsg_parse_array L pol xs) = length pol) \<and>
     (\<forall>pol xs i n v. i < length pol \<longrightarrow> blobmsg_parse_array L pol xs ! i = Some (n, v) \<longrightarrow>
        (n, v) \<in> set xs \<and> fits (pol ! i) v) \<and>
     (\<forall>s. blobmsg_get_string L (BString s) = s) \<and>
     (\<forall>xs. blobmsg_attrs L (BTable xs) = xs) \<and>
     (\<forall>xs. blobmsg_attrs L (BArray xs) = xs)"

lemma libubox_parse:
  assumes "libubox_ok L" "i < length pol" "blobmsg_parse L pol xs ! i = Some a"
  shows "a \<in> set xs" "fst a = fst (pol ! i)" "fits (snd (pol ! i)) (snd a)"
  using assms unfolding libubox_ok_def by (metis prod.collapse)+

lemma libubox_parse_array:
  assumes "libubox_ok L" "i < length pol" "blobmsg_parse_array L pol xs ! i = Some a"
  shows "a \<in> set xs" "fits (pol ! i) (snd a)"
  using assms unfolding libubox_ok_def by (metis prod.collapse)+

lemma libubox_values:
  assumes "libubox_ok L"
  shows "blobmsg_get_string L (BString s) = s" "blobmsg_attrs L (BTable xs) = xs"
    "blobmsg_attrs L (BArray xs) = xs"
  using assms by (simp_all add: libubox_ok_def)

section \<open>Type names (\<open>util_ubus_blob.h\<close>)\<close>

definition blobmsg_type_from_str :: "string option \<Rightarrow> blobmsg_type" where
  "blobmsg_type_from_str c =
     (case c of
        None \<Rightarrow> BLOBMSG_TYPE_LAST
      | Some s \<Rightarrow>
          (case s of
             [] \<Rightarrow> BLOBMSG_TYPE_UNSPEC
           | x # _ \<Rightarrow>
               if x = CHR ''a'' then BLOBMSG_TYPE_ARRAY
               else if x = CHR ''o'' then BLOBMSG_TYPE_TABLE
               else if x = CHR ''s'' then BLOBMSG_TYPE_STRING
               else if x = CHR ''n'' then BLOBMSG_TYPE_INT32
               else if x = CHR ''b'' then BLOBMSG_TYPE_INT8
               else BLOBMSG_TYPE_UNSPEC))"

text \<open>
  \<open>blobmsg_type_to_str\<close> indexes a table of eight entries, checked by an \<open>assert\<close>: the outer
  \<^term>\<open>None\<close> is the failed assertion, the inner one an entry that was left \<open>NULL\<close>.
\<close>

fun blobmsg_type_to_str :: "blobmsg_type \<Rightarrow> string option option" where
  "blobmsg_type_to_str BLOBMSG_TYPE_ARRAY = Some (Some ''array'')"
| "blobmsg_type_to_str BLOBMSG_TYPE_TABLE = Some (Some ''object'')"
| "blobmsg_type_to_str BLOBMSG_TYPE_STRING = Some (Some ''string'')"
| "blobmsg_type_to_str BLOBMSG_TYPE_INT32 = Some (Some ''number'')"
| "blobmsg_type_to_str BLOBMSG_TYPE_INT16 = Some (Some ''number'')"
| "blobmsg_type_to_str BLOBMSG_TYPE_INT8 = Some (Some ''boolean'')"
| "blobmsg_type_to_str BLOBMSG_TYPE_UNSPEC = Some None"
| "blobmsg_type_to_str BLOBMSG_TYPE_INT64 = Some None"
| "blobmsg_type_to_str BLOBMSG_TYPE_DOUBLE = None"
| "blobmsg_type_to_str BLOBMSG_TYPE_LAST = None"

section \<open>Responses (\<open>util_jsonrpc.c\<close>)\<close>

datatype jsonrpc_error_code =
    JSONRPC_ERRORCODE__OK
  | JSONRPC_ERRORCODE__PARSE_ERROR
  | JSONRPC_ERRORCODE__INVALID_REQUEST
  | JSONRPC_ERRORCODE__METHOD_NOT_FOUND
  | JSONRPC_ERRORCODE__INVALID_PARAMS
  | JSONRPC_ERRORCODE__INTERNAL_ERROR
  | JSONRPC_ERRORCODE__INPUT_FORMAT_ERROR
  | JSONRPC_ERRORCODE__OUTPUT_FORMAT_ERROR
  | JSONRPC_ERRORCODE__OTHER

fun error_code_value :: "jsonrpc_error_code \<Rightarrow> int" where
  "error_code_value JSONRPC_ERRORCODE__OK = 0"
| "error_code_value JSONRPC_ERRORCODE__PARSE_ERROR = -32700"
| "error_code_value JSONRPC_ERRORCODE__INVALID_REQUEST = -32600"
| "error_code_value JSONRPC_ERRORCODE__METHOD_NOT_FOUND = -32601"
| "error_code_value JSONRPC_ERRORCODE__INVALID_PARAMS = -32602"
| "error_code_value JSONRPC_ERRORCODE__INTERNAL_ERROR = -32603"
| "error_code_value JSONRPC_ERRORCODE__INPUT_FORMAT_ERROR = -32604"
| "error_code_value JSONRPC_ERRORCODE__OUTPUT_FORMAT_ERROR = -32605"
| "error_code_value JSONRPC_ERRORCODE__OTHER = -32050"

fun error_message :: "jsonrpc_error_code \<Rightarrow> string" where
  "error_message JSONRPC_ERRORCODE__PARSE_ERROR = ''Parse error''"
| "error_message JSONRPC_ERRORCODE__INTERNAL_ERROR = ''Internal error''"
| "error_message JSONRPC_ERRORCODE__INVALID_REQUEST = ''Invalid Request''"
| "error_message JSONRPC_ERRORCODE__INVALID_PARAMS = ''Invalid params''"
| "error_message JSONRPC_ERRORCODE__METHOD_NOT_FOUND = ''Method not found''"
| "error_message JSONRPC_ERRORCODE__INPUT_FORMAT_ERROR = ''Invalid Input Format''"
| "error_message JSONRPC_ERRORCODE__OUTPUT_FORMAT_ERROR = ''Invalid Output Format''"
| "error_message _ = ''Other error''"

text \<open>The head of every response: the version and the request's id attribute, or a null id.\<close>

definition resp_head :: "blob_attr option \<Rightarrow> blob_attr list" where
  "resp_head rid =
     [(''jsonrpc'', BString ''2.0''), (case rid of Some a \<Rightarrow> a | None \<Rightarrow> (''id'', BUnspec))]"

definition resp_error_attrs ::
    "blob_attr option \<Rightarrow> jsonrpc_error_code \<Rightarrow> blob_attr option \<Rightarrow> blob_attr list" where
  "resp_error_attrs rid error_code error_data =
     resp_head rid @
     [(''error'', BTable
        ([(''code'', BInt32 (word_of_int (error_code_value error_code))),
          (''message'', BString (error_message error_code))] @
         (case error_data of
            Some d \<Rightarrow> if fst d = ''data'' then [d] else []
          | None \<Rightarrow> [])))]"

definition jsonrpc__resp_error ::
    "libubox \<Rightarrow> blob_attr option \<Rightarrow> jsonrpc_error_code \<Rightarrow> blob_attr option \<Rightarrow> string option" where
  "jsonrpc__resp_error L rid error_code error_data =
     blobmsg_format_json L (resp_error_attrs rid error_code error_data)"

definition resp_ubus_attrs ::
    "libubox \<Rightarrow> blob_attr option \<Rightarrow> int \<Rightarrow> blob_attr option \<Rightarrow> blob_attr list" where
  "resp_ubus_attrs L rid ubus_rc ret_data =
     resp_head rid @
     [(''result'', BArray
        ([([], BInt32 (word_of_int ubus_rc))] @
         (case ret_data of
            None \<Rightarrow> []
          | Some (_, v) \<Rightarrow>
              [([], if type_of_blob v = BLOBMSG_TYPE_ARRAY then BArray (blobmsg_attrs L v)
                    else BTable (blobmsg_attrs L v))])))]"

definition jsonrpc__resp_ubus ::
    "libubox \<Rightarrow> blob_attr option \<Rightarrow> int \<Rightarrow> blob_attr option \<Rightarrow> string option" where
  "jsonrpc__resp_ubus L rid ubus_rc ret_data =
     blobmsg_format_json L (resp_ubus_attrs L rid ubus_rc ret_data)"

section \<open>Requests (\<open>util_jsonrpc.c\<close>)\<close>

text \<open>
  Requests are built as json-c objects and printed by it. json-c is library code: the values
  are the datatype below, the printer and the outcome of each allocation are arguments.
\<close>

datatype json =
    JNull
  | JBool bool
  | JInt int
  | JDouble u64
  | JString string
  | JArray "json list"
  | JObject "(string \<times> json) list"

text \<open>Reading a member of an object and an element of an array.\<close>

definition json_get_ex :: "json \<Rightarrow> string \<Rightarrow> bool \<times> json" where
  "json_get_ex j k =
     (case j of
        JObject fs \<Rightarrow> (case map_of fs k of Some v \<Rightarrow> (True, v) | None \<Rightarrow> (False, JNull))
      | _ \<Rightarrow> (False, JNull))"

definition json_array_get_idx :: "json \<Rightarrow> nat \<Rightarrow> json" where
  "json_array_get_idx j i = (case j of JArray xs \<Rightarrow> if i < length xs then xs ! i else JNull | _ \<Rightarrow> JNull)"

datatype req_alloc =
    Alloc_jo | Alloc_version | Alloc_id | Alloc_method | Alloc_params | Alloc_sid
  | Alloc_obj | Alloc_ubus_method | Alloc_arg | Alloc_pattern | Alloc_strdup

text \<open>\<open>custom_json_object_array_add_string\<close>: -1 unless an array is given and the string fits.\<close>

definition custom_json_object_array_add_string ::
    "bool \<Rightarrow> json \<Rightarrow> string \<Rightarrow> int \<times> json" where
  "custom_json_object_array_add_string alloc_ok arr val =
     (case arr of
        JArray xs \<Rightarrow> if alloc_ok then (0, JArray (xs @ [JString val])) else (-1, arr)
      | _ \<Rightarrow> (-1, arr))"

definition jsonrpc__req_to_string ::
    "(json \<Rightarrow> string option) \<Rightarrow> (req_alloc \<Rightarrow> bool) \<Rightarrow> int \<Rightarrow> string option \<Rightarrow> string \<Rightarrow>
     string \<Rightarrow> string \<Rightarrow> json option \<Rightarrow> string \<Rightarrow> string option" where
  "jsonrpc__req_to_string print alloc rid sid jsonrpc_method obj method arg pattern =
     (if \<not> (alloc Alloc_jo \<and> alloc Alloc_version \<and> alloc Alloc_id \<and> alloc Alloc_method \<and>
            alloc Alloc_params) then None
      else
        let (rv, jo_params) = custom_json_object_array_add_string (alloc Alloc_sid) (JArray [])
              (case sid of Some s \<Rightarrow> s | None \<Rightarrow> replicate 32 (CHR ''0'')) in
        if rv \<noteq> 0 then None
        else
          (case
             (if strcmp jsonrpc_method ''call'' = 0 then
                let (rv, ps) = custom_json_object_array_add_string (alloc Alloc_obj) jo_params obj in
                if rv \<noteq> 0 then None
                else
                  let (rv, ps) =
                        custom_json_object_array_add_string (alloc Alloc_ubus_method) ps method in
                  if rv \<noteq> 0 then None
                  else
                    (case arg of
                       Some a \<Rightarrow> (case ps of JArray xs \<Rightarrow> Some (JArray (xs @ [a])) | _ \<Rightarrow> None)
                     | None \<Rightarrow>
                         if alloc Alloc_arg
                         then (case ps of JArray xs \<Rightarrow> Some (JArray (xs @ [JObject []])) | _ \<Rightarrow> None)
                         else None)
              else
                let (rv, ps) =
                      custom_json_object_array_add_string (alloc Alloc_pattern) jo_params pattern in
                if rv \<noteq> 0 then None else Some ps) of
             None \<Rightarrow> None
           | Some ps \<Rightarrow>
               (case print (JObject
                       [(''jsonrpc'', JString ''2.0''), (''id'', JInt rid),
                        (''method'', JString jsonrpc_method), (''params'', ps)]) of
                  None \<Rightarrow> None
                | Some str \<Rightarrow> if alloc Alloc_strdup then Some str else None)))"

definition jsonrpc__req_ubuslist ::
    "(json \<Rightarrow> string option) \<Rightarrow> (req_alloc \<Rightarrow> bool) \<Rightarrow> int \<Rightarrow> string option \<Rightarrow> string \<Rightarrow> string option" where
  "jsonrpc__req_ubuslist print alloc rid sid pattern =
     jsonrpc__req_to_string print alloc rid sid ''list'' [] [] None pattern"

definition jsonrpc__req_ubuslisten ::
    "(json \<Rightarrow> string option) \<Rightarrow> (req_alloc \<Rightarrow> bool) \<Rightarrow> int \<Rightarrow> string option \<Rightarrow> string \<Rightarrow> string option" where
  "jsonrpc__req_ubuslisten print alloc rid sid pattern =
     jsonrpc__req_to_string print alloc rid sid ''subscribe'' [] [] None pattern"

definition jsonrpc__req_ubuscall ::
    "(json \<Rightarrow> string option) \<Rightarrow> (req_alloc \<Rightarrow> bool) \<Rightarrow> int \<Rightarrow> string option \<Rightarrow> string \<Rightarrow> string \<Rightarrow>
     json option \<Rightarrow> string option" where
  "jsonrpc__req_ubuscall print alloc rid sid obj method arg =
     jsonrpc__req_to_string print alloc rid sid ''call'' obj method arg []"

end
