(* ===== verification/Rpc_Parse.thy ===== *)
theory Rpc_Parse
  imports Json_Rpc
begin

text \<open>
  Parsing of RPCs: \<open>src/src/rpc.c\<close> and the parse functions of \<open>rpc_call.c\<close>, \<open>rpc_sub.c\<close> and
  \<open>rpc_list.c\<close>. The parsed structures keep copies of the strings, so they are values here.
  Every allocation the parse functions make is a \<open>site\<close>; an argument says which succeed.
\<close>

datatype site =
    A_jsonrpc_req | A_call_blob | A_call_memdup | A_call_params | A_sub_blob | A_sub_memdup
  | A_sublist_blob | A_list_blob | A_list_memdup | A_write | A_percall | A_percall_id | A_check
  | A_call_req | A_subinfo | A_evnotif | A_ev_type | A_ev_msg | A_list_req | A_origin | A_tokener

definition UBUS_DEFAULT_SID :: string where
  "UBUS_DEFAULT_SID = replicate 32 (CHR ''0'')"

section \<open>The generic part of a request\<close>

record jsonrpc_blob_req =
  jr_id :: "blob_attr option"
  jr_version :: "string option"
  jr_method :: "string option"
  jr_params :: "blob_attr option"

definition rpc_policy :: "(string \<times> blobmsg_type) list" where
  "rpc_policy = [(''jsonrpc'', BLOBMSG_TYPE_STRING), (''id'', BLOBMSG_TYPE_UNSPEC),
                 (''method'', BLOBMSG_TYPE_STRING), (''params'', BLOBMSG_TYPE_ARRAY)]"

definition jsonrpc_blob_req_parse :: "libubox \<Rightarrow> blob_attr list \<Rightarrow> int \<times> jsonrpc_blob_req" where
  "jsonrpc_blob_req_parse L blob =
     (let tb = blobmsg_parse L rpc_policy blob;
          req = \<lparr>jr_id = tb ! 1, jr_version = None, jr_method = None, jr_params = None\<rparr> in
      case tb ! 0 of
        None \<Rightarrow> (-1, req)
      | Some (_, v) \<Rightarrow>
          (case tb ! 2 of
             None \<Rightarrow> (-2, req)
           | Some (_, m) \<Rightarrow>
               (case tb ! 3 of
                  None \<Rightarrow> (-3, req)
                | Some p \<Rightarrow>
                    let version = blobmsg_get_string L v in
                    if strcmp ''2.0'' version \<noteq> 0 then (-4, req)
                    else (0, req\<lparr>jr_method := Some (blobmsg_get_string L m),
                                 jr_version := Some version,
                                 jr_params := Some p\<rparr>))))"

section \<open>The arguments of each method\<close>

record ubusrpc_blob_call =
  uc_sid :: string
  uc_object :: string
  uc_method :: string
  uc_params :: "blob_attr list"

definition call_policy :: "blobmsg_type list" where
  "call_policy = [BLOBMSG_TYPE_STRING, BLOBMSG_TYPE_STRING, BLOBMSG_TYPE_STRING, BLOBMSG_TYPE_UNSPEC]"

text \<open>The loop over the four slots keeps the code of the last one that is missing.\<close>

definition missing_slot :: "blob_attr option list \<Rightarrow> nat \<Rightarrow> int" where
  "missing_slot tb n = foldl (\<lambda>ret i. if tb ! i = None then - int i - 1 else ret) 0 [0..<n]"

definition ubusrpc_blob_call_parse_raw ::
    "libubox \<Rightarrow> bool \<Rightarrow> (site \<Rightarrow> bool) \<Rightarrow> blob_attr \<Rightarrow> int + ubusrpc_blob_call" where
  "ubusrpc_blob_call_parse_raw L blacklist_old alloc params =
     (if \<not> alloc A_call_memdup then Inl (-100)
      else if \<not> alloc A_call_params then Inl (-100)
      else
        let tb = blobmsg_parse_array L call_policy (blobmsg_attrs L (snd params));
            ret = missing_slot tb 4 in
        if ret \<noteq> 0 then Inl ret
        else
          let args = blobmsg_attrs L (snd (the (tb ! 3))) in
          if blacklist_old \<and> list_ex (\<lambda>(n, _). n = ''_owsd_listen'') args then Inl (-1)
          else Inr \<lparr>uc_sid = blobmsg_get_string L (snd (the (tb ! 0))),
                    uc_object = blobmsg_get_string L (snd (the (tb ! 1))),
                    uc_method = blobmsg_get_string L (snd (the (tb ! 2))),
                    uc_params = args\<rparr>)"

text \<open>
  What a parse function leaves in the allocated structure: the session id (which the list
  parser leaves \<open>NULL\<close> when the parameters are no array) and the method's arguments.
\<close>

datatype ubusrpc_args =
    CallArgs ubusrpc_blob_call
  | ListArgs "string option"
  | SubArgs string
  | SubListArgs

definition ubusrpc_blob_call_parse ::
    "libubox \<Rightarrow> bool \<Rightarrow> (site \<Rightarrow> bool) \<Rightarrow> blob_attr \<Rightarrow> (string option \<times> ubusrpc_args) option" where
  "ubusrpc_blob_call_parse L blacklist_old alloc params =
     (if \<not> alloc A_call_blob then None
      else
        (case ubusrpc_blob_call_parse_raw L blacklist_old alloc params of
           Inl _ \<Rightarrow> None
         | Inr c \<Rightarrow> Some (Some (uc_sid c), CallArgs c)))"

definition ubusrpc_blob_sub_parse_raw ::
    "libubox \<Rightarrow> (site \<Rightarrow> bool) \<Rightarrow> blob_attr \<Rightarrow> int + (string \<times> string)" where
  "ubusrpc_blob_sub_parse_raw L alloc params =
     (if \<not> alloc A_sub_memdup then Inl (-100)
      else
        let tb = blobmsg_parse_array L [BLOBMSG_TYPE_STRING, BLOBMSG_TYPE_STRING]
                   (blobmsg_attrs L (snd params)) in
        case tb ! 0 of
          None \<Rightarrow> Inl (-1)
        | Some (_, sid) \<Rightarrow>
            (case tb ! 1 of
               None \<Rightarrow> Inl (-2)
             | Some (_, pat) \<Rightarrow> Inr (blobmsg_get_string L sid, blobmsg_get_string L pat)))"

definition ubusrpc_blob_sub_parse ::
    "libubox \<Rightarrow> (site \<Rightarrow> bool) \<Rightarrow> blob_attr \<Rightarrow> (string option \<times> ubusrpc_args) option" where
  "ubusrpc_blob_sub_parse L alloc params =
     (if \<not> alloc A_sub_blob then None
      else
        (case ubusrpc_blob_sub_parse_raw L alloc params of
           Inl _ \<Rightarrow> None
         | Inr (sid, pat) \<Rightarrow> Some (Some sid, SubArgs pat)))"

definition ubusrpc_blob_sub_list_parse_raw :: "libubox \<Rightarrow> blob_attr \<Rightarrow> int + string" where
  "ubusrpc_blob_sub_list_parse_raw L params =
     (let tb = blobmsg_parse_array L [BLOBMSG_TYPE_STRING] (blobmsg_attrs L (snd params)) in
      case tb ! 0 of
        None \<Rightarrow> Inl 2
      | Some (_, sid) \<Rightarrow> Inr (blobmsg_get_string L sid))"

definition ubusrpc_blob_sub_list_parse ::
    "libubox \<Rightarrow> (site \<Rightarrow> bool) \<Rightarrow> blob_attr \<Rightarrow> (string option \<times> ubusrpc_args) option" where
  "ubusrpc_blob_sub_list_parse L alloc params =
     (if \<not> alloc A_sublist_blob then None
      else
        (case ubusrpc_blob_sub_list_parse_raw L params of
           Inl _ \<Rightarrow> None
         | Inr sid \<Rightarrow> Some (Some sid, SubListArgs)))"

definition ubusrpc_blob_list_parse_raw ::
    "libubox \<Rightarrow> (site \<Rightarrow> bool) \<Rightarrow> blob_attr \<Rightarrow> int + (string option \<times> string option)" where
  "ubusrpc_blob_list_parse_raw L alloc params =
     (if type_of_blob (snd params) \<noteq> BLOBMSG_TYPE_ARRAY then Inr (None, None)
      else if \<not> alloc A_list_memdup then Inl (-100)
      else
        let tb = blobmsg_parse_array L [BLOBMSG_TYPE_UNSPEC, BLOBMSG_TYPE_STRING]
                   (blobmsg_attrs L (snd params)) in
        case tb ! 1 of
          None \<Rightarrow> Inl (-2)
        | Some (_, pat) \<Rightarrow>
            Inr (Some (case tb ! 0 of
                         Some (_, sid) \<Rightarrow> blobmsg_get_string L sid
                       | None \<Rightarrow> UBUS_DEFAULT_SID),
                 Some (blobmsg_get_string L pat)))"

definition ubusrpc_blob_list_parse ::
    "libubox \<Rightarrow> (site \<Rightarrow> bool) \<Rightarrow> blob_attr \<Rightarrow> (string option \<times> ubusrpc_args) option" where
  "ubusrpc_blob_list_parse L alloc params =
     (if \<not> alloc A_list_blob then None
      else
        (case ubusrpc_blob_list_parse_raw L alloc params of
           Inl _ \<Rightarrow> None
         | Inr (sid, pat) \<Rightarrow> Some (sid, ListArgs pat)))"

section \<open>Dispatch by method name\<close>

datatype rpc_handler =
    Ubusrpc_handle_call | Ubusrpc_handle_list | Ubusrpc_handle_sub | Ubusrpc_handle_sub_list
  | Ubusrpc_handle_unsub

record ubusrpc_blob =
  ur_sid :: "string option"
  ur_args :: ubusrpc_args
  ur_handler :: rpc_handler

definition supported_methods ::
    "libubox \<Rightarrow> bool \<Rightarrow> (site \<Rightarrow> bool) \<Rightarrow>
     (string \<times> (blob_attr \<Rightarrow> (string option \<times> ubusrpc_args) option) \<times> rpc_handler) list" where
  "supported_methods L blacklist_old alloc =
     [(''call'', ubusrpc_blob_call_parse L blacklist_old alloc, Ubusrpc_handle_call),
      (''list'', ubusrpc_blob_list_parse L alloc, Ubusrpc_handle_list),
      (''subscribe'', ubusrpc_blob_sub_parse L alloc, Ubusrpc_handle_sub),
      (''subscribe-list'', ubusrpc_blob_sub_list_parse L alloc, Ubusrpc_handle_sub_list),
      (''unsubscribe'', ubusrpc_blob_sub_parse L alloc, Ubusrpc_handle_unsub)]"

fun rpc_lookup ::
    "(string \<times> (blob_attr \<Rightarrow> (string option \<times> ubusrpc_args) option) \<times> rpc_handler) list \<Rightarrow>
     string \<Rightarrow> blob_attr \<Rightarrow> jsonrpc_error_code \<times> ubusrpc_blob option" where
  "rpc_lookup [] method params = (JSONRPC_ERRORCODE__METHOD_NOT_FOUND, None)"
| "rpc_lookup ((name, parse_func, handle_func) # ms) method params =
     (if strcmp name method = 0 then
        (case parse_func params of
           Some (sid, args) \<Rightarrow>
             (JSONRPC_ERRORCODE__OK,
              Some \<lparr>ur_sid = sid, ur_args = args, ur_handler = handle_func\<rparr>)
         | None \<Rightarrow> (JSONRPC_ERRORCODE__INVALID_PARAMS, None))
      else rpc_lookup ms method params)"

definition ubusrpc_blob_parse ::
    "libubox \<Rightarrow> bool \<Rightarrow> (site \<Rightarrow> bool) \<Rightarrow> string \<Rightarrow> blob_attr \<Rightarrow>
     jsonrpc_error_code \<times> ubusrpc_blob option" where
  "ubusrpc_blob_parse L blacklist_old alloc method params =
     rpc_lookup (supported_methods L blacklist_old alloc) method params"

section \<open>The shape of what parsing returns\<close>

lemma call_parse_shape:
  "ubusrpc_blob_call_parse L bl al p = Some (sid, args) \<Longrightarrow> \<exists>c. args = CallArgs c \<and> sid = Some (uc_sid c)"
  by (auto simp: ubusrpc_blob_call_parse_def split: if_splits sum.splits)

lemma sub_parse_shape:
  "ubusrpc_blob_sub_parse L al p = Some (sid, args) \<Longrightarrow> \<exists>pat. args = SubArgs pat \<and> sid \<noteq> None"
  by (auto simp: ubusrpc_blob_sub_parse_def split: if_splits sum.splits)

lemma sub_list_parse_shape:
  "ubusrpc_blob_sub_list_parse L al p = Some (sid, args) \<Longrightarrow> args = SubListArgs \<and> sid \<noteq> None"
  by (auto simp: ubusrpc_blob_sub_list_parse_def split: if_splits sum.splits)

lemma list_parse_shape:
  "ubusrpc_blob_list_parse L al p = Some (sid, args) \<Longrightarrow>
   \<exists>pat. args = ListArgs pat \<and> (type_of_blob (snd p) = BLOBMSG_TYPE_ARRAY \<longrightarrow> sid \<noteq> None)"
  by (auto simp: ubusrpc_blob_list_parse_def ubusrpc_blob_list_parse_raw_def Let_def
      split: if_splits sum.splits option.splits)

lemma rpc_lookup_found:
  "rpc_lookup ms m p = (e, Some req) \<Longrightarrow>
   e = JSONRPC_ERRORCODE__OK \<and>
   (\<exists>f. (m, f, ur_handler req) \<in> set ms \<and> f p = Some (ur_sid req, ur_args req))"
  by (induction ms m p rule: rpc_lookup.induct)
    (auto simp: strcmp_eq_0 split: if_splits option.splits)

end
