(* ===== verification/Proxied_Calls.thy ===== *)
theory Proxied_Calls
  imports Json_Rpc
begin

unbundle bit_operations_syntax

text \<open>
  The per-connection state of a proxied remote bus (\<open>struct wsu_remote_bus\<close> of
  \<open>src/src/wsubus.impl.h\<close>) and its collection of calls waiting for a reply: a bit mask of
  \<open>MAX_PROXIED_CALLS\<close> busy slots, taken lowest first and walked by a lowest-set-bit loop.
  The locale \<open>slot_table\<close> is what the callers rely on; the mask functions implement it.
\<close>

definition MAX_PROXIED_CALLS :: nat where
  "MAX_PROXIED_CALLS = 20"

text \<open>
  A stub object: its address, the connection its \<open>remote\<close> belongs to, its key in the tree of
  stubs, the name and the methods it has on the local bus.
\<close>

record ubus_method_sig =
  um_name :: string
  um_policy :: "(string \<times> blobmsg_type) list"

record wsu_local_stub =
  st_addr :: addr
  st_wsi :: wsi
  st_key :: string
  st_name :: string
  st_methods :: "ubus_method_sig list"

record wsu_proxied_call =
  jsonrpc_id :: int
  ureq :: nat

record wsu_remote_bus =
  call_id :: int
  wait_login :: bool
  wait_listen :: bool
  wait_call :: "20 word"
  wait_list_id :: int
  calls :: "wsu_proxied_call list"
  stubs :: "wsu_local_stub list"

section \<open>The mask functions\<close>

text \<open>\<open>ffs\<close>: the position of the lowest set bit counted from 1, or 0; \<open>__builtin_ctz\<close> from 0.\<close>

definition ffs :: "u32 \<Rightarrow> nat" where
  "ffs w = (case List.find (bit w) [0..<32] of None \<Rightarrow> 0 | Some i \<Rightarrow> Suc i)"

definition builtin_ctz :: "u32 \<Rightarrow> nat" where
  "builtin_ctz w = ffs w - 1"

text \<open>
  The 20-bit field is promoted to \<open>int\<close> before \<open>~\<close>, so the complement has its upper bits set
  and \<open>ffs\<close> finds one of them when every slot is busy.
\<close>

definition wsu_proxied_call_new :: "wsu_remote_bus \<Rightarrow> (nat \<times> wsu_remote_bus) option" where
  "wsu_proxied_call_new remote =
     (let call_idx = ffs (NOT (ucast (wait_call remote))) in
      if call_idx = 0 \<or> call_idx > MAX_PROXIED_CALLS then None
      else
        let idx = call_idx - 1 in
        Some (idx, remote\<lparr>wait_call := ucast ((ucast (wait_call remote) :: u32) OR push_bit idx 1)\<rparr>))"

definition wsu_proxied_call_free :: "wsu_remote_bus \<Rightarrow> int \<Rightarrow> wsu_remote_bus" where
  "wsu_proxied_call_free remote idx =
     (if 0 \<le> idx \<and> idx < int MAX_PROXIED_CALLS
      then remote\<lparr>wait_call :=
             ucast ((ucast (wait_call remote) :: u32) AND NOT (push_bit (nat idx) 1))\<rparr>
      else remote)"

definition wsu_lowbit :: "u32 \<Rightarrow> u32" where
  "wsu_lowbit x = x AND (- x)"

section \<open>The lowest set bit\<close>

lemma bit_minus_odd:
  fixes z :: "'a::len word"
  assumes "odd z" "n < LENGTH('a)"
  shows "bit (- z) n \<longleftrightarrow> n = 0 \<or> \<not> bit z n"
proof -
  have "even (z - 1)" using assms by simp
  then have "bit (1 + (z - 1)) n \<longleftrightarrow> bit (z - 1) n \<or> n = 0" and z: "\<not> bit (z - 1) 0"
    by (simp only: even_bit_succ_iff, simp add: bit_0)
  then have "bit (z - 1) n \<longleftrightarrow> bit z n \<and> n \<noteq> 0" by (cases "n = 0") simp_all
  moreover have "- z = NOT (z - 1)" by (simp add: minus_eq_not_minus_1)
  ultimately show ?thesis using assms by (auto simp: bit_not_iff)
qed

lemma push_bit_minus: "- push_bit k (z :: 'a::len word) = push_bit k (- z)"
  by (simp add: push_bit_eq_mult)

lemma bit_and_minus:
  fixes x :: "'a::len word"
  assumes k: "bit x k" and low: "\<forall>j<k. \<not> bit x j"
  shows "bit (x AND - x) n \<longleftrightarrow> n = k"
proof -
  define z where "z = drop_bit k x"
  have kl: "k < LENGTH('a)" using k by (rule bit_imp_le_length)
  have x: "x = push_bit k z"
  proof (rule bit_eqI)
    fix n
    show "bit x n = bit (push_bit k z) n"
      using low by (cases "k \<le> n") (auto simp: z_def bit_simps dest: bit_imp_le_length)
  qed
  have "bit z 0" using k by (simp add: z_def bit_simps)
  then have "odd z" by (simp add: bit_0)
  have "- x = push_bit k (- z)" by (simp add: x push_bit_minus)
  then have "bit (x AND - x) n \<longleftrightarrow> k \<le> n \<and> n < LENGTH('a) \<and> bit z (n - k) \<and> bit (- z) (n - k)"
    unfolding bit_and_iff by (auto simp: x bit_simps)
  also have "\<dots> \<longleftrightarrow> n = k"
    using bit_minus_odd [OF \<open>odd z\<close>, of "n - k"] \<open>bit z 0\<close> kl
    by auto
  finally show ?thesis .
qed

lemma unat_less_of_clear:
  fixes x y :: "'a::len word"
  assumes "bit x k" "\<And>n. bit y n \<longleftrightarrow> bit x n \<and> n \<noteq> k"
  shows "unat y < unat x"
proof -
  have "y = x AND NOT (push_bit k 1)"
    by (rule bit_eqI) (use assms in \<open>auto simp: bit_simps\<close>)
  then have "y \<le> x" by (simp add: word_and_le2) 
  moreover have "y \<noteq> x" using assms by blast
  ultimately show ?thesis by (simp add: word_less_nat_alt [symmetric])
qed

lemma lowest_bit_exists:
  fixes x :: "'a::len word"
  assumes "x \<noteq> 0"
  obtains k where "bit x k" "\<forall>j<k. \<not> bit x j"
proof -
  have "\<exists>n. bit x n" using assms by (metis bit_eqI bit_0_eq bot_apply bot_bool_def)
  then have "bit x (LEAST n. bit x n)" and "\<forall>j<(LEAST n. bit x n). \<not> bit x j"
    by (auto intro: LeastI dest: not_less_Least)
  then show thesis by (rule that)
qed

lemma ffs_lowest:
  assumes "bit w k" "\<forall>j<k. \<not> bit w j"
  shows "ffs w = Suc k"
proof -
  have "k < 32" using bit_imp_le_length [OF assms(1)] by simp
  have "List.find (bit w) [0..<32] = Some k"
    unfolding find_Some_iff using assms \<open>k < 32\<close> by (intro exI [of _ k]) simp
  then show ?thesis by (simp add: ffs_def)
qed

lemma lowbit_single:
  assumes "bit w k" "\<forall>j<k. \<not> bit w j"
  shows "wsu_lowbit w = push_bit k 1" "builtin_ctz (wsu_lowbit w) = k"
        "\<And>n. bit (w AND NOT (wsu_lowbit w)) n \<longleftrightarrow> bit w n \<and> n \<noteq> k"
proof -
  have *: "bit (wsu_lowbit w) n \<longleftrightarrow> n = k" for n
    unfolding wsu_lowbit_def by (rule bit_and_minus [OF assms])
  show "wsu_lowbit w = push_bit k 1"
    by (rule bit_eqI) (auto simp: * bit_simps)
  show "builtin_ctz (wsu_lowbit w) = k"
    unfolding builtin_ctz_def by (subst ffs_lowest [of _ k]) (simp_all add: *)
  show "bit (w AND NOT (wsu_lowbit w)) n \<longleftrightarrow> bit w n \<and> n \<noteq> k" for n
    using bit_imp_le_length [of w n] by (auto simp: bit_and_iff bit_not_iff *)
qed

lemma lowbit_clear_less:
  assumes "wsu_lowbit msk \<noteq> 0"
  shows "unat (msk AND NOT (wsu_lowbit msk)) < unat msk"
proof -
  have "msk \<noteq> 0" using assms by (auto simp: wsu_lowbit_def)
  then obtain k where k: "bit msk k" "\<forall>j<k. \<not> bit msk j" by (rule lowest_bit_exists)
  show ?thesis by (rule unat_less_of_clear [OF k(1) lowbit_single(3) [OF k]])
qed

section \<open>The walk over the busy slots\<close>

text \<open>
  The \<open>for\<close> loop of \<open>wsu_proxied_call_foreach\<close>: the mask is a local copy, and the list is of the
  slot indices for which the body runs, in order.
\<close>

function wsu_proxied_call_foreach_from :: "u32 \<Rightarrow> nat list" where
  "wsu_proxied_call_foreach_from msk =
     (let callbit = wsu_lowbit msk in
      if callbit = 0 then []
      else builtin_ctz callbit # wsu_proxied_call_foreach_from (msk AND NOT callbit))"
  by pat_completeness auto
termination
  by (relation "measure unat") (auto intro: lowbit_clear_less)

declare wsu_proxied_call_foreach_from.simps [simp del]

definition wsu_proxied_call_foreach :: "wsu_remote_bus \<Rightarrow> nat list" where
  "wsu_proxied_call_foreach remote = wsu_proxied_call_foreach_from (ucast (wait_call remote))"

lemma foreach_from_bits:
  "sorted_wrt (<) (wsu_proxied_call_foreach_from msk) \<and>
   set (wsu_proxied_call_foreach_from msk) = {i. bit msk i}"
proof (induction msk rule: wsu_proxied_call_foreach_from.induct)
  case (1 msk)
  show ?case
  proof (cases "msk = 0")
    case True
    then show ?thesis by (subst (1 2) wsu_proxied_call_foreach_from.simps) (simp add: wsu_lowbit_def)
  next
    case False
    then obtain k where k: "bit msk k" "\<forall>j<k. \<not> bit msk j" by (rule lowest_bit_exists)
    note low = lowbit_single [OF k]
    have "k < 32" using bit_imp_le_length [OF k(1)] by simp
    then have nz: "wsu_lowbit msk \<noteq> 0"
      using bit_and_minus [OF k, of k] unfolding wsu_lowbit_def by auto
    let ?rest = "wsu_proxied_call_foreach_from (msk AND NOT (wsu_lowbit msk))"
    have step: "wsu_proxied_call_foreach_from msk = k # ?rest"
      by (subst wsu_proxied_call_foreach_from.simps) (simp add: Let_def nz low(2))
    have rest: "sorted_wrt (<) ?rest" "set ?rest = {i. bit msk i \<and> i \<noteq> k}"
      using 1 nz low(3) by simp_all
    show ?thesis unfolding step using rest k by (auto simp: not_less [symmetric] nat_neq_iff)
  qed
qed

section \<open>What the callers rely on\<close>

locale slot_table =
  fixes busy :: "'s \<Rightarrow> nat set"
    and new :: "'s \<Rightarrow> (nat \<times> 's) option"
    and free :: "'s \<Rightarrow> nat \<Rightarrow> 's"
    and walk :: "'s \<Rightarrow> nat list"
    and capacity :: nat
  assumes busy_bound: "busy s \<subseteq> {..<capacity}"
    and new_Some: "new s = Some (i, s') \<Longrightarrow>
          i < capacity \<and> i \<notin> busy s \<and> {..<i} \<subseteq> busy s \<and> busy s' = insert i (busy s)"
    and new_None: "new s = None \<Longrightarrow> busy s = {..<capacity}"
    and busy_free: "i < capacity \<Longrightarrow> busy (free s i) = busy s - {i}"
    and walk_busy: "sorted_wrt (<) (walk s)" "set (walk s) = busy s"
begin

lemma new_full_iff: "new s = None \<longleftrightarrow> busy s = {..<capacity}"
  using new_None [of s] new_Some [of s] by (cases "new s") auto

lemma free_new: "new s = Some (i, s') \<Longrightarrow> busy (free s' i) = busy s"
  using new_Some [of s i s'] busy_free [of i s'] by auto

lemma new_lowest: "new s = Some (i, s') \<Longrightarrow> i = (LEAST j. j \<notin> busy s)"
  using new_Some [of s i s'] by (intro Least_equality [symmetric]) (auto simp: not_less [symmetric])

lemma busy_card: "card (busy s) \<le> capacity"
  using card_mono [OF finite_lessThan busy_bound] by simp

lemma walk_is_sorted_list: "walk s = sorted_list_of_set (busy s)"
proof -
  have "finite (busy s)" using busy_bound finite_subset by blast
  then show ?thesis
    using walk_busy [of s] by (metis sorted_list_of_set.idem_if_sorted_distinct strict_sorted_iff)
qed

end

definition busy_calls :: "wsu_remote_bus \<Rightarrow> nat set" where
  "busy_calls remote = {i. bit (wait_call remote) i}"

lemma bit20: "bit (w :: 20 word) i \<Longrightarrow> i < 20"
  using bit_imp_le_length [of w i] by simp

lemma new_spec:
  "case wsu_proxied_call_new remote of
     None \<Rightarrow> busy_calls remote = {..<20}
   | Some (i, remote') \<Rightarrow>
       i < 20 \<and> i \<notin> busy_calls remote \<and> {..<i} \<subseteq> busy_calls remote \<and>
       busy_calls remote' = insert i (busy_calls remote) \<and>
       remote' = remote\<lparr>wait_call := wait_call remote'\<rparr>"
proof -
  let ?w = "wait_call remote"
  let ?n = "NOT (ucast ?w :: u32)"
  have n: "bit ?n i \<longleftrightarrow> i < 32 \<and> \<not> bit ?w i" for i
    by (auto simp: bit_simps)
  have "bit ?n 31" using bit20 [of ?w 31] by (auto simp: n)
  then have "?n \<noteq> 0" by auto
  then obtain k where k: "bit ?n k" "\<forall>j<k. \<not> bit ?n j" by (rule lowest_bit_exists)
  have k32: "k < 32" using k(1) n by blast
  have lower: "j < k \<Longrightarrow> bit ?w j" for j using k(2) n k32 by auto
  have ffs: "ffs ?n = Suc k" by (rule ffs_lowest [OF k])
  show ?thesis
  proof (cases "k < 20")
    case True
    have "bit (ucast ((ucast ?w :: u32) OR push_bit k 1) :: 20 word) i \<longleftrightarrow> i = k \<or> bit ?w i" for i
      using True bit20 [of ?w i] by (auto simp: bit_simps)
    then show ?thesis
      using True k(1) lower
      by (auto simp: wsu_proxied_call_new_def ffs MAX_PROXIED_CALLS_def busy_calls_def n)
  next
    case False
    then show ?thesis
      using lower bit20 [of ?w]
      by (auto simp: wsu_proxied_call_new_def ffs MAX_PROXIED_CALLS_def busy_calls_def)
  qed
qed

lemma free_spec:
  assumes "i < 20"
  shows "busy_calls (wsu_proxied_call_free remote (int i)) = busy_calls remote - {i}"
  using assms
  by (auto simp: wsu_proxied_call_free_def MAX_PROXIED_CALLS_def busy_calls_def bit_simps
      dest: bit20)

interpretation proxied: slot_table busy_calls wsu_proxied_call_new
    "\<lambda>remote i. wsu_proxied_call_free remote (int i)" wsu_proxied_call_foreach MAX_PROXIED_CALLS
proof unfold_locales
  fix s s' i
  show "busy_calls s \<subseteq> {..<MAX_PROXIED_CALLS}"
    using bit20 by (auto simp: busy_calls_def MAX_PROXIED_CALLS_def)
  show "wsu_proxied_call_new s = Some (i, s') \<Longrightarrow>
          i < MAX_PROXIED_CALLS \<and> i \<notin> busy_calls s \<and> {..<i} \<subseteq> busy_calls s \<and>
          busy_calls s' = insert i (busy_calls s)"
    and "wsu_proxied_call_new s = None \<Longrightarrow> busy_calls s = {..<MAX_PROXIED_CALLS}"
    using new_spec [of s] by (simp_all add: MAX_PROXIED_CALLS_def)
  show "i < MAX_PROXIED_CALLS \<Longrightarrow>
          busy_calls (wsu_proxied_call_free s (int i)) = busy_calls s - {i}"
    by (simp add: free_spec MAX_PROXIED_CALLS_def)
  have "bit (ucast (wait_call s) :: u32) j \<longleftrightarrow> bit (wait_call s) j" for j
    using bit20 [of "wait_call s" j] by (auto simp: bit_simps)
  then show "sorted_wrt (<) (wsu_proxied_call_foreach s)"
    and "set (wsu_proxied_call_foreach s) = busy_calls s"
    by (simp_all add: wsu_proxied_call_foreach_def foreach_from_bits busy_calls_def)
qed

section \<open>Properties\<close>

text \<open>
  taking a call slot succeeds exactly when one of the 20 is free, takes the lowest free one,
  marks it and nothing else busy, leaves every other field of the connection alone, and freeing
  the slot again restores the set of busy slots.
\<close>

theorem proxied_call_new_correct:
  "case wsu_proxied_call_new remote of
     None \<Rightarrow> busy_calls remote = {..<20}
   | Some (i, remote') \<Rightarrow>
       i < 20 \<and> i = (LEAST j. j \<notin> busy_calls remote) \<and> i \<notin> busy_calls remote \<and>
       busy_calls remote' = insert i (busy_calls remote) \<and>
       remote' = remote\<lparr>wait_call := wait_call remote'\<rparr> \<and>
       busy_calls (wsu_proxied_call_free remote' (int i)) = busy_calls remote"
  using new_spec [of remote] proxied.new_lowest [of remote] proxied.free_new [of remote]
  by (auto split: option.splits)

text \<open>
  the loop over the waiting calls ends and runs its body exactly once for each busy slot, in
  ascending order of the slots.
\<close>

theorem proxied_call_foreach_correct:
  "wsu_proxied_call_foreach remote = sorted_list_of_set (busy_calls remote)"
  by (rule proxied.walk_is_sorted_list)

end
