(* ===== verification/Patterns.thy ===== *)
theory Patterns
  imports Owsd_Prelude
begin

text \<open>
  Object name patterns: \<open>src/src/ubusx_acl.c\<close> (which local objects a certificate peer may
  use) and the pattern part of \<open>src/src/wsubus_client.c\<close> (which remote objects are proxied).
  Both keep their patterns in an AVL tree of libubox, ordered by a comparator under which
  two patterns are equal when they can match the same name.

  The tree itself is library code, so it is a parameter: a record of its operations, with
  the locale \<open>avl_spec\<close> for what they promise. The comparator is not a linear order, and a
  search tree keyed by it works only while no two stored patterns overlap; the theory shows
  that the comparator is the order of disjoint intervals, that both components keep their
  trees overlap free, and hence that the searches are exact.
\<close>

section \<open>The comparators\<close>

definition client_path_comp :: "string \<Rightarrow> string \<Rightarrow> int" where
  "client_path_comp pattern1 pattern2 =
     (let len1 = length pattern1; len2 = length pattern2 in
      if len1 = 0 \<or> len2 = 0 then int len1 - int len2
      else
        let p1_wildcard = (pattern1 ! (len1 - 1) = CHR ''*'');
            p2_wildcard = (pattern2 ! (len2 - 1) = CHR ''*'') in
        if \<not> p1_wildcard \<and> \<not> p2_wildcard then strcmp pattern1 pattern2
        else if p1_wildcard \<noteq> p2_wildcard then
          strncmp pattern1 pattern2 ((if p1_wildcard then len1 else len2) - 1)
        else strncmp pattern1 pattern2 ((if len1 < len2 then len1 else len2) - 1))"

definition ubus_object_path_compare :: "string \<Rightarrow> string \<Rightarrow> int" where
  "ubus_object_path_compare pattern1 pattern2 =
     (let len1 = length pattern1; len2 = length pattern2 in
      if len1 = 0 \<or> len2 = 0 then int len1 - int len2
      else
        let p1_wildcard = (pattern1 ! (len1 - 1) = CHR ''*'');
            p2_wildcard = (pattern2 ! (len2 - 1) = CHR ''*'') in
        if \<not> p1_wildcard \<and> \<not> p2_wildcard then strcmp pattern1 pattern2
        else if p1_wildcard \<noteq> p2_wildcard then
          strncmp pattern1 pattern2 ((if p1_wildcard then len1 else len2) - 1)
        else strncmp pattern1 pattern2 ((if len1 < len2 then len1 else len2) - 1))"

text \<open>
  \<open>broader_pattern\<close> reads \<open>p1[len1-1]\<close> without a guard, so on an empty string it reads
  before the buffer: \<^term>\<open>None\<close>.
\<close>

definition broader_pattern :: "string \<Rightarrow> string \<Rightarrow> bool option" where
  "broader_pattern p1 p2 =
     (let len1 = length p1; len2 = length p2 in
      if len1 = 0 \<or> len2 = 0 then None
      else
        let p1_wildcard = (p1 ! (len1 - 1) = CHR ''*'');
            p2_wildcard = (p2 ! (len2 - 1) = CHR ''*'') in
        if \<not> p1_wildcard \<and> \<not> p2_wildcard then Some True
        else if p1_wildcard \<noteq> p2_wildcard then Some p1_wildcard
        else Some (len1 \<le> len2))"

section \<open>The tree as a parameter\<close>

record 't avl_ops =
  avl_find :: "(string \<Rightarrow> string \<Rightarrow> int) \<Rightarrow> 't \<Rightarrow> string \<Rightarrow> string option"
  avl_insert :: "(string \<Rightarrow> string \<Rightarrow> int) \<Rightarrow> 't \<Rightarrow> string \<Rightarrow> int \<times> 't"
  avl_delete :: "(string \<Rightarrow> string \<Rightarrow> int) \<Rightarrow> 't \<Rightarrow> string \<Rightarrow> 't"
  avl_is_empty :: "'t \<Rightarrow> bool"
  avl_keys :: "'t \<Rightarrow> string list"

section \<open>The pattern set of the proxy client\<close>

text \<open>
  The loop of \<open>wsubus_client_path_pattern_add\<close>. The outer option is \<^term>\<open>None\<close> when the
  loop does not end, the inner one when a read goes out of bounds; the flag says whether the
  new pattern is still to be inserted.
\<close>

partial_function (option) pattern_mute_loop ::
    "'t avl_ops \<Rightarrow> 't \<Rightarrow> string \<Rightarrow> (bool \<times> 't) option option" where
  "pattern_mute_loop A t new_key =
     (case avl_find A client_path_comp t new_key of
        None \<Rightarrow> Some (Some (True, t))
      | Some found \<Rightarrow>
          (case broader_pattern found new_key of
             None \<Rightarrow> Some None
           | Some broader \<Rightarrow>
               if broader then Some (Some (False, t))
               else pattern_mute_loop A (avl_delete A client_path_comp t found) new_key))"

definition wsubus_client_path_pattern_add ::
    "'t avl_ops \<Rightarrow> bool \<Rightarrow> bool \<Rightarrow> 't \<Rightarrow> string \<Rightarrow> 't option option" where
  "wsubus_client_path_pattern_add A calloc_ok strdup_ok paths_tree pattern =
     (if \<not> calloc_ok then Some (Some paths_tree)
      else if \<not> strdup_ok then Some (Some paths_tree)
      else
        (case pattern_mute_loop A paths_tree pattern of
           None \<Rightarrow> None
         | Some None \<Rightarrow> Some None
         | Some (Some (insert_it, t)) \<Rightarrow>
             if insert_it then Some (Some (snd (avl_insert A client_path_comp t pattern)))
             else Some (Some t)))"

definition wsubus_client_match_pattern :: "'t avl_ops \<Rightarrow> 't \<Rightarrow> string \<Rightarrow> bool" where
  "wsubus_client_match_pattern A paths_tree name =
     (if avl_is_empty A paths_tree then True
      else if avl_find A client_path_comp paths_tree name \<noteq> None then True
      else False)"

section \<open>The access list of certificate peers\<close>

text \<open>\<open>strstr(object, "->")\<close> cuts the method list off; the sources keep only the object.\<close>

fun before_arrow :: "string \<Rightarrow> string" where
  "before_arrow [] = []"
| "before_arrow (c # s) = (if take 2 (c # s) = ''->'' then [] else c # before_arrow s)"

definition ubusx_acl__add_object :: "'t avl_ops \<Rightarrow> bool \<Rightarrow> bool \<Rightarrow> 't \<Rightarrow> string \<Rightarrow> 't" where
  "ubusx_acl__add_object A calloc_ok strdup_ok uxacl_objects object =
     (let key = before_arrow object in
      if \<not> calloc_ok then uxacl_objects
      else if \<not> strdup_ok then uxacl_objects
      else snd (avl_insert A ubus_object_path_compare uxacl_objects key))"

text \<open>\<open>strtok_r(objects, " ", ...)\<close>: the maximal runs of characters that are not spaces.\<close>

fun strtok_space :: "string \<Rightarrow> string \<Rightarrow> string list" where
  "strtok_space cur [] = (if cur = [] then [] else [rev cur])"
| "strtok_space cur (c # s) =
     (if c = CHR '' '' then (if cur = [] then strtok_space [] s else rev cur # strtok_space [] s)
      else strtok_space (c # cur) s)"

definition ubusx_acl__add_objects ::
    "'t avl_ops \<Rightarrow> (string \<Rightarrow> bool \<times> bool) \<Rightarrow> 't \<Rightarrow> string option \<Rightarrow> 't" where
  "ubusx_acl__add_objects A alloc uxacl_objects objects =
     (case objects of
        None \<Rightarrow> uxacl_objects
      | Some objs \<Rightarrow>
          if length objs = 0 then uxacl_objects
          else foldl (\<lambda>t obj. ubusx_acl__add_object A (fst (alloc obj)) (snd (alloc obj)) t obj)
                 uxacl_objects (strtok_space [] objs))"

definition ubusx_acl__allow_object :: "'t avl_ops \<Rightarrow> 't \<Rightarrow> string \<Rightarrow> bool" where
  "ubusx_acl__allow_object A uxacl_objects objname =
     (if avl_is_empty A uxacl_objects then True
      else if avl_find A ubus_object_path_compare uxacl_objects objname \<noteq> None then True
      else False)"

definition ubusx_acl__allow_method :: "string \<Rightarrow> string \<Rightarrow> bool" where
  "ubusx_acl__allow_method objname methodname = True"

definition ubusx_acl__destroy :: "'t avl_ops \<Rightarrow> 't \<Rightarrow> 't" where
  "ubusx_acl__destroy A uxacl_objects =
     foldl (\<lambda>t key. avl_delete A ubus_object_path_compare t key) uxacl_objects
       (avl_keys A uxacl_objects)"

section \<open>The comparator is an order of intervals\<close>

definition wild :: "string \<Rightarrow> bool" where
  "wild p \<longleftrightarrow> p \<noteq> [] \<and> last p = CHR ''*''"

definition pat_matches :: "string \<Rightarrow> string \<Rightarrow> bool" where
  "pat_matches p s \<longleftrightarrow>
     (if wild p then s \<noteq> [] \<and> take (length p - 1) s = butlast p else s = p)"

text \<open>
  A pattern stands for the interval of strings from \<open>pat_lo\<close> to \<open>pat_hi\<close>; 256 is above every
  byte. The leading 1 puts the empty string before everything else.
\<close>

definition pat_core :: "string \<Rightarrow> string" where
  "pat_core p = (if wild p then butlast p else p)"

definition pat_lo :: "string \<Rightarrow> nat list" where
  "pat_lo p = (if p = [] then [] else 1 # bytes (pat_core p))"

definition pat_hi :: "string \<Rightarrow> nat list" where
  "pat_hi p = (if p = [] then [] else 1 # bytes (pat_core p) @ (if wild p then [256] else []))"

lemma wild_Nil [simp]: "\<not> wild []"
  by (simp add: wild_def)

lemma pat_lo_le_hi: "pat_lo p \<le> pat_hi p"
proof -
  have "xs \<le> xs @ ys" for xs ys :: "nat list"
    by (induction xs) auto
  then show ?thesis
    by (simp add: pat_lo_def pat_hi_def)
qed

lemma append_256_less:
  "bytes a @ [256] < bytes b \<longleftrightarrow> bytes a < bytes (take (length a) b)"
proof (induction a arbitrary: b)
  case Nil
  show ?case
    by (cases b) auto
next
  case (Cons x a)
  then show ?case
    by (cases b) auto
qed

lemma less_take: "bytes b < bytes a \<longleftrightarrow> bytes (take (length a) b) < bytes a"
proof (induction a arbitrary: b)
  case Nil
  then show ?case
    by simp
next
  case (Cons x a)
  then show ?case
    by (cases b) auto
qed

lemma append_256_less_append:
  "bytes a @ [256] < bytes b \<longleftrightarrow>
     bytes (take (min (length a) (length b)) a) < bytes (take (min (length a) (length b)) b)"
proof (induction a arbitrary: b)
  case Nil
  show ?case
    by (cases b) auto
next
  case (Cons x a)
  show ?case
  proof (cases b)
    case Nil
    then show ?thesis by simp
  next
    case b: (Cons y b')
    show ?thesis
      using Cons.IH [of b'] b by simp
  qed
qed

lemma take_pred_length: "p \<noteq> [] \<Longrightarrow> take (length p - Suc 0) p = butlast p"
  by (simp add: butlast_conv_take)

lemma wild_nth: "p \<noteq> [] \<Longrightarrow> p ! (length p - Suc 0) = CHR ''*'' \<longleftrightarrow> wild p"
  by (simp add: wild_def last_conv_nth)

lemma min_length_butlast:
  "p \<noteq> [] \<Longrightarrow> q \<noteq> [] \<Longrightarrow>
     (if length p < length q then length p else length q) - Suc 0 =
       min (length (butlast p)) (length (butlast q))"
  by (cases p; cases q) (auto simp: min_def)

lemma take_min_butlast:
  "take (min (length (butlast p)) n) p = take (min (length (butlast p)) n) (butlast p)"
  "take (min n (length (butlast p))) p = take (min n (length (butlast p))) (butlast p)"
  by (cases p; auto simp: butlast_conv_take min_def)+

lemma client_path_comp_neg: "client_path_comp p q < 0 \<longleftrightarrow> pat_hi p < pat_lo q"
proof (cases "p = [] \<or> q = []")
  case True
  then show ?thesis
    by (auto simp: client_path_comp_def pat_hi_def pat_lo_def)
next
  case False
  then have ne: "p \<noteq> []" "q \<noteq> []" by auto
  consider "\<not> wild p" "\<not> wild q" | "wild p" "\<not> wild q" | "\<not> wild p" "wild q" | "wild p" "wild q"
    by blast
  then show ?thesis
  proof cases
    case 1
    then show ?thesis
      using ne by (simp add: client_path_comp_def wild_nth pat_hi_def pat_lo_def pat_core_def strcmp_neg)
  next
    case 2
    have "strncmp p q (length p - Suc 0) < 0 \<longleftrightarrow> bytes (butlast p) < bytes (take (length (butlast p)) q)"
      using ne by (simp add: strncmp_neg take_pred_length)
    then show ?thesis
      using ne 2
      by (simp add: client_path_comp_def wild_nth pat_hi_def pat_lo_def pat_core_def append_256_less)
  next
    case 3
    have "strncmp p q (length q - Suc 0) < 0 \<longleftrightarrow> bytes (take (length (butlast q)) p) < bytes (butlast q)"
      using ne by (simp add: strncmp_neg take_pred_length)
    then show ?thesis
      using ne 3 less_take [of p "butlast q"]
      by (simp add: client_path_comp_def wild_nth pat_hi_def pat_lo_def pat_core_def)
  next
    case 4
    have "strncmp p q (min (length (butlast p)) (length (butlast q))) < 0 \<longleftrightarrow>
        bytes (butlast p) @ [256] < bytes (butlast q)"
      by (simp add: strncmp_neg take_min_butlast append_256_less_append del: length_butlast)
    then show ?thesis
      using ne 4
      by (simp add: client_path_comp_def Let_def wild_nth min_length_butlast pat_hi_def pat_lo_def
          pat_core_def del: length_butlast)
  qed
qed

lemma client_path_comp_swap: "client_path_comp q p = - client_path_comp p q"
proof (cases "length p = length q")
  case True
  then show ?thesis
    by (auto simp: client_path_comp_def Let_def strcmp_swap [of q p] strncmp_swap [of q p])
next
  case False
  then show ?thesis
    by (auto simp: client_path_comp_def Let_def strcmp_swap [of q p] strncmp_swap [of q p])
qed

lemma ubus_object_path_compare_eq: "ubus_object_path_compare = client_path_comp"
  by (intro ext) (simp add: ubus_object_path_compare_def client_path_comp_def)

lemma client_path_comp_zero_exact:
  "\<not> wild s \<Longrightarrow> client_path_comp s p = 0 \<longleftrightarrow> pat_matches p s"
  by (auto simp: client_path_comp_def Let_def wild_nth pat_matches_def strncmp_eq_0 take_pred_length
      dest: sym)

lemma client_path_comp_zero_wild:
  assumes "client_path_comp q p = 0" and "p \<noteq> []" and "q \<noteq> []"
  shows "wild p \<Longrightarrow> \<not> wild q \<Longrightarrow> take (length p - 1) q = butlast p"
    and "wild p \<Longrightarrow> wild q \<Longrightarrow> length p \<le> length q \<Longrightarrow> take (length p - 1) q = butlast p"
    and "\<not> wild p \<Longrightarrow> \<not> wild q \<Longrightarrow> q = p"
proof -
  assume "wild p" and "\<not> wild q"
  then show "take (length p - 1) q = butlast p"
    using assms by (simp add: client_path_comp_def wild_nth strncmp_eq_0 take_pred_length)
next
  assume "wild p" and "wild q" and "length p \<le> length q"
  then show "take (length p - 1) q = butlast p"
    using assms
    by (auto simp: client_path_comp_def Let_def wild_nth strncmp_eq_0 take_pred_length split: if_splits)
next
  assume "\<not> wild p" and "\<not> wild q"
  then show "q = p"
    using assms by (simp add: client_path_comp_def wild_nth)
qed

lemma pat_matches_mono:
  assumes "wild p" and "take (length p - 1) q = butlast p" and "q \<noteq> []"
    and "wild q \<Longrightarrow> length p \<le> length q" and "pat_matches q s"
  shows "pat_matches p s"
proof (cases "wild q")
  case True
  then have s: "s \<noteq> []" "take (length q - 1) s = butlast q" and le: "length p \<le> length q"
    using assms by (auto simp: pat_matches_def)
  then have "take (length p - 1) s = take (length p - 1) (butlast q)"
    by (metis diff_le_mono min.absorb1 take_take)
  also have "\<dots> = butlast p"
    using assms(2,3) le by (simp add: butlast_conv_take min_def diff_le_mono)
  finally show ?thesis
    using assms(1) s by (simp add: pat_matches_def)
next
  case False
  then show ?thesis
    using assms by (auto simp: pat_matches_def)
qed

lemma broader_pattern_True:
  assumes "client_path_comp q p = 0" and "broader_pattern p q = Some True" and "pat_matches q s"
  shows "pat_matches p s"
proof -
  have ne: "p \<noteq> []" "q \<noteq> []"
    using assms(2) by (auto simp: broader_pattern_def split: if_splits)
  consider "\<not> wild p" "\<not> wild q" | "wild p" "wild q \<longrightarrow> length p \<le> length q"
    using assms(2) ne by (auto simp: broader_pattern_def Let_def wild_nth split: if_splits)
  then show ?thesis
  proof cases
    case 1
    then show ?thesis
      using client_path_comp_zero_wild(3) [OF assms(1) ne] assms(3) by simp
  next
    case 2
    then have "take (length p - 1) q = butlast p"
      using client_path_comp_zero_wild(1,2) [OF assms(1) ne] by blast
    then show ?thesis
      using 2 ne assms(3) by (auto intro: pat_matches_mono)
  qed
qed

lemma broader_pattern_False:
  assumes "client_path_comp q p = 0" and "broader_pattern p q = Some False" and "pat_matches p s"
  shows "pat_matches q s"
proof -
  have "client_path_comp p q = 0"
    using assms(1) client_path_comp_swap [of q p] by simp
  moreover have "broader_pattern q p = Some True"
    using assms(2) by (auto simp: broader_pattern_def Let_def split: if_splits)
  ultimately show ?thesis
    using assms(3) by (rule broader_pattern_True)
qed

section \<open>What the tree promises\<close>

definition ordered_keys :: "(string \<Rightarrow> string \<Rightarrow> int) \<Rightarrow> string list \<Rightarrow> bool" where
  "ordered_keys cmp ks \<longleftrightarrow> sorted_wrt (\<lambda>a b. cmp a b < 0) ks"

text \<open>
  \<open>interval_order\<close> is what a comparator has to satisfy for a search tree to make sense of it:
  swapping the arguments swaps the sign, and ``before'' is transitive. Equality under the
  comparator need not be transitive.
\<close>

locale interval_order =
  fixes cmp :: "string \<Rightarrow> string \<Rightarrow> int"
  assumes comp_swap: "cmp q p < 0 \<longleftrightarrow> 0 < cmp p q"
    and comp_trans: "cmp p q < 0 \<Longrightarrow> cmp q r < 0 \<Longrightarrow> cmp p r < 0"
begin

lemma comp_refl: "cmp p p = 0"
  using comp_swap [of p p] by linarith

lemma comp_zero_swap: "cmp p q = 0 \<longleftrightarrow> cmp q p = 0"
  using comp_swap [of p q] comp_swap [of q p] by linarith

lemma ordered_distinct: "ordered_keys cmp ks \<Longrightarrow> distinct ks"
  unfolding ordered_keys_def
  by (induction ks) (auto simp: comp_refl)

text \<open>Along ordered keys the sign of a comparison with a fixed query only falls: a search that
  goes left on a negative and right on a positive result misses nothing.\<close>

lemma query_monotone:
  assumes "cmp x y < 0"
  shows "cmp k x < 0 \<Longrightarrow> cmp k y < 0" and "0 < cmp k y \<Longrightarrow> 0 < cmp k x"
  using comp_trans [of k x y] comp_trans [of x y k] assms comp_swap [of y k] comp_swap [of x k]
  by auto

lemma ordered_insert:
  assumes "ordered_keys cmp ks" and "\<forall>x\<in>set ks. cmp k x \<noteq> 0"
  shows "ordered_keys cmp (filter (\<lambda>x. cmp x k < 0) ks @ k # filter (\<lambda>x. \<not> cmp x k < 0) ks)"
proof -
  have gt: "\<not> cmp x k < 0 \<longleftrightarrow> cmp k x < 0" if "x \<in> set ks" for x
    using that assms(2) comp_swap [of x k] comp_swap [of k x] by force
  have "cmp x y < 0" if "x \<in> set ks" "y \<in> set ks" "cmp x k < 0" "\<not> cmp y k < 0" for x y
    using that gt comp_trans by blast
  then show ?thesis
    using assms(1) gt unfolding ordered_keys_def by (auto simp: sorted_wrt_append sorted_wrt_filter)
qed

end

text \<open>
  The contract of the tree operations the sources call (\<open>avl_find\<close>, \<open>avl_insert\<close> on a tree
  that allows no duplicates, \<open>avl_delete\<close>, \<open>avl_is_empty\<close>), for trees whose keys are in order.
\<close>

locale avl_spec = interval_order cmp
  for cmp :: "string \<Rightarrow> string \<Rightarrow> int" +
  fixes A :: "'t avl_ops"
  assumes find_Some: "ordered_keys cmp (avl_keys A t) \<Longrightarrow> avl_find A cmp t k = Some x \<Longrightarrow>
      x \<in> set (avl_keys A t) \<and> cmp k x = 0"
    and find_None: "ordered_keys cmp (avl_keys A t) \<Longrightarrow> avl_find A cmp t k = None \<Longrightarrow>
      x \<in> set (avl_keys A t) \<Longrightarrow> cmp k x \<noteq> 0"
    and insert_new: "ordered_keys cmp (avl_keys A t) \<Longrightarrow>
      (\<forall>x\<in>set (avl_keys A t). cmp k x \<noteq> 0) \<Longrightarrow> avl_insert A cmp t k = (rc, t') \<Longrightarrow>
      rc = 0 \<and> set (avl_keys A t') = insert k (set (avl_keys A t)) \<and>
      ordered_keys cmp (avl_keys A t')"
    and insert_dup: "ordered_keys cmp (avl_keys A t) \<Longrightarrow>
      x \<in> set (avl_keys A t) \<Longrightarrow> cmp k x = 0 \<Longrightarrow> avl_insert A cmp t k = (-1, t)"
    and delete_keys: "ordered_keys cmp (avl_keys A t) \<Longrightarrow> x \<in> set (avl_keys A t) \<Longrightarrow>
      avl_keys A (avl_delete A cmp t x) = remove1 x (avl_keys A t)"
    and is_empty_iff: "avl_is_empty A t \<longleftrightarrow> avl_keys A t = []"
begin

abbreviation tree_ok :: "'t \<Rightarrow> bool" where
  "tree_ok t \<equiv> ordered_keys cmp (avl_keys A t)"

lemma find_iff: "tree_ok t \<Longrightarrow> avl_find A cmp t k \<noteq> None \<longleftrightarrow> (\<exists>x\<in>set (avl_keys A t). cmp k x = 0)"
  using find_Some find_None by (cases "avl_find A cmp t k") blast+

lemma delete_ok:
  assumes "tree_ok t" and "x \<in> set (avl_keys A t)"
  shows "tree_ok (avl_delete A cmp t x)"
    and "set (avl_keys A (avl_delete A cmp t x)) = set (avl_keys A t) - {x}"
    and "length (avl_keys A (avl_delete A cmp t x)) < length (avl_keys A t)"
proof -
  note keys = delete_keys [OF assms]
  show "tree_ok (avl_delete A cmp t x)"
    using assms(1) unfolding keys ordered_keys_def by (rule sorted_wrt_remove1)
  show "set (avl_keys A (avl_delete A cmp t x)) = set (avl_keys A t) - {x}"
    using ordered_distinct [OF assms(1)] by (simp add: keys)
  show "length (avl_keys A (avl_delete A cmp t x)) < length (avl_keys A t)"
    using length_pos_if_in_set [OF assms(2)] assms(2) by (simp add: keys length_remove1)
qed

text \<open>Deleting every key empties the tree.\<close>

lemma delete_all:
  "tree_ok t \<Longrightarrow> avl_keys A (foldl (avl_delete A cmp) t (avl_keys A t)) = []"
proof (induction "avl_keys A t" arbitrary: t)
  case Nil
  from Nil(1) show ?case by (simp flip: Nil(1))
next
  case (Cons k ks)
  from Cons(2) have k: "avl_keys A t = k # ks" by simp
  have "avl_keys A (avl_delete A cmp t k) = ks"
    using delete_keys [OF Cons(3), of k] k by simp
  moreover have "tree_ok (avl_delete A cmp t k)"
    using delete_ok(1) [OF Cons(3)] k by simp
  ultimately show ?case
    using Cons(1) [of "avl_delete A cmp t k"] k by simp
qed

end

interpretation path_order: interval_order client_path_comp
proof
  show "client_path_comp q p < 0 \<longleftrightarrow> 0 < client_path_comp p q" for p q
    using client_path_comp_swap [of q p] by simp
next
  fix p q r
  assume "client_path_comp p q < 0" and "client_path_comp q r < 0"
  then have "pat_hi p < pat_lo q" and "pat_hi q < pat_lo r"
    by (simp_all add: client_path_comp_neg)
  then have "pat_hi p < pat_lo r"
    using pat_lo_le_hi [of q] by (metis order.strict_trans1 order.strict_trans)
  then show "client_path_comp p r < 0"
    by (simp add: client_path_comp_neg)
qed

interpretation acl_order: interval_order ubus_object_path_compare
  unfolding ubus_object_path_compare_eq by (rule path_order.interval_order_axioms)

text \<open>
  A tree that keeps the promise, for concrete runs: the keys in a list, in order.
\<close>

definition olist_ops :: "string list avl_ops" where
  "olist_ops = \<lparr>
     avl_find = (\<lambda>cmp ks k. List.find (\<lambda>x. cmp k x = 0) ks),
     avl_insert = (\<lambda>cmp ks k. if list_ex (\<lambda>x. cmp k x = 0) ks then (-1, ks)
        else (0, filter (\<lambda>x. cmp x k < 0) ks @ k # filter (\<lambda>x. \<not> cmp x k < 0) ks)),
     avl_delete = (\<lambda>cmp ks k. remove1 k ks),
     avl_is_empty = List.null,
     avl_keys = (\<lambda>ks. ks)\<rparr>"

lemma olist_avl_spec: "interval_order cmp \<Longrightarrow> avl_spec cmp olist_ops"
  unfolding avl_spec_def avl_spec_axioms_def
  by (auto simp: olist_ops_def find_Some_iff find_None_iff list_ex_iff
      intro!: interval_order.ordered_insert split: if_splits)

interpretation olist_path: avl_spec client_path_comp olist_ops
  by (rule olist_avl_spec) (rule path_order.interval_order_axioms)

interpretation olist_acl: avl_spec ubus_object_path_compare olist_ops
  by (rule olist_avl_spec) (rule acl_order.interval_order_axioms)

section \<open>The loop of the pattern set\<close>

definition covers :: "string list \<Rightarrow> string \<Rightarrow> bool" where
  "covers ks s \<longleftrightarrow> (\<exists>p\<in>set ks. pat_matches p s)"

lemma broader_pattern_defined:
  assumes "client_path_comp q p = 0" and "\<not> (p = [] \<and> q = [])"
  shows "\<exists>b. broader_pattern p q = Some b"
  using assms by (auto simp: client_path_comp_def broader_pattern_def Let_def split: if_splits)

lemma pattern_mute_loop_correct:
  assumes A: "avl_spec client_path_comp A"
    and ok: "ordered_keys client_path_comp (avl_keys A t)"
    and ne: "\<not> (new = [] \<and> [] \<in> set (avl_keys A t))"
  shows "\<exists>b t'. pattern_mute_loop A t new = Some (Some (b, t')) \<and>
     ordered_keys client_path_comp (avl_keys A t') \<and>
     (b \<longrightarrow> (\<forall>x\<in>set (avl_keys A t'). client_path_comp new x \<noteq> 0)) \<and>
     (\<forall>s. covers (new # avl_keys A t') s \<longleftrightarrow> pat_matches new s \<or> covers (avl_keys A t) s) \<and>
     (\<not> b \<longrightarrow> (\<forall>s. pat_matches new s \<longrightarrow> covers (avl_keys A t') s))"
  using ok ne
proof (induction "length (avl_keys A t)" arbitrary: t rule: less_induct)
  case less
  show ?case
  proof (cases "avl_find A client_path_comp t new")
    case None
    then have "\<forall>x\<in>set (avl_keys A t). client_path_comp new x \<noteq> 0"
      using avl_spec.find_None [OF A less.prems(1)] by blast
    then show ?thesis
      using None less.prems(1) by (subst pattern_mute_loop.simps) (auto simp: covers_def)
  next
    case (Some found)
    then have f: "found \<in> set (avl_keys A t)" "client_path_comp new found = 0"
      using avl_spec.find_Some [OF A less.prems(1)] by blast+
    then obtain b where b: "broader_pattern found new = Some b"
      using broader_pattern_defined less.prems(2) by metis
    show ?thesis
    proof (cases b)
      case True
      then have "\<forall>s. pat_matches new s \<longrightarrow> covers (avl_keys A t) s"
        using f b broader_pattern_True by (auto simp: covers_def)
      then show ?thesis
        using True Some b less.prems(1)
        by (subst pattern_mute_loop.simps) (auto simp: covers_def)
    next
      case False
      let ?t = "avl_delete A client_path_comp t found"
      note del = avl_spec.delete_ok [OF A less.prems(1) f(1)]
      have "\<not> (new = [] \<and> [] \<in> set (avl_keys A ?t))"
        using less.prems(2) del(2) by auto
      note IH = less.hyps [OF del(3) del(1) this]
      have "pat_matches found s \<Longrightarrow> pat_matches new s" for s
        using broader_pattern_False [OF f(2)] b False by simp
      then have cov: "pat_matches new s \<or> covers (avl_keys A t) s \<longleftrightarrow>
          pat_matches new s \<or> covers (avl_keys A ?t) s" for s
        using del(2) f(1) by (auto simp: covers_def)
      have "pattern_mute_loop A t new = pattern_mute_loop A ?t new"
        using Some b False by (subst pattern_mute_loop.simps) simp
      then show ?thesis
        unfolding cov using IH by simp
    qed
  qed
qed

section \<open>Properties\<close>

text \<open>
  C9. \<open>wsubus_client_path_pattern_add\<close> always returns on a tree in order (unless the empty
  pattern is added twice), leaves the tree in order, so with no two overlapping patterns, and
  the names covered afterwards are exactly the ones covered before and the ones the new
  pattern matches.
\<close>

theorem path_pattern_add_correct:
  assumes "avl_spec client_path_comp A"
    and "ordered_keys client_path_comp (avl_keys A t)"
    and "\<not> (p = [] \<and> [] \<in> set (avl_keys A t))"
  shows "\<exists>t'. wsubus_client_path_pattern_add A True True t p = Some (Some t') \<and>
     ordered_keys client_path_comp (avl_keys A t') \<and>
     (\<forall>s. covers (avl_keys A t') s \<longleftrightarrow> covers (avl_keys A t) s \<or> pat_matches p s)"
proof -
  obtain b t1 where loop: "pattern_mute_loop A t p = Some (Some (b, t1))"
    and ok: "ordered_keys client_path_comp (avl_keys A t1)"
    and new: "b \<longrightarrow> (\<forall>x\<in>set (avl_keys A t1). client_path_comp p x \<noteq> 0)"
    and cov: "\<forall>s. covers (p # avl_keys A t1) s \<longleftrightarrow> pat_matches p s \<or> covers (avl_keys A t) s"
    and old: "\<not> b \<longrightarrow> (\<forall>s. pat_matches p s \<longrightarrow> covers (avl_keys A t1) s)"
    using pattern_mute_loop_correct [OF assms] by blast
  show ?thesis
  proof (cases b)
    case True
    obtain rc t2 where ins: "avl_insert A client_path_comp t1 p = (rc, t2)"
      by fastforce
    then have "set (avl_keys A t2) = insert p (set (avl_keys A t1))"
      and "ordered_keys client_path_comp (avl_keys A t2)"
      using avl_spec.insert_new [OF assms(1) ok _ ins] new True by blast+
    then show ?thesis
      using loop True ins cov by (auto simp: wsubus_client_path_pattern_add_def covers_def)
  next
    case False
    then show ?thesis
      using loop ok cov old by (auto simp: wsubus_client_path_pattern_add_def covers_def)
  qed
qed

text \<open>A concrete run: adding \<open>router.*\<close> replaces \<open>router.net\<close> and keeps \<open>system\<close>.\<close>

theorem path_pattern_add_correct_witness:
  "\<exists>t'. wsubus_client_path_pattern_add olist_ops True True [''router.net'', ''system''] ''router.*'' =
       Some (Some t') \<and> covers t' ''router.x'' \<and> covers t' ''system''"
proof -
  have "ordered_keys client_path_comp (avl_keys olist_ops [''router.net'', ''system''])"
    by (simp add: olist_ops_def ordered_keys_def client_path_comp_def byte_of_def)
  moreover have "\<not> (''router.*'' = [] \<and> [] \<in> set (avl_keys olist_ops [''router.net'', ''system'']))"
    by simp
  ultimately obtain t' where
    "wsubus_client_path_pattern_add olist_ops True True [''router.net'', ''system''] ''router.*'' =
       Some (Some t')"
    and "\<forall>s. covers (avl_keys olist_ops t') s \<longleftrightarrow>
       covers (avl_keys olist_ops [''router.net'', ''system'']) s \<or> pat_matches ''router.*'' s"
    using path_pattern_add_correct [OF olist_path.avl_spec_axioms] by blast
  then show ?thesis
    by (simp add: olist_ops_def covers_def pat_matches_def wild_def)
qed

text \<open>
  On a tree in order, \<open>wsubus_client_match_pattern\<close> is exact for every name that does not
  itself end in \<open>*\<close>: with no pattern configured every object is proxied, otherwise exactly the
  objects some stored pattern matches.
\<close>

theorem match_pattern_exact:
  assumes "avl_spec client_path_comp A"
    and "ordered_keys client_path_comp (avl_keys A t)" and "\<not> wild name"
  shows "wsubus_client_match_pattern A t name \<longleftrightarrow>
     avl_keys A t = [] \<or> (\<exists>p\<in>set (avl_keys A t). pat_matches p name)"
  using avl_spec.find_iff [OF assms(1,2), of name] avl_spec.is_empty_iff [OF assms(1), of t]
    client_path_comp_zero_exact [OF assms(3)]
  by (auto simp: wsubus_client_match_pattern_def)

theorem match_pattern_exact_witness:
  "wsubus_client_match_pattern olist_ops [''router.*'', ''system''] ''router.net''"
proof -
  have "ordered_keys client_path_comp (avl_keys olist_ops [''router.*'', ''system''])"
    by (simp add: olist_ops_def ordered_keys_def client_path_comp_def byte_of_def)
  moreover have "\<not> wild ''router.net''"
    by (simp add: wild_def)
  ultimately show ?thesis
    using match_pattern_exact [OF olist_path.avl_spec_axioms]
    by (auto simp: olist_ops_def pat_matches_def wild_def)
qed

text \<open>
  Adding to the access list keeps the tree in order, and an object is let through
  afterwards exactly when the list is empty, or some stored pattern matches it, where the new
  entry (cut at \<open>->\<close>) is stored only if it overlaps no stored one.
\<close>

theorem acl_add_object_correct:
  assumes "avl_spec ubus_object_path_compare A"
    and "ordered_keys ubus_object_path_compare (avl_keys A t)" and "\<not> wild name"
  shows "ordered_keys ubus_object_path_compare
       (avl_keys A (ubusx_acl__add_object A True True t obj)) \<and>
     (ubusx_acl__allow_object A (ubusx_acl__add_object A True True t obj) name \<longleftrightarrow>
       covers (avl_keys A t) name \<or>
       pat_matches (before_arrow obj) name \<and>
         (\<forall>p\<in>set (avl_keys A t). ubus_object_path_compare (before_arrow obj) p \<noteq> 0))"
proof (cases "\<exists>p\<in>set (avl_keys A t). ubus_object_path_compare (before_arrow obj) p = 0")
  case True
  then have "ubusx_acl__add_object A True True t obj = t"
    using avl_spec.insert_dup [OF assms(1,2)] by (auto simp: ubusx_acl__add_object_def)
  moreover have "avl_keys A t \<noteq> []"
    using True by auto
  ultimately show ?thesis
    using True avl_spec.find_iff [OF assms(1,2), of name] avl_spec.is_empty_iff [OF assms(1), of t]
      client_path_comp_zero_exact [OF assms(3)] assms(2)
    by (auto simp: ubusx_acl__allow_object_def covers_def ubus_object_path_compare_eq)
next
  case False
  let ?t = "ubusx_acl__add_object A True True t obj"
  have "set (avl_keys A ?t) = insert (before_arrow obj) (set (avl_keys A t))"
    and ok: "ordered_keys ubus_object_path_compare (avl_keys A ?t)"
    using avl_spec.insert_new [OF assms(1,2), of "before_arrow obj"] False
    by (metis ubusx_acl__add_object_def prod.collapse)+
  then show ?thesis
    using False avl_spec.find_iff [OF assms(1) ok, of name]
      avl_spec.is_empty_iff [OF assms(1), of ?t] client_path_comp_zero_exact [OF assms(3)]
    by (auto simp: ubusx_acl__allow_object_def covers_def ubus_object_path_compare_eq)
qed

theorem acl_add_object_correct_witness:
  "ubusx_acl__allow_object olist_ops
     (ubusx_acl__add_object olist_ops True True [''system''] ''router.*->status'') ''router.net''"
proof -
  have "ordered_keys ubus_object_path_compare (avl_keys olist_ops [''system''])"
    by (simp add: olist_ops_def ordered_keys_def)
  moreover have "\<not> wild ''router.net''"
    by (simp add: wild_def)
  ultimately show ?thesis
    using acl_add_object_correct [OF olist_acl.avl_spec_axioms, of _ _ "''router.*->status''"]
    by (auto simp: olist_ops_def pat_matches_def wild_def ubus_object_path_compare_def byte_of_def)
qed

text \<open>
  The order of the access list's entries matters: once a name is listed, a broader pattern
  that follows it is dropped, so \<open>foo.bar foo.*\<close> does not admit \<open>foo.baz\<close>, while
  \<open>foo.* foo.bar\<close> does.
\<close>

theorem acl_broader_after_narrower_dropped:
  "\<not> ubusx_acl__allow_object olist_ops
      (ubusx_acl__add_objects olist_ops (\<lambda>_. (True, True)) [] (Some ''foo.bar foo.*'')) ''foo.baz'' \<and>
   ubusx_acl__allow_object olist_ops
      (ubusx_acl__add_objects olist_ops (\<lambda>_. (True, True)) [] (Some ''foo.* foo.bar'')) ''foo.baz''"
  by (simp add: ubusx_acl__allow_object_def ubusx_acl__add_objects_def ubusx_acl__add_object_def
      olist_ops_def ubus_object_path_compare_def byte_of_def)

text \<open>
  Adding the empty pattern twice reads before the start of the key.
\<close>

lemma path_pattern_add_empty_twice:
  "wsubus_client_path_pattern_add olist_ops True True [[]] [] = Some None"
  by (simp add: wsubus_client_path_pattern_add_def pattern_mute_loop.simps olist_ops_def
      client_path_comp_def broader_pattern_def)

end
