(* ===== verification/Server_State.thy ===== *)
theory Server_State
  imports Rpc_Parse Proxied_Calls Patterns
begin

text \<open>
  The state of the server side: \<open>struct prog_context\<close> and \<open>struct vh_context\<close> of
  \<open>src/src/common.h\<close>, \<open>struct wsu_peer\<close>, \<open>struct wsu_client_session\<close> and
  \<open>struct wsubus_percall_ctx\<close> of \<open>src/src/wsubus.impl.h\<close>, the access check handle of
  \<open>src/src/access_check.c\<close>, the subscription and event notification of \<open>src/src/rpc_sub.[ch]\<close>,
  and the static variables of these files.

  Objects that outlive one callback live in a typed heap: a map from addresses for each kind of
  object, so a pointer is an address with the type of its target (\<open>rpc_ref\<close>, \<open>chk_owner\<close>), and
  using a pointer after its object was freed, or at the wrong type, finds no object. Every
  function that can touch freed memory, dereference \<open>NULL\<close> or fail an \<open>assert\<close> returns
  \<^term>\<open>None\<close> then.

  What the libraries have under way for the program (asynchronous ubus requests, one-shot
  timers, event handlers) is state too; what they answer during one callback is the record
  \<open>env\<close>. The build is the one with ubus and without D-Bus, with TLS support and assertions;
  JSON validation and the old blacklist are switches of \<open>env\<close>.
\<close>

section \<open>Heap objects\<close>

text \<open>
  A member of a client's \<open>rpc_call_q\<close>: a \<open>ws_request_base\<close> whose \<open>cancel_and_destroy\<close> is
  \<open>wsubus_percall_ctx_destroy\<close> (a call) or \<open>wsubus_unsub_elem\<close> (a subscription).
\<close>

datatype rpc_ref = RCall addr | RSub addr

text \<open>
  The user pointer of an access check with its callback: a call with
  \<open>wsubus_access_on_completed\<close>, an event notification with \<open>wsubus_ev_check_cb\<close>. The same
  values are the members of a client's \<open>access_check_q\<close>, whose \<open>destructor\<close> is \<open>NULL\<close> for a
  call and \<open>wsubus_ev_check__destroy\<close> for a notification.
\<close>

datatype chk_owner = OCall addr | OEv addr

datatype req_tag = REQ_TAG_UBUS | REQ_TAG_DEFER

record wsubus_access_check_req =
  ck_result :: bool
  ck_owner :: chk_owner
  ck_tag :: req_tag

record wsubus_percall_ctx =
  pc_wsi :: wsi
  pc_id :: "blob_attr option"
  pc_retbuf :: "blob_attr list"
  pc_args :: ubusrpc_blob_call
  pc_invoke :: bool
  pc_check :: "addr option"
  pc_start :: "int \<times> int"

record ws_sub_info_ubus =
  si_wsi :: wsi
  si_sid :: string
  si_pattern :: string

text \<open>\<open>ev_wsi\<close> is the connection whose \<open>access_check_q\<close> the notification was linked into.\<close>

record wsubus_ev_notif =
  ev_type :: string
  ev_msg :: "blob_attr list option"
  ev_info :: addr
  ev_check :: "addr option"
  ev_wsi :: wsi

section \<open>Connections\<close>

record wsu_client_session =
  cs_id :: u32
  rpc_q_len :: u32
  percall_cleaner :: bool
  rpc_call_q :: "rpc_ref list"
  access_check_q :: "chk_owner list"

datatype wsu_role = UClient wsu_client_session | URemote wsu_remote_bus

record wsu_writereq =
  wr_buf :: string
  wr_written :: nat

text \<open>
  The state of the JSON tokener is the text it was fed since it was reset. \<open>peer_ready\<close> tells
  whether the tokener and the write queue were initialised.
\<close>

record wsu_peer =
  peer_ready :: bool
  curr_msg_text :: string
  curr_msg_len :: u64
  write_q :: "wsu_writereq list"
  peer_sid :: string
  peer_u :: wsu_role

record vh_context =
  vh_origins :: "string list"
  vh_users :: "string list"
  vh_name :: string
  restrict_origins :: bool

section \<open>The program's state\<close>

datatype shut_how = SHUT_RD | SHUT_RDWR

datatype ubus_req = UChk addr | UCall addr

record server =
  num_active_ses :: u64
  req_max :: int
  total_req_max :: int
  clientid :: u32
  acl_tree :: "string list"
  peers :: "wsi \<Rightarrow> wsu_peer option"
  call_heap :: "addr \<Rightarrow> wsubus_percall_ctx option"
  sub_heap :: "addr \<Rightarrow> ws_sub_info_ubus option"
  ev_heap :: "addr \<Rightarrow> wsubus_ev_notif option"
  chk_heap :: "addr \<Rightarrow> wsubus_access_check_req option"
  next_addr :: addr
  listen_list :: "addr list"
  ubus_reqs :: "ubus_req set"
  timers :: "addr set"
  ev_handlers :: "addr set"
  shut :: "(wsi \<times> shut_how) set"
  invoked :: "(ubus_req \<times> u32 \<times> string \<times> blob_attr list) list"

text \<open>
  \<open>invoked\<close> records the asynchronous ubus requests that were accepted, oldest first, and
  \<open>shut\<close> the sockets that were shut down.
\<close>

section \<open>What the libraries answer\<close>

datatype schema_call_t = SCHEMA_INPUT_CALL | SCHEMA_OUTPUT_CALL

record env =
  lib :: libubox
  alloc :: "site \<Rightarrow> bool"
  json_validation :: bool
  schema_validator_validate_jobj :: "json option \<Rightarrow> string \<Rightarrow> string \<Rightarrow> schema_call_t \<Rightarrow> bool"
  blacklist_old :: bool
  ubus_lookup_id :: "string \<Rightarrow> int \<times> u32"
  ubus_invoke_async :: "u32 \<Rightarrow> string \<Rightarrow> blob_attr list \<Rightarrow> int"
  ubus_register_event_handler :: "string \<Rightarrow> int"
  ubus_lookup :: "string option \<Rightarrow> int \<times> (string \<times> blob_attr list option) list"
  uloop_timeout_set :: "int \<Rightarrow> int"
  lws_callback_on_writable :: "wsi \<Rightarrow> int"
  vhost :: "wsi \<Rightarrow> vh_context option"
  lws_is_ssl :: "wsi \<Rightarrow> bool"
  lws_tls_peer_cert_info :: "wsi \<Rightarrow> int \<times> bool"
  lws_write :: "nat \<Rightarrow> nat \<Rightarrow> int \<times> bool"
  fnmatch_casefold :: "string \<Rightarrow> string \<Rightarrow> bool"
  json_tokener_parse_ex :: "string \<Rightarrow> string \<Rightarrow> json option \<times> bool \<times> int"
  blobmsg_add_object :: "json \<Rightarrow> blob_attr list"
  json_tokener_parse :: "string \<Rightarrow> json option"
  json_object_get_string :: "json \<Rightarrow> string"
  monotonic :: "int \<times> int"

text \<open>
  \<open>lws_write n len\<close> is the result of the \<open>n\<close>-th write of a callback, of \<open>len\<close> bytes, with what
  \<open>lws_partial_buffered\<close> tells after it; \<open>json_tokener_parse_ex old new\<close> is the object, whether
  the tokener wants more text, and the offset it stopped at.
\<close>

definition UBUS_STATUS_PERMISSION_DENIED :: int where
  "UBUS_STATUS_PERMISSION_DENIED = 6"

definition UBUS_STATUS_UNKNOWN_ERROR :: int where
  "UBUS_STATUS_UNKNOWN_ERROR = 9"

section \<open>Accessors\<close>

text \<open>\<open>wsi_to_peer\<close> and \<open>wsi_to_client\<close>, with their assertions.\<close>

definition wsi_to_peer :: "server \<Rightarrow> wsi \<Rightarrow> wsu_peer option" where
  "wsi_to_peer s w = peers s w"

definition client_of :: "wsu_peer \<Rightarrow> wsu_client_session option" where
  "client_of p = (case peer_u p of UClient c \<Rightarrow> Some c | URemote _ \<Rightarrow> None)"

definition wsi_to_client :: "server \<Rightarrow> wsi \<Rightarrow> wsu_client_session option" where
  "wsi_to_client s w = Option.bind (wsi_to_peer s w) client_of"

definition set_peer :: "wsi \<Rightarrow> wsu_peer \<Rightarrow> server \<Rightarrow> server" where
  "set_peer w p s = s\<lparr>peers := (peers s)(w \<mapsto> p)\<rparr>"

definition upd_client :: "wsi \<Rightarrow> (wsu_client_session \<Rightarrow> wsu_client_session) \<Rightarrow> server \<Rightarrow> server option" where
  "upd_client w f s =
     (case peers s w of
        Some p \<Rightarrow> (case peer_u p of
            UClient c \<Rightarrow> Some (set_peer w (p\<lparr>peer_u := UClient (f c)\<rparr>) s)
          | URemote _ \<Rightarrow> None)
      | None \<Rightarrow> None)"

text \<open>\<open>list_add_tail\<close> and \<open>list_del\<close> on the two queues; deleting needs a linked member.\<close>

definition rpc_q_add :: "wsi \<Rightarrow> rpc_ref \<Rightarrow> server \<Rightarrow> server option" where
  "rpc_q_add w r = upd_client w (\<lambda>c. c\<lparr>rpc_call_q := rpc_call_q c @ [r]\<rparr>)"

definition rpc_q_del :: "wsi \<Rightarrow> rpc_ref \<Rightarrow> server \<Rightarrow> server option" where
  "rpc_q_del w r s =
     (case wsi_to_client s w of
        Some c \<Rightarrow>
          if r \<in> set (rpc_call_q c)
          then upd_client w (\<lambda>c. c\<lparr>rpc_call_q := remove1 r (rpc_call_q c)\<rparr>) s else None
      | None \<Rightarrow> None)"

definition acq_add :: "wsi \<Rightarrow> chk_owner \<Rightarrow> server \<Rightarrow> server option" where
  "acq_add w r = upd_client w (\<lambda>c. c\<lparr>access_check_q := access_check_q c @ [r]\<rparr>)"

definition acq_del :: "wsi \<Rightarrow> chk_owner \<Rightarrow> server \<Rightarrow> server option" where
  "acq_del w r s =
     (case wsi_to_client s w of
        Some c \<Rightarrow>
          if r \<in> set (access_check_q c)
          then upd_client w (\<lambda>c. c\<lparr>access_check_q := remove1 r (access_check_q c)\<rparr>) s else None
      | None \<Rightarrow> None)"

definition rpc_q_len_dec :: "wsi \<Rightarrow> server \<Rightarrow> server option" where
  "rpc_q_len_dec w = upd_client w (\<lambda>c. c\<lparr>rpc_q_len := rpc_q_len c - 1\<rparr>)"

definition rpc_q_len_inc :: "wsi \<Rightarrow> server \<Rightarrow> server option" where
  "rpc_q_len_inc w = upd_client w (\<lambda>c. c\<lparr>rpc_q_len := rpc_q_len c + 1\<rparr>)"

section \<open>Writing to a connection (\<open>wsubus.impl.h\<close>)\<close>

definition WSUBUS_MAX_MESSAGE_LEN :: nat where
  "WSUBUS_MAX_MESSAGE_LEN = 2 ^ 27"

definition wsu_queue_write_str :: "env \<Rightarrow> wsi \<Rightarrow> string option \<Rightarrow> server \<Rightarrow> (int \<times> server) option" where
  "wsu_queue_write_str E w response_str s =
     (case wsi_to_peer s w of
        None \<Rightarrow> None
      | Some peer \<Rightarrow>
          (case response_str of
             None \<Rightarrow> Some (-1, s)
           | Some str \<Rightarrow>
               if \<not> length str < WSUBUS_MAX_MESSAGE_LEN then None
               else if \<not> alloc E A_write then Some (-2, s)
               else if \<not> peer_ready peer then None
               else
                 let s = set_peer w (peer\<lparr>write_q := write_q peer @ [\<lparr>wr_buf = str, wr_written = 0\<rparr>]\<rparr>) s in
                 Some (if lws_callback_on_writable E w < 0 then -3 else 0, s)))"

text \<open>Every caller ignores the result code.\<close>

definition queue_write :: "env \<Rightarrow> wsi \<Rightarrow> string option \<Rightarrow> server \<Rightarrow> server option" where
  "queue_write E w response_str s = map_option snd (wsu_queue_write_str E w response_str s)"

definition wsu_sid_update :: "wsu_peer \<Rightarrow> string \<Rightarrow> wsu_peer" where
  "wsu_sid_update peer sid = peer\<lparr>peer_sid := strncat_empty sid 32\<rparr>"

end
