(* ===== verification/Access_Check.thy ===== *)
theory Access_Check
  imports Server_State
begin

text \<open>
  Access checks, \<open>src/src/access_check.c\<close> and \<open>src/src/access_check.h\<close>: the two checkers inside
  the program, the question to rpcd's session object, and the handle that makes all of them
  asynchronous (a pending ubus request or a zero timeout).
\<close>

section \<open>Session ids and the checkers inside the program\<close>

definition wsu_sid_extended :: "string \<Rightarrow> string option" where
  "wsu_sid_extended sid = (if strstr_at_start sid ''X-'' then Some (drop 2 sid) else None)"

datatype wsu_ext_result = EXT_CHECK_NEXT | EXT_CHECK_ALLOW | EXT_CHECK_DENY

definition wsu_ext_check_interface :: "wsi \<Rightarrow> wsu_ext_result" where
  "wsu_ext_check_interface w = EXT_CHECK_NEXT"

text \<open>
  The loop of \<open>wsu_ext_restrict_interface\<close> over the arguments; the virtual host's context is
  dereferenced when a \<open>username\<close> is met.
\<close>

fun restrict_users :: "env \<Rightarrow> wsi \<Rightarrow> blob_attr list \<Rightarrow> wsu_ext_result option" where
  "restrict_users E w [] = Some EXT_CHECK_NEXT"
| "restrict_users E w ((name, v) # args) =
     (if strcmp ''username'' name = 0 then
        (case vhost E w of
           None \<Rightarrow> None
         | Some vc \<Rightarrow>
             if vh_users vc \<noteq> [] then
               if list_ex (\<lambda>u. strcmp u (blobmsg_get_string (lib E) v) = 0) (vh_users vc)
               then Some EXT_CHECK_ALLOW else Some EXT_CHECK_DENY
             else restrict_users E w args)
      else restrict_users E w args)"

definition wsu_ext_restrict_interface ::
    "env \<Rightarrow> wsi \<Rightarrow> string \<Rightarrow> string \<Rightarrow> blob_attr list option \<Rightarrow> wsu_ext_result option" where
  "wsu_ext_restrict_interface E w object method args =
     (if strcmp object ''session'' = 0 \<and> strcmp method ''login'' = 0 then
        (case args of None \<Rightarrow> None | Some xs \<Rightarrow> restrict_users E w xs)
      else Some EXT_CHECK_NEXT)"

definition wsu_ext_check_tls :: "env \<Rightarrow> server \<Rightarrow> wsi \<Rightarrow> string \<Rightarrow> wsu_ext_result" where
  "wsu_ext_check_tls E s w object =
     (if \<not> lws_is_ssl E w then EXT_CHECK_NEXT
      else
        let (rc, verified) = lws_tls_peer_cert_info E w in
        if rc \<noteq> 0 then EXT_CHECK_DENY
        else if \<not> verified then EXT_CHECK_DENY
        else if \<not> ubusx_acl__allow_object olist_ops (acl_tree s) object then EXT_CHECK_DENY
        else EXT_CHECK_ALLOW)"

section \<open>The handle\<close>

text \<open>\<open>calloc\<close> zeroes the structure: no result, tag 0, and a callback that is set before use.\<close>

definition wsubus_access_check_new ::
    "env \<Rightarrow> chk_owner \<Rightarrow> server \<Rightarrow> addr option \<times> server" where
  "wsubus_access_check_new E own s =
     (if alloc E A_check then
        let b = next_addr s in
        (Some b, s\<lparr>next_addr := b + 1,
                   chk_heap := (chk_heap s)(b \<mapsto> \<lparr>ck_result = False, ck_owner = own,
                                                  ck_tag = REQ_TAG_UBUS\<rparr>)\<rparr>)
      else (None, s))"

definition wsubus_access_check_free :: "addr option \<Rightarrow> server \<Rightarrow> server option" where
  "wsubus_access_check_free req s =
     (case req of
        None \<Rightarrow> Some s
      | Some b \<Rightarrow> if chk_heap s b = None then None else Some (s\<lparr>chk_heap := (chk_heap s)(b := None)\<rparr>))"

definition wsubus_access_check__on_ret :: "addr \<Rightarrow> blob_attr list \<Rightarrow> server \<Rightarrow> server option" where
  "wsubus_access_check__on_ret b msg s =
     (case chk_heap s b of
        None \<Rightarrow> None
      | Some req \<Rightarrow>
          let result =
            (case List.find (\<lambda>(n, v). strcmp ''access'' n = 0 \<and> type_of_blob v = BLOBMSG_TYPE_INT8) msg of
               Some (_, BInt8 x) \<Rightarrow> x \<noteq> 0
             | _ \<Rightarrow> False) in
          Some (s\<lparr>chk_heap := (chk_heap s)(b \<mapsto> req\<lparr>ck_result := result\<rparr>)\<rparr>))"

text \<open>
  The two completion callbacks read the handle and call \<open>req->cb (req, req->ctx, allow)\<close>; they
  return that callback's owner and its \<open>allow\<close>.
\<close>

definition wsubus_access_check__cb :: "addr \<Rightarrow> int \<Rightarrow> server \<Rightarrow> (chk_owner \<times> bool) option" where
  "wsubus_access_check__cb b status s =
     map_option (\<lambda>req. (ck_owner req, ck_result req \<and> status = 0)) (chk_heap s b)"

definition deferral_cb :: "addr \<Rightarrow> server \<Rightarrow> (chk_owner \<times> bool) option" where
  "deferral_cb b s =
     (case chk_heap s b of
        None \<Rightarrow> None
      | Some req \<Rightarrow> if ck_tag req \<noteq> REQ_TAG_DEFER then None else Some (ck_owner req, ck_result req))"

definition defer_callback :: "env \<Rightarrow> addr \<Rightarrow> bool \<Rightarrow> server \<Rightarrow> (int \<times> server) option" where
  "defer_callback E b result s =
     (case chk_heap s b of
        None \<Rightarrow> None
      | Some req \<Rightarrow>
          let rc = uloop_timeout_set E 0 in
          Some (rc, s\<lparr>chk_heap := (chk_heap s)(b \<mapsto> req\<lparr>ck_tag := REQ_TAG_DEFER, ck_result := result\<rparr>),
                      timers := (if rc = 0 then insert b (timers s) else timers s)\<rparr>))"

section \<open>Asking the session object\<close>

definition session_question ::
    "string \<Rightarrow> string option \<Rightarrow> string \<Rightarrow> string \<Rightarrow> blob_attr list option \<Rightarrow> blob_attr list" where
  "session_question sid scope object method args =
     [(''ubus_rpc_session'', BString sid), (''object'', BString object),
      (''function'', BString method)] @
     (case scope of Some sc \<Rightarrow> [(''scope'', BString sc)] | None \<Rightarrow> []) @
     (case args of Some xs \<Rightarrow> [(''params'', BTable xs)] | None \<Rightarrow> [])"

text \<open>
  The caller's argument buffer is extended by \<open>ubus_rpc_session\<close>; its new contents are returned.
\<close>

definition wsubus_access_check_via_session ::
    "env \<Rightarrow> addr \<Rightarrow> string \<Rightarrow> string option \<Rightarrow> string \<Rightarrow> string \<Rightarrow> blob_attr list option \<Rightarrow>
     server \<Rightarrow> (int \<times> blob_attr list option \<times> server) option" where
  "wsubus_access_check_via_session E b sid scope object method args s =
     (if (case args of
            Some xs \<Rightarrow> list_ex (\<lambda>(n, _). strcmp ''ubus_rpc_session'' n = 0) xs
          | None \<Rightarrow> False) then Some (-1, args, s)
      else
        let (rc, access_id) = ubus_lookup_id E ''session'' in
        if rc \<noteq> 0 then Some (-1, args, s)
        else
          let args = map_option (\<lambda>xs. xs @ [(''ubus_rpc_session'', BString sid)]) args;
              blob_for_access = session_question sid scope object method args;
              ret = ubus_invoke_async E access_id ''access'' blob_for_access in
          if ret \<noteq> 0 then Some (-1, args, s)
          else
            (case chk_heap s b of
               None \<Rightarrow> None
             | Some req \<Rightarrow>
                 Some (0, args,
                       s\<lparr>chk_heap := (chk_heap s)(b \<mapsto> req\<lparr>ck_tag := REQ_TAG_UBUS\<rparr>),
                         ubus_reqs := insert (UChk b) (ubus_reqs s),
                         invoked := invoked s @ [(UChk b, access_id, ''access'', blob_for_access)]\<rparr>)))"

section \<open>The entry point\<close>

text \<open>
  For a certificate session the object of a \<open>ubus.object.*\<close> event is replaced by the path the
  event names. The callback's user pointer is cast to a notification without looking at what it
  is. The result is the object to check and whether its string belongs to the parsed event.
\<close>

definition tls_object ::
    "env \<Rightarrow> server \<Rightarrow> chk_owner \<Rightarrow> string \<Rightarrow> (string \<times> bool) option" where
  "tls_object E s own object =
     (if \<not> strstr_found object ''ubus.object.'' then Some (object, False)
      else
        (case own of
           OCall _ \<Rightarrow> None
         | OEv a \<Rightarrow> do {
             ev \<leftarrow> ev_heap s a;
             msg \<leftarrow> ev_msg ev;
             str \<leftarrow> blobmsg_format_json (lib E) msg;
             Some (case json_tokener_parse E str of
                     Some (JObject fs) \<Rightarrow>
                       (case map_of fs ''path'' of
                          Some path \<Rightarrow> if path = JNull then (object, False)
                                       else (json_object_get_string E path, True)
                        | None \<Rightarrow> (object, False))
                   | _ \<Rightarrow> (object, False))
           }))"

text \<open>
  When the certificate checker passes the decision on, the parsed event is freed already: an
  object string that belongs to it is read after that.
\<close>

definition wsubus_access_check ::
    "env \<Rightarrow> addr \<Rightarrow> wsi \<Rightarrow> string \<Rightarrow> string option \<Rightarrow> string \<Rightarrow> string \<Rightarrow> blob_attr list option \<Rightarrow>
     chk_owner \<Rightarrow> server \<Rightarrow> (int \<times> blob_attr list option \<times> server) option" where
  "wsubus_access_check E b w sid scope object method args own s = do {
     req \<leftarrow> chk_heap s b;
     let s = s\<lparr>chk_heap := (chk_heap s)(b \<mapsto> req\<lparr>ck_owner := own\<rparr>)\<rparr>;
     (res, object, dangling) \<leftarrow>
       (case wsu_sid_extended sid of
          None \<Rightarrow> Some (EXT_CHECK_NEXT, object, False)
        | Some esid \<Rightarrow>
            if strcmp ''mgmt-interface'' esid = 0 then
              Some (wsu_ext_check_interface w, object, False)
            else if strcmp ''tls-certificate'' esid = 0 then do {
              (object, of_event) \<leftarrow> tls_object E s own object;
              Some (wsu_ext_check_tls E s w object, object, of_event)
            }
            else Some (EXT_CHECK_NEXT, object, False));
     if res \<noteq> EXT_CHECK_NEXT then do {
       (rc, s) \<leftarrow> defer_callback E b (res = EXT_CHECK_ALLOW) s;
       Some (rc, args, s)
     }
     else if dangling then None
     else do {
       res \<leftarrow> wsu_ext_restrict_interface E w object method args;
       if res \<noteq> EXT_CHECK_NEXT then do {
         (rc, s) \<leftarrow> defer_callback E b (res = EXT_CHECK_ALLOW) s;
         Some (rc, args, s)
       }
       else wsubus_access_check_via_session E b sid scope object method args s
     }
   }"

definition wsubus_access_check__call ::
    "env \<Rightarrow> addr \<Rightarrow> wsi \<Rightarrow> string \<Rightarrow> string \<Rightarrow> string \<Rightarrow> blob_attr list \<Rightarrow> chk_owner \<Rightarrow> server \<Rightarrow>
     (int \<times> blob_attr list option \<times> server) option" where
  "wsubus_access_check__call E b w sid object method args own s =
     wsubus_access_check E b w sid None object method (Some args) own s"

definition wsubus_access_check__event ::
    "env \<Rightarrow> addr \<Rightarrow> wsi \<Rightarrow> string \<Rightarrow> string \<Rightarrow> chk_owner \<Rightarrow> server \<Rightarrow>
     (int \<times> blob_attr list option \<times> server) option" where
  "wsubus_access_check__event E b w sid event own s =
     wsubus_access_check E b w sid (Some ''owsd'') event ''read'' None own s"

definition wsubus_access_check__cancel :: "addr \<Rightarrow> server \<Rightarrow> server option" where
  "wsubus_access_check__cancel b s =
     (case chk_heap s b of
        None \<Rightarrow> None
      | Some req \<Rightarrow>
          (case ck_tag req of
             REQ_TAG_DEFER \<Rightarrow> Some (s\<lparr>timers := timers s - {b}\<rparr>)
           | REQ_TAG_UBUS \<Rightarrow> Some (s\<lparr>ubus_reqs := ubus_reqs s - {UChk b}\<rparr>)))"

end
