(* ===== verification/Json_Validation.thy ===== *)
theory Json_Validation
  imports Server_State
begin

text \<open>
  \<open>src/src/util_json_validation.c\<close>: the arguments of a call are checked against a schema before the
  call and its results after it. The validator itself is a library, a field of \<^typ>\<open>env\<close>.
\<close>

definition validate_json_object :: "env \<Rightarrow> json \<Rightarrow> string \<Rightarrow> string \<Rightarrow> schema_call_t \<Rightarrow> bool" where
  "validate_json_object E j object method type =
     schema_validator_validate_jobj E (Some j) object method type"

text \<open>
  A null \<open>method\<close> is compared without a check, and \<open>json_object_array_get_idx\<close> asserts that it is
  given an array.
\<close>

definition validate_json_call_string :: "env \<Rightarrow> string \<Rightarrow> bool option" where
  "validate_json_call_string E str =
     (case json_tokener_parse E str of
        None \<Rightarrow> Some True
      | Some j \<Rightarrow>
          (let (found, type) = json_get_ex j ''method''; (found', params) = json_get_ex j ''params'' in
           if \<not> found then Some True
           else if type = JNull then None
           else if strncmp (json_object_get_string E type) ''call'' 5 \<noteq> 0 then Some True
           else if \<not> found' then Some True
           else
             (case params of
                JArray ps \<Rightarrow>
                  (let object = json_array_get_idx params 1; method = json_array_get_idx params 2 in
                   if object = JNull \<or> method = JNull then Some True
                   else Some (schema_validator_validate_jobj E
                          (let args = json_array_get_idx params 3 in if args = JNull then None else Some args)
                          (json_object_get_string E object) (json_object_get_string E method)
                          SCHEMA_INPUT_CALL))
              | _ \<Rightarrow> None)))"

text \<open>The validation returns for a message whose method is a string and whose parameters are an array.\<close>

lemma validate_call_returns:
  assumes "\<And>j. json_tokener_parse E str = Some j \<Longrightarrow>
     (\<exists>m. json_get_ex j ''method'' = (True, JString m)) \<and> (\<exists>ps. json_get_ex j ''params'' = (True, JArray ps))"
  shows "\<exists>b. validate_json_call_string E str = Some b"
proof (cases "json_tokener_parse E str")
  case (Some j)
  then obtain m ps where "json_get_ex j ''method'' = (True, JString m)"
    "json_get_ex j ''params'' = (True, JArray ps)"
    using assms by blast
  then show ?thesis
    using Some by (auto simp: validate_json_call_string_def Let_def)
qed (auto simp: validate_json_call_string_def)

text \<open>A call with an object, a method and arguments is refused exactly when the schema refuses it.\<close>

lemma validate_call_exact:
  assumes "json_tokener_parse E str = Some j" "json_get_ex j ''method'' = (True, JString m)"
    "json_object_get_string E (JString m) = ''call''"
    "json_get_ex j ''params'' = (True, JArray [sid, obj, meth, args])"
    "obj \<noteq> JNull" "meth \<noteq> JNull" "args \<noteq> JNull"
  shows "validate_json_call_string E str =
     Some (schema_validator_validate_jobj E (Some args) (json_object_get_string E obj)
       (json_object_get_string E meth) SCHEMA_INPUT_CALL)"
  using assms by (simp add: validate_json_call_string_def json_array_get_idx_def strncmp_eq_0)

end
