(* ===== verification/Rpc_Call.thy ===== *)
theory Rpc_Call
  imports Access_Check Json_Validation
begin

text \<open>
  The \<open>call\<close> RPC, \<open>src/src/rpc_call.c\<close> and \<open>src/src/rpc_call_ubus.h\<close>: a call context is created
  and queued, its access check runs, then the ubus method is invoked, its reply collected and
  sent, and the context destroyed.
\<close>

section \<open>The call context\<close>

definition wsubus_percall_ctx_destroy :: "addr \<Rightarrow> server \<Rightarrow> server option" where
  "wsubus_percall_ctx_destroy a s = do {
     call_ctx \<leftarrow> call_heap s a;
     s \<leftarrow> rpc_q_len_dec (pc_wsi call_ctx) s;
     let s = (if pc_invoke call_ctx then s\<lparr>ubus_reqs := ubus_reqs s - {UCall a}\<rparr> else s);
     Some (s\<lparr>call_heap := (call_heap s)(a := None)\<rparr>)
   }"

text \<open>The allocation of the context is not checked by the code, and a failure is dereferenced.\<close>

definition wsubus_percall_ctx_create ::
    "env \<Rightarrow> wsi \<Rightarrow> blob_attr option \<Rightarrow> ubusrpc_blob_call \<Rightarrow> server \<Rightarrow> (addr \<times> server) option" where
  "wsubus_percall_ctx_create E w rid args s =
     (if \<not> alloc E A_percall then None
      else
        let a = next_addr s in
        Some (a, s\<lparr>next_addr := a + 1,
                   call_heap := (call_heap s)(a \<mapsto>
                     \<lparr>pc_wsi = w,
                      pc_id = (if alloc E A_percall_id then rid else None),
                      pc_retbuf = [], pc_args = args, pc_invoke = False, pc_check = None,
                      pc_start = monotonic E\<rparr>)\<rparr>))"

section \<open>Invoking the method\<close>

definition owsd_listen :: "env \<Rightarrow> wsi \<Rightarrow> ubusrpc_blob_call \<Rightarrow> ubusrpc_blob_call option" where
  "owsd_listen E w args =
     (if blacklist_old E \<and> strcmp (uc_sid args) UBUS_DEFAULT_SID = 0 then
        (case vhost E w of
           None \<Rightarrow> None
         | Some vc \<Rightarrow>
             Some (args\<lparr>uc_params := uc_params args @ [(''_owsd_listen'', BString (vh_name vc))]\<rparr>))
      else Some args)"

definition wsubus_call_do_call :: "env \<Rightarrow> addr \<Rightarrow> server \<Rightarrow> (int \<times> server) option" where
  "wsubus_call_do_call E a s = do {
     curr_call \<leftarrow> call_heap s a;
     let (ret, object_id) = ubus_lookup_id E (uc_object (pc_args curr_call));
     if ret \<noteq> 0 then Some (ret, s)
     else if \<not> alloc E A_call_req then Some (UBUS_STATUS_UNKNOWN_ERROR, s)
     else do {
       args \<leftarrow> owsd_listen E (pc_wsi curr_call) (pc_args curr_call);
       let curr_call = curr_call\<lparr>pc_args := args\<rparr>;
       let ret = ubus_invoke_async E object_id (uc_method args) (uc_params args);
       if ret \<noteq> 0 then Some (ret, s\<lparr>call_heap := (call_heap s)(a \<mapsto> curr_call)\<rparr>)
       else
         Some (0, s\<lparr>call_heap := (call_heap s)(a \<mapsto> curr_call\<lparr>pc_invoke := True\<rparr>),
                    ubus_reqs := insert (UCall a) (ubus_reqs s),
                    invoked := invoked s @ [(UCall a, object_id, uc_method args, uc_params args)]\<rparr>)
     }
   }"

definition wsubus_call_on_retdata :: "addr \<Rightarrow> blob option \<Rightarrow> server \<Rightarrow> server option" where
  "wsubus_call_on_retdata a msg s = do {
     curr_call \<leftarrow> call_heap s a;
     (case msg of
        None \<Rightarrow> Some s
      | Some v \<Rightarrow>
          Some (s\<lparr>call_heap := (call_heap s)(a \<mapsto>
                    curr_call\<lparr>pc_retbuf := pc_retbuf curr_call @ [([], v)]\<rparr>)\<rparr>))
   }"

text \<open>
  The response of a finished call: the output validation, when it is built in and there is
  output, and then the first field of the collected data.
\<close>

definition call_response ::
    "env \<Rightarrow> wsubus_percall_ctx \<Rightarrow> int \<Rightarrow> string option option" where
  "call_response E curr_call status =
     (let resp = jsonrpc__resp_ubus (lib E) (pc_id curr_call) status
                   (case pc_retbuf curr_call of [] \<Rightarrow> None | d # _ \<Rightarrow> Some d) in
      if json_validation E then
        (case pc_retbuf curr_call of
           [] \<Rightarrow> Some resp
         | (_, v) # _ \<Rightarrow> do {
             str \<leftarrow> blobmsg_format_json (lib E) (blobmsg_attrs (lib E) v);
             (case json_tokener_parse E str of
                Some obj \<Rightarrow>
                  if \<not> validate_json_object E obj (uc_object (pc_args curr_call))
                         (uc_method (pc_args curr_call)) SCHEMA_OUTPUT_CALL
                  then Some (jsonrpc__resp_error (lib E) (pc_id curr_call)
                               JSONRPC_ERRORCODE__OUTPUT_FORMAT_ERROR None)
                  else Some resp
              | None \<Rightarrow> Some resp)
           })
      else Some resp)"

definition wsubus_call_on_completed :: "env \<Rightarrow> addr \<Rightarrow> int \<Rightarrow> server \<Rightarrow> server option" where
  "wsubus_call_on_completed E a status s = do {
     curr_call \<leftarrow> call_heap s a;
     if \<not> pc_invoke curr_call then None
     else do {
       json_str \<leftarrow> call_response E curr_call status;
       s \<leftarrow> queue_write E (pc_wsi curr_call) json_str s;
       let s = s\<lparr>call_heap := (call_heap s)(a \<mapsto> curr_call\<lparr>pc_invoke := False\<rparr>)\<rparr>;
       s \<leftarrow> rpc_q_del (pc_wsi curr_call) (RCall a) s;
       wsubus_percall_ctx_destroy a s
     }
   }"

section \<open>The access check of a call\<close>

definition wsubus_access_on_completed :: "env \<Rightarrow> addr \<Rightarrow> addr \<Rightarrow> bool \<Rightarrow> server \<Rightarrow> server option" where
  "wsubus_access_on_completed E req a allow s = do {
     curr_call \<leftarrow> call_heap s a;
     if pc_check curr_call \<noteq> Some req then None
     else do {
       s \<leftarrow> wsubus_access_check_free (pc_check curr_call) s;
       let s = s\<lparr>call_heap := (call_heap s)(a \<mapsto> curr_call\<lparr>pc_check := None\<rparr>)\<rparr>;
       s \<leftarrow> acq_del (pc_wsi curr_call) (OCall a) s;
       (ret, s) \<leftarrow> (if \<not> allow then Some (UBUS_STATUS_PERMISSION_DENIED, s)
                   else wsubus_call_do_call E a s);
       if ret \<noteq> 0 then do {
         s \<leftarrow> queue_write E (pc_wsi curr_call)
               (jsonrpc__resp_ubus (lib E) (pc_id curr_call) UBUS_STATUS_PERMISSION_DENIED None) s;
         s \<leftarrow> rpc_q_del (pc_wsi curr_call) (RCall a) s;
         wsubus_percall_ctx_destroy a s
       }
       else Some s
     }
   }"

definition wsubus_call_do_check_then_do_call :: "env \<Rightarrow> addr \<Rightarrow> server \<Rightarrow> (int \<times> server) option" where
  "wsubus_call_do_check_then_do_call E a s = do {
     curr_call \<leftarrow> call_heap s a;
     s \<leftarrow> acq_add (pc_wsi curr_call) (OCall a) s;
     let (req, s) = wsubus_access_check_new E (OCall a) s;
     let args = pc_args curr_call;
     let s = s\<lparr>call_heap := (call_heap s)(a \<mapsto> curr_call\<lparr>pc_check := req\<rparr>)\<rparr>;
     (ret, s) \<leftarrow>
       (case req of
          None \<Rightarrow> Some (0, s)
        | Some b \<Rightarrow> do {
            (ret, params, s) \<leftarrow> wsubus_access_check__call E b (pc_wsi curr_call) (uc_sid args)
               (uc_object args) (uc_method args) (uc_params args) (OCall a) s;
            let args = args\<lparr>uc_params := (case params of Some ps \<Rightarrow> ps | None \<Rightarrow> uc_params args)\<rparr>;
            Some (ret, s\<lparr>call_heap := (call_heap s)(a \<mapsto> curr_call\<lparr>pc_check := req, pc_args := args\<rparr>)\<rparr>)
          });
     if req = None \<or> ret \<noteq> 0 then do {
       s \<leftarrow> acq_del (pc_wsi curr_call) (OCall a) s;
       s \<leftarrow> wsubus_access_check_free req s;
       Some (UBUS_STATUS_UNKNOWN_ERROR, s)
     }
     else Some (ret, s)
   }"

section \<open>The handlers\<close>

definition handle_call_ubus ::
    "env \<Rightarrow> wsi \<Rightarrow> ubusrpc_blob_call \<Rightarrow> blob_attr option \<Rightarrow> server \<Rightarrow> (int \<times> server) option" where
  "handle_call_ubus E w ubusrpc_req rid s = do {
     _ \<leftarrow> wsi_to_client s w;
     (a, s) \<leftarrow> wsubus_percall_ctx_create E w rid ubusrpc_req s;
     s \<leftarrow> rpc_q_add w (RCall a) s;
     (ret, s) \<leftarrow> wsubus_call_do_check_then_do_call E a s;
     if ret \<noteq> 0 then do {
       s \<leftarrow> rpc_q_del w (RCall a) s;
       s \<leftarrow> wsubus_percall_ctx_destroy a s;
       s \<leftarrow> queue_write E w (jsonrpc__resp_ubus (lib E) rid UBUS_STATUS_PERMISSION_DENIED None) s;
       Some (0, s)
     }
     else Some (0, s)
   }"

definition ubusrpc_handle_call ::
    "env \<Rightarrow> wsi \<Rightarrow> ubusrpc_blob_call \<Rightarrow> blob_attr option \<Rightarrow> server \<Rightarrow> (int \<times> server) option" where
  "ubusrpc_handle_call E w ubusrpc_blob rid s = handle_call_ubus E w ubusrpc_blob rid s"

end
