(* ===== verification/Rpc_Sub.thy ===== *)
theory Rpc_Sub
  imports Access_Check
begin

text \<open>
  The subscription RPCs and the delivery of events, \<open>src/src/rpc_sub.c\<close>.
\<close>

section \<open>Subscriptions\<close>

definition wsubus_unsub_elem :: "addr \<Rightarrow> server \<Rightarrow> server option" where
  "wsubus_unsub_elem a s =
     (case sub_heap s a of
        None \<Rightarrow> None
      | Some elem \<Rightarrow>
          if a \<in> set (listen_list s) then
            Some (s\<lparr>ev_handlers := ev_handlers s - {a},
                    listen_list := remove1 a (listen_list s),
                    sub_heap := (sub_heap s)(a := None)\<rparr>)
          else None)"

text \<open>
  The response code 9 is the one the code sends when the allocation fails. On success the
  subscription owns the parsed arguments.
\<close>

definition ubusrpc_handle_sub ::
    "env \<Rightarrow> wsi \<Rightarrow> string \<Rightarrow> string \<Rightarrow> blob_attr option \<Rightarrow> server \<Rightarrow> (int \<times> server) option" where
  "ubusrpc_handle_sub E w sid pattern rid s = do {
     _ \<leftarrow> wsi_to_client s w;
     (ret, s) \<leftarrow>
       (if \<not> alloc E A_subinfo then Some (9, s)
        else
          let ret = ubus_register_event_handler E pattern; a = next_addr s in
          if ret \<noteq> 0 then Some (ret, s\<lparr>next_addr := a + 1\<rparr>)
          else
            map_option (Pair 0)
              (rpc_q_add w (RSub a)
                (s\<lparr>next_addr := a + 1,
                   sub_heap := (sub_heap s)(a \<mapsto> \<lparr>si_wsi = w, si_sid = sid, si_pattern = pattern\<rparr>),
                   ev_handlers := insert a (ev_handlers s),
                   listen_list := listen_list s @ [a]\<rparr>)));
     s \<leftarrow> queue_write E w (jsonrpc__resp_ubus (lib E) rid ret None) s;
     s \<leftarrow> rpc_q_len_dec w s;
     Some (0, s)
   }"

definition blobmsg_add_sub_info :: "string \<Rightarrow> ws_sub_info_ubus \<Rightarrow> blob_attr" where
  "blobmsg_add_sub_info name info =
     (name, BTable [(''pattern'', BString (si_pattern info)),
                    (''ubus_rpc_session'', BString (si_sid info))])"

fun sub_list_entries :: "server \<Rightarrow> wsi \<Rightarrow> addr list \<Rightarrow> blob_attr list option" where
  "sub_list_entries s w [] = Some []"
| "sub_list_entries s w (a # as) = do {
     elem \<leftarrow> sub_heap s a;
     rest \<leftarrow> sub_list_entries s w as;
     Some (if si_wsi elem = w then blobmsg_add_sub_info [] elem # rest else rest)
   }"

definition ubusrpc_handle_sub_list ::
    "env \<Rightarrow> wsi \<Rightarrow> blob_attr option \<Rightarrow> server \<Rightarrow> (int \<times> server) option" where
  "ubusrpc_handle_sub_list E w rid s = do {
     _ \<leftarrow> wsi_to_peer s w;
     entries \<leftarrow> sub_list_entries s w (listen_list s);
     s \<leftarrow> queue_write E w (jsonrpc__resp_ubus (lib E) rid 0 (Some ([], BArray entries))) s;
     s \<leftarrow> rpc_q_len_dec w s;
     Some (0, s)
   }"

text \<open>The loop of \<open>ubusrpc_handle_unsub\<close>, over the list as it was when the loop began.\<close>

fun unsub_loop :: "wsi \<Rightarrow> string \<Rightarrow> addr list \<Rightarrow> int \<Rightarrow> server \<Rightarrow> (int \<times> server) option" where
  "unsub_loop w pattern [] ret s = Some (ret, s)"
| "unsub_loop w pattern (a # as) ret s = do {
     elem \<leftarrow> sub_heap s a;
     if si_wsi elem = w \<and> strcmp pattern (si_pattern elem) = 0 then do {
       s \<leftarrow> rpc_q_del w (RSub a) s;
       s \<leftarrow> wsubus_unsub_elem a s;
       unsub_loop w pattern as 0 s
     }
     else unsub_loop w pattern as ret s
   }"

definition ubusrpc_handle_unsub ::
    "env \<Rightarrow> wsi \<Rightarrow> string \<Rightarrow> blob_attr option \<Rightarrow> server \<Rightarrow> (int \<times> server) option" where
  "ubusrpc_handle_unsub E w pattern rid s = do {
     _ \<leftarrow> wsi_to_peer s w;
     (ret, s) \<leftarrow> unsub_loop w pattern (listen_list s) 1 s;
     let ret = (if ret \<noteq> 0 then 5 else ret);
     s \<leftarrow> queue_write E w (jsonrpc__resp_ubus (lib E) rid ret None) s;
     s \<leftarrow> rpc_q_len_dec w s;
     Some (0, s)
   }"

section \<open>Events\<close>

definition wsubus_ev_destroy_ctx :: "addr \<Rightarrow> server \<Rightarrow> server option" where
  "wsubus_ev_destroy_ctx a s =
     (if ev_heap s a = None then None else Some (s\<lparr>ev_heap := (ev_heap s)(a := None)\<rparr>))"

definition wsubus_ev_check__destroy :: "addr \<Rightarrow> server \<Rightarrow> server option" where
  "wsubus_ev_check__destroy a s = wsubus_ev_destroy_ctx a s"

definition event_attrs :: "string \<Rightarrow> blob_attr list \<Rightarrow> ws_sub_info_ubus \<Rightarrow> blob_attr list" where
  "event_attrs type msg info =
     [(''jsonrpc'', BString ''2.0''), (''method'', BString ''event''),
      (''params'', BTable [(''type'', BString type), (''data'', BTable msg),
                           blobmsg_add_sub_info ''subscription'' info])]"

definition wsubus_ev_check_cb :: "env \<Rightarrow> addr \<Rightarrow> addr \<Rightarrow> bool \<Rightarrow> server \<Rightarrow> server option" where
  "wsubus_ev_check_cb E req a access s = do {
     t \<leftarrow> ev_heap s a;
     if ev_check t \<noteq> Some req then None
     else do {
       s \<leftarrow> wsubus_access_check_free (ev_check t) s;
       s \<leftarrow> (if \<not> access then Some s
            else do {
              msg \<leftarrow> ev_msg t;
              info \<leftarrow> sub_heap s (ev_info t);
              queue_write E (si_wsi info)
                (blobmsg_format_json (lib E) (event_attrs (ev_type t) msg info)) s
            });
       s \<leftarrow> acq_del (ev_wsi t) (OEv a) s;
       wsubus_ev_destroy_ctx a s
     }
   }"

text \<open>
  The notification and the copy of the event's name are used without a check that they were
  allocated; a missing copy of the message is met later.
\<close>

definition wsubus_sub_cb :: "env \<Rightarrow> addr \<Rightarrow> string \<Rightarrow> blob_attr list \<Rightarrow> server \<Rightarrow> server option" where
  "wsubus_sub_cb E info_a type msg s = do {
     info \<leftarrow> sub_heap s info_a;
     _ \<leftarrow> wsi_to_client s (si_wsi info);
     if \<not> alloc E A_evnotif \<or> \<not> alloc E A_ev_type then None
     else do {
       let a = next_addr s;
       let t = \<lparr>ev_type = type, ev_msg = (if alloc E A_ev_msg then Some msg else None),
                ev_info = info_a, ev_check = None, ev_wsi = si_wsi info\<rparr>;
       let s = s\<lparr>next_addr := a + 1, ev_heap := (ev_heap s)(a \<mapsto> t)\<rparr>;
       s \<leftarrow> acq_add (si_wsi info) (OEv a) s;
       let (req, s) = wsubus_access_check_new E (OEv a) s;
       let s = s\<lparr>ev_heap := (ev_heap s)(a \<mapsto> t\<lparr>ev_check := req\<rparr>)\<rparr>;
       (err, s) \<leftarrow>
         (case req of
            None \<Rightarrow> Some (0, s)
          | Some b \<Rightarrow> do {
              (err, _, s) \<leftarrow>
                wsubus_access_check__event E b (si_wsi info) (si_sid info) type (OEv a) s;
              Some (err, s)
            });
       if req = None \<or> err \<noteq> 0 then do {
         s \<leftarrow> acq_del (si_wsi info) (OEv a) s;
         s \<leftarrow> wsubus_access_check_free req s;
         wsubus_ev_destroy_ctx a s
       }
       else Some s
     }
   }"

end
