(* ===== verification/Peer.thy ===== *)
theory Peer
  imports Rpc_Call Rpc_Sub
begin

text \<open>
  The life of a connection, \<open>src/src/wsubus.impl.h\<close>: the limit on requests per client, the
  initialisation and teardown of a peer, the timer that destroys stale calls, and the writer
  that drains the write queue.
\<close>

section \<open>The request limit\<close>

definition MAX_ASYNC_REQS :: int where
  "MAX_ASYNC_REQS = 512"

text \<open>The division is between an \<open>int\<close> and a \<open>size_t\<close>, so it is unsigned and 64 bits wide.\<close>

definition recalc_req_max :: "int \<Rightarrow> u64 \<Rightarrow> int" where
  "recalc_req_max total_reqs active_ses =
     (if active_ses = 0 then MAX_ASYNC_REQS
      else if (word_of_int total_reqs :: u64) div active_ses < word_of_int MAX_ASYNC_REQS
      then uint ((word_of_int total_reqs :: u64) div active_ses)
      else MAX_ASYNC_REQS)"

section \<open>Initialisation\<close>

datatype role = WSUBUS_ROLE_NONE | WSUBUS_ROLE_CLIENT | WSUBUS_ROLE_REMOTE

definition zero_remote :: wsu_remote_bus where
  "zero_remote =
     \<lparr>call_id = 0, wait_login = False, wait_listen = False, wait_call = 0, wait_list_id = 0,
      calls = replicate MAX_PROXIED_CALLS \<lparr>jsonrpc_id = 0, ureq = 0\<rparr>, stubs = []\<rparr>"

definition fresh_peer :: "bool \<Rightarrow> wsu_role \<Rightarrow> wsu_peer" where
  "fresh_peer ready u =
     \<lparr>peer_ready = ready, curr_msg_text = [], curr_msg_len = 0, write_q = [], peer_sid = [],
      peer_u = u\<rparr>"

definition wsu_peer_init :: "env \<Rightarrow> wsi \<Rightarrow> role \<Rightarrow> server \<Rightarrow> int \<times> server" where
  "wsu_peer_init E w role s =
     (case role of
        WSUBUS_ROLE_CLIENT \<Rightarrow>
          let n = num_active_ses s + 1;
              c = \<lparr>cs_id = clientid s, rpc_q_len = 0,
                   percall_cleaner = (uloop_timeout_set E 2000 = 0),
                   rpc_call_q = [], access_check_q = []\<rparr>;
              s = s\<lparr>num_active_ses := n, req_max := recalc_req_max (total_req_max s) n,
                    clientid := clientid s + 1\<rparr> in
          if alloc E A_tokener then (0, set_peer w (fresh_peer True (UClient c)) s)
          else (1, set_peer w (fresh_peer False (UClient c)) s)
      | WSUBUS_ROLE_REMOTE \<Rightarrow>
          if alloc E A_tokener then (0, set_peer w (fresh_peer True (URemote zero_remote)) s)
          else (1, set_peer w (fresh_peer False (URemote zero_remote)) s)
      | WSUBUS_ROLE_NONE \<Rightarrow> (-1, s))"

section \<open>Stale calls\<close>

text \<open>The two loops that normalise the difference of the nanoseconds.\<close>

function carry_up :: "int \<Rightarrow> int \<Rightarrow> int \<times> int" where
  "carry_up passed nsec =
     (if nsec > 1000000000 then carry_up (passed + 1) (nsec - 1000000000) else (passed, nsec))"
  by pat_completeness auto
termination
  by (relation "measure (\<lambda>(_, nsec). nat nsec)") auto

function carry_down :: "int \<Rightarrow> int \<Rightarrow> int \<times> int" where
  "carry_down passed nsec =
     (if nsec < 0 then carry_down (passed - 1) (nsec + 1000000000) else (passed, nsec))"
  by pat_completeness auto
termination
  by (relation "measure (\<lambda>(_, nsec). nat (- nsec))") auto

declare carry_up.simps [simp del] carry_down.simps [simp del]

definition passed_seconds :: "int \<times> int \<Rightarrow> int \<times> int \<Rightarrow> int" where
  "passed_seconds cur_time req_start =
     (let (passed, nsec) = carry_up (fst cur_time - fst req_start) (snd cur_time - snd req_start) in
      fst (carry_down passed nsec))"

text \<open>
  The loop over the queue as it was when the loop began. A subscription is skipped: its
  \<open>method_call\<close> is false (the times read from it before that test are not used).
\<close>

fun clean_stale_loop :: "env \<Rightarrow> wsi \<Rightarrow> rpc_ref list \<Rightarrow> server \<Rightarrow> server option" where
  "clean_stale_loop E w [] s = Some s"
| "clean_stale_loop E w (RSub a # q) s =
     (if sub_heap s a = None then None else clean_stale_loop E w q s)"
| "clean_stale_loop E w (RCall a # q) s = do {
     cq \<leftarrow> call_heap s a;
     if passed_seconds (monotonic E) (pc_start cq) < 10 then clean_stale_loop E w q s
     else do {
       s \<leftarrow> rpc_q_del w (RCall a) s;
       s \<leftarrow> wsubus_percall_ctx_destroy a s;
       clean_stale_loop E w q s
     }
   }"

definition wsubus_percall_clean_stale :: "env \<Rightarrow> wsi \<Rightarrow> server \<Rightarrow> server option" where
  "wsubus_percall_clean_stale E w s = do {
     client \<leftarrow> wsi_to_client s w;
     s \<leftarrow> clean_stale_loop E w (rpc_call_q client) s;
     upd_client w (\<lambda>c. c\<lparr>percall_cleaner := (uloop_timeout_set E 2000 = 0)\<rparr>) s
   }"

section \<open>Teardown\<close>

definition owner_check :: "server \<Rightarrow> chk_owner \<Rightarrow> addr option" where
  "owner_check s own =
     (case own of
        OCall a \<Rightarrow> Option.bind (call_heap s a) pc_check
      | OEv a \<Rightarrow> Option.bind (ev_heap s a) ev_check)"

fun cancel_checks :: "wsi \<Rightarrow> chk_owner list \<Rightarrow> server \<Rightarrow> server option" where
  "cancel_checks w [] s = Some s"
| "cancel_checks w (p # ps) s = do {
     s \<leftarrow> acq_del w p s;
     b \<leftarrow> owner_check s p;
     s \<leftarrow> wsubus_access_check__cancel b s;
     s \<leftarrow> wsubus_access_check_free (Some b) s;
     s \<leftarrow> (case p of OCall _ \<Rightarrow> Some s | OEv a \<Rightarrow> wsubus_ev_check__destroy a s);
     cancel_checks w ps s
   }"

definition cancel_and_destroy :: "rpc_ref \<Rightarrow> server \<Rightarrow> server option" where
  "cancel_and_destroy r s =
     (case r of RCall a \<Rightarrow> wsubus_percall_ctx_destroy a s | RSub a \<Rightarrow> wsubus_unsub_elem a s)"

fun cancel_calls :: "wsi \<Rightarrow> rpc_ref list \<Rightarrow> server \<Rightarrow> server option" where
  "cancel_calls w [] s = Some s"
| "cancel_calls w (r # rs) s = do {
     s \<leftarrow> rpc_q_del w r s;
     s \<leftarrow> cancel_and_destroy r s;
     cancel_calls w rs s
   }"

definition wsu_peer_deinit :: "wsi \<Rightarrow> server \<Rightarrow> server option" where
  "wsu_peer_deinit w s =
     (case peers s w of
        None \<Rightarrow> Some s
      | Some peer \<Rightarrow>
          if \<not> peer_ready peer then None
          else
            (case peer_u peer of
               UClient c \<Rightarrow>
                 let n = num_active_ses s - 1;
                     s = set_peer w (peer\<lparr>write_q := [], peer_u := UClient (c\<lparr>percall_cleaner := False\<rparr>)\<rparr>)
                           (s\<lparr>num_active_ses := n, req_max := recalc_req_max (total_req_max s) n\<rparr>) in
                 do {
                   s \<leftarrow> cancel_checks w (access_check_q c) s;
                   cancel_calls w (rpc_call_q c) s
                 }
             | URemote r \<Rightarrow>
                 Some (set_peer w (peer\<lparr>write_q := [], peer_u := URemote (r\<lparr>stubs := []\<rparr>)\<rparr>) s)))"

section \<open>The writer\<close>

datatype write_end = Write_error nat | Written nat bool

text \<open>
  The inner loop on one buffer: the count of bytes written so far, whether it ended with an error,
  and the number of writes made. Writing past the end of the buffer is a fault.
\<close>

partial_function (option) write_loop ::
    "(nat \<Rightarrow> nat \<Rightarrow> int \<times> bool) \<Rightarrow> nat \<Rightarrow> nat \<Rightarrow> nat \<Rightarrow> (write_end \<times> nat) option" where
  "write_loop out n len written =
     (if written > len then None
      else
        let (r, partial) = out n (len - written) in
        if r < 0 then Some (Write_error written, n + 1)
        else
          let written = written + nat r in
          if written < len \<and> \<not> partial then write_loop out (n + 1) len written
          else Some (Written written partial, n + 1))"

declare write_loop.simps [code]

definition chunk :: "wsu_writereq \<Rightarrow> nat \<Rightarrow> string" where
  "chunk w written = take (written - wr_written w) (drop (wr_written w) (wr_buf w))"

text \<open>The outer loop: the result, the buffers that remain, and the text handed to the socket.\<close>

fun tx_queue ::
    "(nat \<Rightarrow> nat \<Rightarrow> int \<times> bool) \<Rightarrow> nat \<Rightarrow> wsu_writereq list \<Rightarrow>
     (int \<times> wsu_writereq list \<times> string) option" where
  "tx_queue out n [] = Some (0, [], [])"
| "tx_queue out n (w # q) = do {
     (e, n') \<leftarrow> write_loop out n (length (wr_buf w)) (wr_written w);
     (case e of
        Write_error written \<Rightarrow>
          Some (-1, w\<lparr>wr_written := written\<rparr> # q, chunk w written)
      | Written written partial \<Rightarrow>
          let sent = chunk w written;
              keep = (if written = length (wr_buf w) then [] else [w\<lparr>wr_written := written\<rparr>]) in
          if partial then Some (0, keep @ q, sent)
          else do {
            (rc, q', sent') \<leftarrow> tx_queue out n' q;
            Some (rc, keep @ q', sent @ sent')
          })
   }"

definition wsubus_tx_text :: "env \<Rightarrow> wsi \<Rightarrow> server \<Rightarrow> (int \<times> string \<times> server) option" where
  "wsubus_tx_text E w s = do {
     peer \<leftarrow> wsi_to_peer s w;
     if \<not> peer_ready peer then None
     else do {
       (rc, q, sent) \<leftarrow> tx_queue (lws_write E) 0 (write_q peer);
       let s = set_peer w (peer\<lparr>write_q := q\<rparr>) s;
       Some (rc, sent, if rc < 0 then s\<lparr>shut := insert (w, SHUT_RDWR) (shut s)\<rparr> else s)
     }
   }"

end
