(* ===== verification/Rpc_List.thy ===== *)
theory Rpc_List
  imports Server_State
begin

text \<open>
  The \<open>list\<close> RPC, \<open>src/src/rpc_list.c\<close> and \<open>src/src/rpc_list_ubus.h\<close>: the objects that
  \<open>ubus_lookup\<close> reports, those the access list lets through for certificate sessions, each with
  the signatures of its methods.
\<close>

text \<open>The value of a signature's argument, cast to \<open>enum blobmsg_type\<close>.\<close>

definition blobmsg_type_of_u32 :: "u32 \<Rightarrow> blobmsg_type" where
  "blobmsg_type_of_u32 t =
     (let ts = [BLOBMSG_TYPE_UNSPEC, BLOBMSG_TYPE_ARRAY, BLOBMSG_TYPE_TABLE, BLOBMSG_TYPE_STRING,
                BLOBMSG_TYPE_INT64, BLOBMSG_TYPE_INT32, BLOBMSG_TYPE_INT16, BLOBMSG_TYPE_INT8,
                BLOBMSG_TYPE_DOUBLE] in
      if unat t < length ts then ts ! unat t else BLOBMSG_TYPE_LAST)"

fun lookup_args :: "blob_attr list \<Rightarrow> blob_attr list option" where
  "lookup_args [] = Some []"
| "lookup_args ((name, v) # args) =
     (case v of
        BInt32 t \<Rightarrow> do {
          typestr \<leftarrow> blobmsg_type_to_str (blobmsg_type_of_u32 t);
          rest \<leftarrow> lookup_args args;
          Some ((name, BString (case typestr of Some ts \<Rightarrow> ts | None \<Rightarrow> ''unknown'')) # rest)
        }
      | _ \<Rightarrow> lookup_args args)"

fun lookup_methods :: "libubox \<Rightarrow> string \<Rightarrow> blob_attr list \<Rightarrow> blob_attr list option" where
  "lookup_methods L path [] = Some []"
| "lookup_methods L path ((name, v) # ms) =
     (if \<not> ubusx_acl__allow_method path name then lookup_methods L path ms
      else do {
        args \<leftarrow> lookup_args (blobmsg_attrs L v);
        rest \<leftarrow> lookup_methods L path ms;
        Some ((name, BTable args) # rest)
      })"

definition ubus_lookup_cb ::
    "env \<Rightarrow> server \<Rightarrow> wsi \<Rightarrow> blob_attr list \<Rightarrow> string \<times> blob_attr list option \<Rightarrow>
     blob_attr list option" where
  "ubus_lookup_cb E s w retbuf obj = do {
     peer \<leftarrow> wsi_to_peer s w;
     if strncmp (peer_sid peer) ''X-tls-certificate'' 17 = 0 \<and>
        \<not> ubusx_acl__allow_object olist_ops (acl_tree s) (fst obj)
     then Some retbuf
     else do {
       methods \<leftarrow> (case snd obj of None \<Rightarrow> Some [] | Some sig \<Rightarrow> lookup_methods (lib E) (fst obj) sig);
       Some (retbuf @ [(fst obj, BTable methods)])
     }
   }"

fun lookup_all ::
    "env \<Rightarrow> server \<Rightarrow> wsi \<Rightarrow> blob_attr list \<Rightarrow> (string \<times> blob_attr list option) list \<Rightarrow>
     blob_attr list option" where
  "lookup_all E s w retbuf [] = Some retbuf"
| "lookup_all E s w retbuf (obj # objs) =
     Option.bind (ubus_lookup_cb E s w retbuf obj) (\<lambda>retbuf. lookup_all E s w retbuf objs)"

definition handle_list_ubus ::
    "env \<Rightarrow> wsi \<Rightarrow> string option \<Rightarrow> blob_attr option \<Rightarrow> bool \<Rightarrow> server \<Rightarrow> server option" where
  "handle_list_ubus E w pattern rid output s = do {
     _ \<leftarrow> wsi_to_peer s w;
     let (ret, objs) = ubus_lookup E pattern;
     retbuf \<leftarrow> lookup_all E s w [] objs;
     s \<leftarrow> (if output then
            queue_write E w
              (if ret \<noteq> 0 then jsonrpc__resp_ubus (lib E) rid ret None
               else jsonrpc__resp_ubus (lib E) rid 0 (Some ([], BTable retbuf))) s
          else Some s);
     rpc_q_len_dec w s
   }"

text \<open>
  The request structure lives for this call only. Its allocation is not checked, and
  \<open>blob_memdup\<close> dereferences the id, which is \<open>NULL\<close> when the request has none.
\<close>

definition ubusrpc_handle_list ::
    "env \<Rightarrow> wsi \<Rightarrow> string option \<Rightarrow> blob_attr option \<Rightarrow> server \<Rightarrow> (int \<times> server) option" where
  "ubusrpc_handle_list E w pattern rid s =
     (if \<not> alloc E A_list_req \<or> rid = None then None
      else map_option (Pair 0) (handle_list_ubus E w pattern rid True s))"

end
