(* ===== verification/Wsubus.thy ===== *)
theory Wsubus
  imports Peer Rpc_List
begin

text \<open>
  The \<open>ubus-json\<close> protocol, \<open>src/src/wsubus.c\<close>: the origin filter of the handshake, the
  assembly of messages from frames, the handling of a complete message, and the callback that
  libwebsockets drives.
\<close>

section \<open>The handshake\<close>

definition origin_allowed :: "env \<Rightarrow> string list \<Rightarrow> string \<Rightarrow> bool" where
  "origin_allowed E origin_list origin = list_ex (\<lambda>str. fnmatch_casefold E str origin) origin_list"

text \<open>\<open>len\<close> and \<open>e\<close> are what \<open>lws_hdr_total_length\<close> and \<open>lws_hdr_copy\<close> return.\<close>

definition wsubus_filter :: "env \<Rightarrow> wsi \<Rightarrow> int \<Rightarrow> int \<Rightarrow> string \<Rightarrow> int option" where
  "wsubus_filter E w len e origin =
     (if len < 0 then None
      else if \<not> alloc E A_origin then Some (-1)
      else if len = 0 then Some 0
      else if e < 0 then Some (-3)
      else
        (case vhost E w of
           None \<Rightarrow> Some (-4)
         | Some vc \<Rightarrow>
             if restrict_origins vc \<and> \<not> origin_allowed E (vh_origins vc) origin then Some (-5)
             else Some 0))"

section \<open>A complete message\<close>

text \<open>The call through \<open>ubusrpc_req->handler\<close>.\<close>

definition rpc_dispatch ::
    "env \<Rightarrow> wsi \<Rightarrow> ubusrpc_blob \<Rightarrow> blob_attr option \<Rightarrow> server \<Rightarrow> (int \<times> server) option" where
  "rpc_dispatch E w req rid s =
     (case (ur_handler req, ur_args req) of
        (Ubusrpc_handle_call, CallArgs c) \<Rightarrow> ubusrpc_handle_call E w c rid s
      | (Ubusrpc_handle_list, ListArgs pat) \<Rightarrow> ubusrpc_handle_list E w pat rid s
      | (Ubusrpc_handle_sub, SubArgs pat) \<Rightarrow>
          Option.bind (ur_sid req) (\<lambda>sid. ubusrpc_handle_sub E w sid pat rid s)
      | (Ubusrpc_handle_sub_list, SubListArgs) \<Rightarrow> ubusrpc_handle_sub_list E w rid s
      | (Ubusrpc_handle_unsub, SubArgs pat) \<Rightarrow> ubusrpc_handle_unsub E w pat rid s
      | _ \<Rightarrow> None)"

definition send_error ::
    "env \<Rightarrow> wsi \<Rightarrow> blob_attr option \<Rightarrow> jsonrpc_error_code \<Rightarrow> server \<Rightarrow> server option" where
  "send_error E w rid e s = queue_write E w (jsonrpc__resp_error (lib E) rid e None) s"

definition wsu_on_msg_from_client :: "env \<Rightarrow> wsi \<Rightarrow> blob_attr list \<Rightarrow> server \<Rightarrow> server option" where
  "wsu_on_msg_from_client E w blob s = do {
     client \<leftarrow> wsi_to_client s w;
     if rpc_q_len client > word_of_int (req_max s) then Some s
     else if \<not> alloc E A_jsonrpc_req then
       send_error E w None JSONRPC_ERRORCODE__INTERNAL_ERROR s
     else
       let (rc, req) = jsonrpc_blob_req_parse (lib E) blob; rid = jr_id req in
       if rc \<noteq> 0 then send_error E w rid JSONRPC_ERRORCODE__INVALID_REQUEST s
       else if json_validation E \<and> blobmsg_format_json (lib E) blob = None then Some s
       else do {
         valid \<leftarrow> (if json_validation E
                   then validate_json_call_string E (the (blobmsg_format_json (lib E) blob))
                   else Some True);
         if \<not> valid then send_error E w rid JSONRPC_ERRORCODE__INPUT_FORMAT_ERROR s
         else do {
           method \<leftarrow> jr_method req;
           params \<leftarrow> jr_params req;
           (case ubusrpc_blob_parse (lib E) (blacklist_old E) (alloc E) method params of
              (e, None) \<Rightarrow> send_error E w rid e s
            | (e, Some ubusrpc_req) \<Rightarrow> do {
                peer \<leftarrow> wsi_to_peer s w;
                sid \<leftarrow> ur_sid ubusrpc_req;
                let s = set_peer w (wsu_sid_update peer sid) s;
                (ret, s) \<leftarrow> rpc_dispatch E w ubusrpc_req rid s;
                if ret \<noteq> 0 then send_error E w rid JSONRPC_ERRORCODE__OTHER s
                else rpc_q_len_inc w s
              })
         }
       }
   }"

section \<open>Receiving\<close>

definition wsu_read_reset :: "wsi \<Rightarrow> server \<Rightarrow> server option" where
  "wsu_read_reset w s =
     (case peers s w of
        None \<Rightarrow> None
      | Some p \<Rightarrow> Some (set_peer w (p\<lparr>curr_msg_text := [], curr_msg_len := 0\<rparr>) s))"

definition wsubus_rx_json :: "env \<Rightarrow> wsi \<Rightarrow> string \<Rightarrow> u64 \<Rightarrow> bool \<Rightarrow> server \<Rightarrow> server option" where
  "wsubus_rx_json E w txt remaining final s = do {
     peer \<leftarrow> wsi_to_peer s w;
     if \<not> length txt < 2147483647 \<or> \<not> peer_ready peer then None
     else
       let (jobj, continue, parsed_to) = json_tokener_parse_ex E (curr_msg_text peer) txt;
           s = set_peer w (peer\<lparr>curr_msg_text := curr_msg_text peer @ txt,
                               curr_msg_len := curr_msg_len peer + of_nat (length txt)\<rparr>) s in
       if remaining = 0 \<and> final then do {
         s \<leftarrow> (case jobj of
                Some (JObject fs) \<Rightarrow>
                  if parsed_to = int (length txt)
                  then wsu_on_msg_from_client E w (blobmsg_add_object E (JObject fs)) s
                  else send_error E w None JSONRPC_ERRORCODE__PARSE_ERROR s
              | _ \<Rightarrow> send_error E w None JSONRPC_ERRORCODE__PARSE_ERROR s);
         wsu_read_reset w s
       }
       else if \<not> continue then Some (s\<lparr>shut := insert (w, SHUT_RDWR) (shut s)\<rparr>)
       else Some s
   }"

definition wsubus_rx_blob :: "server \<Rightarrow> server option" where
  "wsubus_rx_blob s = Some s"

definition wsubus_rx :: "env \<Rightarrow> wsi \<Rightarrow> bool \<Rightarrow> string \<Rightarrow> u64 \<Rightarrow> bool \<Rightarrow> server \<Rightarrow> server option" where
  "wsubus_rx E w binary txt remaining final s = do {
     peer \<leftarrow> wsi_to_peer s w;
     let len = (of_nat (length txt) :: u64);
     let max = (of_nat WSUBUS_MAX_MESSAGE_LEN :: u64);
     let s = (if len > max \<or> remaining > max \<or> curr_msg_len peer + len + remaining > max
              then s\<lparr>shut := insert (w, SHUT_RD) (shut s)\<rparr> else s);
     if binary then wsubus_rx_blob s else wsubus_rx_json E w txt remaining final s
   }"

section \<open>The protocol callback\<close>

datatype lws_reason =
    LWS_CALLBACK_FILTER_PROTOCOL_CONNECTION int int string
  | LWS_CALLBACK_ESTABLISHED
  | LWS_CALLBACK_RECEIVE bool string u64 bool
  | LWS_CALLBACK_SERVER_WRITEABLE
  | LWS_CALLBACK_CLIENT_WRITEABLE
  | LWS_CALLBACK_CLOSED
  | LWS_CALLBACK_WS_PEER_INITIATED_CLOSE
  | LWS_CALLBACK_OTHER

definition wsubus_cb :: "env \<Rightarrow> wsi \<Rightarrow> lws_reason \<Rightarrow> server \<Rightarrow> (int \<times> server) option" where
  "wsubus_cb E w reason s =
     (case reason of
        LWS_CALLBACK_FILTER_PROTOCOL_CONNECTION len e origin \<Rightarrow>
          map_option (\<lambda>r. (if r \<noteq> 0 then -1 else 0, s)) (wsubus_filter E w len e origin)
      | LWS_CALLBACK_ESTABLISHED \<Rightarrow>
          let (r, s) = wsu_peer_init E w WSUBUS_ROLE_CLIENT s in Some (if r \<noteq> 0 then -1 else 0, s)
      | LWS_CALLBACK_RECEIVE binary txt remaining final \<Rightarrow>
          map_option (Pair 0) (wsubus_rx E w binary txt remaining final s)
      | LWS_CALLBACK_SERVER_WRITEABLE \<Rightarrow> map_option (\<lambda>(rc, _, s). (rc, s)) (wsubus_tx_text E w s)
      | LWS_CALLBACK_CLIENT_WRITEABLE \<Rightarrow> map_option (\<lambda>(rc, _, s). (rc, s)) (wsubus_tx_text E w s)
      | LWS_CALLBACK_CLOSED \<Rightarrow> map_option (Pair 0) (wsu_peer_deinit w s)
      | LWS_CALLBACK_WS_PEER_INITIATED_CLOSE \<Rightarrow> Some (0, s)
      | LWS_CALLBACK_OTHER \<Rightarrow> Some (0, s))"

end
