(* ===== verification/Ownership.thy ===== *)
theory Ownership
  imports Server_State
begin

text \<open>
  The abstract state machine behind the asynchronous requests of \<open>src/src/wsubus.impl.h\<close>,
  \<open>rpc_call_ubus.h\<close>, \<open>rpc_sub.c\<close> and \<open>access_check.c\<close>: who owns which object. A \<open>view\<close> keeps of
  every object only what ownership needs, \<open>view_inv\<close> says that the queues of the clients, the
  objects and what the libraries have pending agree, and the abstract operations are what the
  handlers do. The handlers are shown to implement them in \<open>Server_Inv\<close> and later theories.
\<close>

section \<open>Views\<close>

record view =
  v_rq :: "wsi \<Rightarrow> rpc_ref list"
  v_aq :: "wsi \<Rightarrow> chk_owner list"
  v_call :: "addr \<Rightarrow> (wsi \<times> addr option \<times> bool) option"
  v_sub :: "addr \<Rightarrow> wsi option"
  v_ev :: "addr \<Rightarrow> (wsi \<times> addr \<times> addr option \<times> bool) option"
  v_chk :: "addr \<Rightarrow> (chk_owner \<times> req_tag) option"
  v_reqs :: "ubus_req set"
  v_timers :: "addr set"
  v_listen :: "addr list"
  v_handlers :: "addr set"
  v_next :: addr

text \<open>
  The queues list exactly the objects of their client, each once; a notification has its copy of
  the message, a check under way and a live subscription of the same client.
\<close>

definition queues_ok :: "view \<Rightarrow> bool" where
  "queues_ok v \<longleftrightarrow>
     (\<forall>w. distinct (v_rq v w)) \<and> (\<forall>w. distinct (v_aq v w)) \<and>
     (\<forall>w a. RCall a \<in> set (v_rq v w) \<longleftrightarrow> (\<exists>b i. v_call v a = Some (w, b, i))) \<and>
     (\<forall>w a. RSub a \<in> set (v_rq v w) \<longleftrightarrow> v_sub v a = Some w) \<and>
     (\<forall>w a. OCall a \<in> set (v_aq v w) \<longleftrightarrow> (\<exists>b i. v_call v a = Some (w, Some b, i))) \<and>
     (\<forall>w a. OEv a \<in> set (v_aq v w) \<longleftrightarrow> (\<exists>x. v_ev v a = Some (w, x)))"

definition events_ok :: "view \<Rightarrow> bool" where
  "events_ok v \<longleftrightarrow>
     (\<forall>a w i b m. v_ev v a = Some (w, i, b, m) \<longrightarrow> m \<and> b \<noteq> None \<and> v_sub v i = Some w)"

text \<open>A check belongs to the object that points to it, and the other way round.\<close>

definition checks_ok :: "view \<Rightarrow> bool" where
  "checks_ok v \<longleftrightarrow>
     (\<forall>a b. (\<exists>w i. v_call v a = Some (w, Some b, i)) \<longleftrightarrow> (\<exists>t. v_chk v b = Some (OCall a, t))) \<and>
     (\<forall>a b. (\<exists>w i m. v_ev v a = Some (w, i, Some b, m)) \<longleftrightarrow> (\<exists>t. v_chk v b = Some (OEv a, t)))"

text \<open>
  Every check is pending as a ubus request or as a timer, by its tag; a call is either being
  checked or invoked, and the invoked ones are the pending call requests.
\<close>

definition pending_ok :: "view \<Rightarrow> bool" where
  "pending_ok v \<longleftrightarrow>
     (\<forall>b. UChk b \<in> v_reqs v \<longleftrightarrow> (\<exists>own. v_chk v b = Some (own, REQ_TAG_UBUS))) \<and>
     (\<forall>b. b \<in> v_timers v \<longleftrightarrow> (\<exists>own. v_chk v b = Some (own, REQ_TAG_DEFER))) \<and>
     (\<forall>a. UCall a \<in> v_reqs v \<longleftrightarrow> (\<exists>w b. v_call v a = Some (w, b, True))) \<and>
     (\<forall>a w b i. v_call v a = Some (w, b, i) \<longrightarrow> (b = None \<longleftrightarrow> i))"

definition listen_ok :: "view \<Rightarrow> bool" where
  "listen_ok v \<longleftrightarrow>
     distinct (v_listen v) \<and> (\<forall>a. a \<in> set (v_listen v) \<longleftrightarrow> v_sub v a \<noteq> None) \<and>
     (\<forall>a. a \<in> v_handlers v \<longleftrightarrow> v_sub v a \<noteq> None)"

definition fresh_ok :: "view \<Rightarrow> bool" where
  "fresh_ok v \<longleftrightarrow>
     (\<forall>a. v_next v \<le> a \<longrightarrow>
        v_call v a = None \<and> v_sub v a = None \<and> v_ev v a = None \<and> v_chk v a = None)"

definition view_inv :: "view \<Rightarrow> bool" where
  "view_inv v \<longleftrightarrow>
     queues_ok v \<and> events_ok v \<and> checks_ok v \<and> pending_ok v \<and> listen_ok v \<and> fresh_ok v"

section \<open>Abstract operations\<close>

definition pend :: "req_tag \<Rightarrow> addr \<Rightarrow> view \<Rightarrow> view" where
  "pend t b v =
     (case t of
        REQ_TAG_UBUS \<Rightarrow> v\<lparr>v_reqs := insert (UChk b) (v_reqs v)\<rparr>
      | REQ_TAG_DEFER \<Rightarrow> v\<lparr>v_timers := insert b (v_timers v)\<rparr>)"

text \<open>A call of \<open>w\<close> at a new address, with its check at the next one.\<close>

definition add_call :: "wsi \<Rightarrow> req_tag \<Rightarrow> view \<Rightarrow> view" where
  "add_call w t v =
     (let a = v_next v; b = v_next v + 1 in
      pend t b (v\<lparr>v_next := v_next v + 2,
                  v_call := (v_call v)(a \<mapsto> (w, Some b, False)),
                  v_chk := (v_chk v)(b \<mapsto> (OCall a, t)),
                  v_rq := (v_rq v)(w := v_rq v w @ [RCall a]),
                  v_aq := (v_aq v)(w := v_aq v w @ [OCall a])\<rparr>))"

definition add_sub :: "wsi \<Rightarrow> view \<Rightarrow> view" where
  "add_sub w v =
     (let a = v_next v in
      v\<lparr>v_next := a + 1,
        v_sub := (v_sub v)(a \<mapsto> w),
        v_rq := (v_rq v)(w := v_rq v w @ [RSub a]),
        v_listen := v_listen v @ [a],
        v_handlers := insert a (v_handlers v)\<rparr>)"

definition add_ev :: "wsi \<Rightarrow> addr \<Rightarrow> req_tag \<Rightarrow> view \<Rightarrow> view" where
  "add_ev w i t v =
     (let a = v_next v; b = v_next v + 1 in
      pend t b (v\<lparr>v_next := v_next v + 2,
                  v_ev := (v_ev v)(a \<mapsto> (w, i, Some b, True)),
                  v_chk := (v_chk v)(b \<mapsto> (OEv a, t)),
                  v_aq := (v_aq v)(w := v_aq v w @ [OEv a])\<rparr>))"

text \<open>The check \<open>b\<close> of call \<open>a\<close> of client \<open>w\<close> has passed and the method is invoked.\<close>

definition invoke_call :: "wsi \<Rightarrow> addr \<Rightarrow> addr \<Rightarrow> view \<Rightarrow> view" where
  "invoke_call w a b v =
     v\<lparr>v_call := (v_call v)(a \<mapsto> (w, None, True)),
       v_chk := (v_chk v)(b := None),
       v_aq := (v_aq v)(w := remove1 (OCall a) (v_aq v w)),
       v_reqs := insert (UCall a) (v_reqs v - {UChk b}),
       v_timers := v_timers v - {b}\<rparr>"

text \<open>
  Removing the objects of \<open>R\<close> and the notifications of \<open>N\<close>, with their checks and whatever is
  pending for them.
\<close>

definition owned :: "rpc_ref set \<Rightarrow> addr set \<Rightarrow> chk_owner \<Rightarrow> bool" where
  "owned R N own = (case own of OCall a \<Rightarrow> RCall a \<in> R | OEv a \<Rightarrow> a \<in> N)"

definition owned_chk :: "rpc_ref set \<Rightarrow> addr set \<Rightarrow> view \<Rightarrow> addr \<Rightarrow> bool" where
  "owned_chk R N v b = (case v_chk v b of Some (own, _) \<Rightarrow> owned R N own | None \<Rightarrow> False)"

definition owned_req :: "rpc_ref set \<Rightarrow> addr set \<Rightarrow> view \<Rightarrow> ubus_req \<Rightarrow> bool" where
  "owned_req R N v q = (case q of UChk b \<Rightarrow> owned_chk R N v b | UCall a \<Rightarrow> RCall a \<in> R)"

definition remove_objs :: "rpc_ref set \<Rightarrow> addr set \<Rightarrow> view \<Rightarrow> view" where
  "remove_objs R N v =
     v\<lparr>v_rq := (\<lambda>w. filter (\<lambda>r. r \<notin> R) (v_rq v w)),
       v_aq := (\<lambda>w. filter (\<lambda>own. \<not> owned R N own) (v_aq v w)),
       v_call := (\<lambda>a. if RCall a \<in> R then None else v_call v a),
       v_sub := (\<lambda>a. if RSub a \<in> R then None else v_sub v a),
       v_ev := (\<lambda>a. if a \<in> N then None else v_ev v a),
       v_chk := (\<lambda>b. if owned_chk R N v b then None else v_chk v b),
       v_reqs := {q \<in> v_reqs v. \<not> owned_req R N v q},
       v_timers := {b \<in> v_timers v. \<not> owned_chk R N v b},
       v_listen := filter (\<lambda>a. RSub a \<notin> R) (v_listen v),
       v_handlers := {a \<in> v_handlers v. RSub a \<notin> R}\<rparr>"

section \<open>The operations keep the invariant\<close>

lemma pend_simps [simp]:
  "v_rq (pend t b v) = v_rq v" "v_aq (pend t b v) = v_aq v" "v_call (pend t b v) = v_call v"
  "v_sub (pend t b v) = v_sub v" "v_ev (pend t b v) = v_ev v" "v_chk (pend t b v) = v_chk v"
  "v_listen (pend t b v) = v_listen v" "v_handlers (pend t b v) = v_handlers v"
  "v_next (pend t b v) = v_next v"
  "v_reqs (pend t b v) = (if t = REQ_TAG_UBUS then insert (UChk b) (v_reqs v) else v_reqs v)"
  "v_timers (pend t b v) = (if t = REQ_TAG_DEFER then insert b (v_timers v) else v_timers v)"
  by (cases t; simp add: pend_def)+

lemma fresh_okD:
  "fresh_ok v \<Longrightarrow> v_next v \<le> a \<Longrightarrow>
   v_call v a = None \<and> v_sub v a = None \<and> v_ev v a = None \<and> v_chk v a = None"
  by (simp add: fresh_ok_def)

lemma fresh_unqueued:
  assumes "view_inv v" "v_next v \<le> a"
  shows "RCall a \<notin> set (v_rq v w)" "RSub a \<notin> set (v_rq v w)"
    "OCall a \<notin> set (v_aq v w)" "OEv a \<notin> set (v_aq v w)"
    "UCall a \<notin> v_reqs v" "UChk a \<notin> v_reqs v" "a \<notin> v_timers v" "a \<notin> set (v_listen v)"
    "v_call v a' = Some (w', Some a, i') \<Longrightarrow> False" "v_ev v a' = Some (w', i, Some a, m) \<Longrightarrow> False"
    "v_chk v b = Some (OCall a, t) \<Longrightarrow> False" "v_chk v b = Some (OEv a, t) \<Longrightarrow> False"
proof -
  note none = fresh_okD [of v a]
  have "fresh_ok v" "queues_ok v" "checks_ok v" "pending_ok v" "listen_ok v"
    using assms(1) by (simp_all add: view_inv_def)
  note inv = this
  show "RCall a \<notin> set (v_rq v w)" "RSub a \<notin> set (v_rq v w)"
    "OCall a \<notin> set (v_aq v w)" "OEv a \<notin> set (v_aq v w)"
    using none inv assms(2) by (simp_all add: queues_ok_def)
  show "UCall a \<notin> v_reqs v" "UChk a \<notin> v_reqs v" "a \<notin> v_timers v"
    using none inv assms(2) by (simp_all add: pending_ok_def)
  show "a \<notin> set (v_listen v)"
    using none inv assms(2) by (simp add: listen_ok_def)
  show "v_call v a' = Some (w', Some a, i') \<Longrightarrow> False" "v_ev v a' = Some (w', i, Some a, m) \<Longrightarrow> False"
    "v_chk v b = Some (OCall a, t) \<Longrightarrow> False" "v_chk v b = Some (OEv a, t) \<Longrightarrow> False"
    using none inv assms(2) unfolding checks_ok_def by (metis option.distinct(1))+
qed

lemma view_inv_next: "view_inv v \<Longrightarrow> v_next v \<le> n \<Longrightarrow> view_inv (v\<lparr>v_next := n\<rparr>)"
  unfolding view_inv_def queues_ok_def events_ok_def checks_ok_def pending_ok_def listen_ok_def
    fresh_ok_def by (simp, meson order_trans)

lemma add_call_inv:
  assumes v: "view_inv v"
  shows "view_inv (add_call w t v)"
proof -
  let ?v = "add_call w t v"
  let ?a = "v_next v" and ?b = "v_next v + 1"
  have inv: "queues_ok v" "events_ok v" "checks_ok v" "pending_ok v" "listen_ok v" "fresh_ok v"
    using v by (simp_all add: view_inv_def)
  note none = fresh_okD [OF inv(6), of ?a, simplified] fresh_okD [OF inv(6), of ?b, simplified]
  note fa = fresh_unqueued [OF v, of ?a, simplified] and fb = fresh_unqueued [OF v, of ?b, simplified]
  have "queues_ok ?v"
    using inv(1) fa none unfolding queues_ok_def add_call_def Let_def by (auto split: if_splits)
  moreover have "events_ok ?v" "listen_ok ?v"
    using inv unfolding events_ok_def listen_ok_def add_call_def Let_def by (simp, blast, simp)
  moreover have "checks_ok ?v"
    using inv(3) fa fb none unfolding checks_ok_def add_call_def Let_def by (auto split: if_splits)
  moreover have "pending_ok ?v"
    using inv(4) fa fb none unfolding pending_ok_def add_call_def Let_def
    by (cases t) (auto split: if_splits)
  moreover have "fresh_ok ?v"
    using inv(6) by (simp add: fresh_ok_def add_call_def Let_def)
  ultimately show ?thesis by (simp add: view_inv_def)
qed

lemma add_sub_inv:
  assumes v: "view_inv v"
  shows "view_inv (add_sub w v)"
proof -
  let ?v = "add_sub w v" and ?a = "v_next v"
  have inv: "queues_ok v" "events_ok v" "checks_ok v" "pending_ok v" "listen_ok v" "fresh_ok v"
    using v by (simp_all add: view_inv_def)
  note none = fresh_okD [OF inv(6), of ?a, simplified]
  note fa = fresh_unqueued [OF v, of ?a, simplified]
  have "queues_ok ?v"
    using inv(1) fa none unfolding queues_ok_def add_sub_def Let_def by (auto split: if_splits)
  moreover have "events_ok ?v"
    using inv(2) none unfolding events_ok_def add_sub_def Let_def by (simp, metis option.distinct(1))
  moreover have "checks_ok ?v" "pending_ok ?v"
    using inv unfolding checks_ok_def pending_ok_def add_sub_def Let_def by simp_all
  moreover have "listen_ok ?v"
    using inv(5) fa none unfolding listen_ok_def add_sub_def Let_def by auto
  moreover have "fresh_ok ?v"
    using inv(6) by (simp add: fresh_ok_def add_sub_def Let_def)
  ultimately show ?thesis by (simp add: view_inv_def)
qed

lemma add_ev_inv:
  assumes v: "view_inv v" and i: "v_sub v i = Some w"
  shows "view_inv (add_ev w i t v)"
proof -
  let ?v = "add_ev w i t v"
  let ?a = "v_next v" and ?b = "v_next v + 1"
  have inv: "queues_ok v" "events_ok v" "checks_ok v" "pending_ok v" "listen_ok v" "fresh_ok v"
    using v by (simp_all add: view_inv_def)
  note none = fresh_okD [OF inv(6), of ?a, simplified] fresh_okD [OF inv(6), of ?b, simplified]
  note fa = fresh_unqueued [OF v, of ?a, simplified] and fb = fresh_unqueued [OF v, of ?b, simplified]
  have "queues_ok ?v"
    using inv(1) fa none unfolding queues_ok_def add_ev_def Let_def by (auto split: if_splits)
  moreover have "events_ok ?v"
    using inv(2) i unfolding events_ok_def add_ev_def Let_def by (simp, blast)
  moreover have "listen_ok ?v"
    using inv by (simp add: listen_ok_def add_ev_def Let_def)
  moreover have "checks_ok ?v"
    using inv(3) fa fb none unfolding checks_ok_def add_ev_def Let_def by (auto split: if_splits)
  moreover have "pending_ok ?v"
    using inv(4) fa fb none unfolding pending_ok_def add_ev_def Let_def
    by (cases t) (auto split: if_splits)
  moreover have "fresh_ok ?v"
    using inv(6) by (simp add: fresh_ok_def add_ev_def Let_def)
  ultimately show ?thesis by (simp add: view_inv_def)
qed

lemma invoke_call_inv:
  assumes v: "view_inv v" and a: "v_call v a = Some (w, Some b, i)"
  shows "view_inv (invoke_call w a b v)"
proof -
  let ?v = "invoke_call w a b v"
  have inv: "queues_ok v" "events_ok v" "checks_ok v" "pending_ok v" "listen_ok v" "fresh_ok v"
    using v by (simp_all add: view_inv_def)
  obtain t where b: "v_chk v b = Some (OCall a, t)"
    using inv(3) a unfolding checks_ok_def by blast
  have only: "b' = b" if "v_chk v b' = Some (OCall a, t')" for b' t'
  proof -
    have "\<exists>w i. v_call v a = Some (w, Some b', i)"
      using that inv(3) unfolding checks_ok_def by blast
    then show ?thesis using a by simp
  qed
  have "distinct (v_aq v w)" using inv(1) by (simp add: queues_ok_def)
  then have "queues_ok ?v"
    using inv(1) a unfolding queues_ok_def invoke_call_def by (auto split: if_splits)
  moreover have "events_ok ?v" "listen_ok ?v"
    using inv unfolding events_ok_def listen_ok_def invoke_call_def by (simp, blast, simp)
  moreover have "(\<exists>w' i'. v_call ?v a' = Some (w', Some b', i')) \<longleftrightarrow>
      (\<exists>t'. v_chk ?v b' = Some (OCall a', t'))" for a' b'
  proof (cases "a' = a")
    case True
    then show ?thesis by (auto simp: invoke_call_def dest: only)
  next
    case False
    have "(\<exists>w' i'. v_call v a' = Some (w', Some b', i')) \<longleftrightarrow> (\<exists>t'. v_chk v b' = Some (OCall a', t'))"
      using inv(3) by (simp add: checks_ok_def)
    then show ?thesis using False b by (auto simp: invoke_call_def)
  qed
  moreover have "(\<exists>w' i' m. v_ev ?v a' = Some (w', i', Some b', m)) \<longleftrightarrow>
      (\<exists>t'. v_chk ?v b' = Some (OEv a', t'))" for a' b'
    using inv(3) b by (simp add: checks_ok_def invoke_call_def)
  ultimately have "checks_ok ?v" "queues_ok ?v" "events_ok ?v" "listen_ok ?v"
    by (simp_all add: checks_ok_def)
  moreover have "pending_ok ?v"
    using inv(4) a b unfolding pending_ok_def invoke_call_def by (auto split: if_splits)
  moreover have "fresh_ok ?v"
    using inv(6) a by (auto simp: fresh_ok_def invoke_call_def)
  ultimately show ?thesis by (simp add: view_inv_def)
qed

lemma remove_objs_inv:
  assumes v: "view_inv v"
    and closed: "\<And>a w i b m. v_ev v a = Some (w, i, b, m) \<Longrightarrow> RSub i \<in> R \<Longrightarrow> a \<in> N"
  shows "view_inv (remove_objs R N v)"
proof -
  let ?v = "remove_objs R N v"
  have inv: "queues_ok v" "events_ok v" "checks_ok v" "pending_ok v" "listen_ok v" "fresh_ok v"
    using v by (simp_all add: view_inv_def)
  have "queues_ok ?v"
    using inv(1) unfolding queues_ok_def remove_objs_def by (auto simp: owned_def)
  moreover have "events_ok ?v"
    using inv(2) closed unfolding events_ok_def remove_objs_def
    by (simp split: if_splits) (metis option.discI)
  moreover have "listen_ok ?v"
    using inv(5) unfolding listen_ok_def remove_objs_def by auto
  moreover have "checks_ok ?v"
    using inv(3) unfolding checks_ok_def remove_objs_def owned_chk_def owned_def
    by (auto split: if_splits option.splits prod.splits chk_owner.splits)
  moreover have "pending_ok ?v"
    using inv(4) unfolding pending_ok_def remove_objs_def owned_req_def owned_chk_def
    by (auto split: if_splits option.splits)
  moreover have "fresh_ok ?v"
    using inv(6) by (auto simp: fresh_ok_def remove_objs_def)
  ultimately show ?thesis by (simp add: view_inv_def)
qed

end
