(* ===== verification/Server_Inv.thy ===== *)
theory Server_Inv
  imports Wsubus Ownership
begin

text \<open>
  The invariant that ties the heap, the queues of the clients and what the libraries have under
  way together, and the calculus used to show that the handlers keep it: \<open>put w c s\<close> is the
  state with the session of \<open>w\<close> replaced, \<open>enqueue E w r s\<close> the state with a response appended
  to the write queue of \<open>w\<close> when it can be.
\<close>

section \<open>Sessions as a view of the peers\<close>

definition put :: "wsi \<Rightarrow> wsu_client_session \<Rightarrow> server \<Rightarrow> server" where
  "put w c s = set_peer w ((the (peers s w))\<lparr>peer_u := UClient c\<rparr>) s"

definition enqueue :: "env \<Rightarrow> wsi \<Rightarrow> string option \<Rightarrow> server \<Rightarrow> server" where
  "enqueue E w r s =
     (case r of
        Some str \<Rightarrow>
          if alloc E A_write then
            set_peer w ((the (peers s w))\<lparr>write_q := write_q (the (peers s w)) @ [\<lparr>wr_buf = str, wr_written = 0\<rparr>]\<rparr>) s
          else s
      | None \<Rightarrow> s)"

definition rq :: "server \<Rightarrow> wsi \<Rightarrow> rpc_ref list" where
  "rq s w = (case wsi_to_client s w of Some c \<Rightarrow> rpc_call_q c | None \<Rightarrow> [])"

definition aq :: "server \<Rightarrow> wsi \<Rightarrow> chk_owner list" where
  "aq s w = (case wsi_to_client s w of Some c \<Rightarrow> access_check_q c | None \<Rightarrow> [])"

text \<open>Every connection is initialised and no buffer is written past its end.\<close>

definition peer_ok :: "wsu_peer \<Rightarrow> bool" where
  "peer_ok p \<longleftrightarrow> peer_ready p \<and> (\<forall>x\<in>set (write_q p). wr_written x \<le> length (wr_buf x))"

lemma peer_ok_upd [simp]:
  "peer_ok (p\<lparr>peer_u := u\<rparr>) = peer_ok p" "peer_ok (p\<lparr>peer_sid := i\<rparr>) = peer_ok p"
  "peer_ok (p\<lparr>curr_msg_text := t\<rparr>) = peer_ok p" "peer_ok (p\<lparr>curr_msg_len := l\<rparr>) = peer_ok p"
  "peer_ok (p\<lparr>write_q := write_q p @ [\<lparr>wr_buf = str, wr_written = 0\<rparr>]\<rparr>) = peer_ok p"
  by (auto simp: peer_ok_def)

definition all_ready :: "server \<Rightarrow> bool" where
  "all_ready s \<longleftrightarrow> (\<forall>w p. peers s w = Some p \<longrightarrow> peer_ok p)"

text \<open>The fields that a change of the peers alone leaves as they are.\<close>

lemma set_peer_frame [simp]:
  "num_active_ses (set_peer w p s) = num_active_ses s" "req_max (set_peer w p s) = req_max s"
  "total_req_max (set_peer w p s) = total_req_max s" "clientid (set_peer w p s) = clientid s"
  "acl_tree (set_peer w p s) = acl_tree s" "call_heap (set_peer w p s) = call_heap s"
  "sub_heap (set_peer w p s) = sub_heap s" "ev_heap (set_peer w p s) = ev_heap s"
  "chk_heap (set_peer w p s) = chk_heap s" "next_addr (set_peer w p s) = next_addr s"
  "listen_list (set_peer w p s) = listen_list s" "ubus_reqs (set_peer w p s) = ubus_reqs s"
  "timers (set_peer w p s) = timers s" "ev_handlers (set_peer w p s) = ev_handlers s"
  "shut (set_peer w p s) = shut s" "invoked (set_peer w p s) = invoked s"
  "peers (set_peer w p s) = (peers s)(w \<mapsto> p)"
  by (simp_all add: set_peer_def)

lemma set_peer_commute [simp]:
  "set_peer w p (call_heap_update f s) = call_heap_update f (set_peer w p s)"
  "set_peer w p (sub_heap_update g s) = sub_heap_update g (set_peer w p s)"
  "set_peer w p (ev_heap_update h s) = ev_heap_update h (set_peer w p s)"
  "set_peer w p (chk_heap_update k s) = chk_heap_update k (set_peer w p s)"
  "set_peer w p (next_addr_update l s) = next_addr_update l (set_peer w p s)"
  "set_peer w p (listen_list_update m s) = listen_list_update m (set_peer w p s)"
  "set_peer w p (ubus_reqs_update n s) = ubus_reqs_update n (set_peer w p s)"
  "set_peer w p (timers_update i s) = timers_update i (set_peer w p s)"
  "set_peer w p (ev_handlers_update j s) = ev_handlers_update j (set_peer w p s)"
  "set_peer w p (invoked_update q s) = invoked_update q (set_peer w p s)"
  by (simp_all add: set_peer_def)

lemma set_peer_twice [simp]: "set_peer w p (set_peer w q s) = set_peer w p s"
  by (simp add: set_peer_def)

lemma wsi_to_client_frame [simp]:
  "wsi_to_client (call_heap_update f s) = wsi_to_client s"
  "wsi_to_client (sub_heap_update g s) = wsi_to_client s"
  "wsi_to_client (ev_heap_update h s) = wsi_to_client s"
  "wsi_to_client (chk_heap_update k s) = wsi_to_client s"
  "wsi_to_client (next_addr_update l s) = wsi_to_client s"
  "wsi_to_client (listen_list_update m s) = wsi_to_client s"
  "wsi_to_client (ubus_reqs_update n s) = wsi_to_client s"
  "wsi_to_client (timers_update i s) = wsi_to_client s"
  "wsi_to_client (ev_handlers_update j s) = wsi_to_client s"
  "wsi_to_client (invoked_update q s) = wsi_to_client s"
  "wsi_to_client (shut_update r s) = wsi_to_client s"
  "wsi_to_client (num_active_ses_update t s) = wsi_to_client s"
  "wsi_to_client (req_max_update u s) = wsi_to_client s"
  by (simp_all add: fun_eq_iff wsi_to_client_def wsi_to_peer_def)

lemma wsi_to_client_set_peer [simp]:
  "wsi_to_client (set_peer w p s) = (wsi_to_client s)(w := client_of p)"
  by (simp add: fun_eq_iff wsi_to_client_def wsi_to_peer_def)

lemma client_of_simps [simp]:
  "client_of (p\<lparr>peer_u := UClient c\<rparr>) = Some c" "client_of (p\<lparr>write_q := q\<rparr>) = client_of p"
  "client_of (p\<lparr>peer_sid := i\<rparr>) = client_of p" "client_of (p\<lparr>curr_msg_text := t\<rparr>) = client_of p"
  "client_of (p\<lparr>curr_msg_len := l\<rparr>) = client_of p"
  by (simp_all add: client_of_def)

lemma wsi_to_client_peer:
  "wsi_to_client s w = Some c \<Longrightarrow> \<exists>p. peers s w = Some p \<and> peer_u p = UClient c"
  by (cases "peers s w"; cases "peer_u (the (peers s w))")
    (simp_all add: wsi_to_client_def wsi_to_peer_def client_of_def)

lemma upd_client_put:
  "wsi_to_client s w = Some c \<Longrightarrow> upd_client w f s = Some (put w (f c) s)"
  by (auto dest!: wsi_to_client_peer simp: upd_client_def put_def)

lemma wsi_to_client_put [simp]: "wsi_to_client (put w c s) = (wsi_to_client s)(w \<mapsto> c)"
  by (simp add: put_def)

lemma put_frame [simp]:
  "num_active_ses (put w c s) = num_active_ses s" "req_max (put w c s) = req_max s"
  "total_req_max (put w c s) = total_req_max s" "clientid (put w c s) = clientid s"
  "acl_tree (put w c s) = acl_tree s" "call_heap (put w c s) = call_heap s"
  "sub_heap (put w c s) = sub_heap s" "ev_heap (put w c s) = ev_heap s"
  "chk_heap (put w c s) = chk_heap s" "next_addr (put w c s) = next_addr s"
  "listen_list (put w c s) = listen_list s" "ubus_reqs (put w c s) = ubus_reqs s"
  "timers (put w c s) = timers s" "ev_handlers (put w c s) = ev_handlers s"
  "shut (put w c s) = shut s" "invoked (put w c s) = invoked s"
  by (simp_all add: put_def)

lemma put_commute [simp]:
  "put w c (call_heap_update f s) = call_heap_update f (put w c s)"
  "put w c (sub_heap_update g s) = sub_heap_update g (put w c s)"
  "put w c (ev_heap_update h s) = ev_heap_update h (put w c s)"
  "put w c (chk_heap_update k s) = chk_heap_update k (put w c s)"
  "put w c (next_addr_update l s) = next_addr_update l (put w c s)"
  "put w c (listen_list_update m s) = listen_list_update m (put w c s)"
  "put w c (ubus_reqs_update n s) = ubus_reqs_update n (put w c s)"
  "put w c (timers_update i s) = timers_update i (put w c s)"
  "put w c (ev_handlers_update j s) = ev_handlers_update j (put w c s)"
  "put w c (invoked_update q s) = invoked_update q (put w c s)"
  by (simp_all add: put_def)

text \<open>Writing back what is there.\<close>

lemma call_heap_same: "call_heap t = h \<Longrightarrow> t\<lparr>call_heap := h\<rparr> = t"
  by auto

lemma ev_heap_same: "ev_heap t = h \<Longrightarrow> t\<lparr>ev_heap := h\<rparr> = t"
  by auto

lemma put_twice [simp]: "put w c (put w d s) = put w c s"
  by (simp add: put_def)

lemma put_same: "wsi_to_client s w = Some c \<Longrightarrow> put w c s = s"
  by (auto dest!: wsi_to_client_peer simp: put_def set_peer_def fun_upd_idem)

lemma all_ready_frame [simp]:
  "all_ready (call_heap_update f s) = all_ready s" "all_ready (sub_heap_update g s) = all_ready s"
  "all_ready (ev_heap_update h s) = all_ready s" "all_ready (chk_heap_update k s) = all_ready s"
  "all_ready (next_addr_update l s) = all_ready s" "all_ready (listen_list_update m s) = all_ready s"
  "all_ready (ubus_reqs_update n s) = all_ready s" "all_ready (timers_update i s) = all_ready s"
  "all_ready (ev_handlers_update j s) = all_ready s" "all_ready (invoked_update q s) = all_ready s"
  "all_ready (shut_update r s) = all_ready s"
  by (simp_all add: all_ready_def)

lemma all_ready_put [simp]:
  "wsi_to_client s w \<noteq> None \<Longrightarrow> all_ready (put w c s) = all_ready s"
  by (auto dest!: wsi_to_client_peer simp: all_ready_def put_def)

section \<open>The queue operations as updates of a session\<close>

lemma rpc_q_add_put:
  "wsi_to_client s w = Some c \<Longrightarrow>
   rpc_q_add w r s = Some (put w (c\<lparr>rpc_call_q := rpc_call_q c @ [r]\<rparr>) s)"
  by (simp add: rpc_q_add_def upd_client_put)

lemma rpc_q_del_put:
  "wsi_to_client s w = Some c \<Longrightarrow> r \<in> set (rpc_call_q c) \<Longrightarrow>
   rpc_q_del w r s = Some (put w (c\<lparr>rpc_call_q := remove1 r (rpc_call_q c)\<rparr>) s)"
  by (simp add: rpc_q_del_def upd_client_put)

lemma acq_add_put:
  "wsi_to_client s w = Some c \<Longrightarrow>
   acq_add w r s = Some (put w (c\<lparr>access_check_q := access_check_q c @ [r]\<rparr>) s)"
  by (simp add: acq_add_def upd_client_put)

lemma acq_del_put:
  "wsi_to_client s w = Some c \<Longrightarrow> r \<in> set (access_check_q c) \<Longrightarrow>
   acq_del w r s = Some (put w (c\<lparr>access_check_q := remove1 r (access_check_q c)\<rparr>) s)"
  by (simp add: acq_del_def upd_client_put)

lemma rpc_q_len_dec_put:
  "wsi_to_client s w = Some c \<Longrightarrow>
   rpc_q_len_dec w s = Some (put w (c\<lparr>rpc_q_len := rpc_q_len c - 1\<rparr>) s)"
  by (simp add: rpc_q_len_dec_def upd_client_put)

lemma rpc_q_len_inc_put:
  "wsi_to_client s w = Some c \<Longrightarrow>
   rpc_q_len_inc w s = Some (put w (c\<lparr>rpc_q_len := rpc_q_len c + 1\<rparr>) s)"
  by (simp add: rpc_q_len_inc_def upd_client_put)

lemmas queue_puts =
  rpc_q_add_put rpc_q_del_put acq_add_put acq_del_put rpc_q_len_dec_put rpc_q_len_inc_put

section \<open>Writing responses\<close>

definition fits_message :: "string option \<Rightarrow> bool" where
  "fits_message r = (case r of Some str \<Rightarrow> length str < WSUBUS_MAX_MESSAGE_LEN | None \<Rightarrow> True)"

lemma queue_write_enqueue:
  assumes "wsi_to_client s w = Some c" "all_ready s" "fits_message r"
  shows "queue_write E w r s = Some (enqueue E w r s)"
proof -
  obtain p where "peers s w = Some p" "peer_ready p"
    using wsi_to_client_peer [OF assms(1)] assms(2) by (auto simp: all_ready_def peer_ok_def)
  then show ?thesis
    using assms(3)
    by (auto simp: queue_write_def wsu_queue_write_str_def wsi_to_peer_def enqueue_def
        fits_message_def Let_def split: option.splits)
qed

lemma enqueue_frame [simp]:
  "num_active_ses (enqueue E w r s) = num_active_ses s" "req_max (enqueue E w r s) = req_max s"
  "total_req_max (enqueue E w r s) = total_req_max s" "clientid (enqueue E w r s) = clientid s"
  "acl_tree (enqueue E w r s) = acl_tree s" "call_heap (enqueue E w r s) = call_heap s"
  "sub_heap (enqueue E w r s) = sub_heap s" "ev_heap (enqueue E w r s) = ev_heap s"
  "chk_heap (enqueue E w r s) = chk_heap s" "next_addr (enqueue E w r s) = next_addr s"
  "listen_list (enqueue E w r s) = listen_list s" "ubus_reqs (enqueue E w r s) = ubus_reqs s"
  "timers (enqueue E w r s) = timers s" "ev_handlers (enqueue E w r s) = ev_handlers s"
  "shut (enqueue E w r s) = shut s" "invoked (enqueue E w r s) = invoked s"
  by (simp_all add: enqueue_def split: option.splits)

lemma enqueue_commute [simp]:
  "enqueue E w r (call_heap_update f s) = call_heap_update f (enqueue E w r s)"
  "enqueue E w r (ev_heap_update h s) = ev_heap_update h (enqueue E w r s)"
  "enqueue E w r (chk_heap_update k s) = chk_heap_update k (enqueue E w r s)"
  "enqueue E w r (next_addr_update l s) = next_addr_update l (enqueue E w r s)"
  "enqueue E w r (ubus_reqs_update n s) = ubus_reqs_update n (enqueue E w r s)"
  "enqueue E w r (invoked_update q s) = invoked_update q (enqueue E w r s)"
  by (simp_all add: enqueue_def split: option.splits)

lemma wsi_to_client_enqueue [simp]:
  "wsi_to_client s w \<noteq> None \<Longrightarrow> wsi_to_client (enqueue E w r s) = wsi_to_client s"
  by (cases "peers s w")
    (auto simp: enqueue_def fun_eq_iff wsi_to_client_def wsi_to_peer_def split: option.splits)

lemma all_ready_enqueue [simp]:
  "wsi_to_client s w \<noteq> None \<Longrightarrow> all_ready (enqueue E w r s) = all_ready s"
  by (auto dest!: wsi_to_client_peer simp: enqueue_def all_ready_def split: option.splits)

section \<open>The view of a state\<close>

definition call_view :: "server \<Rightarrow> addr \<Rightarrow> (wsi \<times> addr option \<times> bool) option" where
  "call_view s a = map_option (\<lambda>k. (pc_wsi k, pc_check k, pc_invoke k)) (call_heap s a)"

definition sub_view :: "server \<Rightarrow> addr \<Rightarrow> wsi option" where
  "sub_view s a = map_option si_wsi (sub_heap s a)"

definition ev_view :: "server \<Rightarrow> addr \<Rightarrow> (wsi \<times> addr \<times> addr option \<times> bool) option" where
  "ev_view s a = map_option (\<lambda>e. (ev_wsi e, ev_info e, ev_check e, ev_msg e \<noteq> None)) (ev_heap s a)"

definition chk_view :: "server \<Rightarrow> addr \<Rightarrow> (chk_owner \<times> req_tag) option" where
  "chk_view s b = map_option (\<lambda>r. (ck_owner r, ck_tag r)) (chk_heap s b)"

definition view_of :: "server \<Rightarrow> view" where
  "view_of s =
     \<lparr>v_rq = rq s, v_aq = aq s, v_call = call_view s, v_sub = sub_view s, v_ev = ev_view s,
      v_chk = chk_view s, v_reqs = ubus_reqs s, v_timers = timers s, v_listen = listen_list s,
      v_handlers = ev_handlers s, v_next = next_addr s\<rparr>"

lemma view_of_simps [simp]:
  "v_rq (view_of s) = rq s" "v_aq (view_of s) = aq s" "v_call (view_of s) = call_view s"
  "v_sub (view_of s) = sub_view s" "v_ev (view_of s) = ev_view s" "v_chk (view_of s) = chk_view s"
  "v_reqs (view_of s) = ubus_reqs s" "v_timers (view_of s) = timers s"
  "v_listen (view_of s) = listen_list s" "v_handlers (view_of s) = ev_handlers s"
  "v_next (view_of s) = next_addr s"
  by (simp_all add: view_of_def)

lemma view_eqI:
  assumes "v_rq v = v_rq v'" "v_aq v = v_aq v'" "v_call v = v_call v'" "v_sub v = v_sub v'"
    "v_ev v = v_ev v'" "v_chk v = v_chk v'" "v_reqs v = v_reqs v'" "v_timers v = v_timers v'"
    "v_listen v = v_listen v'" "v_handlers v = v_handlers v'" "v_next v = v_next v'"
  shows "v = (v' :: view)"
  using assms by simp

section \<open>The invariant of the server\<close>

fun is_RCall :: "rpc_ref \<Rightarrow> bool" where
  "is_RCall (RCall _) = True"
| "is_RCall (RSub _) = False"

text \<open>
  \<open>rpc_q_len\<close> counts the calls in progress, and the number of sessions and the limit computed
  from it are up to date.
\<close>

definition len_ok :: "server \<Rightarrow> bool" where
  "len_ok s \<longleftrightarrow>
     (\<forall>w c. wsi_to_client s w = Some c \<longrightarrow>
        rpc_q_len c = of_nat (length (filter is_RCall (rpc_call_q c))))"

definition sessions_ok :: "server \<Rightarrow> bool" where
  "sessions_ok s \<longleftrightarrow>
     finite {w. wsi_to_client s w \<noteq> None} \<and>
     num_active_ses s = of_nat (card {w. wsi_to_client s w \<noteq> None}) \<and>
     (num_active_ses s \<noteq> 0 \<longrightarrow> req_max s = recalc_req_max (total_req_max s) (num_active_ses s))"

definition server_inv :: "server \<Rightarrow> bool" where
  "server_inv s \<longleftrightarrow> view_inv (view_of s) \<and> len_ok s \<and> sessions_ok s \<and> all_ready s"

section \<open>What the invariant gives a handler\<close>

lemma call_queued:
  assumes "view_inv (view_of s)" "call_heap s a = Some k"
  obtains c where "wsi_to_client s (pc_wsi k) = Some c" "RCall a \<in> set (rpc_call_q c)"
    "distinct (rpc_call_q c)" "distinct (access_check_q c)"
    "pc_check k \<noteq> None \<Longrightarrow> OCall a \<in> set (access_check_q c)"
proof -
  have "call_view s a = Some (pc_wsi k, pc_check k, pc_invoke k)"
    using assms(2) by (simp add: call_view_def)
  then have "RCall a \<in> set (rq s (pc_wsi k))" "distinct (rq s (pc_wsi k))"
    "distinct (aq s (pc_wsi k))" "pc_check k \<noteq> None \<Longrightarrow> OCall a \<in> set (aq s (pc_wsi k))"
    using assms(1) by (auto simp: view_inv_def queues_ok_def)
  then show thesis
    using that by (cases "wsi_to_client s (pc_wsi k)") (auto simp: rq_def aq_def)
qed

lemma sub_queued:
  assumes "view_inv (view_of s)" "sub_heap s a = Some i"
  obtains c where "wsi_to_client s (si_wsi i) = Some c" "RSub a \<in> set (rpc_call_q c)"
    "distinct (rpc_call_q c)" "a \<in> set (listen_list s)" "distinct (listen_list s)"
proof -
  have "sub_view s a = Some (si_wsi i)"
    using assms(2) by (simp add: sub_view_def)
  then have "RSub a \<in> set (rq s (si_wsi i))" "distinct (rq s (si_wsi i))"
    "a \<in> set (listen_list s)" "distinct (listen_list s)"
    using assms(1) by (auto simp: view_inv_def queues_ok_def listen_ok_def)
  then show thesis
    using that by (cases "wsi_to_client s (si_wsi i)") (auto simp: rq_def)
qed

lemma ev_queued:
  assumes "view_inv (view_of s)" "ev_heap s a = Some e"
  obtains c i b msg where "wsi_to_client s (ev_wsi e) = Some c" "OEv a \<in> set (access_check_q c)"
    "distinct (access_check_q c)" "sub_heap s (ev_info e) = Some i" "si_wsi i = ev_wsi e"
    "ev_msg e = Some msg" "ev_check e = Some b"
proof -
  have v: "ev_view s a = Some (ev_wsi e, ev_info e, ev_check e, ev_msg e \<noteq> None)"
    using assms(2) by (simp add: ev_view_def)
  then have "OEv a \<in> set (aq s (ev_wsi e))" "distinct (aq s (ev_wsi e))"
    using assms(1) by (auto simp: view_inv_def queues_ok_def)
  moreover have "ev_msg e \<noteq> None" "ev_check e \<noteq> None" "sub_view s (ev_info e) = Some (ev_wsi e)"
    using v assms(1) unfolding view_inv_def events_ok_def view_of_simps by blast+
  ultimately show thesis
    using that by (cases "wsi_to_client s (ev_wsi e)") (auto simp: aq_def sub_view_def)
qed

lemma check_of_call:
  assumes "view_inv (view_of s)" "call_heap s a = Some k" "pc_check k = Some b"
  obtains r where "chk_heap s b = Some r" "ck_owner r = OCall a"
proof -
  have "\<exists>w i. call_view s a = Some (w, Some b, i)"
    using assms(2,3) by (simp add: call_view_def)
  then show thesis
    using assms(1) that by (auto simp: view_inv_def checks_ok_def chk_view_def)
qed

lemma check_of_ev:
  assumes "view_inv (view_of s)" "ev_heap s a = Some e" "ev_check e = Some b"
  obtains r where "chk_heap s b = Some r" "ck_owner r = OEv a"
proof -
  have "\<exists>w i m. ev_view s a = Some (w, i, Some b, m)"
    using assms(2,3) by (simp add: ev_view_def)
  then show thesis
    using assms(1) that by (auto simp: view_inv_def checks_ok_def chk_view_def)
qed

lemma owner_of_check:
  assumes "view_inv (view_of s)" "chk_heap s b = Some r"
  shows "case ck_owner r of
           OCall a \<Rightarrow> \<exists>k. call_heap s a = Some k \<and> pc_check k = Some b
         | OEv a \<Rightarrow> \<exists>e. ev_heap s a = Some e \<and> ev_check e = Some b"
proof -
  have "chk_view s b = Some (ck_owner r, ck_tag r)"
    using assms(2) by (simp add: chk_view_def)
  then show ?thesis
    using assms(1) unfolding view_inv_def checks_ok_def view_of_simps
    by (cases "ck_owner r") (fastforce simp: call_view_def ev_view_def)+
qed

lemma call_phase:
  assumes "view_inv (view_of s)" "call_heap s a = Some k"
  shows "pc_check k = None \<longleftrightarrow> pc_invoke k" "UCall a \<in> ubus_reqs s \<longleftrightarrow> pc_invoke k"
proof -
  have k: "call_view s a = Some (pc_wsi k, pc_check k, pc_invoke k)"
    using assms(2) by (simp add: call_view_def)
  then show "pc_check k = None \<longleftrightarrow> pc_invoke k" "UCall a \<in> ubus_reqs s \<longleftrightarrow> pc_invoke k"
    using assms(1) unfolding view_inv_def pending_ok_def view_of_simps by (metis, auto)
qed

lemma pending_call:
  assumes "view_inv (view_of s)" "UCall a \<in> ubus_reqs s"
  obtains k where "call_heap s a = Some k" "pc_invoke k" "pc_check k = None"
proof -
  obtain k where k: "call_heap s a = Some k"
    using assms by (auto simp: view_inv_def pending_ok_def call_view_def)
  then show thesis using call_phase [OF assms(1) k] assms(2) that by blast
qed

lemma check_pending_by_tag:
  assumes "view_inv (view_of s)" "chk_heap s b = Some r"
  shows "UChk b \<in> ubus_reqs s \<longleftrightarrow> ck_tag r = REQ_TAG_UBUS" "b \<in> timers s \<longleftrightarrow> ck_tag r = REQ_TAG_DEFER"
  using assms by (simp_all add: view_inv_def pending_ok_def chk_view_def)

lemma pending_check:
  assumes "view_inv (view_of s)" "UChk b \<in> ubus_reqs s"
  obtains r where "chk_heap s b = Some r" "ck_tag r = REQ_TAG_UBUS" "b \<notin> timers s"
  using assms by (auto simp: view_inv_def pending_ok_def chk_view_def)

lemma pending_timer:
  assumes "view_inv (view_of s)" "b \<in> timers s"
  obtains r where "chk_heap s b = Some r" "ck_tag r = REQ_TAG_DEFER" "UChk b \<notin> ubus_reqs s"
  using assms by (auto simp: view_inv_def pending_ok_def chk_view_def)

end
