(* ===== verification/Inv_Access.thy ===== *)
theory Inv_Access
  imports Server_Inv
begin

text \<open>
  What an access check does to the state: it writes its own handle and, when it succeeds, makes
  it pending exactly once, as the request or the timer its tag names. When it cannot fault.
\<close>

section \<open>What the handlers need of their surroundings\<close>

text \<open>
  The allocations the code does not check succeed, every virtual host has a context, formatting
  succeeds within the message limit, and the argument types that ubus reports are known ones.
\<close>

definition allocs_ok :: "env \<Rightarrow> bool" where
  "allocs_ok E \<longleftrightarrow>
     alloc E A_percall \<and> alloc E A_evnotif \<and> alloc E A_ev_type \<and> alloc E A_ev_msg \<and>
     alloc E A_list_req \<and> alloc E A_tokener"

definition formats_ok :: "env \<Rightarrow> bool" where
  "formats_ok E \<longleftrightarrow>
     (\<forall>xs. \<exists>str. blobmsg_format_json (lib E) xs = Some str \<and> length str < WSUBUS_MAX_MESSAGE_LEN)"

definition lookups_ok :: "env \<Rightarrow> bool" where
  "lookups_ok E \<longleftrightarrow>
     (\<forall>pat path ms m v n t. (path, Some ms) \<in> set (snd (ubus_lookup E pat)) \<longrightarrow>
        (m, v) \<in> set ms \<longrightarrow> (n, BInt32 t) \<in> set (blobmsg_attrs (lib E) v) \<longrightarrow> unat t < 8)"

text \<open>
  json-c reads back the kinds of the members that libubox printed, for the message of an object.
\<close>

definition prints_back_ok :: "env \<Rightarrow> bool" where
  "prints_back_ok E \<longleftrightarrow>
     (\<forall>jo str j k v. blobmsg_format_json (lib E) (blobmsg_add_object E jo) = Some str \<longrightarrow>
        json_tokener_parse E str = Some j \<longrightarrow> (k, v) \<in> set (blobmsg_add_object E jo) \<longrightarrow>
        (type_of_blob v = BLOBMSG_TYPE_STRING \<longrightarrow> (\<exists>m. json_get_ex j k = (True, JString m))) \<and>
        (type_of_blob v = BLOBMSG_TYPE_ARRAY \<longrightarrow> (\<exists>ps. json_get_ex j k = (True, JArray ps))))"

definition env_ok :: "env \<Rightarrow> bool" where
  "env_ok E \<longleftrightarrow>
     allocs_ok E \<and> (\<forall>w. vhost E w \<noteq> None) \<and> formats_ok E \<and> lookups_ok E \<and> libubox_ok (lib E) \<and>
     prints_back_ok E"

lemma fits_format: "env_ok E \<Longrightarrow> fits_message (blobmsg_format_json (lib E) xs)"
  by (auto simp: env_ok_def formats_ok_def fits_message_def split: option.splits)
     (metis option.inject)

lemma fits_responses [simp]:
  "env_ok E \<Longrightarrow> fits_message (jsonrpc__resp_ubus (lib E) rid rc d)"
  "env_ok E \<Longrightarrow> fits_message (jsonrpc__resp_error (lib E) rid e d)"
  by (simp_all add: jsonrpc__resp_ubus_def jsonrpc__resp_error_def fits_format)

section \<open>The steps of a check\<close>

lemma sid_extended_iff: "wsu_sid_extended sid = Some x \<longleftrightarrow> sid = ''X-'' @ x"
  by (cases sid; cases "tl sid") (auto simp: wsu_sid_extended_def strstr_at_start_def)

lemma restrict_users_defined:
  "env_ok E \<Longrightarrow> \<exists>r. restrict_users E w xs = Some r"
proof (induction xs)
  case (Cons x xs)
  obtain vc where "vhost E w = Some vc"
    using Cons.prems by (auto simp: env_ok_def)
  then show ?case using Cons by (cases x) simp
qed simp

lemma restrict_interface_defined:
  assumes "env_ok E" "args = None \<longrightarrow> method \<noteq> ''login''"
  shows "\<exists>r. wsu_ext_restrict_interface E w object method args = Some r"
  using assms restrict_users_defined [OF assms(1)]
  by (auto simp: wsu_ext_restrict_interface_def split: option.splits)

text \<open>The state after a check: handle \<open>b\<close> is \<open>r\<close>, and pending when the check was started.\<close>

definition checked :: "addr \<Rightarrow> wsubus_access_check_req \<Rightarrow> bool \<Rightarrow>
    (ubus_req \<times> u32 \<times> string \<times> blob_attr list) list \<Rightarrow> server \<Rightarrow> server" where
  "checked b r started log s =
     s\<lparr>chk_heap := (chk_heap s)(b \<mapsto> r),
       ubus_reqs := (if started \<and> ck_tag r = REQ_TAG_UBUS then insert (UChk b) (ubus_reqs s)
                     else ubus_reqs s),
       timers := (if started \<and> ck_tag r = REQ_TAG_DEFER then insert b (timers s) else timers s),
       invoked := invoked s @ log\<rparr>"

lemma defer_callback_effect:
  assumes "chk_heap s b = Some r0"
  shows "\<exists>r. defer_callback E b result s = Some (uloop_timeout_set E 0,
           checked b r (uloop_timeout_set E 0 = 0) [] s) \<and> ck_owner r = ck_owner r0"
  using assms by (intro exI [of _ "r0\<lparr>ck_tag := REQ_TAG_DEFER, ck_result := result\<rparr>"])
    (simp add: defer_callback_def checked_def Let_def)

lemma via_session_effect:
  assumes "chk_heap s b = Some r0"
  shows "\<exists>rc args' r log.
           wsubus_access_check_via_session E b sid scope object method args s =
             Some (rc, args', checked b r (rc = 0) log s) \<and> ck_owner r = ck_owner r0"
proof -
  have same: "checked b r0 False [] s = s"
    using assms by (simp add: checked_def fun_upd_idem)
  have fail: ?thesis if "wsubus_access_check_via_session E b sid scope object method args s =
                  Some (-1, args', s)" for args'
    using that same by (intro exI [of _ "-1"] exI [of _ args'] exI [of _ r0] exI [of _ "[]"]) simp
  obtain rc access_id where id: "ubus_lookup_id E ''session'' = (rc, access_id)" by fastforce
  let ?args = "map_option (\<lambda>xs. xs @ [(''ubus_rpc_session'', BString sid)]) args"
  let ?q = "session_question sid scope object method ?args"
  consider (own_sid) "case args of Some xs \<Rightarrow> list_ex (\<lambda>(n, _). strcmp ''ubus_rpc_session'' n = 0) xs
      | None \<Rightarrow> False" | (no_session) "rc \<noteq> 0" | (refused) "ubus_invoke_async E access_id ''access'' ?q \<noteq> 0"
    | (asked) "\<not> (case args of Some xs \<Rightarrow> list_ex (\<lambda>(n, _). strcmp ''ubus_rpc_session'' n = 0) xs
      | None \<Rightarrow> False)" "rc = 0" "ubus_invoke_async E access_id ''access'' ?q = 0"
    by blast
  then show ?thesis
  proof cases
    case own_sid
    then show ?thesis by (intro fail [of args]) (simp add: wsubus_access_check_via_session_def)
  next
    case no_session
    then show ?thesis
      by (intro fail [of args]) (simp add: wsubus_access_check_via_session_def id)
  next
    case refused
    then show ?thesis
      using fail [of args] fail [of ?args]
      by (auto simp: wsubus_access_check_via_session_def id Let_def)
  next
    case asked
    then show ?thesis
      using assms
      by (intro exI [of _ 0] exI [of _ ?args] exI [of _ "r0\<lparr>ck_tag := REQ_TAG_UBUS\<rparr>"]
          exI [of _ "[(UChk b, access_id, ''access'', ?q)]"])
        (simp add: wsubus_access_check_via_session_def id Let_def checked_def)
  qed
qed

text \<open>The two ways a certificate session reaches a dangling or mistyped pointer.\<close>

definition cert_hazard :: "env \<Rightarrow> wsi \<Rightarrow> chk_owner \<Rightarrow> string \<Rightarrow> string \<Rightarrow> bool" where
  "cert_hazard E w own sid object \<longleftrightarrow>
     sid = ''X-tls-certificate'' \<and> strstr_found object ''ubus.object.'' \<and>
     (case own of OCall _ \<Rightarrow> True | OEv _ \<Rightarrow> \<not> lws_is_ssl E w)"

lemma tls_object_defined:
  assumes "env_ok E" "own = OEv a \<longrightarrow> (\<exists>e. ev_heap s a = Some e \<and> ev_msg e \<noteq> None)"
    and "strstr_found object ''ubus.object.'' \<Longrightarrow> own = OEv a"
  shows "\<exists>object' d. tls_object E s own object = Some (object', d) \<and>
           (d \<longrightarrow> strstr_found object ''ubus.object.'')"
proof (cases "strstr_found object ''ubus.object.''")
  case True
  then obtain e msg where e: "own = OEv a" "ev_heap s a = Some e" "ev_msg e = Some msg"
    using assms by auto
  obtain str where str: "blobmsg_format_json (lib E) msg = Some str"
    using assms(1) by (auto simp: env_ok_def formats_ok_def)
  have "\<exists>x. tls_object E s own object = Some x"
    unfolding tls_object_def using True e str by simp
  then show ?thesis using True by auto
qed (auto simp: tls_object_def)

text \<open>The outcome of a check: what changed, and to whom the check belongs.\<close>

definition check_outcome ::
    "addr \<Rightarrow> chk_owner \<Rightarrow> server \<Rightarrow> (int \<times> blob_attr list option \<times> server) option \<Rightarrow> bool" where
  "check_outcome b own s m \<longleftrightarrow>
     (\<exists>rc args r log. m = Some (rc, args, checked b r (rc = 0) log s) \<and> ck_owner r = own)"

text \<open>The checkers after the one that the session's name selects.\<close>

definition check_rest ::
    "env \<Rightarrow> addr \<Rightarrow> wsi \<Rightarrow> string \<Rightarrow> string option \<Rightarrow> string \<Rightarrow> string \<Rightarrow> blob_attr list option \<Rightarrow>
     server \<Rightarrow> (int \<times> blob_attr list option \<times> server) option" where
  "check_rest E b w sid scope object method args s = do {
     res \<leftarrow> wsu_ext_restrict_interface E w object method args;
     if res \<noteq> EXT_CHECK_NEXT then do {
       (rc, t) \<leftarrow> defer_callback E b (res = EXT_CHECK_ALLOW) s; Some (rc, args, t) }
     else wsubus_access_check_via_session E b sid scope object method args s }"

lemma deferred_outcome:
  assumes "chk_heap s b = Some r0" "ck_owner r0 = own"
  shows "check_outcome b own s (do { (rc, t) \<leftarrow> defer_callback E b res s; Some (rc, args, t) })"
proof -
  obtain r where "defer_callback E b res s = Some (uloop_timeout_set E 0,
      checked b r (uloop_timeout_set E 0 = 0) [] s)" "ck_owner r = own"
    using defer_callback_effect [OF assms(1), of E res] assms(2) by auto
  then show ?thesis
    unfolding check_outcome_def
    by (intro exI [of _ "uloop_timeout_set E 0"] exI [of _ args] exI [of _ r] exI [of _ "[]"]) simp
qed

lemma check_rest_outcome:
  assumes b: "chk_heap s b = Some r0" "ck_owner r0 = own" and env: "env_ok E"
    and args: "args = None \<longrightarrow> method \<noteq> ''login''"
  shows "check_outcome b own s (check_rest E b w sid scope object method args s)"
proof -
  obtain res where res: "wsu_ext_restrict_interface E w object method args = Some res"
    using restrict_interface_defined [OF env args] by blast
  have "check_outcome b own s (wsubus_access_check_via_session E b sid scope object method args s)"
    using via_session_effect [OF b(1), of E sid scope object "method" args] b(2)
    by (auto simp: check_outcome_def)
  then show ?thesis
    using deferred_outcome [OF b, of E "res = EXT_CHECK_ALLOW" args] by (simp add: check_rest_def res)
qed

lemma check_without_certificate:
  assumes b: "chk_heap s b = Some r0" and "sid \<noteq> ''X-tls-certificate''"
  shows "wsubus_access_check E b w sid scope object method args own s =
     check_rest E b w sid scope object method args
       (s\<lparr>chk_heap := (chk_heap s)(b \<mapsto> r0\<lparr>ck_owner := own\<rparr>)\<rparr>)"
proof (cases "wsu_sid_extended sid")
  case None
  then show ?thesis by (simp add: check_rest_def wsubus_access_check_def b Let_def)
next
  case (Some esid)
  then have "esid \<noteq> ''tls-certificate''" using assms(2) by (auto simp: sid_extended_iff)
  then show ?thesis
    using Some by (simp add: check_rest_def wsubus_access_check_def b Let_def
        wsu_ext_check_interface_def strcmp_eq_0)
qed

lemma tls_object_safe:
  assumes env: "env_ok E" and safe: "\<not> cert_hazard E w own ''X-tls-certificate'' object"
    and ev: "\<And>a. own = OEv a \<Longrightarrow> \<exists>e. ev_heap s a = Some e \<and> ev_msg e \<noteq> None"
  shows "\<exists>object' d. tls_object E s own object = Some (object', d) \<and> (d \<longrightarrow> lws_is_ssl E w)"
proof (cases own)
  case (OCall a)
  then have "\<not> strstr_found object ''ubus.object.''"
    using safe by (simp add: cert_hazard_def)
  then show ?thesis by (auto simp: tls_object_def)
next
  case (OEv a)
  then show ?thesis
    using tls_object_defined [OF env, of own a s object] ev [of a] safe by (auto simp: cert_hazard_def)
qed

lemma access_check_effect:
  assumes b: "chk_heap s b = Some r0" and env: "env_ok E"
    and args: "args = None \<longrightarrow> method \<noteq> ''login''"
    and ev: "\<And>a. own = OEv a \<Longrightarrow> \<exists>e. ev_heap s a = Some e \<and> ev_msg e \<noteq> None"
    and safe: "\<not> cert_hazard E w own sid object"
  shows "\<exists>rc args' r log.
           wsubus_access_check E b w sid scope object method args own s =
             Some (rc, args', checked b r (rc = 0) log s) \<and> ck_owner r = own"
proof -
  define s1 where "s1 = s\<lparr>chk_heap := (chk_heap s)(b \<mapsto> r0\<lparr>ck_owner := own\<rparr>)\<rparr>"
  have b1: "chk_heap s1 b = Some (r0\<lparr>ck_owner := own\<rparr>)" "ck_owner (r0\<lparr>ck_owner := own\<rparr>) = own"
    by (simp_all add: s1_def)
  have "checked b r st log s1 = checked b r st log s" for r st log
    by (simp add: checked_def s1_def)
  moreover have "check_outcome b own s1 (wsubus_access_check E b w sid scope object method args own s)"
  proof (cases "sid = ''X-tls-certificate''")
    case False
    show ?thesis
      using check_rest_outcome [OF b1 env args] unfolding check_without_certificate [OF b False] s1_def .
  next
    case True
    have "\<exists>object' d. tls_object E s1 own object = Some (object', d) \<and> (d \<longrightarrow> lws_is_ssl E w)"
      by (rule tls_object_safe [OF env]) (use safe True ev in \<open>auto simp: s1_def\<close>)
    then obtain object' d where o: "tls_object E s1 own object = Some (object', d)" "d \<longrightarrow> lws_is_ssl E w"
      by blast
    have esid: "wsu_sid_extended sid = Some ''tls-certificate''"
      by (simp add: sid_extended_iff True)
    let ?res = "wsu_ext_check_tls E s1 w object'"
    have "?res = EXT_CHECK_NEXT \<Longrightarrow> \<not> d"
      using o(2) by (auto simp: wsu_ext_check_tls_def Let_def split: if_splits prod.splits)
    then have "wsubus_access_check E b w sid scope object method args own s =
        (if ?res = EXT_CHECK_NEXT then check_rest E b w sid scope object' method args s1
         else do { (rc, t) \<leftarrow> defer_callback E b (?res = EXT_CHECK_ALLOW) s1; Some (rc, args, t) })"
      using o(1) unfolding s1_def
      by (simp add: wsubus_access_check_def check_rest_def b esid Let_def strcmp_eq_0)
    then show ?thesis
      using check_rest_outcome [OF b1 env args] deferred_outcome [OF b1] by simp
  qed
  ultimately show ?thesis by (simp add: check_outcome_def)
qed

end
