(* ===== verification/Inv_Call.thy ===== *)
theory Inv_Call
  imports Inv_Access
begin

text \<open>
  The \<open>call\<close> RPC against the ownership machine: the handler adds a call with its check or leaves
  no trace but a response, a finished check invokes the call or removes it, and a finished call
  is removed.
\<close>

section \<open>The contract of an RPC handler\<close>

text \<open>
  A handler returns with the ownership invariant intact; the length of the client's queue is one
  short, because the caller counts the request after the handler returns.
\<close>

definition handled :: "wsi \<Rightarrow> server \<Rightarrow> server \<Rightarrow> bool" where
  "handled w s s' \<longleftrightarrow>
     view_inv (view_of s') \<and> all_ready s' \<and>
     (\<exists>c'. wsi_to_client s' w = Some c' \<and>
        rpc_q_len c' + 1 = of_nat (length (filter is_RCall (rpc_call_q c')))) \<and>
     (\<forall>w'. w' \<noteq> w \<longrightarrow> wsi_to_client s' w' = wsi_to_client s w') \<and>
     num_active_ses s' = num_active_ses s \<and> req_max s' = req_max s \<and>
     total_req_max s' = total_req_max s"

locale rpc_handler =
  fixes handler :: "env \<Rightarrow> wsi \<Rightarrow> 'a \<Rightarrow> blob_attr option \<Rightarrow> server \<Rightarrow> (int \<times> server) option"
    and safe :: "env \<Rightarrow> wsi \<Rightarrow> 'a \<Rightarrow> blob_attr option \<Rightarrow> server \<Rightarrow> bool"
  assumes handles: "server_inv s \<Longrightarrow> env_ok E \<Longrightarrow> wsi_to_client s w = Some c \<Longrightarrow> safe E w x rid s \<Longrightarrow>
     \<exists>s'. handler E w x rid s = Some (0, s') \<and> handled w s s'"
begin

lemma counted:
  assumes "server_inv s" "env_ok E" "wsi_to_client s w = Some c" "safe E w x rid s"
  shows "\<exists>s' s''. handler E w x rid s = Some (0, s') \<and> rpc_q_len_inc w s' = Some s'' \<and> server_inv s''"
proof -
  obtain s' where s': "handler E w x rid s = Some (0, s')" "handled w s s'"
    using handles [OF assms] by blast
  obtain c' where c': "wsi_to_client s' w = Some c'"
    "rpc_q_len c' + 1 = of_nat (length (filter is_RCall (rpc_call_q c')))"
    using s'(2) by (auto simp: handled_def)
  let ?d = "c'\<lparr>rpc_q_len := rpc_q_len c' + 1\<rparr>"
  have inc: "rpc_q_len_inc w s' = Some (put w ?d s')"
    by (rule rpc_q_len_inc_put [OF c'(1)])
  have "rq (put w ?d s') = rq s'" "aq (put w ?d s') = aq s'"
    using c'(1) by (auto simp: rq_def aq_def fun_eq_iff)
  then have "view_of (put w ?d s') = view_of s'"
    by (simp add: view_of_def call_view_def sub_view_def ev_view_def chk_view_def fun_eq_iff)
  moreover have "len_ok (put w ?d s')"
    using s'(2) c' assms(1) by (auto simp: len_ok_def handled_def server_inv_def)
  moreover have "{v. wsi_to_client (put w ?d s') v \<noteq> None} = {v. wsi_to_client s v \<noteq> None}"
    using s'(2) assms(3) by (auto simp: handled_def)
  then have "sessions_ok (put w ?d s')"
    using assms(1) s'(2) by (simp add: server_inv_def sessions_ok_def handled_def)
  ultimately have "server_inv (put w ?d s')"
    using s'(2) c'(1) by (simp add: server_inv_def handled_def)
  then show ?thesis using s'(1) inc by blast
qed

end

section \<open>Starting a call\<close>

lemma check_new_alloc:
  "alloc E A_check \<Longrightarrow> wsubus_access_check_new E own s =
     (Some (next_addr s), s\<lparr>next_addr := next_addr s + 1,
        chk_heap := (chk_heap s)(next_addr s \<mapsto> \<lparr>ck_result = False, ck_owner = own, ck_tag = REQ_TAG_UBUS\<rparr>)\<rparr>)"
  by (simp add: wsubus_access_check_new_def Let_def)

text \<open>
  How starting the check of a call ends: refused, with the call as it was but for its arguments, or
  with a check pending.
\<close>

definition check_refused :: "addr \<Rightarrow> wsubus_percall_ctx \<Rightarrow> server \<Rightarrow> server \<Rightarrow> bool" where
  "check_refused a k s s' \<longleftrightarrow>
     (\<exists>k' n log. pc_wsi k' = pc_wsi k \<and> pc_invoke k' = pc_invoke k \<and> next_addr s \<le> n \<and>
        s' = s\<lparr>next_addr := n, call_heap := (call_heap s)(a \<mapsto> k'), invoked := invoked s @ log\<rparr>)"

definition check_pending ::
    "addr \<Rightarrow> wsubus_percall_ctx \<Rightarrow> wsu_client_session \<Rightarrow> server \<Rightarrow> server \<Rightarrow> bool" where
  "check_pending a k c s s' \<longleftrightarrow>
     (\<exists>args r log. ck_owner r = OCall a \<and>
        s' = put (pc_wsi k) (c\<lparr>access_check_q := access_check_q c @ [OCall a]\<rparr>)
          (checked (next_addr s) r True log
            (s\<lparr>next_addr := next_addr s + 1,
               call_heap := (call_heap s)(a \<mapsto> k\<lparr>pc_check := Some (next_addr s), pc_args := args\<rparr>)\<rparr>)))"

lemma call_check_del:
  assumes "OCall a \<notin> set (access_check_q c)"
    "wsi_to_client t = (wsi_to_client s)(w \<mapsto> c\<lparr>access_check_q := access_check_q c @ [OCall a]\<rparr>)"
  shows "acq_del w (OCall a) t = Some (put w c t)"
  using acq_del_put [of t w "c\<lparr>access_check_q := access_check_q c @ [OCall a]\<rparr>" "OCall a"] assms
  by (simp add: remove1_append)

lemma do_check_no_memory:
  assumes al: "\<not> alloc E A_check" and k: "call_heap s a = Some k"
    and c: "wsi_to_client s (pc_wsi k) = Some c" "OCall a \<notin> set (access_check_q c)"
  shows "\<exists>s'. wsubus_call_do_check_then_do_call E a s = Some (UBUS_STATUS_UNKNOWN_ERROR, s')
     \<and> check_refused a k s s'"
proof -
  let ?s = "s\<lparr>call_heap := (call_heap s)(a \<mapsto> k\<lparr>pc_check := None\<rparr>)\<rparr>"
  have "wsubus_call_do_check_then_do_call E a s = Some (UBUS_STATUS_UNKNOWN_ERROR, put (pc_wsi k) c ?s)"
    using al by (simp add: wsubus_call_do_check_then_do_call_def k acq_add_put [OF c(1)] Let_def
        call_check_del [OF c(2)] wsubus_access_check_new_def wsubus_access_check_free_def)
  moreover have "put (pc_wsi k) c ?s = s\<lparr>next_addr := next_addr s,
      call_heap := (call_heap s)(a \<mapsto> k\<lparr>pc_check := None\<rparr>), invoked := invoked s @ []\<rparr>"
    using put_same [of ?s "pc_wsi k" c] c(1) by simp
  ultimately show ?thesis
    unfolding check_refused_def
    by (intro exI [of _ "put (pc_wsi k) c ?s"] conjI exI [of _ "k\<lparr>pc_check := None\<rparr>"]
        exI [of _ "next_addr s"] exI [of _ "[]"]) simp_all
qed

lemma do_check_runs:
  assumes al: "alloc E A_check" and env: "env_ok E" and k: "call_heap s a = Some k"
    and c: "wsi_to_client s (pc_wsi k) = Some c" "OCall a \<notin> set (access_check_q c)"
    and fresh: "chk_heap s (next_addr s) = None"
    and safe: "\<not> cert_hazard E (pc_wsi k) (OCall a) (uc_sid (pc_args k)) (uc_object (pc_args k))"
  shows "\<exists>ret s'. wsubus_call_do_check_then_do_call E a s = Some (ret, s') \<and>
     (if ret \<noteq> 0 then check_refused a k s s' else check_pending a k c s s')"
proof -
  let ?w = "pc_wsi k" and ?b = "next_addr s" and ?A = "pc_args k"
  let ?c = "c\<lparr>access_check_q := access_check_q c @ [OCall a]\<rparr>"
  let ?r = "\<lparr>ck_result = False, ck_owner = OCall a, ck_tag = REQ_TAG_UBUS\<rparr>"
  define s1 where "s1 = put ?w ?c (s\<lparr>next_addr := ?b + 1, chk_heap := (chk_heap s)(?b \<mapsto> ?r),
      call_heap := (call_heap s)(a \<mapsto> k\<lparr>pc_check := Some ?b\<rparr>)\<rparr>)"
  have "\<exists>rc args' r log. wsubus_access_check E ?b ?w (uc_sid ?A) None (uc_object ?A) (uc_method ?A)
        (Some (uc_params ?A)) (OCall a) s1 = Some (rc, args', checked ?b r (rc = 0) log s1)
      \<and> ck_owner r = OCall a"
    by (rule access_check_effect [where ?r0.0 = ?r]) (use env safe in \<open>simp_all add: s1_def\<close>)
  then obtain rc args' r log where chk: "wsubus_access_check E ?b ?w (uc_sid ?A) None (uc_object ?A)
      (uc_method ?A) (Some (uc_params ?A)) (OCall a) s1 = Some (rc, args', checked ?b r (rc = 0) log s1)"
    "ck_owner r = OCall a"
    by blast
  define args where "args = ?A\<lparr>uc_params := (case args' of Some ps \<Rightarrow> ps | None \<Rightarrow> uc_params ?A)\<rparr>"
  let ?k = "k\<lparr>pc_check := Some ?b, pc_args := args\<rparr>"
  define s2 where "s2 = checked ?b r (rc = 0) log (s1\<lparr>call_heap := (call_heap s)(a \<mapsto> ?k)\<rparr>)"
  have run: "wsubus_call_do_check_then_do_call E a s =
      (if rc \<noteq> 0 then Some (UBUS_STATUS_UNKNOWN_ERROR, put ?w c (s2\<lparr>chk_heap := (chk_heap s2)(?b := None)\<rparr>))
       else Some (0, s2))"
    using chk(1) unfolding s2_def
    by (simp add: wsubus_call_do_check_then_do_call_def k acq_add_put [OF c(1)] call_check_del [OF c(2)]
        Let_def check_new_alloc [OF al] wsubus_access_check__call_def wsubus_access_check_free_def s1_def
        checked_def args_def)
  have "(chk_heap s)(?b := None) = chk_heap s" using fresh by (simp add: fun_upd_idem)
  then have "put ?w c (s2\<lparr>chk_heap := (chk_heap s2)(?b := None)\<rparr>) =
      s\<lparr>next_addr := ?b + 1, call_heap := (call_heap s)(a \<mapsto> ?k), invoked := invoked s @ log\<rparr>" if "rc \<noteq> 0"
    using that put_same [OF c(1)] by (simp add: s2_def s1_def checked_def)
  then have "check_refused a k s (put ?w c (s2\<lparr>chk_heap := (chk_heap s2)(?b := None)\<rparr>))" if "rc \<noteq> 0"
    unfolding check_refused_def using that
    by (intro exI [of _ ?k] exI [of _ "?b + 1"] exI [of _ log]) simp
  moreover have "check_pending a k c s s2" if "rc = 0"
    unfolding check_pending_def using that chk(2)
    by (intro exI [of _ args] exI [of _ r] exI [of _ log]) (simp add: s2_def s1_def checked_def)
  ultimately show ?thesis
    using run by (cases "rc = 0") (auto simp: UBUS_STATUS_UNKNOWN_ERROR_def)
qed

lemma do_check_effect:
  assumes "env_ok E" "call_heap s a = Some k"
    "wsi_to_client s (pc_wsi k) = Some c" "OCall a \<notin> set (access_check_q c)"
    "chk_heap s (next_addr s) = None"
    "\<not> cert_hazard E (pc_wsi k) (OCall a) (uc_sid (pc_args k)) (uc_object (pc_args k))"
  shows "\<exists>ret s'. wsubus_call_do_check_then_do_call E a s = Some (ret, s') \<and>
     (if ret \<noteq> 0 then check_refused a k s s' else check_pending a k c s s')"
proof (cases "alloc E A_check")
  case False
  then obtain s' where
    "wsubus_call_do_check_then_do_call E a s = Some (UBUS_STATUS_UNKNOWN_ERROR, s')" "check_refused a k s s'"
    using do_check_no_memory [OF False assms(2-4)] by blast
  then show ?thesis
    by (intro exI [of _ UBUS_STATUS_UNKNOWN_ERROR] exI [of _ s']) (simp add: UBUS_STATUS_UNKNOWN_ERROR_def)
qed (use do_check_runs assms in blast)

definition safe_call :: "ubusrpc_blob_call \<Rightarrow> bool" where
  "safe_call c \<longleftrightarrow> \<not> (uc_sid c = ''X-tls-certificate'' \<and> strstr_found (uc_object c) ''ubus.object.'')"

definition denied :: "env \<Rightarrow> blob_attr option \<Rightarrow> string option" where
  "denied E rid = jsonrpc__resp_ubus (lib E) rid UBUS_STATUS_PERMISSION_DENIED None"

text \<open>
  The handler's effect: the call is queued with its check pending, or the client gets a
  permission denied response and nothing is left behind.
\<close>

definition call_refused :: "env \<Rightarrow> wsi \<Rightarrow> blob_attr option \<Rightarrow> server \<Rightarrow> server \<Rightarrow> bool" where
  "call_refused E w rid s s' \<longleftrightarrow>
     (\<exists>c n log. wsi_to_client s w = Some c \<and> next_addr s \<le> n \<and>
        s' = enqueue E w (denied E rid)
               (put w (c\<lparr>rpc_q_len := rpc_q_len c - 1\<rparr>)
                  (s\<lparr>next_addr := n, invoked := invoked s @ log\<rparr>)))"

definition call_started :: "env \<Rightarrow> wsi \<Rightarrow> ubusrpc_blob_call \<Rightarrow> blob_attr option \<Rightarrow> server \<Rightarrow> server \<Rightarrow> bool" where
  "call_started E w req rid s s' \<longleftrightarrow>
     (\<exists>c args r log. wsi_to_client s w = Some c \<and> ck_owner r = OCall (next_addr s) \<and>
        s' = put w (c\<lparr>rpc_call_q := rpc_call_q c @ [RCall (next_addr s)],
                      access_check_q := access_check_q c @ [OCall (next_addr s)]\<rparr>)
           (checked (next_addr s + 1) r True log
             (s\<lparr>next_addr := next_addr s + 2,
                call_heap := (call_heap s)(next_addr s \<mapsto>
                  \<lparr>pc_wsi = w, pc_id = (if alloc E A_percall_id then rid else None), pc_retbuf = [],
                   pc_args = args, pc_invoke = False, pc_check = Some (next_addr s + 1),
                   pc_start = monotonic E\<rparr>)\<rparr>)))"

lemma fresh_heap:
  assumes "view_inv (view_of s)" "next_addr s \<le> a"
  shows "call_heap s a = None" "sub_heap s a = None" "ev_heap s a = None" "chk_heap s a = None"
  using assms
  by (simp_all add: view_inv_def fresh_ok_def call_view_def sub_view_def ev_view_def chk_view_def)

text \<open>The state of a new call, queued and before its check.\<close>

definition fresh_call :: "env \<Rightarrow> wsi \<Rightarrow> ubusrpc_blob_call \<Rightarrow> blob_attr option \<Rightarrow> wsubus_percall_ctx" where
  "fresh_call E w req rid =
     \<lparr>pc_wsi = w, pc_id = (if alloc E A_percall_id then rid else None), pc_retbuf = [],
      pc_args = req, pc_invoke = False, pc_check = None, pc_start = monotonic E\<rparr>"

definition call_queued_state ::
    "env \<Rightarrow> wsi \<Rightarrow> ubusrpc_blob_call \<Rightarrow> blob_attr option \<Rightarrow> wsu_client_session \<Rightarrow> server \<Rightarrow> server" where
  "call_queued_state E w req rid c s =
     put w (c\<lparr>rpc_call_q := rpc_call_q c @ [RCall (next_addr s)]\<rparr>)
       (s\<lparr>next_addr := next_addr s + 1, call_heap := (call_heap s)(next_addr s \<mapsto> fresh_call E w req rid)\<rparr>)"

lemmas call_start_defs = fresh_call_def call_queued_state_def

lemma handle_call_start:
  assumes c: "wsi_to_client s w = Some c" and env: "env_ok E"
  shows "handle_call_ubus E w req rid s = do {
     (ret, t) \<leftarrow> wsubus_call_do_check_then_do_call E (next_addr s) (call_queued_state E w req rid c s);
     if ret \<noteq> 0 then do {
       t \<leftarrow> rpc_q_del w (RCall (next_addr s)) t;
       t \<leftarrow> wsubus_percall_ctx_destroy (next_addr s) t;
       t \<leftarrow> queue_write E w (denied E rid) t;
       Some (0, t)
     } else Some (0, t) }"
proof -
  have "alloc E A_percall" using env by (simp add: env_ok_def allocs_ok_def)
  then show ?thesis
    unfolding denied_def
    by (simp add: handle_call_ubus_def c wsubus_percall_ctx_create_def Let_def rpc_q_add_put call_start_defs)
qed

lemma refused_call:
  assumes inv: "view_inv (view_of s)" "all_ready s" and env: "env_ok E"
    and c: "wsi_to_client s w = Some c"
    and t: "check_refused (next_addr s) (fresh_call E w req rid) (call_queued_state E w req rid c s) t"
  shows "\<exists>s'. do {
       t \<leftarrow> rpc_q_del w (RCall (next_addr s)) t;
       t \<leftarrow> wsubus_percall_ctx_destroy (next_addr s) t;
       queue_write E w (denied E rid) t } = Some s' \<and> call_refused E w rid s s'"
proof -
  let ?a = "next_addr s"
  obtain k' n log where k': "pc_wsi k' = w" "\<not> pc_invoke k'" "?a + 1 \<le> n"
    "t = (call_queued_state E w req rid c s)\<lparr>next_addr := n, call_heap := (call_heap s)(?a \<mapsto> k'),
       invoked := invoked s @ log\<rparr>"
    using t by (auto simp: check_refused_def call_start_defs)
  have q: "RCall ?a \<notin> set (rpc_call_q c)"
    using fresh_unqueued(1) [OF inv(1), of ?a w] c by (simp add: rq_def)
  let ?t = "put w (c\<lparr>rpc_q_len := rpc_q_len c - 1\<rparr>) (s\<lparr>next_addr := n, invoked := invoked s @ log\<rparr>)"
  have idem: "(call_heap s)(?a := None) = call_heap s"
    using fresh_heap(1) [OF inv(1), of ?a] by (simp add: fun_upd_idem)
  have "wsi_to_client ?t w = Some (c\<lparr>rpc_q_len := rpc_q_len c - 1\<rparr>)" "all_ready ?t"
    using c inv(2) by simp_all
  then have "queue_write E w (denied E rid) ?t = Some (enqueue E w (denied E rid) ?t)"
    by (rule queue_write_enqueue) (simp add: denied_def env)
  then have "do {
       t \<leftarrow> rpc_q_del w (RCall (next_addr s)) t;
       t \<leftarrow> wsubus_percall_ctx_destroy (next_addr s) t;
       queue_write E w (denied E rid) t } = Some (enqueue E w (denied E rid) ?t)"
    using k' q idem
    by (simp add: call_heap_same call_start_defs rpc_q_del_put remove1_append wsubus_percall_ctx_destroy_def
        rpc_q_len_dec_put Let_def)
  then show ?thesis
    using k'(3) c unfolding call_refused_def
    by (intro exI [of _ "enqueue E w (denied E rid) ?t"] conjI exI [of _ c] exI [of _ n]
        exI [of _ log]) simp_all
qed

lemma started_call:
  assumes c: "wsi_to_client s w = Some c"
    and t: "check_pending (next_addr s) (fresh_call E w req rid)
      (c\<lparr>rpc_call_q := rpc_call_q c @ [RCall (next_addr s)]\<rparr>) (call_queued_state E w req rid c s) t"
  shows "call_started E w req rid s t"
proof -
  obtain args r log where "ck_owner r = OCall (next_addr s)"
    "t = put w (c\<lparr>rpc_call_q := rpc_call_q c @ [RCall (next_addr s)],
           access_check_q := access_check_q c @ [OCall (next_addr s)]\<rparr>)
         (checked (next_addr s + 1) r True log
           ((call_queued_state E w req rid c s)\<lparr>next_addr := next_addr s + 2,
              call_heap := (call_heap s)(next_addr s \<mapsto>
                (fresh_call E w req rid)\<lparr>pc_check := Some (next_addr s + 1), pc_args := args\<rparr>)\<rparr>))"
    using t by (auto simp: check_pending_def call_start_defs)
  then show ?thesis
    using c unfolding call_started_def
    by (intro exI [of _ c] exI [of _ args] exI [of _ r] exI [of _ log] conjI)
      (simp_all add: checked_def call_start_defs)
qed

lemma handle_call_effect:
  assumes inv: "view_inv (view_of s)" "all_ready s" and env: "env_ok E"
    and c: "wsi_to_client s w = Some c" and safe: "safe_call req"
  shows "\<exists>s'. handle_call_ubus E w req rid s = Some (0, s') \<and>
     (call_refused E w rid s s' \<or> call_started E w req rid s s')"
proof -
  let ?a = "next_addr s" and ?k = "fresh_call E w req rid" and ?s = "call_queued_state E w req rid c s"
  let ?c = "c\<lparr>rpc_call_q := rpc_call_q c @ [RCall ?a]\<rparr>"
  have q: "OCall ?a \<notin> set (access_check_q c)"
    using fresh_unqueued(3) [OF inv(1), of ?a w] c by (simp add: aq_def)
  have h: "call_heap ?s ?a = Some ?k" by (simp add: call_queued_state_def)
  have "\<exists>ret t. wsubus_call_do_check_then_do_call E ?a ?s = Some (ret, t) \<and>
      (if ret \<noteq> 0 then check_refused ?a ?k ?s t else check_pending ?a ?k ?c ?s t)"
    by (rule do_check_effect [OF env h])
      (use q safe fresh_heap [OF inv(1), of "?a + 1"] in
        \<open>simp_all add: call_start_defs cert_hazard_def safe_call_def\<close>)
  then obtain ret t where t: "wsubus_call_do_check_then_do_call E ?a ?s = Some (ret, t)"
    "if ret \<noteq> 0 then check_refused ?a ?k ?s t else check_pending ?a ?k ?c ?s t"
    by blast
  show ?thesis
  proof (cases "ret = 0")
    case True
    then show ?thesis
      using t started_call [OF c] by (auto simp: handle_call_start [OF c env])
  next
    case False
    then show ?thesis
      using t refused_call [OF inv env c, of req rid t]
      by (auto simp: handle_call_start [OF c env] bind_conv)
  qed
qed

lemma refused_view:
  assumes "call_refused E w rid s s'"
  shows "\<exists>n. next_addr s \<le> n \<and> view_of s' = (view_of s)\<lparr>v_next := n\<rparr>"
proof -
  obtain c n log where s': "wsi_to_client s w = Some c" "next_addr s \<le> n"
    "s' = enqueue E w (denied E rid) (put w (c\<lparr>rpc_q_len := rpc_q_len c - 1\<rparr>)
            (s\<lparr>next_addr := n, invoked := invoked s @ log\<rparr>))"
    using assms by (auto simp: call_refused_def)
  have cl: "wsi_to_client s' = (wsi_to_client s)(w \<mapsto> c\<lparr>rpc_q_len := rpc_q_len c - 1\<rparr>)"
    using s'(1,3) by simp
  have "rq s' = rq s" "aq s' = aq s"
    using s'(1) by (auto simp: rq_def aq_def cl fun_eq_iff)
  then show ?thesis
    using s'(2,3)
    by (intro exI [of _ n] conjI view_eqI)
      (simp_all add: call_view_def sub_view_def ev_view_def chk_view_def fun_eq_iff)
qed

lemma started_view:
  assumes "call_started E w req rid s s'"
  shows "\<exists>t. view_of s' = add_call w t (view_of s)"
proof -
  obtain c args r log where s': "wsi_to_client s w = Some c" "ck_owner r = OCall (next_addr s)"
    "s' = put w (c\<lparr>rpc_call_q := rpc_call_q c @ [RCall (next_addr s)],
                      access_check_q := access_check_q c @ [OCall (next_addr s)]\<rparr>)
           (checked (next_addr s + 1) r True log
             (s\<lparr>next_addr := next_addr s + 2,
                call_heap := (call_heap s)(next_addr s \<mapsto>
                  \<lparr>pc_wsi = w, pc_id = (if alloc E A_percall_id then rid else None), pc_retbuf = [],
                   pc_args = args, pc_invoke = False, pc_check = Some (next_addr s + 1),
                   pc_start = monotonic E\<rparr>)\<rparr>))"
    using assms by (auto simp: call_started_def)
  show ?thesis
    using s'(1,2)
    by (intro exI [of _ "ck_tag r"] view_eqI)
      (simp_all add: s'(3) add_call_def Let_def checked_def rq_def aq_def call_view_def sub_view_def
        ev_view_def chk_view_def fun_eq_iff)
qed

lemma handle_call_handled:
  assumes inv: "server_inv s" and env: "env_ok E" and c: "wsi_to_client s w = Some c"
    and safe: "safe_call req"
  shows "\<exists>s'. ubusrpc_handle_call E w req rid s = Some (0, s') \<and> handled w s s'"
proof -
  have v: "view_inv (view_of s)" "all_ready s"
    and len: "rpc_q_len c = of_nat (length (filter is_RCall (rpc_call_q c)))"
    using inv c by (simp_all add: server_inv_def len_ok_def)
  obtain s' where s': "handle_call_ubus E w req rid s = Some (0, s')"
    "call_refused E w rid s s' \<or> call_started E w req rid s s'"
    using handle_call_effect [OF v env c safe] by blast
  have "handled w s s'"
    using s'(2)
  proof
    assume r: "call_refused E w rid s s'"
    then obtain n log where s': "s' = enqueue E w (denied E rid) (put w (c\<lparr>rpc_q_len := rpc_q_len c - 1\<rparr>)
            (s\<lparr>next_addr := n, invoked := invoked s @ log\<rparr>))"
      using c by (auto simp: call_refused_def)
    have "view_inv (view_of s')"
      using refused_view [OF r] view_inv_next [OF v(1)] by auto
    moreover have "wsi_to_client s' = (wsi_to_client s)(w \<mapsto> c\<lparr>rpc_q_len := rpc_q_len c - 1\<rparr>)"
      and "all_ready s'" and "num_active_ses s' = num_active_ses s" and "req_max s' = req_max s"
      and "total_req_max s' = total_req_max s"
      using v(2) c by (simp_all add: s')
    ultimately show ?thesis using len by (simp add: handled_def)
  next
    assume st: "call_started E w req rid s s'"
    have "view_inv (view_of s')"
      using started_view [OF st] add_call_inv [OF v(1)] by auto
    then show ?thesis
      using st v(2) len c unfolding handled_def
      by (auto simp: call_started_def checked_def)
  qed
  then show ?thesis using s'(1) by (simp add: ubusrpc_handle_call_def)
qed

interpretation call_rpc: rpc_handler ubusrpc_handle_call "\<lambda>E w req rid s. safe_call req"
  by unfold_locales (rule handle_call_handled)

section \<open>Finishing a call\<close>

text \<open>The session after call \<open>a\<close> is gone, and the state without it.\<close>

definition drop_call :: "addr \<Rightarrow> wsu_client_session \<Rightarrow> wsu_client_session" where
  "drop_call a c =
     c\<lparr>rpc_call_q := remove1 (RCall a) (rpc_call_q c),
       access_check_q := remove1 (OCall a) (access_check_q c), rpc_q_len := rpc_q_len c - 1\<rparr>"

lemma unlink_and_destroy:
  assumes "call_heap t a = Some k" "wsi_to_client t (pc_wsi k) = Some d" "RCall a \<in> set (rpc_call_q d)"
  shows "Option.bind (rpc_q_del (pc_wsi k) (RCall a) t) (wsubus_percall_ctx_destroy a) =
     Some (put (pc_wsi k) (d\<lparr>rpc_call_q := remove1 (RCall a) (rpc_call_q d), rpc_q_len := rpc_q_len d - 1\<rparr>)
       (t\<lparr>call_heap := (call_heap t)(a := None),
          ubus_reqs := (if pc_invoke k then ubus_reqs t - {UCall a} else ubus_reqs t)\<rparr>))"
  using assms by (simp add: rpc_q_del_put wsubus_percall_ctx_destroy_def rpc_q_len_dec_put Let_def)

lemma count_remove1:
  "RCall a \<in> set q \<Longrightarrow>
   length (filter is_RCall q) = Suc (length (filter is_RCall (remove1 (RCall a) q)))"
  by (induction q) auto

lemma filter_absent: "x \<notin> set xs \<Longrightarrow> filter (\<lambda>y. y \<noteq> x) xs = xs"
  by (induction xs) auto

lemma filter_remove1: "distinct xs \<Longrightarrow> remove1 x xs = filter (\<lambda>y. y \<noteq> x) xs"
  by (auto simp: distinct_remove1_removeAll removeAll_filter_not_eq intro: filter_cong)

text \<open>Removing one call is an instance of the abstract removal.\<close>

lemma drop_call_view:
  assumes inv: "view_inv (view_of s)" and k: "call_heap s a = Some k"
    and c: "wsi_to_client s (pc_wsi k) = Some c"
    and s': "wsi_to_client s' = (wsi_to_client s)(pc_wsi k \<mapsto> drop_call a c)"
      "call_heap s' = (call_heap s)(a := None)"
      "chk_heap s' = (case pc_check k of Some b \<Rightarrow> (chk_heap s)(b := None) | None \<Rightarrow> chk_heap s)"
      "ubus_reqs s' = ubus_reqs s - {UCall a} - (case pc_check k of Some b \<Rightarrow> {UChk b} | None \<Rightarrow> {})"
      "timers s' = timers s - (case pc_check k of Some b \<Rightarrow> {b} | None \<Rightarrow> {})"
      "sub_heap s' = sub_heap s" "ev_heap s' = ev_heap s" "listen_list s' = listen_list s"
      "ev_handlers s' = ev_handlers s" "next_addr s' = next_addr s"
  shows "view_of s' = remove_objs {RCall a} {} (view_of s)"
proof -
  let ?w = "pc_wsi k"
  have q: "queues_ok (view_of s)" and ch: "checks_ok (view_of s)"
    using inv by (simp_all add: view_inv_def)
  have kv: "call_view s a = Some (?w, pc_check k, pc_invoke k)" using k by (simp add: call_view_def)
  have own: "owned_chk {RCall a} {} (view_of s) b \<longleftrightarrow> pc_check k = Some b" for b
  proof -
    have "owned_chk {RCall a} {} (view_of s) b \<longleftrightarrow> (\<exists>t. chk_view s b = Some (OCall a, t))"
      by (auto simp: owned_chk_def owned_def split: option.splits chk_owner.splits)
    also have "\<dots> \<longleftrightarrow> (\<exists>w i. call_view s a = Some (w, Some b, i))"
      using ch by (simp add: checks_ok_def)
    finally show ?thesis by (simp add: kv)
  qed
  have other: "v \<noteq> ?w \<Longrightarrow> RCall a \<notin> set (rq s v)" "v \<noteq> ?w \<Longrightarrow> OCall a \<notin> set (aq s v)" for v
    using q kv by (auto simp: queues_ok_def)
  have d: "distinct (rq s v)" "distinct (aq s v)" for v
    using q by (simp_all add: queues_ok_def)
  have req: "owned_req {RCall a} {} (view_of s) r \<longleftrightarrow>
      r = UCall a \<or> (\<exists>b. pc_check k = Some b \<and> r = UChk b)" for r
    by (cases r) (auto simp: owned_req_def own)
  have ow: "(\<lambda>own. \<not> owned {RCall a} {} own) = (\<lambda>own. own \<noteq> OCall a)"
    by (auto simp: fun_eq_iff owned_def split: chk_owner.splits)
  have "rq s' v = filter (\<lambda>r. r \<notin> {RCall a}) (rq s v)" for v
    using filter_remove1 [OF d(1) [of v], of "RCall a"] other(1) [of v] c
    by (cases "v = ?w") (simp_all add: filter_absent, simp_all add: rq_def s'(1) drop_call_def)
  moreover have "aq s' v = filter (\<lambda>own. \<not> owned {RCall a} {} own) (aq s v)" for v
    using filter_remove1 [OF d(2) [of v], of "OCall a"] other(2) [of v] c unfolding ow
    by (cases "v = ?w") (simp_all add: filter_absent, simp_all add: aq_def s'(1) drop_call_def)
  ultimately show ?thesis
    using s'
    by (intro view_eqI)
      (auto simp: remove_objs_def own req call_view_def sub_view_def ev_view_def
        chk_view_def fun_eq_iff split: option.splits)
qed

text \<open>The globals that no message handler touches.\<close>

definition same_globals :: "server \<Rightarrow> server \<Rightarrow> bool" where
  "same_globals s s' \<longleftrightarrow>
     num_active_ses s' = num_active_ses s \<and> req_max s' = req_max s \<and> total_req_max s' = total_req_max s"

lemma sessions_kept:
  assumes "sessions_ok s" "same_globals s s'"
    and "\<And>w. wsi_to_client s' w = None \<longleftrightarrow> wsi_to_client s w = None"
  shows "sessions_ok s'"
  using assms by (simp add: sessions_ok_def same_globals_def)

text \<open>A step that changes one client, and of it not the calls, keeps what is not in the view.\<close>

lemma client_changed_inv:
  assumes "server_inv s" "wsi_to_client s w = Some c" "wsi_to_client t = (wsi_to_client s)(w \<mapsto> c')"
    and "rpc_q_len c' = rpc_q_len c" "rpc_call_q c' = rpc_call_q c"
    and "same_globals s t" "all_ready t" "view_inv (view_of t)"
  shows "server_inv t"
proof -
  have "len_ok t" using assms(1-5) by (auto simp: server_inv_def len_ok_def)
  moreover have "sessions_ok t"
    by (rule sessions_kept [OF _ assms(6)]) (use assms(1-3) in \<open>auto simp: server_inv_def\<close>)
  ultimately show ?thesis using assms(7,8) by (simp add: server_inv_def)
qed

lemma drop_call_inv:
  assumes inv: "server_inv s" and k: "call_heap s a = Some k"
    and c: "wsi_to_client s (pc_wsi k) = Some c"
    and s': "wsi_to_client s' = (wsi_to_client s)(pc_wsi k \<mapsto> drop_call a c)"
      "view_of s' = remove_objs {RCall a} {} (view_of s)" "same_globals s s'" "all_ready s'"
  shows "server_inv s'"
proof -
  have v: "view_inv (view_of s)" using inv by (simp add: server_inv_def)
  have "RCall a \<in> set (rpc_call_q c)"
    using call_queued [OF v k] c by auto
  then have "length (filter is_RCall (rpc_call_q c)) =
      Suc (length (filter is_RCall (rpc_call_q (drop_call a c))))"
    using count_remove1 by (simp add: drop_call_def)
  then have "len_ok s'"
    using inv c by (auto simp: server_inv_def len_ok_def s'(1) drop_call_def)
  moreover have "view_inv (view_of s')"
    unfolding s'(2) by (rule remove_objs_inv [OF v]) simp
  moreover have "sessions_ok s'"
    by (rule sessions_kept [OF _ s'(3)]) (use inv c in \<open>auto simp: server_inv_def s'(1)\<close>)
  ultimately show ?thesis using s'(4) by (simp add: server_inv_def)
qed

lemma listen_defined: "env_ok E \<Longrightarrow> \<exists>args'. owsd_listen E w args = Some args'"
  by (auto simp: owsd_listen_def env_ok_def split: option.splits) (metis option.distinct(1))

lemma do_call_effect:
  assumes env: "env_ok E" and k: "call_heap s a = Some k"
  shows "\<exists>ret s'. wsubus_call_do_call E a s = Some (ret, s') \<and>
     (\<exists>args. let k' = k\<lparr>pc_args := args\<rparr> in
        ret \<noteq> 0 \<and> s' = s\<lparr>call_heap := (call_heap s)(a \<mapsto> k')\<rparr> \<or>
        ret = 0 \<and> (\<exists>log. s' = s\<lparr>call_heap := (call_heap s)(a \<mapsto> k'\<lparr>pc_invoke := True\<rparr>),
           ubus_reqs := insert (UCall a) (ubus_reqs s), invoked := invoked s @ log\<rparr>))"
proof -
  obtain rc obj where l: "ubus_lookup_id E (uc_object (pc_args k)) = (rc, obj)" by fastforce
  obtain args where args: "owsd_listen E (pc_wsi k) (pc_args k) = Some args"
    using listen_defined [OF env] by blast
  have same: "s\<lparr>call_heap := (call_heap s)(a \<mapsto> k\<lparr>pc_args := pc_args k\<rparr>)\<rparr> = s"
    using k by (simp add: fun_upd_idem)
  consider "rc \<noteq> 0" | "rc = 0" "\<not> alloc E A_call_req"
    | "rc = 0" "alloc E A_call_req" "ubus_invoke_async E obj (uc_method args) (uc_params args) \<noteq> 0"
    | "rc = 0" "alloc E A_call_req" "ubus_invoke_async E obj (uc_method args) (uc_params args) = 0"
    by blast
  then show ?thesis
  proof cases
    case 1
    then show ?thesis
      using same by (intro exI [of _ rc] exI [of _ s] conjI exI [of _ "pc_args k"])
        (simp_all add: wsubus_call_do_call_def k l Let_def)
  next
    case 2
    then show ?thesis
      using same by (intro exI [of _ UBUS_STATUS_UNKNOWN_ERROR] exI [of _ s] conjI exI [of _ "pc_args k"])
        (simp_all add: wsubus_call_do_call_def k l Let_def UBUS_STATUS_UNKNOWN_ERROR_def)
  next
    case 3
    then show ?thesis
      by (simp add: wsubus_call_do_call_def k l args Let_def) blast
  next
    case 4
    then show ?thesis
      by (simp add: wsubus_call_do_call_def k l args Let_def) blast
  qed
qed

text \<open>
  Answering and destroying a call from a state \<open>t\<close> in which its check and its ubus request, if
  any, are gone already.
\<close>

lemma respond_and_destroy:
  assumes inv: "server_inv s" and r: "fits_message r"
    and k: "call_heap s a = Some k" and c: "wsi_to_client s (pc_wsi k) = Some c"
    and t: "wsi_to_client t =
        (wsi_to_client s)(pc_wsi k \<mapsto> c\<lparr>access_check_q := remove1 (OCall a) (access_check_q c)\<rparr>)"
      "call_heap t = (call_heap s)(a \<mapsto> k')" "pc_wsi k' = pc_wsi k" "\<not> pc_invoke k'"
      "chk_heap t = (case pc_check k of Some b \<Rightarrow> (chk_heap s)(b := None) | None \<Rightarrow> chk_heap s)"
      "ubus_reqs t = ubus_reqs s - {UCall a} - (case pc_check k of Some b \<Rightarrow> {UChk b} | None \<Rightarrow> {})"
      "timers t = timers s - (case pc_check k of Some b \<Rightarrow> {b} | None \<Rightarrow> {})"
      "sub_heap t = sub_heap s" "ev_heap t = ev_heap s" "listen_list t = listen_list s"
      "ev_handlers t = ev_handlers s" "next_addr t = next_addr s" "same_globals s t" "all_ready t"
  shows "\<exists>s'. Option.bind (queue_write E (pc_wsi k) r t)
           (\<lambda>t. Option.bind (rpc_q_del (pc_wsi k) (RCall a) t) (wsubus_percall_ctx_destroy a)) = Some s' \<and>
         server_inv s' \<and> view_of s' = remove_objs {RCall a} {} (view_of s)"
proof -
  let ?w = "pc_wsi k" and ?c = "c\<lparr>access_check_q := remove1 (OCall a) (access_check_q c)\<rparr>"
  let ?u = "enqueue E ?w r t"
  have v: "view_inv (view_of s)" using inv by (simp add: server_inv_def)
  have q: "RCall a \<in> set (rpc_call_q c)" using call_queued [OF v k] c by auto
  have w: "queue_write E ?w r t = Some ?u"
    by (rule queue_write_enqueue [OF _ t(14) r, where c = ?c]) (simp add: t(1))
  define s' where "s' = put ?w (drop_call a c) (?u\<lparr>call_heap := (call_heap ?u)(a := None),
      ubus_reqs := ubus_reqs ?u\<rparr>)"
  have dc: "?c\<lparr>rpc_call_q := remove1 (RCall a) (rpc_call_q ?c), rpc_q_len := rpc_q_len ?c - 1\<rparr> =
      drop_call a c"
    by (simp add: drop_call_def)
  have "Option.bind (rpc_q_del ?w (RCall a) ?u) (wsubus_percall_ctx_destroy a) = Some s'"
    using unlink_and_destroy [of ?u a k' ?c] t q unfolding s'_def dc by simp
  then have run: "Option.bind (queue_write E ?w r t)
      (\<lambda>t. Option.bind (rpc_q_del ?w (RCall a) t) (wsubus_percall_ctx_destroy a)) = Some s'"
    by (simp add: w)
  have cl: "wsi_to_client s' = (wsi_to_client s)(?w \<mapsto> drop_call a c)"
    and g: "same_globals s s'" "all_ready s'"
    using t by (simp_all add: s'_def same_globals_def)
  have view: "view_of s' = remove_objs {RCall a} {} (view_of s)"
    by (rule drop_call_view [OF v k c cl]) (simp_all add: s'_def t)
  show ?thesis
    using run view drop_call_inv [OF inv k c cl view g] by blast
qed

section \<open>Callbacks of the libraries\<close>

text \<open>
  The completion of a check: the library has taken the request off its list, which is \<open>s1\<close>.
  The call is invoked, or the client is denied and the call is gone.
\<close>

text \<open>The state after the check of a call is gone, and the one after the call is on the bus.\<close>

definition check_done :: "wsi \<Rightarrow> addr \<Rightarrow> addr \<Rightarrow> wsu_client_session \<Rightarrow> wsubus_percall_ctx \<Rightarrow> server \<Rightarrow> server" where
  "check_done w a b c k s =
     put w (c\<lparr>access_check_q := remove1 (OCall a) (access_check_q c)\<rparr>)
       (s\<lparr>ubus_reqs := ubus_reqs s - {UChk b}, timers := timers s - {b}, chk_heap := (chk_heap s)(b := None),
          call_heap := (call_heap s)(a \<mapsto> k\<lparr>pc_check := None\<rparr>)\<rparr>)"

lemma invoked_call_inv:
  assumes inv: "server_inv s" and k: "call_heap s a = Some k" "pc_check k = Some b"
    and c: "wsi_to_client s (pc_wsi k) = Some c" "OCall a \<in> set (access_check_q c)"
    and s2: "s2 = check_done (pc_wsi k) a b c k s"
    and t: "t = s2\<lparr>call_heap := (call_heap s2)(a \<mapsto> k\<lparr>pc_check := None, pc_args := args, pc_invoke := True\<rparr>),
       ubus_reqs := insert (UCall a) (ubus_reqs s2), invoked := invoked s2 @ log\<rparr>"
  shows "server_inv t \<and> view_of t = invoke_call (pc_wsi k) a b (view_of s)"
proof -
  have v: "view_inv (view_of s)" "all_ready s" using inv by (simp_all add: server_inv_def)
  have view: "view_of t = invoke_call (pc_wsi k) a b (view_of s)"
    using c by (intro view_eqI) (auto simp: t s2 check_done_def invoke_call_def rq_def aq_def fun_eq_iff
        call_view_def sub_view_def ev_view_def chk_view_def)
  have "view_inv (view_of t)"
    unfolding view by (rule invoke_call_inv [OF v(1)]) (simp add: call_view_def k)
  then have "server_inv t"
    by (intro client_changed_inv [OF inv c(1),
        where c' = "c\<lparr>access_check_q := remove1 (OCall a) (access_check_q c)\<rparr>"]) (use v(2) c(1) in \<open>simp_all add: t s2 check_done_def same_globals_def\<close>)
  then show ?thesis using view by blast
qed

lemma access_on_completed_inv:
  assumes inv: "server_inv s" and env: "env_ok E"
    and k: "call_heap s a = Some k" "pc_check k = Some b"
    and s1: "s1 = s\<lparr>ubus_reqs := ubus_reqs s - {UChk b}, timers := timers s - {b}\<rparr>"
  shows "\<exists>s'. wsubus_access_on_completed E b a allow s1 = Some s' \<and> server_inv s' \<and>
     (view_of s' = remove_objs {RCall a} {} (view_of s) \<or>
      allow \<and> view_of s' = invoke_call (pc_wsi k) a b (view_of s))"
proof -
  have v: "view_inv (view_of s)" "all_ready s" using inv by (simp_all add: server_inv_def)
  let ?w = "pc_wsi k"
  obtain c where c: "wsi_to_client s ?w = Some c" "OCall a \<in> set (access_check_q c)"
    using call_queued [OF v(1) k(1)] k(2) by (metis option.distinct(1))
  obtain r where r: "chk_heap s b = Some r" using check_of_call [OF v(1) k] by blast
  have ni: "\<not> pc_invoke k" and nu: "UCall a \<notin> ubus_reqs s"
    using call_phase [OF v(1) k(1)] k(2) by auto
  define s2 where "s2 = check_done ?w a b c k s"
  define fin where "fin t = Option.bind (queue_write E ?w (denied E (pc_id k)) t)
      (\<lambda>t. Option.bind (rpc_q_del ?w (RCall a) t) (wsubus_percall_ctx_destroy a))" for t
  have run: "wsubus_access_on_completed E b a allow s1 = do {
       (ret, t) \<leftarrow> (if \<not> allow then Some (UBUS_STATUS_PERMISSION_DENIED, s2) else wsubus_call_do_call E a s2);
       if ret \<noteq> 0 then fin t else Some t }"
    using c unfolding fin_def denied_def
    by (simp add: wsubus_access_on_completed_def s1 k wsubus_access_check_free_def r Let_def
        acq_del_put s2_def check_done_def)
  have removed: "\<exists>s'. fin (s2\<lparr>call_heap := (call_heap s2)(a \<mapsto> k')\<rparr>) = Some s' \<and> server_inv s' \<and>
      view_of s' = remove_objs {RCall a} {} (view_of s)"
    if k': "pc_wsi k' = ?w" "\<not> pc_invoke k'" for k'
    unfolding fin_def
    by (rule respond_and_destroy [OF inv _ k(1) c(1), where k' = k'])
      (use k k' c v nu env in \<open>auto simp: s2_def check_done_def denied_def same_globals_def\<close>)
  have h2: "call_heap s2 a = Some (k\<lparr>pc_check := None\<rparr>)" by (simp add: s2_def check_done_def)
  show ?thesis
  proof (cases allow)
    case False
    have "s2\<lparr>call_heap := (call_heap s2)(a \<mapsto> k\<lparr>pc_check := None\<rparr>)\<rparr> = s2"
      by (rule call_heap_same) (simp add: s2_def check_done_def)
    then show ?thesis
      using removed [of "k\<lparr>pc_check := None\<rparr>"] False ni unfolding run
      by (simp add: UBUS_STATUS_PERMISSION_DENIED_def)
  next
    case True
    obtain ret t args where d: "wsubus_call_do_call E a s2 = Some (ret, t)"
      "let k' = k\<lparr>pc_check := None, pc_args := args\<rparr> in
        ret \<noteq> 0 \<and> t = s2\<lparr>call_heap := (call_heap s2)(a \<mapsto> k')\<rparr> \<or>
        ret = 0 \<and> (\<exists>log. t = s2\<lparr>call_heap := (call_heap s2)(a \<mapsto> k'\<lparr>pc_invoke := True\<rparr>),
           ubus_reqs := insert (UCall a) (ubus_reqs s2), invoked := invoked s2 @ log\<rparr>)"
      using do_call_effect [OF env h2] by auto
    show ?thesis
    proof (cases "ret = 0")
      case False
      then show ?thesis
        using removed [of "k\<lparr>pc_check := None, pc_args := args\<rparr>"] d True ni unfolding run
        by (auto simp: Let_def)
    next
      case r0: True
      then obtain log where t: "t = s2\<lparr>call_heap := (call_heap s2)(a \<mapsto>
             k\<lparr>pc_check := None, pc_args := args, pc_invoke := True\<rparr>),
           ubus_reqs := insert (UCall a) (ubus_reqs s2), invoked := invoked s2 @ log\<rparr>"
        using d(2) by (auto simp: Let_def)
      from invoked_call_inv [OF inv k c s2_def this]
      show ?thesis using d(1) True r0 unfolding run by simp
    qed
  qed
qed

lemma call_response_defined:
  assumes "env_ok E"
  obtains r where "call_response E k status = Some r" "fits_message r"
proof -
  obtain f where f: "\<And>xs. blobmsg_format_json (lib E) xs = Some (f xs)"
    using assms unfolding env_ok_def formats_ok_def by metis
  have "\<exists>r. call_response E k status = Some r \<and> fits_message r"
    unfolding call_response_def Let_def using fits_responses [OF assms]
    by (cases "pc_retbuf k") (auto simp: f split: option.split)
  then show thesis using that by blast
qed

lemma call_on_completed_inv:
  assumes inv: "server_inv s" and env: "env_ok E" and u: "UCall a \<in> ubus_reqs s"
  shows "\<exists>s'. wsubus_call_on_completed E a status (s\<lparr>ubus_reqs := ubus_reqs s - {UCall a}\<rparr>) = Some s' \<and>
     server_inv s' \<and> view_of s' = remove_objs {RCall a} {} (view_of s)"
proof -
  have v: "view_inv (view_of s)" "all_ready s" using inv by (simp_all add: server_inv_def)
  obtain k where k: "call_heap s a = Some k" "pc_invoke k" "pc_check k = None"
    using pending_call [OF v(1) u] by blast
  obtain c where c: "wsi_to_client s (pc_wsi k) = Some c" using call_queued [OF v(1) k(1)] by blast
  have "OCall a \<notin> set (aq s (pc_wsi k))"
    using v(1) k by (auto simp: view_inv_def queues_ok_def call_view_def)
  then have nq: "remove1 (OCall a) (access_check_q c) = access_check_q c"
    using c by (simp add: aq_def remove1_idem)
  obtain r where r: "call_response E k status = Some r" "fits_message r"
    using call_response_defined [OF env] by blast
  let ?t = "s\<lparr>ubus_reqs := ubus_reqs s - {UCall a}, call_heap := (call_heap s)(a \<mapsto> k\<lparr>pc_invoke := False\<rparr>)\<rparr>"
  have w: "queue_write E (pc_wsi k) r (s\<lparr>ubus_reqs := ubus_reqs s - {UCall a}\<rparr>) =
      Some (enqueue E (pc_wsi k) r (s\<lparr>ubus_reqs := ubus_reqs s - {UCall a}\<rparr>))"
    "queue_write E (pc_wsi k) r ?t = Some (enqueue E (pc_wsi k) r ?t)"
    by (rule queue_write_enqueue; use c v(2) r(2) in simp)+
  have "wsubus_call_on_completed E a status (s\<lparr>ubus_reqs := ubus_reqs s - {UCall a}\<rparr>) =
      Option.bind (queue_write E (pc_wsi k) r ?t)
        (\<lambda>t. Option.bind (rpc_q_del (pc_wsi k) (RCall a) t) (wsubus_percall_ctx_destroy a))"
    using k r(1) w by (simp add: wsubus_call_on_completed_def Let_def)
  moreover have "\<exists>s'. Option.bind (queue_write E (pc_wsi k) r ?t)
        (\<lambda>t. Option.bind (rpc_q_del (pc_wsi k) (RCall a) t) (wsubus_percall_ctx_destroy a)) = Some s' \<and>
      server_inv s' \<and> view_of s' = remove_objs {RCall a} {} (view_of s)"
    by (rule respond_and_destroy [OF inv r(2) k(1) c, where k' = "k\<lparr>pc_invoke := False\<rparr>"])
      (use k c v nq in \<open>auto simp: same_globals_def fun_eq_iff\<close>)
  ultimately show ?thesis by simp
qed

text \<open>Reply data change only the collected buffer or the verdict.\<close>

lemma view_only_inv:
  assumes "server_inv s" "view_of s' = view_of s" "wsi_to_client s' = wsi_to_client s"
    "same_globals s s'" "all_ready s'"
  shows "server_inv s'"
  using assms by (simp add: server_inv_def len_ok_def sessions_ok_def same_globals_def)

lemma call_on_retdata_inv:
  assumes inv: "server_inv s" and u: "UCall a \<in> ubus_reqs s"
  shows "\<exists>s'. wsubus_call_on_retdata a msg s = Some s' \<and> server_inv s' \<and> view_of s' = view_of s"
proof -
  obtain k where k: "call_heap s a = Some k"
    using pending_call [OF _ u] inv by (auto simp: server_inv_def)
  show ?thesis
  proof (cases msg)
    case None
    then show ?thesis using inv k by (simp add: wsubus_call_on_retdata_def)
  next
    case (Some v)
    let ?s = "s\<lparr>call_heap := (call_heap s)(a \<mapsto> k\<lparr>pc_retbuf := pc_retbuf k @ [([], v)]\<rparr>)\<rparr>"
    have "view_of ?s = view_of s"
      using k by (intro view_eqI) (auto simp: rq_def aq_def fun_eq_iff call_view_def sub_view_def
          ev_view_def chk_view_def)
    moreover have "server_inv ?s"
      by (rule view_only_inv [OF inv calculation])
        (use inv in \<open>simp_all add: same_globals_def server_inv_def\<close>)
    ultimately show ?thesis using Some k by (simp add: wsubus_call_on_retdata_def)
  qed
qed

lemma check_on_ret_inv:
  assumes inv: "server_inv s" and u: "UChk b \<in> ubus_reqs s"
  shows "\<exists>s'. wsubus_access_check__on_ret b msg s = Some s' \<and> server_inv s' \<and> view_of s' = view_of s"
proof -
  obtain r where r: "chk_heap s b = Some r"
    using pending_check [OF _ u] inv by (auto simp: server_inv_def)
  obtain res where run: "wsubus_access_check__on_ret b msg s =
      Some (s\<lparr>chk_heap := (chk_heap s)(b \<mapsto> r\<lparr>ck_result := res\<rparr>)\<rparr>)"
    using r by (simp add: wsubus_access_check__on_ret_def)
  let ?s = "s\<lparr>chk_heap := (chk_heap s)(b \<mapsto> r\<lparr>ck_result := res\<rparr>)\<rparr>"
  have "view_of ?s = view_of s"
    using r by (intro view_eqI) (auto simp: rq_def aq_def fun_eq_iff call_view_def sub_view_def
        ev_view_def chk_view_def)
  moreover have "server_inv ?s"
    by (rule view_only_inv [OF inv calculation])
      (use inv in \<open>simp_all add: same_globals_def server_inv_def\<close>)
  ultimately show ?thesis using run by simp
qed

end
