(* ===== verification/Inv_Sub.thy ===== *)
theory Inv_Sub
  imports Inv_Call
begin

text \<open>
  The subscription and list RPCs and the delivery of events against the ownership machine.
\<close>

section \<open>Handlers that answer at once\<close>

text \<open>
  The common end of these handlers: respond and take one off the queue length. \<open>t\<close> is the state
  the handler has reached; its session for \<open>w\<close> has the same calls.
\<close>

lemma respond_at_once:
  assumes inv: "server_inv s" and r: "fits_message r" and c: "wsi_to_client s w = Some c"
    and t: "view_inv (view_of t)" "all_ready t" "wsi_to_client t = (wsi_to_client s)(w \<mapsto> d)"
      "filter is_RCall (rpc_call_q d) = filter is_RCall (rpc_call_q c)" "rpc_q_len d = rpc_q_len c"
      "same_globals s t"
  shows "\<exists>s'. Option.bind (queue_write E w r t) (rpc_q_len_dec w) = Some s' \<and> handled w s s' \<and>
     s' = put w (d\<lparr>rpc_q_len := rpc_q_len d - 1\<rparr>) (enqueue E w r t)"
proof -
  let ?d = "d\<lparr>rpc_q_len := rpc_q_len d - 1\<rparr>"
  let ?u = "enqueue E w r t"
  have w: "queue_write E w r t = Some ?u"
    by (rule queue_write_enqueue [OF _ t(2) r, where c = d]) (simp add: t(3))
  have u: "wsi_to_client ?u = (wsi_to_client s)(w \<mapsto> d)" using t(3) by simp
  have dec: "rpc_q_len_dec w ?u = Some (put w ?d ?u)"
    using rpc_q_len_dec_put [of ?u w d] u by simp
  have "rq (put w ?d ?u) = rq t" "aq (put w ?d ?u) = aq t"
    using t(3) by (auto simp: rq_def aq_def fun_eq_iff)
  then have "view_of (put w ?d ?u) = view_of t"
    by (intro view_eqI) (simp_all add: call_view_def sub_view_def ev_view_def chk_view_def fun_eq_iff)
  moreover have "rpc_q_len c = of_nat (length (filter is_RCall (rpc_call_q c)))"
    using inv c by (simp add: server_inv_def len_ok_def)
  ultimately have "handled w s (put w ?d ?u)"
    using t u by (simp add: handled_def same_globals_def)
  then show ?thesis using w dec by simp
qed

lemma bind_dec: "(do { s \<leftarrow> m; s \<leftarrow> f s; Some (0 :: int, s) }) = map_option (Pair 0) (Option.bind m f)"
  by (cases m) (auto simp: bind_eq_None_conv split: option.splits intro: Option.option.expand)

text \<open>\<open>subscribe\<close>\<close>

lemma handle_sub_handled:
  assumes inv: "server_inv s" and env: "env_ok E" and c: "wsi_to_client s w = Some c"
  shows "\<exists>s'. ubusrpc_handle_sub E w (fst x) (snd x) rid s = Some (0, s') \<and> handled w s s'"
proof -
  have v: "view_inv (view_of s)" "all_ready s" using inv by (simp_all add: server_inv_def)
  let ?a = "next_addr s"
  let ?rc = "if alloc E A_subinfo then ubus_register_event_handler E (snd x) else 9"
  let ?r = "jsonrpc__resp_ubus (lib E) rid ?rc None"
  define t where "t =
      (if \<not> alloc E A_subinfo then s
       else if ?rc \<noteq> 0 then s\<lparr>next_addr := ?a + 1\<rparr>
       else put w (c\<lparr>rpc_call_q := rpc_call_q c @ [RSub ?a]\<rparr>)
         (s\<lparr>next_addr := ?a + 1,
            sub_heap := (sub_heap s)(?a \<mapsto> \<lparr>si_wsi = w, si_sid = fst x, si_pattern = snd x\<rparr>),
            ev_handlers := insert ?a (ev_handlers s), listen_list := listen_list s @ [?a]\<rparr>))"
  have run: "ubusrpc_handle_sub E w (fst x) (snd x) rid s =
      map_option (Pair 0) (Option.bind (queue_write E w ?r t) (rpc_q_len_dec w))"
    using c by (auto simp: ubusrpc_handle_sub_def Let_def rpc_q_add_put t_def bind_dec)
  have vt: "view_inv (view_of t)"
  proof (cases "\<not> alloc E A_subinfo \<or> ?rc \<noteq> 0")
    case True
    then have "view_of t = view_of s \<or> view_of t = (view_of s)\<lparr>v_next := ?a + 1\<rparr>"
      by (auto simp: t_def view_of_def rq_def aq_def call_view_def sub_view_def ev_view_def
          chk_view_def fun_eq_iff)
    then show ?thesis using v(1) view_inv_next [OF v(1), of "?a + 1"] by auto
  next
    case False
    then have "view_of t = add_sub w (view_of s)"
      using c by (intro view_eqI) (auto simp: t_def add_sub_def Let_def rq_def aq_def call_view_def
          sub_view_def ev_view_def chk_view_def fun_eq_iff)
    then show ?thesis using add_sub_inv [OF v(1)] by simp
  qed
  obtain d where d: "wsi_to_client t = (wsi_to_client s)(w \<mapsto> d)"
      "filter is_RCall (rpc_call_q d) = filter is_RCall (rpc_call_q c)" "rpc_q_len d = rpc_q_len c"
  proof
    let ?d = "if alloc E A_subinfo \<and> ?rc = 0 then c\<lparr>rpc_call_q := rpc_call_q c @ [RSub ?a]\<rparr> else c"
    show "wsi_to_client t = (wsi_to_client s)(w \<mapsto> ?d)"
      using c by (auto simp: t_def fun_upd_idem)
  qed auto
  have g: "all_ready t" "same_globals s t"
    using v(2) c by (auto simp: t_def same_globals_def)
  show ?thesis
    using respond_at_once [OF inv _ c vt g(1) d g(2), of ?r E] env by (auto simp: run)
qed

interpretation sub_rpc: rpc_handler "\<lambda>E w x rid s. ubusrpc_handle_sub E w (fst x) (snd x) rid s"
    "\<lambda>_ _ _ _ _. True"
  by unfold_locales (rule handle_sub_handled)

text \<open>\<open>subscribe-list\<close>\<close>

lemma sub_list_entries_defined:
  "(\<And>a. a \<in> set as \<Longrightarrow> sub_heap s a \<noteq> None) \<Longrightarrow>
   sub_list_entries s w as =
     Some (map (\<lambda>a. blobmsg_add_sub_info [] (the (sub_heap s a)))
             (filter (\<lambda>a. si_wsi (the (sub_heap s a)) = w) as))"
proof (induction as)
  case (Cons a as)
  obtain i where "sub_heap s a = Some i" using Cons.prems by fastforce
  then show ?case using Cons by simp
qed simp

lemma listen_live:
  "view_inv (view_of s) \<Longrightarrow> a \<in> set (listen_list s) \<Longrightarrow> sub_heap s a \<noteq> None"
  by (simp add: view_inv_def listen_ok_def sub_view_def)

lemma wsi_to_client_peer_some: "wsi_to_client s w = Some c \<Longrightarrow> \<exists>p. wsi_to_peer s w = Some p"
  by (auto dest: wsi_to_client_peer simp: wsi_to_peer_def)

lemma handle_sub_list_handled:
  assumes inv: "server_inv s" and env: "env_ok E" and c: "wsi_to_client s w = Some c"
  shows "\<exists>s'. ubusrpc_handle_sub_list E w rid s = Some (0, s') \<and> handled w s s'"
proof -
  have v: "view_inv (view_of s)" "all_ready s" using inv by (simp_all add: server_inv_def)
  obtain es where es: "sub_list_entries s w (listen_list s) = Some es"
    using sub_list_entries_defined [of "listen_list s" s w] listen_live [OF v(1)] by blast
  let ?r = "jsonrpc__resp_ubus (lib E) rid 0 (Some ([], BArray es))"
  obtain p where "wsi_to_peer s w = Some p" using wsi_to_client_peer_some [OF c] by blast
  then have run: "ubusrpc_handle_sub_list E w rid s =
      map_option (Pair 0) (Option.bind (queue_write E w ?r s) (rpc_q_len_dec w))"
    by (simp add: ubusrpc_handle_sub_list_def es bind_dec)
  have "wsi_to_client s = (wsi_to_client s)(w \<mapsto> c)" using c by (simp add: fun_upd_idem)
  then show ?thesis
    using respond_at_once [OF inv _ c v, of ?r c E] env by (auto simp: run same_globals_def)
qed

interpretation sub_list_rpc: rpc_handler "\<lambda>E w (_ :: unit) rid s. ubusrpc_handle_sub_list E w rid s"
    "\<lambda>_ _ _ _ _. True"
  by unfold_locales (rule handle_sub_list_handled)

text \<open>\<open>list\<close>, which needs an id\<close>

lemma type_known: "unat t < 8 \<Longrightarrow> blobmsg_type_to_str (blobmsg_type_of_u32 t) \<noteq> None"
proof -
  assume "unat t < 8"
  then have "unat t \<in> {0, 1, 2, 3, 4, 5, 6, 7}" by auto
  then show ?thesis by (auto simp: blobmsg_type_of_u32_def Let_def)
qed

lemma lookup_args_defined:
  "(\<And>n t. (n, BInt32 t) \<in> set xs \<Longrightarrow> unat t < 8) \<Longrightarrow> \<exists>ys. lookup_args xs = Some ys"
proof (induction xs)
  case (Cons x xs)
  obtain n v where x: "x = (n, v)" by fastforce
  obtain ys where "lookup_args xs = Some ys" using Cons by auto
  then show ?case
    using Cons.prems [of n] type_known by (cases v) (fastforce simp: x)+
qed simp

lemma lookup_methods_defined:
  "(\<And>m v n t. (m, v) \<in> set ms \<Longrightarrow> (n, BInt32 t) \<in> set (blobmsg_attrs L v) \<Longrightarrow> unat t < 8) \<Longrightarrow>
   \<exists>ys. lookup_methods L path ms = Some ys"
proof (induction ms)
  case (Cons x ms)
  obtain m v where x: "x = (m, v)" by fastforce
  obtain ys where "lookup_methods L path ms = Some ys" using Cons by force
  moreover obtain zs where "lookup_args (blobmsg_attrs L v) = Some zs"
    using lookup_args_defined Cons.prems [of m v] x by (metis list.set_intros(1))
  ultimately show ?case by (simp add: x)
qed simp

lemma lookup_all_defined:
  assumes "wsi_to_peer s w = Some p"
    and "\<And>path ms m v n t. (path, Some ms) \<in> set objs \<Longrightarrow> (m, v) \<in> set ms \<Longrightarrow>
           (n, BInt32 t) \<in> set (blobmsg_attrs (lib E) v) \<Longrightarrow> unat t < 8"
  shows "\<exists>ys. lookup_all E s w buf objs = Some ys"
  using assms(2)
proof (induction objs arbitrary: buf)
  case (Cons x objs)
  have "\<exists>ms. (case snd x of None \<Rightarrow> Some [] | Some sig \<Rightarrow> lookup_methods (lib E) (fst x) sig) = Some ms"
  proof (cases "snd x")
    case (Some sig)
    then have "(fst x, Some sig) \<in> set (x # objs)" by (cases x) simp
    then show ?thesis
      using lookup_methods_defined [of sig "lib E" "fst x"] Cons.prems Some by (metis option.simps(5))
  qed simp
  then have "\<exists>buf'. ubus_lookup_cb E s w buf x = Some buf'"
    unfolding ubus_lookup_cb_def by (auto simp: assms(1))
  then obtain buf' where "ubus_lookup_cb E s w buf x = Some buf'" ..
  moreover have "\<exists>ys. lookup_all E s w buf' objs = Some ys"
    by (rule Cons.IH) (use Cons.prems in \<open>meson list.set_intros(2)\<close>)
  ultimately show ?case by simp
qed simp

lemma handle_list_handled:
  assumes inv: "server_inv s" and env: "env_ok E" and c: "wsi_to_client s w = Some c"
    and "rid \<noteq> None"
  shows "\<exists>s'. ubusrpc_handle_list E w pat rid s = Some (0, s') \<and> handled w s s'"
proof -
  have v: "view_inv (view_of s)" "all_ready s" using inv by (simp_all add: server_inv_def)
  obtain p where p: "wsi_to_peer s w = Some p" using wsi_to_client_peer_some [OF c] by blast
  obtain rc objs where l: "ubus_lookup E pat = (rc, objs)" by fastforce
  have "\<exists>ys. lookup_all E s w [] objs = Some ys"
    by (rule lookup_all_defined [OF p])
      (use env l in \<open>metis env_ok_def lookups_ok_def snd_conv\<close>)
  then obtain ys where ys: "lookup_all E s w [] objs = Some ys" ..
  let ?r = "if rc \<noteq> 0 then jsonrpc__resp_ubus (lib E) rid rc None
            else jsonrpc__resp_ubus (lib E) rid 0 (Some ([], BTable ys))"
  have run: "ubusrpc_handle_list E w pat rid s =
      map_option (Pair 0) (Option.bind (queue_write E w ?r s) (rpc_q_len_dec w))"
    using env assms(4)
    by (auto simp: ubusrpc_handle_list_def handle_list_ubus_def p l ys Let_def env_ok_def allocs_ok_def)
  have "wsi_to_client s = (wsi_to_client s)(w \<mapsto> c)" using c by (simp add: fun_upd_idem)
  then show ?thesis
    using respond_at_once [OF inv _ c v, of ?r c E] env by (auto simp: run same_globals_def)
qed

interpretation list_rpc: rpc_handler ubusrpc_handle_list "\<lambda>_ _ _ rid _. rid \<noteq> None"
  by unfold_locales (rule handle_list_handled)

section \<open>\<open>unsubscribe\<close>\<close>

definition drop_sub :: "addr \<Rightarrow> wsu_client_session \<Rightarrow> wsu_client_session" where
  "drop_sub a c = c\<lparr>rpc_call_q := remove1 (RSub a) (rpc_call_q c)\<rparr>"

lemma filter_remove_other: "filter is_RCall (remove1 (RSub a) q) = filter is_RCall q"
  by (induction q) auto

text \<open>The state without subscription \<open>a\<close> of client \<open>w\<close>.\<close>

definition without_sub :: "wsi \<Rightarrow> addr \<Rightarrow> wsu_client_session \<Rightarrow> server \<Rightarrow> server" where
  "without_sub w a c s =
     put w (drop_sub a c) (s\<lparr>ev_handlers := ev_handlers s - {a},
       listen_list := remove1 a (listen_list s), sub_heap := (sub_heap s)(a := None)\<rparr>)"

lemma unlink_sub:
  assumes inv: "view_inv (view_of s)" and i: "sub_heap s a = Some i"
    and c: "wsi_to_client s (si_wsi i) = Some c"
  shows "Option.bind (rpc_q_del (si_wsi i) (RSub a) s) (wsubus_unsub_elem a) =
     Some (without_sub (si_wsi i) a c s)"
proof -
  have "RSub a \<in> set (rpc_call_q c)" "a \<in> set (listen_list s)"
    by (rule sub_queued [OF inv i]; use c in simp)+
  then show ?thesis
    using i by (simp add: rpc_q_del_put [OF c] wsubus_unsub_elem_def without_sub_def drop_sub_def)
qed

lemma without_sub_view:
  assumes inv: "view_inv (view_of s)" and i: "sub_heap s a = Some i"
    and c: "wsi_to_client s (si_wsi i) = Some c"
  shows "view_of (without_sub (si_wsi i) a c s) = remove_objs {RSub a} {} (view_of s)"
proof -
  let ?w = "si_wsi i" and ?s = "without_sub (si_wsi i) a c s"
  have q: "queues_ok (view_of s)" "distinct (listen_list s)"
    using inv by (simp_all add: view_inv_def listen_ok_def)
  have none: "owned {RSub a} {} own \<longleftrightarrow> False" "owned_chk {RSub a} {} (view_of s) b \<longleftrightarrow> False"
    "owned_req {RSub a} {} (view_of s) r \<longleftrightarrow> False" for own b r
    by (auto simp: owned_def owned_chk_def owned_req_def split: chk_owner.splits option.splits ubus_req.splits)
  have "RSub a \<notin> set (rq s v)" if "v \<noteq> ?w" for v
    using q(1) i that by (auto simp: queues_ok_def sub_view_def)
  moreover have "distinct (rq s v)" for v using q(1) by (simp add: queues_ok_def)
  ultimately have rq: "rq ?s v = filter (\<lambda>r. r \<noteq> RSub a) (rq s v)" for v
    using filter_remove1 [of "rq s v" "RSub a"] c
    by (cases "v = ?w") (simp_all add: filter_absent, simp_all add: rq_def without_sub_def drop_sub_def)
  show ?thesis
    using c q(2)
    by (intro view_eqI)
      (auto simp: remove_objs_def none rq fun_eq_iff, auto simp: without_sub_def drop_sub_def aq_def
        call_view_def sub_view_def ev_view_def chk_view_def filter_remove1)
qed

text \<open>
  The subscriptions an unsubscribe request names, and the condition under which freeing them is
  safe: no notification of theirs is still waiting for its access check.
\<close>

definition sub_matches :: "server \<Rightarrow> wsi \<Rightarrow> string \<Rightarrow> addr \<Rightarrow> bool" where
  "sub_matches s w pattern a \<longleftrightarrow>
     (\<exists>i. sub_heap s a = Some i \<and> si_wsi i = w \<and> si_pattern i = pattern)"

definition safe_unsub :: "server \<Rightarrow> wsi \<Rightarrow> string \<Rightarrow> bool" where
  "safe_unsub s w pattern \<longleftrightarrow>
     (\<forall>x e. ev_heap s x = Some e \<longrightarrow> \<not> sub_matches s w pattern (ev_info e))"

lemma unsub_loop_effect:
  assumes "view_inv (view_of s)" "all_ready s" "wsi_to_client s w = Some c" "distinct as"
    "\<And>a. a \<in> set as \<Longrightarrow> sub_heap s a \<noteq> None" "safe_unsub s w pattern"
  shows "\<exists>s' c'. unsub_loop w pattern as ret s =
       Some (if \<exists>a\<in>set as. sub_matches s w pattern a then 0 else ret, s') \<and>
     view_inv (view_of s') \<and> all_ready s' \<and> wsi_to_client s' = (wsi_to_client s)(w \<mapsto> c') \<and>
     filter is_RCall (rpc_call_q c') = filter is_RCall (rpc_call_q c) \<and> rpc_q_len c' = rpc_q_len c \<and>
     same_globals s s' \<and>
     (\<forall>a. sub_heap s' a = (if a \<in> set as \<and> sub_matches s w pattern a then None else sub_heap s a))"
  using assms
proof (induction as arbitrary: s c ret)
  case Nil
  then show ?case
    by (intro exI [of _ s] exI [of _ c]) (simp add: fun_upd_idem same_globals_def)
next
  case (Cons a as)
  obtain i where i: "sub_heap s a = Some i" using Cons.prems(5) by fastforce
  show ?case
  proof (cases "sub_matches s w pattern a")
    case False
    then have run: "unsub_loop w pattern (a # as) ret s = unsub_loop w pattern as ret s"
      using i by (auto simp: sub_matches_def strcmp_eq_0)
    show ?thesis
      using Cons.IH [OF Cons.prems(1,2,3) _ _ Cons.prems(6), of ret] Cons.prems(4,5) False
      unfolding run by (auto simp: fun_eq_iff)
  next
    case True
    then have iw: "si_wsi i = w" "si_pattern i = pattern" using i by (auto simp: sub_matches_def)
    let ?s = "without_sub w a c s"
    have run: "unsub_loop w pattern (a # as) ret s = unsub_loop w pattern as 0 ?s"
      using unlink_sub [OF Cons.prems(1) i] Cons.prems(3) i iw
      by (simp add: strcmp_eq_0 Option.bind_assoc [symmetric])
    have v: "view_inv (view_of ?s)"
      using without_sub_view [OF Cons.prems(1) i] Cons.prems(3) iw
        remove_objs_inv [OF Cons.prems(1), of "{RSub a}" "{}"] Cons.prems(6) True
      by (auto simp: safe_unsub_def ev_view_def)
    have cl: "wsi_to_client ?s = (wsi_to_client s)(w \<mapsto> drop_sub a c)" "all_ready ?s" "same_globals s ?s"
      using Cons.prems(2,3) by (simp_all add: without_sub_def same_globals_def)
    have m: "sub_matches ?s w pattern x \<longleftrightarrow> x \<noteq> a \<and> sub_matches s w pattern x" for x
      by (auto simp: sub_matches_def without_sub_def)
    have su: "safe_unsub ?s w pattern"
      using Cons.prems(6) unfolding safe_unsub_def m by (simp add: without_sub_def)
    have dc: "filter is_RCall (rpc_call_q (drop_sub a c)) = filter is_RCall (rpc_call_q c)"
      "rpc_q_len (drop_sub a c) = rpc_q_len c"
      by (simp_all add: drop_sub_def filter_remove_other)
    have sh: "sub_heap ?s = (sub_heap s)(a := None)" by (simp add: without_sub_def)
    have cw: "wsi_to_client ?s w = Some (drop_sub a c)" and da: "distinct as"
      and live: "\<And>x. x \<in> set as \<Longrightarrow> sub_heap ?s x \<noteq> None"
      using cl(1) Cons.prems(4,5) by (auto simp: sh)
    obtain s' c' where r: "unsub_loop w pattern as 0 ?s = Some (0, s')" "view_inv (view_of s')"
      "all_ready s'" "wsi_to_client s' = (wsi_to_client ?s)(w \<mapsto> c')"
      "filter is_RCall (rpc_call_q c') = filter is_RCall (rpc_call_q (drop_sub a c))"
      "rpc_q_len c' = rpc_q_len (drop_sub a c)" "same_globals ?s s'"
      "\<forall>x. sub_heap s' x = (if x \<in> set as \<and> sub_matches ?s w pattern x then None else sub_heap ?s x)"
      using Cons.IH [OF v cl(2) cw da live su, of 0] unfolding if_cancel by blast
    show ?thesis
      using r cl dc True Cons.prems(4) unfolding run
      by (intro exI [of _ s'] exI [of _ c']) (auto simp: same_globals_def m sh)
  qed
qed

lemma handle_unsub_effect:
  assumes inv: "server_inv s" and env: "env_ok E" and c: "wsi_to_client s w = Some c"
    and safe: "safe_unsub s w pattern"
  shows "\<exists>s'. ubusrpc_handle_unsub E w pattern rid s = Some (0, s') \<and> handled w s s' \<and>
     (\<forall>a. sub_heap s' a = (if sub_matches s w pattern a then None else sub_heap s a))"
proof -
  have v: "view_inv (view_of s)" "all_ready s" using inv by (simp_all add: server_inv_def)
  have ll: "distinct (listen_list s)" "\<And>a. a \<in> set (listen_list s) \<longleftrightarrow> sub_heap s a \<noteq> None"
    using v(1) by (auto simp: view_inv_def listen_ok_def sub_view_def)
  obtain ret t d where t: "unsub_loop w pattern (listen_list s) 1 s = Some (ret, t)"
      "view_inv (view_of t)" "all_ready t" "wsi_to_client t = (wsi_to_client s)(w \<mapsto> d)"
      "filter is_RCall (rpc_call_q d) = filter is_RCall (rpc_call_q c)" "rpc_q_len d = rpc_q_len c"
      "same_globals s t"
      "\<forall>a. sub_heap t a = (if a \<in> set (listen_list s) \<and> sub_matches s w pattern a then None else sub_heap s a)"
    using unsub_loop_effect [OF v c ll(1) _ safe, of 1] ll(2) by blast
  let ?r = "jsonrpc__resp_ubus (lib E) rid (if ret \<noteq> 0 then 5 else ret) None"
  obtain p where "wsi_to_peer s w = Some p" using wsi_to_client_peer_some [OF c] by blast
  then have run: "ubusrpc_handle_unsub E w pattern rid s =
      map_option (Pair 0) (Option.bind (queue_write E w ?r t) (rpc_q_len_dec w))"
    by (simp add: ubusrpc_handle_unsub_def t(1) Let_def bind_dec)
  have "a \<in> set (listen_list s)" if "sub_matches s w pattern a" for a
    using that ll(2) by (auto simp: sub_matches_def)
  then have "\<forall>a. sub_heap t a = (if sub_matches s w pattern a then None else sub_heap s a)"
    using t(8) by auto
  then show ?thesis
    using respond_at_once [OF inv _ c t(2-7), of ?r E] env by (auto simp: run)
qed

interpretation unsub_rpc: rpc_handler ubusrpc_handle_unsub "\<lambda>_ w pattern _ s. safe_unsub s w pattern"
  by unfold_locales (use handle_unsub_effect in blast)

end
