(* ===== verification/Inv_Event.thy ===== *)
theory Inv_Event
  imports Inv_Sub
begin

text \<open>
  Events: a ubus event starts an access check for every subscription it matches, and the
  notification is sent, or dropped, when that check is decided.
\<close>

definition safe_event :: "env \<Rightarrow> server \<Rightarrow> addr \<Rightarrow> string \<Rightarrow> bool" where
  "safe_event E s ia type \<longleftrightarrow>
     (\<forall>i. sub_heap s ia = Some i \<longrightarrow>
        \<not> (si_sid i = ''X-tls-certificate'' \<and> strstr_found type ''ubus.object.'' \<and>
           \<not> lws_is_ssl E (si_wsi i)))"

text \<open>
  An event is dropped without a trace but the addresses used and the log, or a notification waits
  for its check.
\<close>

definition event_dropped :: "server \<Rightarrow> server \<Rightarrow> bool" where
  "event_dropped s s' \<longleftrightarrow> (\<exists>n log. next_addr s \<le> n \<and> s' = s\<lparr>next_addr := n, invoked := invoked s @ log\<rparr>)"

definition event_notif :: "addr \<Rightarrow> string \<Rightarrow> blob_attr list \<Rightarrow> addr option \<Rightarrow> wsi \<Rightarrow> wsubus_ev_notif" where
  "event_notif ia type msg chk w = \<lparr>ev_type = type, ev_msg = Some msg, ev_info = ia, ev_check = chk, ev_wsi = w\<rparr>"

definition asking_client :: "server \<Rightarrow> wsu_client_session \<Rightarrow> wsu_client_session" where
  "asking_client s c = c\<lparr>access_check_q := access_check_q c @ [OEv (next_addr s)]\<rparr>"

definition event_asked ::
    "addr \<Rightarrow> string \<Rightarrow> blob_attr list \<Rightarrow> wsi \<Rightarrow> wsu_client_session \<Rightarrow> server \<Rightarrow> server \<Rightarrow> bool" where
  "event_asked ia type msg w c s s' \<longleftrightarrow>
     (\<exists>r log. ck_owner r = OEv (next_addr s) \<and>
        s' = put w (asking_client s c)
          (checked (next_addr s + 1) r True log
            (s\<lparr>next_addr := next_addr s + 2,
               ev_heap := (ev_heap s)(next_addr s \<mapsto> event_notif ia type msg (Some (next_addr s + 1)) w)\<rparr>)))"

lemmas event_defs = event_notif_def asking_client_def

lemma event_check_del:
  assumes "view_inv (view_of s)" "wsi_to_client s w = Some c" "wsi_to_client t = (wsi_to_client s)(w \<mapsto> asking_client s c)"
  shows "acq_del w (OEv (next_addr s)) t = Some (put w c t)"
proof -
  have "OEv (next_addr s) \<notin> set (access_check_q c)"
    using fresh_unqueued(4) [OF assms(1), of "next_addr s" w] assms(2) by (simp add: aq_def)
  then show ?thesis
    using acq_del_put [of t w "asking_client s c" "OEv (next_addr s)"] assms(3)
    by (simp add: asking_client_def remove1_append)
qed

lemma event_check_add:
  assumes "wsi_to_client s w = Some c"
  shows "acq_add w (OEv (next_addr s)) (s\<lparr>next_addr := n, ev_heap := h\<rparr>) =
     Some (put w (asking_client s c) (s\<lparr>next_addr := n, ev_heap := h\<rparr>))"
  using acq_add_put [of "s\<lparr>next_addr := n, ev_heap := h\<rparr>" w c] assms by (simp add: asking_client_def)

lemma sub_cb_no_memory:
  assumes inv: "view_inv (view_of s)" and env: "env_ok E" and i: "sub_heap s ia = Some i"
    and c: "wsi_to_client s (si_wsi i) = Some c" and no: "\<not> alloc E A_check"
  shows "\<exists>s'. wsubus_sub_cb E ia type msg s = Some s' \<and> event_dropped s s'"
proof -
  let ?w = "si_wsi i" and ?b = "next_addr s + 1"
  have al: "alloc E A_evnotif" "alloc E A_ev_type" "alloc E A_ev_msg"
    using env by (simp_all add: env_ok_def allocs_ok_def)
  have "(ev_heap s)(next_addr s := None) = ev_heap s"
    using fresh_heap(3,4) [OF inv] by (simp add: fun_upd_idem)
  then have "wsubus_sub_cb E ia type msg s = Some (put ?w c (s\<lparr>next_addr := ?b, ev_heap := ev_heap s\<rparr>))"
    using event_check_add [OF c] c al no by (simp add: wsubus_sub_cb_def i Let_def event_check_del [OF inv c]
        wsubus_access_check_new_def wsubus_access_check_free_def wsubus_ev_destroy_ctx_def)
  moreover have "put ?w c (s\<lparr>next_addr := ?b, ev_heap := ev_heap s\<rparr>) =
      s\<lparr>next_addr := ?b, invoked := invoked s @ []\<rparr>"
    using put_same [OF c] by (simp add: ev_heap_same)
  ultimately show ?thesis
    unfolding event_dropped_def
    by (intro exI [of _ "s\<lparr>next_addr := ?b, invoked := invoked s @ []\<rparr>"] conjI exI [of _ ?b] exI [of _ "[]"]) simp_all
qed

lemma sub_cb_runs:
  assumes inv: "view_inv (view_of s)" and env: "env_ok E" and i: "sub_heap s ia = Some i"
    and c: "wsi_to_client s (si_wsi i) = Some c" and safe: "safe_event E s ia type" and al: "alloc E A_check"
  shows "\<exists>s'. wsubus_sub_cb E ia type msg s = Some s' \<and> (event_dropped s s' \<or> event_asked ia type msg (si_wsi i) c s s')"
proof -
  let ?w = "si_wsi i" and ?a = "next_addr s" and ?b = "next_addr s + 1"
  let ?r = "\<lparr>ck_result = False, ck_owner = OEv ?a, ck_tag = REQ_TAG_UBUS\<rparr>"
  define s1 where "s1 = put ?w (asking_client s c) (s\<lparr>next_addr := ?b + 1, chk_heap := (chk_heap s)(?b \<mapsto> ?r),
      ev_heap := (ev_heap s)(?a \<mapsto> event_notif ia type msg (Some ?b) ?w)\<rparr>)"
  have "\<exists>rc args' r log. wsubus_access_check E ?b ?w (si_sid i) (Some ''owsd'') type ''read'' None
        (OEv ?a) s1 = Some (rc, args', checked ?b r (rc = 0) log s1) \<and> ck_owner r = OEv ?a"
    by (rule access_check_effect [where ?r0.0 = ?r])
      (use env safe i in \<open>auto simp: s1_def cert_hazard_def safe_event_def event_notif_def\<close>)
  then obtain rc args' r log where chk:
    "wsubus_access_check E ?b ?w (si_sid i) (Some ''owsd'') type ''read'' None (OEv ?a) s1 =
      Some (rc, args', checked ?b r (rc = 0) log s1)" "ck_owner r = OEv ?a"
    by blast
  define s2 where "s2 = checked ?b r (rc = 0) log s1"
  have "alloc E A_evnotif" "alloc E A_ev_type" "alloc E A_ev_msg"
    using env by (simp_all add: env_ok_def allocs_ok_def)
  then have run: "wsubus_sub_cb E ia type msg s =
      (if rc \<noteq> 0 then Some (put ?w c (s2\<lparr>chk_heap := (chk_heap s2)(?b := None),
          ev_heap := (ev_heap s2)(?a := None)\<rparr>)) else Some s2)"
    using chk(1) event_check_add [OF c] c unfolding s2_def
    by (simp add: wsubus_sub_cb_def i Let_def event_check_del [OF inv c] check_new_alloc [OF al] s1_def checked_def
        event_notif_def wsubus_access_check__event_def wsubus_access_check_free_def wsubus_ev_destroy_ctx_def)
  have "put ?w c (s2\<lparr>chk_heap := (chk_heap s2)(?b := None), ev_heap := (ev_heap s2)(?a := None)\<rparr>) =
      s\<lparr>next_addr := ?b + 1, invoked := invoked s @ log\<rparr>" if "rc \<noteq> 0"
    using that put_same [OF c] fresh_heap(3,4) [OF inv] by (simp add: s2_def s1_def checked_def fun_upd_idem)
  then have "event_dropped s (put ?w c (s2\<lparr>chk_heap := (chk_heap s2)(?b := None), ev_heap := (ev_heap s2)(?a := None)\<rparr>))"
    if "rc \<noteq> 0"
    unfolding event_dropped_def using that by (intro exI [of _ "?b + 1"] exI [of _ log]) simp
  moreover have "event_asked ia type msg ?w c s s2" if "rc = 0"
    unfolding event_asked_def using that chk(2)
    by (intro exI [of _ r] exI [of _ log]) (simp add: s2_def s1_def checked_def)
  ultimately show ?thesis using run by (cases "rc = 0") simp_all
qed

lemma sub_cb_effect:
  assumes "view_inv (view_of s)" "env_ok E" "sub_heap s ia = Some i"
    "wsi_to_client s (si_wsi i) = Some c" "safe_event E s ia type"
  shows "\<exists>s'. wsubus_sub_cb E ia type msg s = Some s' \<and> (event_dropped s s' \<or> event_asked ia type msg (si_wsi i) c s s')"
  using sub_cb_no_memory [OF assms(1-4)] sub_cb_runs [OF assms] by blast

lemma event_dropped_inv:
  assumes inv: "server_inv s" and d: "event_dropped s s'"
  shows "server_inv s'"
proof -
  obtain n log where n: "next_addr s \<le> n" "s' = s\<lparr>next_addr := n, invoked := invoked s @ log\<rparr>"
    using d by (auto simp: event_dropped_def)
  then have "view_of s' = (view_of s)\<lparr>v_next := n\<rparr>"
    by (simp add: view_of_def rq_def aq_def call_view_def sub_view_def ev_view_def chk_view_def fun_eq_iff)
  then show ?thesis
    using inv view_inv_next [of "view_of s" n] n by (simp add: server_inv_def len_ok_def sessions_ok_def)
qed

lemma event_asked_inv:
  assumes inv: "server_inv s" and i: "sub_heap s ia = Some i" and c: "wsi_to_client s (si_wsi i) = Some c"
    and a: "event_asked ia type msg (si_wsi i) c s s'"
  shows "server_inv s'"
proof -
  have v: "view_inv (view_of s)" "all_ready s" using inv by (simp_all add: server_inv_def)
  obtain r log where r: "ck_owner r = OEv (next_addr s)" "s' = put (si_wsi i) (asking_client s c)
      (checked (next_addr s + 1) r True log (s\<lparr>next_addr := next_addr s + 2,
        ev_heap := (ev_heap s)(next_addr s \<mapsto> event_notif ia type msg (Some (next_addr s + 1)) (si_wsi i))\<rparr>))"
    using a by (auto simp: event_asked_def)
  have "view_of s' = add_ev (si_wsi i) ia (ck_tag r) (view_of s)"
    using r c by (intro view_eqI) (auto simp: add_ev_def event_defs Let_def checked_def rq_def aq_def
        call_view_def sub_view_def ev_view_def chk_view_def fun_eq_iff)
  then have "view_inv (view_of s')" using add_ev_inv [OF v(1)] i by (simp add: sub_view_def)
  then show ?thesis
    by (intro client_changed_inv [OF inv c, where c' = "asking_client s c"])
      (use r v(2) c in \<open>simp_all add: event_defs checked_def same_globals_def\<close>)
qed

lemma sub_cb_inv:
  assumes inv: "server_inv s" and env: "env_ok E" and h: "ia \<in> ev_handlers s"
    and safe: "safe_event E s ia type"
  shows "\<exists>s'. wsubus_sub_cb E ia type msg s = Some s' \<and> server_inv s'"
proof -
  have v: "view_inv (view_of s)" using inv by (simp add: server_inv_def)
  obtain i where i: "sub_heap s ia = Some i"
    using v h by (auto simp: view_inv_def listen_ok_def sub_view_def)
  obtain c where c: "wsi_to_client s (si_wsi i) = Some c" using sub_queued [OF v i] by blast
  from sub_cb_effect [OF v env i c safe, of msg] show ?thesis
    using event_dropped_inv [OF inv] event_asked_inv [OF inv i c] by blast
qed


section \<open>The verdict on a notification\<close>

definition drop_ev :: "addr \<Rightarrow> wsu_client_session \<Rightarrow> wsu_client_session" where
  "drop_ev a c = c\<lparr>access_check_q := remove1 (OEv a) (access_check_q c)\<rparr>"

lemma drop_ev_view:
  assumes inv: "view_inv (view_of s)" and e: "ev_heap s a = Some e" "ev_check e = Some b"
    and c: "wsi_to_client s (ev_wsi e) = Some c"
    and s': "wsi_to_client s' = (wsi_to_client s)(ev_wsi e \<mapsto> drop_ev a c)"
      "ev_heap s' = (ev_heap s)(a := None)" "chk_heap s' = (chk_heap s)(b := None)"
      "ubus_reqs s' = ubus_reqs s - {UChk b}" "timers s' = timers s - {b}"
      "call_heap s' = call_heap s" "sub_heap s' = sub_heap s" "listen_list s' = listen_list s"
      "ev_handlers s' = ev_handlers s" "next_addr s' = next_addr s"
  shows "view_of s' = remove_objs {} {a} (view_of s)"
proof -
  let ?w = "ev_wsi e"
  have q: "queues_ok (view_of s)" and ch: "checks_ok (view_of s)"
    using inv by (simp_all add: view_inv_def)
  have ev: "ev_view s a = Some (?w, ev_info e, Some b, ev_msg e \<noteq> None)" using e by (simp add: ev_view_def)
  have own: "owned_chk {} {a} (view_of s) b' \<longleftrightarrow> b' = b" for b'
  proof -
    have "owned_chk {} {a} (view_of s) b' \<longleftrightarrow> (\<exists>t. chk_view s b' = Some (OEv a, t))"
      by (auto simp: owned_chk_def owned_def split: option.splits chk_owner.splits)
    also have "\<dots> \<longleftrightarrow> (\<exists>w i m. ev_view s a = Some (w, i, Some b', m))"
      using ch by (simp add: checks_ok_def)
    finally show ?thesis by (auto simp: ev)
  qed
  have req: "owned_req {} {a} (view_of s) r \<longleftrightarrow> r = UChk b" for r
    by (cases r) (auto simp: owned_req_def own)
  have ow: "(\<lambda>own. \<not> owned {} {a} own) = (\<lambda>own. own \<noteq> OEv a)"
    by (auto simp: fun_eq_iff owned_def split: chk_owner.splits)
  have other: "v \<noteq> ?w \<Longrightarrow> OEv a \<notin> set (aq s v)" and d: "distinct (aq s v)" for v
    using q ev by (auto simp: queues_ok_def)
  have "aq s' v = filter (\<lambda>own. \<not> owned {} {a} own) (aq s v)" for v
    using filter_remove1 [OF d [of v], of "OEv a"] other [of v] c unfolding ow
    by (cases "v = ?w") (simp_all add: filter_absent, simp_all add: aq_def s'(1) drop_ev_def)
  moreover have "rq s' = rq s"
    using c by (auto simp: fun_eq_iff rq_def s'(1) drop_ev_def)
  ultimately show ?thesis
    using s' by (intro view_eqI)
      (auto simp: remove_objs_def own req call_view_def sub_view_def ev_view_def chk_view_def fun_eq_iff)
qed

lemma ev_check_cb_inv:
  assumes inv: "server_inv s" and env: "env_ok E"
    and e: "ev_heap s a = Some e" "ev_check e = Some b"
    and s1: "s1 = s\<lparr>ubus_reqs := ubus_reqs s - {UChk b}, timers := timers s - {b}\<rparr>"
  shows "\<exists>s'. wsubus_ev_check_cb E b a access s1 = Some s' \<and> server_inv s' \<and>
     view_of s' = remove_objs {} {a} (view_of s)"
proof -
  have v: "view_inv (view_of s)" "all_ready s" using inv by (simp_all add: server_inv_def)
  let ?w = "ev_wsi e"
  obtain c i msg where c: "wsi_to_client s ?w = Some c" "OEv a \<in> set (access_check_q c)"
    and i: "sub_heap s (ev_info e) = Some i" "si_wsi i = ?w" "ev_msg e = Some msg"
    using ev_queued [OF v(1) e(1)] by metis
  obtain r where r: "chk_heap s b = Some r" using check_of_ev [OF v(1) e] by blast
  let ?s2 = "s1\<lparr>chk_heap := (chk_heap s)(b := None)\<rparr>"
  let ?m = "blobmsg_format_json (lib E) (event_attrs (ev_type e) msg i)"
  define t where "t = (if access then enqueue E ?w ?m ?s2 else ?s2)"
  have "queue_write E ?w ?m ?s2 = Some (enqueue E ?w ?m ?s2)"
    by (rule queue_write_enqueue [where c = c]) (use c v env in \<open>simp_all add: s1 fits_format\<close>)
  then have t: "(if \<not> access then Some ?s2 else queue_write E ?w ?m ?s2) = Some t"
    by (simp add: t_def)
  define s' where "s' = put ?w (drop_ev a c) (t\<lparr>ev_heap := (ev_heap s)(a := None)\<rparr>)"
  have ct: "wsi_to_client t = wsi_to_client s" "all_ready t" "same_globals s t"
    using c v(2) by (simp_all add: t_def s1 same_globals_def)
  have "acq_del ?w (OEv a) t = Some (put ?w (drop_ev a c) t)"
    using acq_del_put [of t ?w c "OEv a"] c ct by (simp add: drop_ev_def)
  then have run: "wsubus_ev_check_cb E b a access s1 = Some s'"
    using t e i r by (cases access) (simp_all add: wsubus_ev_check_cb_def s1
        wsubus_access_check_free_def wsubus_ev_destroy_ctx_def s'_def t_def)
  have cl: "wsi_to_client s' = (wsi_to_client s)(?w \<mapsto> drop_ev a c)"
    and g: "same_globals s s'" "all_ready s'"
    using ct c by (simp_all add: s'_def same_globals_def)
  have view: "view_of s' = remove_objs {} {a} (view_of s)"
    by (rule drop_ev_view [OF v(1) e c(1) cl]) (simp_all add: s'_def t_def s1)
  have "view_inv (view_of s')"
    unfolding view by (rule remove_objs_inv [OF v(1)]) simp
  then have "server_inv s'"
    by (intro client_changed_inv [OF inv c(1) cl _ _ g]) (simp_all add: drop_ev_def)
  then show ?thesis using run view by blast
qed

end
