(* ===== verification/Inv_Peer.thy ===== *)
theory Inv_Peer
  imports Inv_Event
begin

text \<open>
  The life of a client against the ownership machine: a new session, the timer for stale calls,
  and the teardown, which removes everything the client owns.
\<close>

section \<open>Stale calls\<close>

text \<open>
  The cleaner destroys a call without looking at its access check, so it is safe only for calls
  whose check is over.
\<close>

definition stale :: "env \<Rightarrow> wsubus_percall_ctx \<Rightarrow> bool" where
  "stale E k \<longleftrightarrow> 10 \<le> passed_seconds (monotonic E) (pc_start k)"

definition safe_stale :: "env \<Rightarrow> server \<Rightarrow> wsi \<Rightarrow> bool" where
  "safe_stale E s w \<longleftrightarrow>
     (\<forall>a k. call_heap s a = Some k \<and> pc_wsi k = w \<and> stale E k \<longrightarrow> pc_check k = None)"

lemma destroy_call_inv:
  assumes inv: "server_inv s" and k: "call_heap s a = Some k" "pc_check k = None"
  shows "\<exists>s' c. Option.bind (rpc_q_del (pc_wsi k) (RCall a) s) (wsubus_percall_ctx_destroy a) = Some s' \<and>
     server_inv s' \<and> call_heap s' = (call_heap s)(a := None) \<and> sub_heap s' = sub_heap s \<and>
     wsi_to_client s (pc_wsi k) = Some c \<and>
     wsi_to_client s' = (wsi_to_client s)(pc_wsi k \<mapsto> drop_call a c)"
proof -
  have v: "view_inv (view_of s)" "all_ready s" using inv by (simp_all add: server_inv_def)
  obtain c where c: "wsi_to_client s (pc_wsi k) = Some c" "RCall a \<in> set (rpc_call_q c)"
    using call_queued [OF v(1) k(1)] by metis
  have ki: "pc_invoke k" using call_phase [OF v(1) k(1)] k(2) by simp
  have "OCall a \<notin> set (aq s (pc_wsi k))"
    using v(1) k by (auto simp: view_inv_def queues_ok_def call_view_def)
  then have nq: "remove1 (OCall a) (access_check_q c) = access_check_q c"
    using c by (simp add: aq_def remove1_idem)
  define s' where "s' = put (pc_wsi k) (drop_call a c)
      (s\<lparr>call_heap := (call_heap s)(a := None), ubus_reqs := ubus_reqs s - {UCall a}\<rparr>)"
  have dc: "c\<lparr>rpc_call_q := remove1 (RCall a) (rpc_call_q c), rpc_q_len := rpc_q_len c - 1\<rparr> = drop_call a c"
    by (simp add: drop_call_def nq)
  have run: "Option.bind (rpc_q_del (pc_wsi k) (RCall a) s) (wsubus_percall_ctx_destroy a) = Some s'"
    using unlink_and_destroy [OF k(1) c] ki unfolding dc s'_def by simp
  have cl: "wsi_to_client s' = (wsi_to_client s)(pc_wsi k \<mapsto> drop_call a c)"
    and g: "same_globals s s'" "all_ready s'"
    using v(2) c by (simp_all add: s'_def same_globals_def)
  have view: "view_of s' = remove_objs {RCall a} {} (view_of s)"
    by (rule drop_call_view [OF v(1) k(1) c(1) cl]) (simp_all add: s'_def k(2))
  show ?thesis
    using run drop_call_inv [OF inv k(1) c(1) cl view g] cl c(1) by (auto simp: s'_def)
qed

text \<open>One call of the queue: kept, or destroyed with the rest of the state in order.\<close>

lemma clean_stale_call:
  assumes inv: "server_inv s" and c: "wsi_to_client s w = Some c" and safe: "safe_stale E s w"
    and k: "call_heap s a = Some k" "pc_wsi k = w"
  shows "\<exists>t d. clean_stale_loop E w (RCall a # q) s = clean_stale_loop E w q t \<and> server_inv t \<and>
     call_heap t = (if stale E k then (call_heap s)(a := None) else call_heap s) \<and>
     sub_heap t = sub_heap s \<and> wsi_to_client t w = Some d"
proof (cases "stale E k")
  case False
  then show ?thesis
    using inv c k by (intro exI [of _ s] exI [of _ c]) (simp add: stale_def)
next
  case True
  then have "pc_check k = None" using safe k by (auto simp: safe_stale_def)
  then obtain t d where t: "Option.bind (rpc_q_del w (RCall a) s) (wsubus_percall_ctx_destroy a) = Some t"
    "server_inv t" "call_heap t = (call_heap s)(a := None)" "sub_heap t = sub_heap s"
    "wsi_to_client t = (wsi_to_client s)(w \<mapsto> drop_call a d)"
    using destroy_call_inv [OF inv k(1)] k(2) by metis
  have "clean_stale_loop E w (RCall a # q) s =
      Option.bind (Option.bind (rpc_q_del w (RCall a) s) (wsubus_percall_ctx_destroy a))
        (clean_stale_loop E w q)"
    using True k by (simp add: stale_def)
  then show ?thesis
    using t True by (intro exI [of _ t] exI [of _ "drop_call a d"]) simp
qed

lemma clean_stale_loop_effect:
  assumes "server_inv s" "wsi_to_client s w = Some c" "distinct q"
    "\<And>a. RSub a \<in> set q \<Longrightarrow> sub_heap s a \<noteq> None"
    "\<And>a. RCall a \<in> set q \<Longrightarrow> \<exists>k. call_heap s a = Some k \<and> pc_wsi k = w"
    "safe_stale E s w"
  shows "\<exists>s' c'. clean_stale_loop E w q s = Some s' \<and> server_inv s' \<and> wsi_to_client s' w = Some c' \<and>
     call_heap s' = (\<lambda>a. if RCall a \<in> set q \<and> stale E (the (call_heap s a)) then None else call_heap s a)"
  using assms
proof (induction q arbitrary: s c)
  case Nil
  then show ?case by simp
next
  case (Cons r q)
  have dq: "r \<notin> set q" "distinct q" using Cons.prems(3) by simp_all
  show ?case
  proof (cases r)
    case (RSub a)
    then have "clean_stale_loop E w (r # q) s = clean_stale_loop E w q s"
      using Cons.prems(4) [of a] RSub by auto
    then show ?thesis
      using Cons.IH [OF Cons.prems(1,2) dq(2) _ _ Cons.prems(6)] Cons.prems(4,5) RSub by simp
  next
    case (RCall a)
    obtain k where k: "call_heap s a = Some k" "pc_wsi k = w" using Cons.prems(5) RCall by auto
    obtain t d where t: "clean_stale_loop E w (RCall a # q) s = clean_stale_loop E w q t"
      "server_inv t" "call_heap t = (if stale E k then (call_heap s)(a := None) else call_heap s)"
      "sub_heap t = sub_heap s" "wsi_to_client t w = Some d"
      using clean_stale_call [OF Cons.prems(1,2,6) k] by blast
    have "safe_stale E t w" using Cons.prems(6) t(3) by (auto simp: safe_stale_def split: if_splits)
    moreover have "\<And>x. RCall x \<in> set q \<Longrightarrow> \<exists>k. call_heap t x = Some k \<and> pc_wsi k = w"
      using Cons.prems(5) dq(1) RCall t(3) by auto
    ultimately obtain s' c' where "clean_stale_loop E w q t = Some s'" "server_inv s'"
      "wsi_to_client s' w = Some c'"
      "call_heap s' = (\<lambda>x. if RCall x \<in> set q \<and> stale E (the (call_heap t x)) then None else call_heap t x)"
      using Cons.IH [OF t(2,5) dq(2)] t(4) Cons.prems(4) by auto
    then show ?thesis
      using RCall k dq(1) t(1,3) by (intro exI [of _ s'] exI [of _ c']) (auto simp: fun_eq_iff)
  qed
qed

lemma cleaner_flag_inv:
  assumes inv: "server_inv s" and c: "wsi_to_client s w = Some c"
  shows "server_inv (put w (c\<lparr>percall_cleaner := b\<rparr>) s)"
proof -
  let ?s = "put w (c\<lparr>percall_cleaner := b\<rparr>) s"
  have "view_of ?s = view_of s"
    using c by (intro view_eqI) (auto simp: rq_def aq_def call_view_def sub_view_def ev_view_def
        chk_view_def fun_eq_iff)
  moreover have "len_ok ?s" using inv c by (auto simp: server_inv_def len_ok_def)
  moreover have "sessions_ok ?s"
    by (rule sessions_kept [of s]) (use inv c in \<open>auto simp: server_inv_def same_globals_def\<close>)
  ultimately show ?thesis using inv c by (simp add: server_inv_def)
qed

lemma clean_stale_inv:
  assumes inv: "server_inv s" and c: "wsi_to_client s w = Some c" and safe: "safe_stale E s w"
  shows "\<exists>s'. wsubus_percall_clean_stale E w s = Some s' \<and> server_inv s' \<and>
     call_heap s' = (\<lambda>a. case call_heap s a of
        Some k \<Rightarrow> if pc_wsi k = w \<and> stale E k then None else Some k | None \<Rightarrow> None)"
proof -
  have v: "view_inv (view_of s)" using inv by (simp add: server_inv_def)
  have q: "rpc_call_q c = rq s w" using c by (simp add: rq_def)
  have "distinct (rpc_call_q c)"
    and sub: "\<And>a. RSub a \<in> set (rpc_call_q c) \<Longrightarrow> sub_heap s a \<noteq> None"
    and call: "\<And>a. RCall a \<in> set (rpc_call_q c) \<longleftrightarrow> (\<exists>k. call_heap s a = Some k \<and> pc_wsi k = w)"
    using v unfolding q by (auto simp: view_inv_def queues_ok_def sub_view_def call_view_def)
  then obtain t d where t: "clean_stale_loop E w (rpc_call_q c) s = Some t" "server_inv t"
    "wsi_to_client t w = Some d"
    "call_heap t = (\<lambda>a. if RCall a \<in> set (rpc_call_q c) \<and> stale E (the (call_heap s a)) then None else call_heap s a)"
    using clean_stale_loop_effect [OF inv c, of "rpc_call_q c" E] safe by auto
  let ?s = "put w (d\<lparr>percall_cleaner := (uloop_timeout_set E 2000 = 0)\<rparr>) t"
  have run: "wsubus_percall_clean_stale E w s = Some ?s"
    using c t upd_client_put [OF t(3), of "\<lambda>c. c\<lparr>percall_cleaner := (uloop_timeout_set E 2000 = 0)\<rparr>"]
    by (simp add: wsubus_percall_clean_stale_def)
  have "call_heap ?s = (\<lambda>a. case call_heap s a of
        Some k \<Rightarrow> if pc_wsi k = w \<and> stale E k then None else Some k | None \<Rightarrow> None)"
    using t(4) call by (auto simp: fun_eq_iff split: option.splits)
  then show ?thesis using run cleaner_flag_inv [OF t(2,3)] by blast
qed

section \<open>A new client\<close>

lemma peer_init_inv:
  assumes inv: "server_inv s" and env: "env_ok E" and new: "peers s w = None"
  shows "fst (wsu_peer_init E w WSUBUS_ROLE_CLIENT s) = 0 \<and>
     server_inv (snd (wsu_peer_init E w WSUBUS_ROLE_CLIENT s))"
proof -
  have al: "alloc E A_tokener" using env by (simp add: env_ok_def allocs_ok_def)
  let ?s = "snd (wsu_peer_init E w WSUBUS_ROLE_CLIENT s)"
  let ?c = "\<lparr>cs_id = clientid s, rpc_q_len = 0, percall_cleaner = (uloop_timeout_set E 2000 = 0),
             rpc_call_q = [], access_check_q = []\<rparr>"
  have no: "wsi_to_client s w = None" using new by (simp add: wsi_to_client_def wsi_to_peer_def)
  have f: "client_of (fresh_peer True (UClient ?c)) = Some ?c"
    by (simp add: fresh_peer_def client_of_def)
  have cl: "wsi_to_client ?s = (wsi_to_client s)(w \<mapsto> ?c)"
    by (simp add: wsu_peer_init_def Let_def al f)
       (simp add: fun_eq_iff wsi_to_client_def wsi_to_peer_def)
  have "rq ?s = rq s" "aq ?s = aq s"
    using no by (auto simp: rq_def aq_def cl fun_eq_iff)
  then have "view_of ?s = view_of s"
    by (intro view_eqI) (simp_all add: wsu_peer_init_def Let_def al call_view_def sub_view_def ev_view_def
        chk_view_def fun_eq_iff)
  moreover have "len_ok ?s" using inv by (auto simp: server_inv_def len_ok_def cl)
  moreover have "{v. wsi_to_client ?s v \<noteq> None} = insert w {v. wsi_to_client s v \<noteq> None}"
    by (auto simp: cl)
  then have "sessions_ok ?s"
    using inv no by (simp add: server_inv_def sessions_ok_def)
      (simp add: wsu_peer_init_def Let_def al)
  moreover have "all_ready ?s"
    using inv by (auto simp: server_inv_def all_ready_def wsu_peer_init_def Let_def al fresh_peer_def
        peer_ok_def)
  ultimately show ?thesis
    using inv by (simp add: server_inv_def) (simp add: wsu_peer_init_def Let_def al)
qed

section \<open>Teardown\<close>

lemma owner_check_cong:
  "call_heap t = call_heap s \<Longrightarrow> ev_heap t = ev_heap s \<Longrightarrow> owner_check t = owner_check s"
  by (rule ext) (simp add: owner_check_def split: chk_owner.split)

text \<open>The checks of the owners in \<open>ps\<close>.\<close>

definition checks_of :: "server \<Rightarrow> chk_owner list \<Rightarrow> addr set" where
  "checks_of s ps = {b. \<exists>p\<in>set ps. owner_check s p = Some b}"

definition cancelled :: "chk_owner list \<Rightarrow> server \<Rightarrow> server" where
  "cancelled ps s =
     s\<lparr>chk_heap := (\<lambda>b. if b \<in> checks_of s ps then None else chk_heap s b),
       ubus_reqs := ubus_reqs s - UChk ` checks_of s ps,
       timers := timers s - checks_of s ps,
       ev_heap := (\<lambda>a. if OEv a \<in> set ps then None else ev_heap s a)\<rparr>"

definition cancellable :: "server \<Rightarrow> chk_owner list \<Rightarrow> bool" where
  "cancellable s ps \<longleftrightarrow>
     distinct ps \<and>
     (\<forall>p\<in>set ps. \<exists>b r. owner_check s p = Some b \<and> chk_heap s b = Some r \<and> ck_owner r = p \<and>
        (b \<in> timers s \<longrightarrow> ck_tag r = REQ_TAG_DEFER) \<and> (UChk b \<in> ubus_reqs s \<longrightarrow> ck_tag r = REQ_TAG_UBUS))"

lemma cancel_and_free:
  assumes "chk_heap t b = Some r"
    "b \<in> timers t \<longrightarrow> ck_tag r = REQ_TAG_DEFER" "UChk b \<in> ubus_reqs t \<longrightarrow> ck_tag r = REQ_TAG_UBUS"
  shows "\<exists>t1. wsubus_access_check__cancel b t = Some t1 \<and> wsubus_access_check_free (Some b) t1 =
     Some (t\<lparr>chk_heap := (chk_heap t)(b := None), ubus_reqs := ubus_reqs t - {UChk b},
             timers := timers t - {b}\<rparr>)"
  using assms by (cases "ck_tag r")
    (simp_all add: wsubus_access_check__cancel_def wsubus_access_check_free_def)

lemma cancel_checks_effect:
  assumes "wsi_to_client s w = Some c" "access_check_q c = ps" "cancellable s ps"
  shows "cancel_checks w ps s = Some (put w (c\<lparr>access_check_q := []\<rparr>) (cancelled ps s))"
  using assms
proof (induction ps arbitrary: s c)
  case Nil
  then have "put w (c\<lparr>access_check_q := []\<rparr>) s = s"
    using put_same [of s w c] by (metis wsu_client_session.surjective wsu_client_session.update_convs(5))
  moreover have "cancelled [] s = s" by (simp add: cancelled_def checks_of_def)
  ultimately show ?case by simp
next
  case (Cons p ps)
  let ?c = "c\<lparr>access_check_q := ps\<rparr>"
  obtain b r where b: "owner_check s p = Some b" "chk_heap s b = Some r" "ck_owner r = p"
    "b \<in> timers s \<longrightarrow> ck_tag r = REQ_TAG_DEFER" "UChk b \<in> ubus_reqs s \<longrightarrow> ck_tag r = REQ_TAG_UBUS"
    using Cons.prems(3) by (auto simp: cancellable_def)
  have one: "checks_of s [p] = {b}" using b(1) by (auto simp: checks_of_def)
  let ?s1 = "put w ?c (cancelled [p] s)"
  have del: "acq_del w p s = Some (put w ?c s)"
    using acq_del_put [OF Cons.prems(1), of p] Cons.prems(2) by simp
  have oc: "owner_check (put w ?c s) p = Some b" using b(1) by (simp add: owner_check_def split: chk_owner.splits)
  have "\<exists>e. ev_heap s a = Some e" if "p = OEv a" for a
    using b(1) that by (auto simp: owner_check_def bind_eq_Some_conv)
  then have "(case p of OCall _ \<Rightarrow> Some t | OEv a \<Rightarrow> wsubus_ev_check__destroy a t) =
      Some (t\<lparr>ev_heap := (\<lambda>a. if OEv a \<in> set [p] then None else ev_heap s a)\<rparr>)" if "ev_heap t = ev_heap s" for t
    using that by (cases p) (auto simp: wsubus_ev_check__destroy_def wsubus_ev_destroy_ctx_def
        fun_upd_def ev_heap_same)
  moreover obtain t1 where "wsubus_access_check__cancel b (put w ?c s) = Some t1"
    "wsubus_access_check_free (Some b) t1 = Some (put w ?c (s\<lparr>chk_heap := (chk_heap s)(b := None),
        ubus_reqs := ubus_reqs s - {UChk b}, timers := timers s - {b}\<rparr>))"
    using cancel_and_free [of "put w ?c s" b r] b(2,4,5) by auto
  ultimately have run: "cancel_checks w (p # ps) s = cancel_checks w ps ?s1"
    using del oc by (simp add: cancelled_def one fun_upd_def)
  have oc1: "owner_check ?s1 p' = owner_check s p'" if "p' \<in> set ps" for p'
    using Cons.prems(3) that
    by (auto simp: owner_check_def cancelled_def cancellable_def split: chk_owner.splits)
  have co: "checks_of ?s1 ps = checks_of s ps" using oc1 by (auto simp: checks_of_def)
  have "cancellable ?s1 ps"
    using Cons.prems(3) b oc1 unfolding cancellable_def
    by (simp add: cancelled_def one) (metis option.inject)
  then have "cancel_checks w ps ?s1 = Some (put w (?c\<lparr>access_check_q := []\<rparr>) (cancelled ps ?s1))"
    using Cons.IH [of ?s1 ?c] Cons.prems(1) by (simp add: cancelled_def)
  moreover have cs: "checks_of s (p # ps) = insert b (checks_of s ps)"
    using b(1) by (auto simp: checks_of_def)
  have "put w (?c\<lparr>access_check_q := []\<rparr>) (cancelled ps ?s1) =
      put w (c\<lparr>access_check_q := []\<rparr>) (cancelled (p # ps) s)"
    unfolding cancelled_def [of ps] cancelled_def [of "p # ps"] co cs
    by (simp add: cancelled_def one fun_eq_iff)
       (rule server.equality; auto simp: fun_eq_iff cancelled_def one)
  ultimately show ?case using run by simp
qed

definition destroyed :: "rpc_ref list \<Rightarrow> server \<Rightarrow> server" where
  "destroyed rs s =
     s\<lparr>call_heap := (\<lambda>a. if RCall a \<in> set rs then None else call_heap s a),
       sub_heap := (\<lambda>a. if RSub a \<in> set rs then None else sub_heap s a),
       listen_list := filter (\<lambda>a. RSub a \<notin> set rs) (listen_list s),
       ev_handlers := {a \<in> ev_handlers s. RSub a \<notin> set rs},
       ubus_reqs := {u \<in> ubus_reqs s. \<forall>a. RCall a \<in> set rs \<longrightarrow> u \<noteq> UCall a}\<rparr>"

definition destroyable :: "server \<Rightarrow> wsi \<Rightarrow> rpc_ref list \<Rightarrow> bool" where
  "destroyable s w rs \<longleftrightarrow>
     distinct rs \<and> distinct (listen_list s) \<and>
     (\<forall>a. RCall a \<in> set rs \<longrightarrow>
        (\<exists>k. call_heap s a = Some k \<and> pc_wsi k = w \<and> (pc_invoke k \<or> UCall a \<notin> ubus_reqs s))) \<and>
     (\<forall>a. RSub a \<in> set rs \<longrightarrow> sub_heap s a \<noteq> None \<and> a \<in> set (listen_list s))"

lemma destroyed_Cons: "destroyed (r # rs) s = destroyed rs (destroyed [r] s)"
  by (rule server.equality) (auto simp: destroyed_def fun_eq_iff)

lemma destroyed_put [simp]: "destroyed rs (put w c s) = put w c (destroyed rs s)"
  by (simp add: destroyed_def cong: if_cong)

lemma destroy_one:
  assumes c: "wsi_to_client s w = Some c" and d: "destroyable s w [r]"
  shows "\<exists>n. cancel_and_destroy r s = Some (put w (c\<lparr>rpc_q_len := n\<rparr>) (destroyed [r] s))"
proof (cases r)
  case (RCall a)
  obtain k where k: "call_heap s a = Some k" "pc_wsi k = w" "pc_invoke k \<or> UCall a \<notin> ubus_reqs s"
    using d RCall by (auto simp: destroyable_def)
  have "destroyed [r] s = s\<lparr>call_heap := (call_heap s)(a := None), ubus_reqs := ubus_reqs s - {UCall a}\<rparr>"
    by (rule server.equality) (auto simp: destroyed_def fun_eq_iff RCall)
  then have "cancel_and_destroy r s = Some (put w (c\<lparr>rpc_q_len := rpc_q_len c - 1\<rparr>) (destroyed [r] s))"
    using k rpc_q_len_dec_put [OF c]
    by (cases "pc_invoke k") (simp_all add: cancel_and_destroy_def wsubus_percall_ctx_destroy_def
        Let_def RCall)
  then show ?thesis by blast
next
  case (RSub a)
  have "put w (c\<lparr>rpc_q_len := rpc_q_len c\<rparr>) (destroyed [r] s) = destroyed [r] s"
    using put_same [of "destroyed [r] s" w c] c by (simp add: destroyed_def)
  moreover have "destroyed [r] s = s\<lparr>ev_handlers := ev_handlers s - {a},
      listen_list := remove1 a (listen_list s), sub_heap := (sub_heap s)(a := None)\<rparr>"
    using d by (intro server.equality) (auto simp: destroyed_def destroyable_def fun_eq_iff RSub filter_remove1)
  then have "cancel_and_destroy r s = Some (destroyed [r] s)"
    using RSub d by (auto simp: cancel_and_destroy_def wsubus_unsub_elem_def destroyable_def)
  ultimately show ?thesis by metis
qed

lemma cancel_calls_effect:
  assumes "wsi_to_client s w = Some c" "rpc_call_q c = rs" "destroyable s w rs"
  shows "\<exists>c'. access_check_q c' = access_check_q c \<and>
     cancel_calls w rs s = Some (put w c' (destroyed rs s))"
  using assms
proof (induction rs arbitrary: s c)
  case Nil
  have "destroyed [] s = s" by (simp add: destroyed_def)
  then show ?case using put_same [OF Nil(1)] by (intro exI [of _ c]) simp
next
  case (Cons r rs)
  let ?c = "c\<lparr>rpc_call_q := rs\<rparr>" and ?s = "put w (c\<lparr>rpc_call_q := rs\<rparr>) s"
  have del: "rpc_q_del w r s = Some ?s"
    using rpc_q_del_put [OF Cons.prems(1), of r] Cons.prems(2) by simp
  have "destroyable ?s w [r]" using Cons.prems(3) by (simp add: destroyable_def)
  then obtain n where n: "cancel_and_destroy r ?s = Some (put w (?c\<lparr>rpc_q_len := n\<rparr>) (destroyed [r] ?s))"
    using destroy_one [of ?s w ?c r] by auto
  let ?t = "put w (?c\<lparr>rpc_q_len := n\<rparr>) (destroyed [r] s)"
  have t: "put w (?c\<lparr>rpc_q_len := n\<rparr>) (destroyed [r] ?s) = ?t" by simp
  have "destroyable ?t w rs"
    using Cons.prems(3) unfolding destroyable_def by (auto simp: destroyed_def)
  then obtain c' where c': "access_check_q c' = access_check_q c"
    "cancel_calls w rs ?t = Some (put w c' (destroyed rs ?t))"
    using Cons.IH [of ?t "?c\<lparr>rpc_q_len := n\<rparr>"] by auto
  have "put w c' (destroyed rs ?t) = put w c' (destroyed (r # rs) s)"
    by (simp add: destroyed_Cons [of r rs s])
  then show ?case using del n c' t by auto
qed

text \<open>
  The library frees the connection's memory after the callback for a closed connection.
\<close>

definition forget_peer :: "wsi \<Rightarrow> server \<Rightarrow> server" where
  "forget_peer w s = s\<lparr>peers := (peers s)(w := None)\<rparr>"

lemma checks_of_owners:
  assumes "view_inv (view_of s)"
  shows "b \<in> checks_of s ps \<longleftrightarrow> (\<exists>r. chk_heap s b = Some r \<and> ck_owner r \<in> set ps)"
proof
  assume "b \<in> checks_of s ps"
  then obtain p where p: "p \<in> set ps" "owner_check s p = Some b" by (auto simp: checks_of_def)
  show "\<exists>r. chk_heap s b = Some r \<and> ck_owner r \<in> set ps"
  proof (cases p)
    case (OCall a)
    then obtain k where "call_heap s a = Some k" "pc_check k = Some b"
      using p(2) by (cases "call_heap s a") (auto simp: owner_check_def)
    then show ?thesis using check_of_call [OF assms] p(1) OCall by metis
  next
    case (OEv a)
    then obtain e where "ev_heap s a = Some e" "ev_check e = Some b"
      using p(2) by (cases "ev_heap s a") (auto simp: owner_check_def)
    then show ?thesis using check_of_ev [OF assms] p(1) OEv by metis
  qed
next
  assume "\<exists>r. chk_heap s b = Some r \<and> ck_owner r \<in> set ps"
  then obtain r where r: "chk_heap s b = Some r" "ck_owner r \<in> set ps" by blast
  then have "owner_check s (ck_owner r) = Some b"
    using owner_of_check [OF assms r(1)]
    by (auto simp: owner_check_def bind_eq_Some_conv split: chk_owner.splits)
  then show "b \<in> checks_of s ps" using r(2) by (auto simp: checks_of_def)
qed

lemma client_cancellable:
  assumes inv: "view_inv (view_of s)" and c: "wsi_to_client s w = Some c"
  shows "cancellable s (access_check_q c)" "destroyable s w (rpc_call_q c)"
proof -
  have q: "queues_ok (view_of s)" "listen_ok (view_of s)" using inv by (simp_all add: view_inv_def)
  have eq: "access_check_q c = aq s w" "rpc_call_q c = rq s w" using c by (simp_all add: aq_def rq_def)
  show "destroyable s w (rpc_call_q c)"
    using q call_phase [OF inv] unfolding destroyable_def eq
    by (auto simp: queues_ok_def listen_ok_def call_view_def sub_view_def)
  have "\<exists>b r. owner_check s p = Some b \<and> chk_heap s b = Some r \<and> ck_owner r = p \<and>
      (b \<in> timers s \<longrightarrow> ck_tag r = REQ_TAG_DEFER) \<and> (UChk b \<in> ubus_reqs s \<longrightarrow> ck_tag r = REQ_TAG_UBUS)"
    if "p \<in> set (aq s w)" for p
  proof -
    have "\<exists>b r. owner_check s p = Some b \<and> chk_heap s b = Some r \<and> ck_owner r = p"
    proof (cases p)
      case (OCall a)
      then have "\<exists>b i. call_view s a = Some (w, Some b, i)"
        using q(1) that by (simp add: queues_ok_def)
      then obtain k b where "call_heap s a = Some k" "pc_check k = Some b"
        by (auto simp: call_view_def)
      then show ?thesis using check_of_call [OF inv] OCall by (metis owner_check_def bind.bind_lunit chk_owner.simps(5))
    next
      case (OEv a)
      then have "\<exists>x. ev_view s a = Some (w, x)"
        using q(1) that by (simp add: queues_ok_def)
      then obtain e where e: "ev_heap s a = Some e" by (auto simp: ev_view_def)
      then obtain b where "ev_check e = Some b" using ev_queued [OF inv e] by metis
      then show ?thesis using check_of_ev [OF inv e] OEv e by (metis owner_check_def bind.bind_lunit chk_owner.simps(6))
    qed
    then obtain b r where b: "owner_check s p = Some b" "chk_heap s b = Some r" "ck_owner r = p" by blast
    then show ?thesis
      using check_pending_by_tag [OF inv b(2)] by (cases "ck_tag r") auto
  qed
  then show "cancellable s (access_check_q c)"
    using q(1) unfolding cancellable_def eq by (auto simp: queues_ok_def)
qed

lemma deinit_run:
  assumes inv: "server_inv s" and c: "wsi_to_client s w = Some c"
  shows "\<exists>p c'. wsu_peer_deinit w s = Some (put w c' (destroyed (rpc_call_q c) (cancelled (access_check_q c)
      (set_peer w p (s\<lparr>num_active_ses := num_active_ses s - 1,
         req_max := recalc_req_max (total_req_max s) (num_active_ses s - 1)\<rparr>)))))"
proof -
  obtain p where p: "peers s w = Some p" "peer_u p = UClient c" "peer_ready p"
    using wsi_to_client_peer [OF c] inv by (auto simp: server_inv_def all_ready_def peer_ok_def)
  let ?c = "c\<lparr>percall_cleaner := False\<rparr>"
  let ?p = "p\<lparr>write_q := [], peer_u := UClient ?c\<rparr>"
  let ?s = "set_peer w ?p (s\<lparr>num_active_ses := num_active_ses s - 1,
         req_max := recalc_req_max (total_req_max s) (num_active_ses s - 1)\<rparr>)"
  have v: "view_inv (view_of s)" using inv by (simp add: server_inv_def)
  have cl: "wsi_to_client ?s w = Some ?c" by simp
  have "cancellable ?s (access_check_q ?c)"
    using client_cancellable(1) [OF v c] owner_check_cong [of ?s s] by (simp add: cancellable_def)
  then have chk: "cancel_checks w (access_check_q c) ?s =
      Some (put w (?c\<lparr>access_check_q := []\<rparr>) (cancelled (access_check_q c) ?s))" (is "_ = Some ?t")
    using cancel_checks_effect [OF cl refl] by simp
  have "destroyable ?t w (rpc_call_q c)"
    using client_cancellable(2) [OF v c] by (auto simp: destroyable_def cancelled_def)
  then obtain c' where "cancel_calls w (rpc_call_q c) ?t = Some (put w c' (destroyed (rpc_call_q c) ?t))"
    using cancel_calls_effect [of ?t w "?c\<lparr>access_check_q := []\<rparr>"] cl by (auto simp: cancelled_def)
  then have "wsu_peer_deinit w s = Some (put w c' (destroyed (rpc_call_q c) (cancelled (access_check_q c) ?s)))"
    using p chk by (simp add: wsu_peer_deinit_def Let_def)
  then show ?thesis by blast
qed

text \<open>
  What the queues of a client own: a pending check belongs to it exactly when its owner is in the
  client's queue of checks.
\<close>

lemma owned_by_client:
  assumes v: "view_inv (view_of s)" and c: "wsi_to_client s w = Some c"
    and o': "o' \<in> set (aq s x) \<or> (\<exists>b r. chk_heap s b = Some r \<and> ck_owner r = o')"
  shows "owned (set (rpc_call_q c)) {a. OEv a \<in> set (access_check_q c)} o' \<longleftrightarrow>
     o' \<in> set (access_check_q c)"
proof (cases o')
  case (OCall a)
  have q: "queues_ok (view_of s)" using v by (simp add: view_inv_def)
  have "\<exists>v b i. call_view s a = Some (v, Some b, i)"
    using o'
  proof
    assume "o' \<in> set (aq s x)"
    then show ?thesis using q OCall by (auto simp: queues_ok_def)
  next
    assume "\<exists>b r. chk_heap s b = Some r \<and> ck_owner r = o'"
    then obtain b r where b: "chk_heap s b = Some r" "ck_owner r = OCall a" using OCall by blast
    show ?thesis using owner_of_check [OF v b(1)] b(2) by (auto simp: call_view_def)
  qed
  then have "RCall a \<in> set (rq s w) \<longleftrightarrow> OCall a \<in> set (aq s w)"
    using q by (auto simp: queues_ok_def)
  then show ?thesis using OCall c by (simp add: owned_def rq_def aq_def)
qed (simp add: owned_def)

lemma owned_chk_by_client:
  assumes v: "view_inv (view_of s)" and c: "wsi_to_client s w = Some c"
  shows "owned_chk (set (rpc_call_q c)) {a. OEv a \<in> set (access_check_q c)} (view_of s) b \<longleftrightarrow>
     b \<in> checks_of s (access_check_q c)"
  unfolding checks_of_owners [OF v] using owned_by_client [OF v c]
  by (auto simp: owned_chk_def chk_view_def split: option.splits)

text \<open>The other clients' queues hold nothing of it.\<close>

lemma other_queues:
  assumes v: "view_inv (view_of s)" and c: "wsi_to_client s w = Some c" and x: "x \<noteq> w"
  shows "filter (\<lambda>r. r \<notin> set (rpc_call_q c)) (rq s x) = rq s x"
    "filter (\<lambda>o'. \<not> owned (set (rpc_call_q c)) {a. OEv a \<in> set (access_check_q c)} o') (aq s x) = aq s x"
proof -
  have q: "queues_ok (view_of s)" using v by (simp add: view_inv_def)
  have lists: "rpc_call_q c = rq s w" "access_check_q c = aq s w" using c by (simp_all add: rq_def aq_def)
  have "r \<notin> set (rpc_call_q c)" if "r \<in> set (rq s x)" for r
    using q x that unfolding lists by (cases r) (auto simp: queues_ok_def)
  then show "filter (\<lambda>r. r \<notin> set (rpc_call_q c)) (rq s x) = rq s x" by (simp add: filter_id_conv)
  have "o' \<notin> set (aq s w)" if "o' \<in> set (aq s x)" for o'
    using q x that by (cases o') (auto simp: queues_ok_def)
  then show "filter (\<lambda>o'. \<not> owned (set (rpc_call_q c)) {a. OEv a \<in> set (access_check_q c)} o') (aq s x) = aq s x"
    using owned_by_client [OF v c, of _ x] lists(2) by (auto simp: filter_id_conv)
qed

text \<open>The state after the teardown, once the connection is forgotten.\<close>

definition torn_down :: "wsi \<Rightarrow> wsu_client_session \<Rightarrow> wsu_client_session \<Rightarrow> wsu_peer \<Rightarrow> server \<Rightarrow> server" where
  "torn_down w c c' p s =
     put w c' (destroyed (rpc_call_q c) (cancelled (access_check_q c)
       (set_peer w p (s\<lparr>num_active_ses := num_active_ses s - 1,
          req_max := recalc_req_max (total_req_max s) (num_active_ses s - 1)\<rparr>))))"

lemma torn_down_clients:
  "wsi_to_client (forget_peer w (torn_down w c c' p s)) = (wsi_to_client s)(w := None)"
  by (auto simp: torn_down_def forget_peer_def destroyed_def cancelled_def fun_eq_iff wsi_to_client_def
      wsi_to_peer_def put_def)

lemma torn_down_view:
  assumes v: "view_inv (view_of s)" and c: "wsi_to_client s w = Some c"
  shows "view_of (forget_peer w (torn_down w c c' p s)) =
     remove_objs (set (rpc_call_q c)) {a. OEv a \<in> set (access_check_q c)} (view_of s)"
proof -
  let ?R = "set (rpc_call_q c)" and ?N = "{a. OEv a \<in> set (access_check_q c)}"
  let ?s = "forget_peer w (torn_down w c c' p s)"
  note cl = torn_down_clients [of w c c' p s]
  have chk: "checks_of (set_peer w p (s\<lparr>num_active_ses := n, req_max := m\<rparr>)) ps = checks_of s ps" for n m ps
    using owner_check_cong [of "set_peer w p (s\<lparr>num_active_ses := n, req_max := m\<rparr>)" s]
    by (simp add: checks_of_def)
  have rqv: "rq ?s x = filter (\<lambda>r. r \<notin> ?R) (rq s x)" for x
    using c other_queues(1) [OF v c, of x] by (cases "x = w") (simp_all add: rq_def cl)
  have aqv: "aq ?s x = filter (\<lambda>o'. \<not> owned ?R ?N o') (aq s x)" for x
    using c other_queues(2) [OF v c, of x] owned_by_client [OF v c, of _ w]
    by (cases "x = w") (simp_all add: aq_def cl)
  have ownr: "owned_req ?R ?N (view_of s) u \<longleftrightarrow>
      (case u of UChk b \<Rightarrow> b \<in> checks_of s (access_check_q c) | UCall a \<Rightarrow> RCall a \<in> ?R)" for u
    by (simp add: owned_req_def owned_chk_by_client [OF v c] split: ubus_req.splits)
  show ?thesis
    by (intro view_eqI) (auto simp: remove_objs_def rqv aqv owned_chk_by_client [OF v c] ownr fun_eq_iff,
        auto simp: torn_down_def forget_peer_def destroyed_def cancelled_def chk call_view_def sub_view_def
          ev_view_def chk_view_def split: ubus_req.splits)
qed

lemma torn_down_sessions:
  assumes "sessions_ok s" and c: "wsi_to_client s w = Some c"
  shows "sessions_ok (forget_peer w (torn_down w c c' p s))" (is "sessions_ok ?s")
proof -
  let ?W = "{x. wsi_to_client s x \<noteq> None}"
  have W: "{x. wsi_to_client ?s x \<noteq> None} = ?W - {w}" by (auto simp: torn_down_clients)
  have fin: "finite ?W" and n: "num_active_ses s = of_nat (card ?W)"
    using assms(1) by (simp_all add: sessions_ok_def)
  have "card ?W = Suc (card (?W - {w}))" by (rule card.remove [OF fin]) (simp add: c)
  moreover have "num_active_ses ?s = num_active_ses s - 1" "total_req_max ?s = total_req_max s"
    "req_max ?s = recalc_req_max (total_req_max s) (num_active_ses s - 1)"
    by (simp_all add: torn_down_def forget_peer_def destroyed_def cancelled_def)
  ultimately show ?thesis using fin n unfolding sessions_ok_def W by simp
qed

lemma client_removal_allowed:
  assumes v: "view_inv (view_of s)" and c: "wsi_to_client s w = Some c"
  shows "view_inv (remove_objs (set (rpc_call_q c)) {a. OEv a \<in> set (access_check_q c)} (view_of s))"
proof (rule remove_objs_inv [OF v])
  fix a w' i b m
  have q: "queues_ok (view_of s)" using v by (simp add: view_inv_def)
  have lists: "rpc_call_q c = rq s w" "access_check_q c = aq s w" using c by (simp_all add: rq_def aq_def)
  assume "v_ev (view_of s) a = Some (w', i, b, m)" and i: "RSub i \<in> set (rpc_call_q c)"
  moreover have "sub_view s i = Some w"
    using i q unfolding lists by (simp add: queues_ok_def)
  ultimately have "ev_view s a = Some (w, i, b, m)"
    using v unfolding view_inv_def events_ok_def view_of_simps by (metis option.inject)
  then show "a \<in> {a. OEv a \<in> set (access_check_q c)}" using q unfolding lists by (simp add: queues_ok_def)
qed

lemma deinit_effect:
  assumes inv: "server_inv s" and c: "wsi_to_client s w = Some c"
  shows "\<exists>s'. wsu_peer_deinit w s = Some s' \<and> server_inv (forget_peer w s') \<and>
     wsi_to_client (forget_peer w s') = (wsi_to_client s)(w := None) \<and>
     view_of (forget_peer w s') =
       remove_objs (set (rpc_call_q c)) {a. OEv a \<in> set (access_check_q c)} (view_of s)"
proof -
  have v: "view_inv (view_of s)" "sessions_ok s" using inv by (simp_all add: server_inv_def)
  obtain p c' where run: "wsu_peer_deinit w s = Some (torn_down w c c' p s)"
    using deinit_run [OF inv c] unfolding torn_down_def by blast
  let ?s = "forget_peer w (torn_down w c c' p s)"
  have "view_inv (view_of ?s)"
    unfolding torn_down_view [OF v(1) c] by (rule client_removal_allowed [OF v(1) c])
  moreover have "len_ok ?s" using inv by (auto simp: server_inv_def len_ok_def torn_down_clients)
  moreover have "all_ready ?s"
    using inv by (auto simp: server_inv_def all_ready_def torn_down_def forget_peer_def destroyed_def
        cancelled_def put_def)
  ultimately show ?thesis
    using run torn_down_clients [of w c c' p s] torn_down_view [OF v(1) c, of c' p]
      torn_down_sessions [OF v(2) c]
    by (auto simp: server_inv_def)
qed

end
