(* ===== verification/Writer.thy ===== *)
theory Writer
  imports Peer
begin

text \<open>
  The writer of \<open>src/src/wsubus.impl.h\<close>, \<open>wsubus_tx_text\<close>: it ends, and it hands the queued
  responses to the socket in order, each byte once.
\<close>

text \<open>
  What libwebsockets promises of a write: it takes no more than it is given, and it fails, takes
  something, or reports that it holds a partial buffer.
\<close>

definition write_ok :: "(nat \<Rightarrow> nat \<Rightarrow> int \<times> bool) \<Rightarrow> bool" where
  "write_ok out \<longleftrightarrow>
     (\<forall>n len. fst (out n len) \<le> int len \<and>
        (fst (out n len) < 0 \<or> snd (out n len) \<or> 0 < fst (out n len) \<or> len = 0))"

definition buffers_ok :: "wsu_writereq list \<Rightarrow> bool" where
  "buffers_ok q \<longleftrightarrow> (\<forall>x\<in>set q. wr_written x \<le> length (wr_buf x))"

text \<open>The text of a queue that the socket has not taken yet.\<close>

definition unsent :: "wsu_writereq list \<Rightarrow> string" where
  "unsent q = concat (map (\<lambda>x. drop (wr_written x) (wr_buf x)) q)"

lemma write_loop_result:
  assumes "write_ok out" "written \<le> len"
  shows "\<exists>e n'. write_loop out n len written = Some (e, n') \<and>
     (case e of Write_error x \<Rightarrow> written \<le> x \<and> x \<le> len
      | Written x partial \<Rightarrow> written \<le> x \<and> x \<le> len \<and> (x = len \<or> partial) \<and>
          (partial \<longrightarrow> (\<exists>m l. snd (out m l))))"
  using assms(2)
proof (induction "len - written" arbitrary: n written rule: less_induct)
  case less
  obtain r p where rp: "out n (len - written) = (r, p)" by fastforce
  have ok: "r \<le> int (len - written)" "r < 0 \<or> p \<or> 0 < r \<or> len - written = 0"
    using assms(1) rp unfolding write_ok_def by (metis fst_conv snd_conv)+
  show ?case
  proof (cases "0 \<le> r \<and> written + nat r < len \<and> \<not> p")
    case True
    then have "len - (written + nat r) < len - written" "written + nat r \<le> len" using ok by auto
    then obtain e n' where "write_loop out (n + 1) len (written + nat r) = Some (e, n')"
      "case e of Write_error x \<Rightarrow> written + nat r \<le> x \<and> x \<le> len
        | Written x partial \<Rightarrow> written + nat r \<le> x \<and> x \<le> len \<and> (x = len \<or> partial) \<and>
            (partial \<longrightarrow> (\<exists>m l. snd (out m l)))"
      using less.hyps by blast
    then show ?thesis
      using True rp less.prems by (subst write_loop.simps) (auto split: write_end.splits)
  next
    case False
    have "0 \<le> r \<Longrightarrow> written + nat r \<le> len" using ok(1) less.prems by linarith
    moreover have "p \<Longrightarrow> \<exists>m l. snd (out m l)" using rp by (metis snd_conv)
    ultimately show ?thesis
      using False rp less.prems by (cases "r < 0") (subst write_loop.simps, force)+
  qed
qed

lemma tx_queue_result:
  assumes "write_ok out" "buffers_ok q"
  shows "\<exists>rc q' sent. tx_queue out n q = Some (rc, q', sent) \<and>
     unsent q = sent @ unsent q' \<and> buffers_ok q' \<and> (rc = 0 \<or> rc = -1) \<and>
     (rc = 0 \<longrightarrow> (\<forall>m l. \<not> snd (out m l)) \<longrightarrow> q' = [])"
  using assms(2)
proof (induction q arbitrary: n)
  case Nil
  then show ?case by (simp add: buffers_ok_def)
next
  case (Cons w q)
  have w: "wr_written w \<le> length (wr_buf w)" and q: "buffers_ok q"
    using Cons.prems by (simp_all add: buffers_ok_def)
  obtain e n' where e: "write_loop out n (length (wr_buf w)) (wr_written w) = Some (e, n')"
    "case e of Write_error x \<Rightarrow> wr_written w \<le> x \<and> x \<le> length (wr_buf w)
      | Written x partial \<Rightarrow> wr_written w \<le> x \<and> x \<le> length (wr_buf w) \<and>
          (x = length (wr_buf w) \<or> partial) \<and> (partial \<longrightarrow> (\<exists>m l. snd (out m l)))"
    using write_loop_result [OF assms(1) w] by blast
  have split: "drop (wr_written w) (wr_buf w) = chunk w x @ drop x (wr_buf w)"
    if "wr_written w \<le> x" for x
    using that append_take_drop_id [of "x - wr_written w" "drop (wr_written w) (wr_buf w)"]
    by (simp add: chunk_def)
  show ?case
  proof (cases e)
    case (Write_error x)
    then show ?thesis
      using e q split [of x] by (simp add: unsent_def buffers_ok_def)
  next
    case (Written x partial)
    then have x: "wr_written w \<le> x" "x \<le> length (wr_buf w)" "x = length (wr_buf w) \<or> partial"
      "partial \<longrightarrow> (\<exists>m l. snd (out m l))"
      using e(2) by simp_all
    define keep where "keep = (if x = length (wr_buf w) then [] else [w\<lparr>wr_written := x\<rparr>])"
    have un: "unsent (w # q) = chunk w x @ unsent keep @ unsent q"
      using split [OF x(1)] by (simp add: unsent_def keep_def)
    have app: "unsent (keep @ r) = unsent keep @ unsent r" "buffers_ok (keep @ r) = buffers_ok r" for r
      using x(2) by (auto simp: unsent_def buffers_ok_def keep_def)
    obtain rc q' sent where q': "tx_queue out n' q = Some (rc, q', sent)" "unsent q = sent @ unsent q'"
      "buffers_ok q'" "rc = 0 \<or> rc = -1" "rc = 0 \<longrightarrow> (\<forall>m l. \<not> snd (out m l)) \<longrightarrow> q' = []"
      by (rule exE [OF Cons.IH [OF q, of n']]) (elim exE conjE, rule that)
    show ?thesis
    proof (cases partial)
      case True
      then have "tx_queue out n (w # q) = Some (0, keep @ q, chunk w x)"
        using e(1) Written by (simp add: keep_def)
      moreover have "\<not> (\<forall>m l. \<not> snd (out m l))" using x(4) True by blast
      ultimately show ?thesis using un app(1) [of q] app(2) [of q] q by auto
    next
      case False
      then have "tx_queue out n (w # q) = Some (rc, q', chunk w x @ sent)" "keep = []"
        using e(1) Written q'(1) x(3) by (simp_all add: keep_def)
      then show ?thesis using un q' by (simp add: unsent_def)
    qed
  qed
qed

end
