(* ===== verification/Machine.thy ===== *)
theory Machine
  imports Owsd_Prelude
begin

text \<open>
  Components that are driven by callbacks: a step function that goes wrong on some callbacks, the
  callbacks that the caller's contract admits in a state, and an invariant. The contract
  \<open>safe_machine\<close> is proved once for a component by an interpretation; what it gives is a statement
  on all sequences of callbacks.
\<close>

fun run_events :: "('e \<Rightarrow> 's \<Rightarrow> 's option) \<Rightarrow> 'e list \<Rightarrow> 's \<Rightarrow> 's option" where
  "run_events step [] s = Some s"
| "run_events step (e # es) s = Option.bind (step e s) (run_events step es)"

text \<open>Every callback of the sequence is admitted in the state the ones before it lead to.\<close>

fun admitted ::
    "('e \<Rightarrow> 's \<Rightarrow> 's option) \<Rightarrow> ('s \<Rightarrow> 'e \<Rightarrow> bool) \<Rightarrow> 'e list \<Rightarrow> 's \<Rightarrow> bool" where
  "admitted step enabled [] s \<longleftrightarrow> True"
| "admitted step enabled (e # es) s \<longleftrightarrow>
     enabled s e \<and> (case step e s of None \<Rightarrow> True | Some s' \<Rightarrow> admitted step enabled es s')"

locale safe_machine =
  fixes step :: "'e \<Rightarrow> 's \<Rightarrow> 's option"
    and enabled :: "'s \<Rightarrow> 'e \<Rightarrow> bool"
    and inv :: "'s \<Rightarrow> bool"
  assumes step_safe: "inv s \<Longrightarrow> enabled s e \<Longrightarrow> \<exists>s'. step e s = Some s' \<and> inv s'"
begin

lemma run_safe:
  assumes "inv s" "admitted step enabled es s"
  shows "\<exists>s'. run_events step es s = Some s' \<and> inv s'"
  using assms
proof (induction es arbitrary: s)
  case (Cons e es)
  then have "enabled s e"
    by simp
  then obtain s' where "step e s = Some s'" "inv s'"
    using step_safe [OF Cons.prems(1)] by blast
  then show ?case
    using Cons by auto
qed simp

lemma run_next_safe:
  assumes "inv s" "admitted step enabled es s" "run_events step es s = Some s'" "enabled s' e"
  shows "\<exists>s''. step e s' = Some s''"
proof -
  have "inv s'"
    using run_safe [OF assms(1,2)] assms(3) by simp
  then show ?thesis
    using step_safe [OF _ assms(4)] by blast
qed

end

end
