(* ===== verification/System.thy ===== *)
theory System
  imports Inv_Peer Writer Machine
begin

text \<open>
  The server as a state machine: its events are the callbacks of libwebsockets, libubus and
  uloop, and a step runs the handler the code registers for the event. A step is \<open>safe\<close> when it
  avoids the situations in which the code is known to touch freed or missing memory; safe steps
  keep the invariant, so every state reached by them satisfies it.
\<close>

section \<open>Messages\<close>

lemma peer_data_inv:
  assumes inv: "server_inv s" and p: "peers s w = Some p" "client_of p = Some c"
    and p': "client_of p' = Some c" "peer_ok p'"
  shows "server_inv (set_peer w p' s)"
proof -
  let ?s = "set_peer w p' s"
  have cl: "wsi_to_client ?s = wsi_to_client s"
    using p p'(1) by (auto simp: fun_eq_iff wsi_to_client_def wsi_to_peer_def)
  have "view_of ?s = view_of s"
    by (intro view_eqI) (simp_all add: rq_def aq_def cl call_view_def sub_view_def ev_view_def
        chk_view_def fun_eq_iff del: wsi_to_client_set_peer)
  then show ?thesis
    by (rule view_only_inv [OF inv _ cl])
      (use inv p'(2) in \<open>auto simp: same_globals_def server_inv_def all_ready_def\<close>)
qed

lemma enqueue_inv:
  assumes inv: "server_inv s" and c: "wsi_to_client s w = Some c"
  shows "server_inv (enqueue E w r s)"
proof -
  obtain p where p: "peers s w = Some p" "client_of p = Some c"
    using wsi_to_client_peer [OF c] by (auto simp: client_of_def)
  then have "peer_ok p" using inv by (auto simp: server_inv_def all_ready_def)
  then show ?thesis
    using inv p peer_data_inv [OF inv p] by (auto simp: enqueue_def split: option.splits)
qed

lemma send_error_inv:
  assumes inv: "server_inv s" and env: "env_ok E" and c: "wsi_to_client s w = Some c"
  shows "\<exists>s'. send_error E w rid e s = Some s' \<and> server_inv s' \<and> wsi_to_client s' = wsi_to_client s"
proof -
  have "send_error E w rid e s = Some (enqueue E w (jsonrpc__resp_error (lib E) rid e None) s)"
    unfolding send_error_def
    by (rule queue_write_enqueue [OF c]) (use inv env in \<open>simp_all add: server_inv_def\<close>)
  then show ?thesis using enqueue_inv [OF inv c] c by simp
qed

text \<open>The request that reaches a handler, if any.\<close>

definition request_of :: "env \<Rightarrow> blob_attr list \<Rightarrow> (blob_attr option \<times> ubusrpc_blob) option" where
  "request_of E blob =
     (let (rc, req) = jsonrpc_blob_req_parse (lib E) blob in
      if rc \<noteq> 0 then None
      else
        (case (jr_method req, jr_params req) of
           (Some m, Some p) \<Rightarrow>
             map_option (Pair (jr_id req))
               (snd (ubusrpc_blob_parse (lib E) (blacklist_old E) (alloc E) m p))
         | _ \<Rightarrow> None))"

definition safe_request :: "server \<Rightarrow> wsi \<Rightarrow> blob_attr option \<Rightarrow> ubusrpc_blob \<Rightarrow> bool" where
  "safe_request s w rid req \<longleftrightarrow>
     (case ur_args req of
        CallArgs c \<Rightarrow> safe_call c
      | ListArgs _ \<Rightarrow> rid \<noteq> None
      | SubArgs pat \<Rightarrow> ur_handler req = Ubusrpc_handle_unsub \<longrightarrow> safe_unsub s w pat
      | SubListArgs \<Rightarrow> True)"

text \<open>Parsing pairs every handler with its own kind of arguments.\<close>

definition well_paired :: "ubusrpc_blob \<Rightarrow> bool" where
  "well_paired req \<longleftrightarrow>
     (case ur_args req of
        CallArgs _ \<Rightarrow> ur_handler req = Ubusrpc_handle_call
      | ListArgs _ \<Rightarrow> ur_handler req = Ubusrpc_handle_list
      | SubArgs _ \<Rightarrow> ur_handler req = Ubusrpc_handle_sub \<or> ur_handler req = Ubusrpc_handle_unsub
      | SubListArgs \<Rightarrow> ur_handler req = Ubusrpc_handle_sub_list)"

lemma blob_parse_paired:
  assumes "ubusrpc_blob_parse L bl al m p = (e, Some req)"
  shows "e = JSONRPC_ERRORCODE__OK" "well_paired req"
    "type_of_blob (snd p) = BLOBMSG_TYPE_ARRAY \<Longrightarrow> ur_sid req \<noteq> None"
proof -
  obtain f where f: "(m, f, ur_handler req) \<in> set (supported_methods L bl al)"
    "f p = Some (ur_sid req, ur_args req)" and "e = JSONRPC_ERRORCODE__OK"
    using rpc_lookup_found assms unfolding ubusrpc_blob_parse_def by blast
  then show "e = JSONRPC_ERRORCODE__OK" by simp
  show "well_paired req" "type_of_blob (snd p) = BLOBMSG_TYPE_ARRAY \<Longrightarrow> ur_sid req \<noteq> None"
    using f unfolding supported_methods_def well_paired_def
    by (auto dest!: call_parse_shape sub_parse_shape sub_list_parse_shape list_parse_shape)
qed

lemma parse_params_array:
  assumes "libubox_ok L" "jsonrpc_blob_req_parse L blob = (0, req)"
  shows "\<exists>m p. jr_method req = Some m \<and> jr_params req = Some p \<and>
     type_of_blob (snd p) = BLOBMSG_TYPE_ARRAY"
proof -
  obtain p where p: "jr_params req = Some p" "blobmsg_parse L rpc_policy blob ! 3 = Some p"
    and "jr_method req \<noteq> None"
    using assms(2) by (auto simp: jsonrpc_blob_req_parse_def Let_def split: option.splits if_splits)
  moreover have "fits (snd (rpc_policy ! 3)) (snd p)"
    by (rule libubox_parse(3) [OF assms(1) _ p(2)]) (simp add: rpc_policy_def)
  ultimately show ?thesis by (auto simp: rpc_policy_def fits_def)
qed

lemma dispatch_counted:
  assumes inv: "server_inv s" and env: "env_ok E" and c: "wsi_to_client s w = Some c"
    and pair: "well_paired req" and sid: "ur_sid req \<noteq> None" and safe: "safe_request s w rid req"
  shows "\<exists>s' s''. rpc_dispatch E w req rid s = Some (0, s') \<and> rpc_q_len_inc w s' = Some s'' \<and> server_inv s''"
proof (cases "ur_args req")
  case (CallArgs x)
  then show ?thesis
    using pair safe call_rpc.counted [OF inv env c, where x = x and rid = rid]
    by (simp add: rpc_dispatch_def well_paired_def safe_request_def)
next
  case (ListArgs x)
  then show ?thesis
    using pair safe list_rpc.counted [OF inv env c, where x = x and rid = rid]
    by (simp add: rpc_dispatch_def well_paired_def safe_request_def)
next
  case (SubArgs pat)
  obtain sid where sid: "ur_sid req = Some sid" using sid by blast
  show ?thesis
  proof (cases "ur_handler req = Ubusrpc_handle_unsub")
    case True
    then show ?thesis
      using SubArgs pair safe unsub_rpc.counted [OF inv env c, where x = pat and rid = rid]
      by (simp add: rpc_dispatch_def safe_request_def)
  next
    case False
    then show ?thesis
      using SubArgs pair sid sub_rpc.counted [OF inv env c, where x = "(sid, pat)" and rid = rid]
      by (simp add: rpc_dispatch_def well_paired_def)
  qed
next
  case SubListArgs
  then show ?thesis
    using pair sub_list_rpc.counted [OF inv env c, where rid = rid]
    by (simp add: rpc_dispatch_def well_paired_def)
qed

lemma parse_members:
  assumes "libubox_ok L" "jsonrpc_blob_req_parse L blob = (0, req)"
  shows "\<exists>v. (''method'', v) \<in> set blob \<and> type_of_blob v = BLOBMSG_TYPE_STRING"
    "\<exists>v. (''params'', v) \<in> set blob \<and> type_of_blob v = BLOBMSG_TYPE_ARRAY"
proof -
  obtain m p where mp: "blobmsg_parse L rpc_policy blob ! 2 = Some m"
    "blobmsg_parse L rpc_policy blob ! 3 = Some p"
    using assms(2) by (auto simp: jsonrpc_blob_req_parse_def Let_def split: option.splits if_splits)
  have len: "2 < length rpc_policy" "3 < length rpc_policy"
    by (simp_all add: rpc_policy_def)
  show "\<exists>v. (''method'', v) \<in> set blob \<and> type_of_blob v = BLOBMSG_TYPE_STRING"
    using libubox_parse [OF assms(1) len(1) mp(1)]
    by (intro exI [of _ "snd m"]) (cases m, simp add: rpc_policy_def fits_def)
  show "\<exists>v. (''params'', v) \<in> set blob \<and> type_of_blob v = BLOBMSG_TYPE_ARRAY"
    using libubox_parse [OF assms(1) len(2) mp(2)]
    by (intro exI [of _ "snd p"]) (cases p, simp add: rpc_policy_def fits_def)
qed

lemma input_validation_returns:
  assumes env: "env_ok E" and blob: "blob = blobmsg_add_object E jo"
    and parse: "jsonrpc_blob_req_parse (lib E) blob = (0, req)"
    and str: "blobmsg_format_json (lib E) blob = Some str"
  shows "\<exists>b. validate_json_call_string E str = Some b"
proof (rule validate_call_returns)
  fix j
  assume j: "json_tokener_parse E str = Some j"
  have L: "libubox_ok (lib E)" and P: "prints_back_ok E"
    using env by (simp_all add: env_ok_def)
  obtain m p where "(''method'', m) \<in> set blob" "type_of_blob m = BLOBMSG_TYPE_STRING"
    "(''params'', p) \<in> set blob" "type_of_blob p = BLOBMSG_TYPE_ARRAY"
    using parse_members [OF L parse] by blast
  then show "(\<exists>m. json_get_ex j ''method'' = (True, JString m)) \<and>
      (\<exists>ps. json_get_ex j ''params'' = (True, JArray ps))"
    using P str j unfolding prints_back_ok_def blob by blast
qed

text \<open>A request that parses and is valid is dispatched and counted.\<close>

lemma valid_request_inv:
  assumes inv: "server_inv s" and env: "env_ok E" and c: "wsi_to_client s w = Some c"
    and p: "type_of_blob (snd p) = BLOBMSG_TYPE_ARRAY"
    and r: "ubusrpc_blob_parse (lib E) (blacklist_old E) (alloc E) m p = (e, Some u)"
    and safe: "safe_request s w rid u"
  shows "\<exists>q sid s' s''. wsi_to_peer s w = Some q \<and> ur_sid u = Some sid
     \<and> rpc_dispatch E w u rid (set_peer w (wsu_sid_update q sid) s) = Some (0, s')
     \<and> rpc_q_len_inc w s' = Some s'' \<and> server_inv s'' \<and> (\<exists>c'. wsi_to_client s'' w = Some c')"
proof -
  note pair = blob_parse_paired [OF r]
  obtain sid where sid: "ur_sid u = Some sid" using pair(3) p by blast
  obtain q where q: "peers s w = Some q" "client_of q = Some c"
    using wsi_to_client_peer [OF c] by (auto simp: client_of_def)
  let ?s = "set_peer w (wsu_sid_update q sid) s"
  have inv': "server_inv ?s"
    using inv q by (intro peer_data_inv [OF inv q])
      (auto simp: wsu_sid_update_def server_inv_def all_ready_def)
  have c': "wsi_to_client ?s w = Some c" using q by (simp add: wsu_sid_update_def)
  have "safe_request ?s w rid u"
    using safe by (simp add: safe_request_def safe_unsub_def sub_matches_def split: ubusrpc_args.splits)
  then obtain s' s'' where s': "rpc_dispatch E w u rid ?s = Some (0, s')"
    "rpc_q_len_inc w s' = Some s''" "server_inv s''"
    using dispatch_counted [OF inv' env c' pair(2)] sid by blast
  moreover have "\<exists>c'. wsi_to_client s'' w = Some c'"
    using s'(2) by (auto simp: rpc_q_len_inc_def upd_client_def split: option.splits wsu_role.splits)
  ultimately show ?thesis
    using q sid by (auto simp: wsi_to_peer_def)
qed

lemma on_msg_inv:
  assumes inv: "server_inv s" and env: "env_ok E" and c: "wsi_to_client s w = Some c"
    and blob: "blob = blobmsg_add_object E jo"
    and safe: "\<And>rid req. request_of E blob = Some (rid, req) \<Longrightarrow> safe_request s w rid req"
  shows "\<exists>s'. wsu_on_msg_from_client E w blob s = Some s' \<and> server_inv s' \<and>
     (\<exists>c'. wsi_to_client s' w = Some c')"
proof -
  obtain rc req where parse: "jsonrpc_blob_req_parse (lib E) blob = (rc, req)" by fastforce
  have err: "\<exists>s'. send_error E w rid e s = Some s' \<and> server_inv s' \<and> (\<exists>c'. wsi_to_client s' w = Some c')"
    for rid e
    using send_error_inv [OF inv env c, of rid e] c by auto
  let ?str = "blobmsg_format_json (lib E) blob"
  show ?thesis
  proof (cases "rpc_q_len c > word_of_int (req_max s) \<or> \<not> alloc E A_jsonrpc_req \<or> rc \<noteq> 0
      \<or> json_validation E \<and> ?str = None")
    case True
    then show ?thesis
      using err c inv by (cases "rc = 0") (auto simp: wsu_on_msg_from_client_def parse Let_def)
  next
    case False
    then have ok: "\<not> rpc_q_len c > word_of_int (req_max s)" "alloc E A_jsonrpc_req"
      "jsonrpc_blob_req_parse (lib E) blob = (0, req)" "\<not> (json_validation E \<and> ?str = None)"
      using parse by auto
    then obtain v where v: "json_validation E \<Longrightarrow> validate_json_call_string E (the ?str) = Some v"
      "\<not> json_validation E \<Longrightarrow> v" "json_validation E \<Longrightarrow> ?str \<noteq> None"
      using input_validation_returns [OF env blob ok(3)] by (cases "json_validation E") auto
    have L: "libubox_ok (lib E)" using env by (simp add: env_ok_def)
    obtain m p where mp: "jr_method req = Some m" "jr_params req = Some p"
      "type_of_blob (snd p) = BLOBMSG_TYPE_ARRAY"
      using parse_params_array [OF L ok(3)] by blast
    obtain e r where r: "ubusrpc_blob_parse (lib E) (blacklist_old E) (alloc E) m p = (e, r)"
      by fastforce
    note run = wsu_on_msg_from_client_def ok v mp r
    show ?thesis
    proof (cases "v \<and> r \<noteq> None")
      case False
      then show ?thesis
        using err c by (cases "json_validation E") (auto simp: run Let_def)
    next
      case True
      then obtain u where u: "v" "r = Some u" by blast
      have sr: "safe_request s w (jr_id req) u"
        by (rule safe) (simp add: request_of_def ok(3) mp r u)
      show ?thesis
        using valid_request_inv [OF inv env c mp(3) r [unfolded u(2)] sr] c u
        by (cases "json_validation E") (auto simp: run Let_def)
    qed
  qed
qed

section \<open>Receiving and writing\<close>

lemma shut_inv [simp]: "server_inv (s\<lparr>shut := x\<rparr>) = server_inv s"
proof -
  have "view_of (s\<lparr>shut := x\<rparr>) = view_of s"
    by (intro view_eqI) (simp_all add: rq_def aq_def call_view_def sub_view_def ev_view_def
        chk_view_def fun_eq_iff)
  then show ?thesis by (simp add: server_inv_def len_ok_def sessions_ok_def)
qed

text \<open>A frame is safe when the message it completes, if any, is.\<close>

definition safe_frame :: "env \<Rightarrow> server \<Rightarrow> wsi \<Rightarrow> string \<Rightarrow> bool" where
  "safe_frame E s w txt \<longleftrightarrow>
     (\<forall>p j rid req. peers s w = Some p \<and>
        fst (json_tokener_parse_ex E (curr_msg_text p) txt) = Some j \<and>
        request_of E (blobmsg_add_object E j) = Some (rid, req) \<longrightarrow> safe_request s w rid req)"

lemma rx_json_inv:
  assumes inv: "server_inv s" and env: "env_ok E" and c: "wsi_to_client s w = Some c"
    and len: "length txt < 2147483647" and safe: "safe_frame E s w txt"
  shows "\<exists>s'. wsubus_rx_json E w txt remaining final s = Some s' \<and> server_inv s'"
proof -
  obtain p where p: "peers s w = Some p" "client_of p = Some c"
    using wsi_to_client_peer [OF c] by (auto simp: client_of_def)
  then have ok: "peer_ok p" using inv by (auto simp: server_inv_def all_ready_def)
  obtain jobj cont to where j: "json_tokener_parse_ex E (curr_msg_text p) txt = (jobj, cont, to)"
    by (metis surj_pair)
  let ?s = "set_peer w (p\<lparr>curr_msg_text := curr_msg_text p @ txt,
              curr_msg_len := curr_msg_len p + of_nat (length txt)\<rparr>) s"
  have inv': "server_inv ?s" by (rule peer_data_inv [OF inv p]) (use p ok in simp_all)
  have c': "wsi_to_client ?s w = Some c" using p by simp
  define handle where "handle = (case jobj of
      Some (JObject fs) \<Rightarrow>
        if to = int (length txt) then wsu_on_msg_from_client E w (blobmsg_add_object E (JObject fs)) ?s
        else send_error E w None JSONRPC_ERRORCODE__PARSE_ERROR ?s
    | _ \<Rightarrow> send_error E w None JSONRPC_ERRORCODE__PARSE_ERROR ?s)"
  have err: "\<exists>s'. send_error E w None JSONRPC_ERRORCODE__PARSE_ERROR ?s = Some s' \<and> server_inv s' \<and>
      (\<exists>c'. wsi_to_client s' w = Some c')"
    using send_error_inv [OF inv' env c'] c' by metis
  have "\<exists>s'. handle = Some s' \<and> server_inv s' \<and> (\<exists>c'. wsi_to_client s' w = Some c')"
  proof (cases "\<exists>fs. jobj = Some (JObject fs) \<and> to = int (length txt)")
    case True
    then obtain fs where fs: "jobj = Some (JObject fs)" "to = int (length txt)" by blast
    have "safe_request ?s w rid req"
      if "request_of E (blobmsg_add_object E (JObject fs)) = Some (rid, req)" for rid req
      using safe that p(1) j fs(1) unfolding safe_frame_def
      by (fastforce simp: safe_request_def safe_unsub_def sub_matches_def split: ubusrpc_args.splits)
    then show ?thesis using on_msg_inv [OF inv' env c' refl] fs by (simp add: handle_def)
  next
    case False
    then show ?thesis using err by (auto simp: handle_def split: option.splits json.splits)
  qed
  then obtain t d where t: "handle = Some t" "server_inv t" "wsi_to_client t w = Some d" by blast
  obtain q where q: "peers t w = Some q" "client_of q = Some d"
    using wsi_to_client_peer [OF t(3)] by (auto simp: client_of_def)
  have "server_inv (set_peer w (q\<lparr>curr_msg_text := [], curr_msg_len := 0\<rparr>) t)"
    by (rule peer_data_inv [OF t(2) q])
      (use q t(2) in \<open>auto simp: server_inv_def all_ready_def\<close>)
  moreover have "wsubus_rx_json E w txt remaining final s =
      (if remaining = 0 \<and> final then Option.bind handle (wsu_read_reset w)
       else if \<not> cont then Some (?s\<lparr>shut := insert (w, SHUT_RDWR) (shut ?s)\<rparr>) else Some ?s)"
    using p ok len by (simp add: wsubus_rx_json_def wsi_to_peer_def peer_ok_def handle_def j Let_def)
  ultimately show ?thesis
    using inv' t(1) q(1) by (simp add: wsu_read_reset_def)
qed

lemma rx_inv:
  assumes inv: "server_inv s" and env: "env_ok E" and c: "wsi_to_client s w = Some c"
    and len: "length txt < 2147483647" and safe: "safe_frame E s w txt"
  shows "\<exists>s'. wsubus_rx E w binary txt remaining final s = Some s' \<and> server_inv s'"
proof -
  obtain p where p: "wsi_to_peer s w = Some p" using wsi_to_client_peer_some [OF c] by blast
  have sf: "safe_frame E (s\<lparr>shut := x\<rparr>) w txt" for x
    using safe by (simp add: safe_frame_def safe_request_def safe_unsub_def sub_matches_def
        cong: ubusrpc_args.case_cong)
  have "\<exists>s'. wsubus_rx_json E w txt remaining final (s\<lparr>shut := x\<rparr>) = Some s' \<and> server_inv s'" for x
    by (rule rx_json_inv [OF _ env _ len sf]) (use inv c in simp_all)
  then show ?thesis
    using inv p rx_json_inv [OF inv env c len safe, of remaining final]
    by (auto simp: wsubus_rx_def wsubus_rx_blob_def Let_def)
qed

lemma tx_inv:
  assumes inv: "server_inv s" and wr: "write_ok (lws_write E)" and c: "wsi_to_client s w = Some c"
  shows "\<exists>rc sent s'. wsubus_tx_text E w s = Some (rc, sent, s') \<and> server_inv s'"
proof -
  obtain p where p: "peers s w = Some p" "client_of p = Some c"
    using wsi_to_client_peer [OF c] by (auto simp: client_of_def)
  then have ok: "peer_ok p" using inv by (auto simp: server_inv_def all_ready_def)
  then have "buffers_ok (write_q p)" by (simp add: peer_ok_def buffers_ok_def)
  then obtain rc q sent where t: "tx_queue (lws_write E) 0 (write_q p) = Some (rc, q, sent)" "buffers_ok q"
    using tx_queue_result [OF wr] by blast
  have "server_inv (set_peer w (p\<lparr>write_q := q\<rparr>) s)"
    by (rule peer_data_inv [OF inv p]) (use p ok t(2) in \<open>simp_all add: peer_ok_def buffers_ok_def\<close>)
  then show ?thesis
    using p ok t(1) by (auto simp: wsubus_tx_text_def wsi_to_peer_def peer_ok_def Let_def)
qed

section \<open>The machine\<close>

datatype event =
    Lws wsi lws_reason
  | CheckData addr "blob_attr list"
  | CheckDone addr int
  | Deferred addr
  | CallData addr "blob option"
  | CallDone addr int
  | UbusEvent addr string "blob_attr list"
  | Cleaner wsi

text \<open>\<open>req->cb (req, req->ctx, allow)\<close>\<close>

definition run_access_cb :: "env \<Rightarrow> addr \<Rightarrow> chk_owner \<times> bool \<Rightarrow> server \<Rightarrow> server option" where
  "run_access_cb E b verdict s =
     (case fst verdict of
        OCall a \<Rightarrow> wsubus_access_on_completed E b a (snd verdict) s
      | OEv a \<Rightarrow> wsubus_ev_check_cb E b a (snd verdict) s)"

text \<open>
  The libraries take a finished request or an expired timer off their lists before they call
  back, and free a closed connection after they have called back.
\<close>

definition step :: "env \<Rightarrow> event \<Rightarrow> server \<Rightarrow> server option" where
  "step E ev s =
     (case ev of
        Lws w reason \<Rightarrow>
          map_option (\<lambda>(_, t). if reason = LWS_CALLBACK_CLOSED then forget_peer w t else t)
            (wsubus_cb E w reason s)
      | CheckData b msg \<Rightarrow> wsubus_access_check__on_ret b msg s
      | CheckDone b status \<Rightarrow>
          let s = s\<lparr>ubus_reqs := ubus_reqs s - {UChk b}\<rparr> in
          Option.bind (wsubus_access_check__cb b status s) (\<lambda>verdict. run_access_cb E b verdict s)
      | Deferred b \<Rightarrow>
          let s = s\<lparr>timers := timers s - {b}\<rparr> in
          Option.bind (deferral_cb b s) (\<lambda>verdict. run_access_cb E b verdict s)
      | CallData a msg \<Rightarrow> wsubus_call_on_retdata a msg s
      | CallDone a status \<Rightarrow> wsubus_call_on_completed E a status (s\<lparr>ubus_reqs := ubus_reqs s - {UCall a}\<rparr>)
      | UbusEvent a type msg \<Rightarrow> wsubus_sub_cb E a type msg s
      | Cleaner w \<Rightarrow>
          Option.bind (upd_client w (\<lambda>c. c\<lparr>percall_cleaner := False\<rparr>) s) (wsubus_percall_clean_stale E w))"

text \<open>When the libraries can produce an event.\<close>

definition enabled :: "server \<Rightarrow> event \<Rightarrow> bool" where
  "enabled s ev =
     (case ev of
        Lws w reason \<Rightarrow>
          (case reason of
             LWS_CALLBACK_FILTER_PROTOCOL_CONNECTION len _ _ \<Rightarrow> 0 \<le> len
           | LWS_CALLBACK_ESTABLISHED \<Rightarrow> peers s w = None
           | LWS_CALLBACK_RECEIVE _ txt _ _ \<Rightarrow> wsi_to_client s w \<noteq> None \<and> length txt \<le> 32768
           | LWS_CALLBACK_OTHER \<Rightarrow> True
           | _ \<Rightarrow> wsi_to_client s w \<noteq> None)
      | CheckData b _ \<Rightarrow> UChk b \<in> ubus_reqs s
      | CheckDone b _ \<Rightarrow> UChk b \<in> ubus_reqs s
      | Deferred b \<Rightarrow> b \<in> timers s
      | CallData a _ \<Rightarrow> UCall a \<in> ubus_reqs s
      | CallDone a _ \<Rightarrow> UCall a \<in> ubus_reqs s
      | UbusEvent a _ _ \<Rightarrow> a \<in> ev_handlers s
      | Cleaner w \<Rightarrow> (case wsi_to_client s w of Some c \<Rightarrow> percall_cleaner c | None \<Rightarrow> False))"

text \<open>
  The situations the code does not survive: a \<open>list\<close> request without id, an \<open>unsubscribe\<close> while
  an event of the subscription is being checked, a certificate session that calls an object
  named like a bus event or hears such an event without TLS, and a call that becomes stale while
  its access check is pending.
\<close>

definition safe :: "env \<Rightarrow> server \<Rightarrow> event \<Rightarrow> bool" where
  "safe E s ev =
     (case ev of
        Lws w (LWS_CALLBACK_RECEIVE _ txt _ _) \<Rightarrow> safe_frame E s w txt
      | UbusEvent a type _ \<Rightarrow> safe_event E s a type
      | Cleaner w \<Rightarrow> safe_stale E s w
      | _ \<Rightarrow> True)"

lemma check_done_inv:
  assumes inv: "server_inv s" and env: "env_ok E" and r: "chk_heap s b = Some r"
  shows "\<exists>s'. run_access_cb E b (ck_owner r, allow)
     (s\<lparr>ubus_reqs := ubus_reqs s - {UChk b}, timers := timers s - {b}\<rparr>) = Some s' \<and> server_inv s'"
proof -
  have v: "view_inv (view_of s)" using inv by (simp add: server_inv_def)
  show ?thesis
  proof (cases "ck_owner r")
    case (OCall a)
    then obtain k where "call_heap s a = Some k" "pc_check k = Some b"
      using owner_of_check [OF v r] by auto
    then show ?thesis
      using access_on_completed_inv [OF inv env _ _ refl] OCall by (fastforce simp: run_access_cb_def)
  next
    case (OEv a)
    then obtain e where "ev_heap s a = Some e" "ev_check e = Some b"
      using owner_of_check [OF v r] by auto
    then show ?thesis
      using ev_check_cb_inv [OF inv env _ _ refl] OEv by (fastforce simp: run_access_cb_def)
  qed
qed

lemma lws_step_inv:
  assumes inv: "server_inv s" and env: "env_ok E" and wr: "write_ok (lws_write E)"
    and en: "enabled s (Lws w reason)" and sf: "safe E s (Lws w reason)"
  shows "\<exists>s'. step E (Lws w reason) s = Some s' \<and> server_inv s'"
proof (cases reason)
  case (LWS_CALLBACK_FILTER_PROTOCOL_CONNECTION len e origin)
  then have "\<exists>r. wsubus_filter E w len e origin = Some r"
    using en by (auto simp: enabled_def wsubus_filter_def split: option.splits)
  then show ?thesis
    using inv LWS_CALLBACK_FILTER_PROTOCOL_CONNECTION by (auto simp: step_def wsubus_cb_def)
next
  case LWS_CALLBACK_ESTABLISHED
  then show ?thesis
    using en peer_init_inv [OF inv env, of w]
    by (auto simp: enabled_def step_def wsubus_cb_def split: prod.splits)
next
  case (LWS_CALLBACK_RECEIVE bin frame rest fin)
  then obtain c where "wsi_to_client s w = Some c" "length frame < 2147483647" "safe_frame E s w frame"
    using en sf by (auto simp: enabled_def safe_def)
  then show ?thesis
    using rx_inv [OF inv env] LWS_CALLBACK_RECEIVE by (fastforce simp: step_def wsubus_cb_def)
next
  case LWS_CALLBACK_SERVER_WRITEABLE
  then show ?thesis
    using tx_inv [OF inv wr] en by (fastforce simp: enabled_def step_def wsubus_cb_def)
next
  case LWS_CALLBACK_CLIENT_WRITEABLE
  then show ?thesis
    using tx_inv [OF inv wr] en by (fastforce simp: enabled_def step_def wsubus_cb_def)
next
  case LWS_CALLBACK_CLOSED
  then show ?thesis
    using deinit_effect [OF inv] en by (fastforce simp: enabled_def step_def wsubus_cb_def)
qed (use inv in \<open>simp_all add: step_def wsubus_cb_def\<close>)

lemma step_inv:
  assumes inv: "server_inv s" and env: "env_ok E" and wr: "write_ok (lws_write E)"
    and en: "enabled s ev" and sf: "safe E s ev"
  shows "\<exists>s'. step E ev s = Some s' \<and> server_inv s'"
proof -
  have v: "view_inv (view_of s)" using inv by (simp add: server_inv_def)
  show ?thesis
  proof (cases ev)
    case (Lws w reason)
    then show ?thesis using lws_step_inv [OF inv env wr] en sf by simp
  next
    case (CheckData b msg)
    then show ?thesis using check_on_ret_inv [OF inv] en by (fastforce simp: enabled_def step_def)
  next
    case (CheckDone b status)
    then obtain r where r: "chk_heap s b = Some r" "b \<notin> timers s"
      using en pending_check [OF v] by (auto simp: enabled_def)
    then have "timers s - {b} = timers s" by simp
    then show ?thesis
      using CheckDone check_done_inv [OF inv env r(1)] r(1)
      by (simp add: step_def Let_def wsubus_access_check__cb_def)
  next
    case (Deferred b)
    then obtain r where r: "chk_heap s b = Some r" "ck_tag r = REQ_TAG_DEFER" "UChk b \<notin> ubus_reqs s"
      using en pending_timer [OF v] by (auto simp: enabled_def)
    then have "ubus_reqs s - {UChk b} = ubus_reqs s" by simp
    then show ?thesis
      using Deferred check_done_inv [OF inv env r(1)] r
      by (simp add: step_def Let_def deferral_cb_def)
  next
    case (CallData a msg)
    then show ?thesis using call_on_retdata_inv [OF inv] en by (fastforce simp: enabled_def step_def)
  next
    case (CallDone a status)
    then show ?thesis using call_on_completed_inv [OF inv env] en by (fastforce simp: enabled_def step_def)
  next
    case (UbusEvent a type msg)
    then show ?thesis
      using sub_cb_inv [OF inv env] en sf by (fastforce simp: enabled_def safe_def step_def)
  next
    case (Cleaner w)
    then obtain c where c: "wsi_to_client s w = Some c"
      using en by (auto simp: enabled_def split: option.splits)
    let ?s = "put w (c\<lparr>percall_cleaner := False\<rparr>) s"
    have "server_inv ?s" by (rule cleaner_flag_inv [OF inv c])
    moreover have "safe_stale E ?s w" using sf Cleaner by (simp add: safe_def safe_stale_def)
    ultimately show ?thesis
      using clean_stale_inv [of ?s w "c\<lparr>percall_cleaner := False\<rparr>" E] Cleaner
      by (auto simp: step_def upd_client_put [OF c])
  qed
qed

text \<open>The server as a machine that its libraries call, each time with answers of their own.\<close>

definition server_call :: "env \<times> event \<Rightarrow> server \<Rightarrow> server option" where
  "server_call e = step (fst e) (snd e)"

definition server_admits :: "server \<Rightarrow> env \<times> event \<Rightarrow> bool" where
  "server_admits s e \<longleftrightarrow>
     env_ok (fst e) \<and> write_ok (lws_write (fst e)) \<and> enabled s (snd e) \<and> safe (fst e) s (snd e)"

interpretation server_loop: safe_machine server_call server_admits server_inv
  by unfold_locales (use step_inv in \<open>simp add: server_call_def server_admits_def\<close>)

text \<open>The states that safe steps reach from a server without connections.\<close>

definition init_server :: "int \<Rightarrow> string list \<Rightarrow> server" where
  "init_server tot acl =
     \<lparr>num_active_ses = 0, req_max = 0, total_req_max = tot, clientid = 1, acl_tree = acl,
      peers = Map.empty, call_heap = Map.empty, sub_heap = Map.empty, ev_heap = Map.empty,
      chk_heap = Map.empty, next_addr = 0, listen_list = [], ubus_reqs = {}, timers = {},
      ev_handlers = {}, shut = {}, invoked = []\<rparr>"

inductive reachable :: "server \<Rightarrow> server \<Rightarrow> bool" for s0 where
  start: "reachable s0 s0"
| stepped: "reachable s0 s \<Longrightarrow> env_ok E \<Longrightarrow> write_ok (lws_write E) \<Longrightarrow> enabled s ev \<Longrightarrow> safe E s ev \<Longrightarrow>
    step E ev s = Some s' \<Longrightarrow> reachable s0 s'"

lemma init_inv: "server_inv (init_server tot acl)"
  by (simp add: server_inv_def init_server_def view_inv_def view_of_def queues_ok_def events_ok_def
      checks_ok_def pending_ok_def listen_ok_def fresh_ok_def rq_def aq_def wsi_to_client_def
      wsi_to_peer_def call_view_def sub_view_def ev_view_def chk_view_def len_ok_def sessions_ok_def
      all_ready_def)

lemma reachable_inv:
  assumes "reachable s0 s" "server_inv s0"
  shows "server_inv s"
  using assms
proof (induction rule: reachable.induct)
  case (stepped s E ev s')
  then show ?case using step_inv [of s E ev] by auto
qed

end
