(* ===== verification/Calls_Checked.thy ===== *)
theory Calls_Checked
  imports System
begin

text \<open>
  Which steps invoke a method on the bus: the log of the accepted requests grows by a call only
  when an access check of that call completes with a positive verdict.
\<close>

definition ucalls :: "server \<Rightarrow> (ubus_req \<times> u32 \<times> string \<times> blob_attr list) list" where
  "ucalls s = filter (\<lambda>(q, _). case q of UCall _ \<Rightarrow> True | UChk _ \<Rightarrow> False) (invoked s)"

lemma ucalls_invoked: "invoked t = invoked s \<Longrightarrow> ucalls t = ucalls s"
  by (simp add: ucalls_def)

lemma ucalls_upd [simp]:
  "ucalls (set_peer w p s) = ucalls s" "ucalls (s\<lparr>call_heap := f\<rparr>) = ucalls s"
  "ucalls (s\<lparr>sub_heap := g\<rparr>) = ucalls s" "ucalls (s\<lparr>ev_heap := h\<rparr>) = ucalls s"
  "ucalls (s\<lparr>chk_heap := k\<rparr>) = ucalls s" "ucalls (s\<lparr>next_addr := n\<rparr>) = ucalls s"
  "ucalls (s\<lparr>ubus_reqs := q\<rparr>) = ucalls s" "ucalls (s\<lparr>timers := t\<rparr>) = ucalls s"
  "ucalls (s\<lparr>ev_handlers := r\<rparr>) = ucalls s" "ucalls (s\<lparr>listen_list := l\<rparr>) = ucalls s"
  "ucalls (s\<lparr>shut := u\<rparr>) = ucalls s" "ucalls (s\<lparr>num_active_ses := i\<rparr>) = ucalls s"
  "ucalls (s\<lparr>req_max := j\<rparr>) = ucalls s" "ucalls (s\<lparr>clientid := c\<rparr>) = ucalls s"
  "ucalls (s\<lparr>peers := ps\<rparr>) = ucalls s"
  by (simp_all add: ucalls_def)


text \<open>Reading the state.\<close>

lemmas wp_read [simp] =
  wp_def [of "call_heap s a" for s a] wp_def [of "sub_heap s a" for s a]
  wp_def [of "ev_heap s a" for s a] wp_def [of "chk_heap s a" for s a]
  wp_def [of "wsi_to_client s w" for s w] wp_def [of "wsi_to_peer s w" for s w]
  wp_def [of "peers s w" for s w] wp_def [of "tls_object E s own obj" for E s own obj]
  wp_def [of "wsu_ext_restrict_interface E w obj m args" for E w obj m args]
  wp_def [of "owsd_listen E w args" for E w args] wp_def [of "call_response E k st" for E k st]
  wp_def [of "ev_msg e" for e] wp_def [of "sub_list_entries s w as" for s w as]
  wp_def [of "lookup_all E s w r objs" for E s w r objs] wp_def [of "ur_sid r" for r]
  wp_def [of "jr_method r" for r] wp_def [of "jr_params r" for r]
  wp_def [of "owner_check s own" for s own] wp_def [of "tx_queue out n q" for out n q]

section \<open>The operations that invoke no method\<close>

definition quiet :: "'a option \<Rightarrow> ('a \<Rightarrow> server) \<Rightarrow> server \<Rightarrow> bool" where
  "quiet m st s \<longleftrightarrow> wp m (\<lambda>x. ucalls (st x) = ucalls s)"

text \<open>The rule that a quiet operation gives inside another.\<close>

lemma quiet_wp: "quiet m st s \<Longrightarrow> (\<And>x. ucalls (st x) = ucalls s \<Longrightarrow> Q x) \<Longrightarrow> wp m Q"
  by (auto simp: quiet_def elim: wp_mono)

named_theorems quiets \<open>operations that invoke no method\<close>

lemma upd_client_quiet: "quiet (upd_client w f s) (\<lambda>t. t) s"
  by (auto simp: quiet_def wp_def upd_client_def split: option.splits wsu_role.splits)

lemmas [quiets] = upd_client_quiet [THEN quiet_wp]

lemma queue_quiet:
  "quiet (rpc_q_add w r s) (\<lambda>t. t) s" "quiet (rpc_q_del w r s) (\<lambda>t. t) s"
  "quiet (acq_add w own s) (\<lambda>t. t) s" "quiet (acq_del w own s) (\<lambda>t. t) s"
  "quiet (rpc_q_len_dec w s) (\<lambda>t. t) s" "quiet (rpc_q_len_inc w s) (\<lambda>t. t) s"
  unfolding quiet_def
  by (auto simp: rpc_q_add_def rpc_q_del_def acq_add_def acq_del_def rpc_q_len_dec_def
      rpc_q_len_inc_def intro!: quiets)

lemma queue_write_quiet: "quiet (queue_write E w r s) (\<lambda>t. t) s"
  by (auto simp: quiet_def queue_write_def wsu_queue_write_str_def Let_def)

lemmas [quiets] = queue_quiet [THEN quiet_wp] queue_write_quiet [THEN quiet_wp]

lemma send_error_quiet: "quiet (send_error E w rid e s) (\<lambda>t. t) s"
  by (auto simp: quiet_def send_error_def intro!: quiets)

lemma check_free_quiet: "quiet (wsubus_access_check_free req s) (\<lambda>t. t) s"
  by (auto simp: quiet_def wsubus_access_check_free_def)

lemma cancel_quiet: "quiet (wsubus_access_check__cancel b s) (\<lambda>t. t) s"
  by (auto simp: quiet_def wsubus_access_check__cancel_def split: req_tag.splits)

lemma defer_quiet: "quiet (defer_callback E b result s) snd s"
  by (auto simp: quiet_def defer_callback_def Let_def)

lemma check_new_quiet [simp]: "wsubus_access_check_new E own s = (req, t) \<Longrightarrow> ucalls t = ucalls s"
  by (auto simp: wsubus_access_check_new_def Let_def split: if_splits)

lemma via_session_quiet:
  "quiet (wsubus_access_check_via_session E b sid scope obj m args s) (\<lambda>x. snd (snd x)) s"
  by (auto simp: quiet_def wsubus_access_check_via_session_def Let_def ucalls_def)

lemmas [quiets] = send_error_quiet [THEN quiet_wp] check_free_quiet [THEN quiet_wp]
  cancel_quiet [THEN quiet_wp] defer_quiet [THEN quiet_wp] via_session_quiet [THEN quiet_wp]

lemma access_check_quiet:
  "quiet (wsubus_access_check E b w sid scope obj m args own s) (\<lambda>x. snd (snd x)) s"
  unfolding quiet_def wsubus_access_check_def
  by (auto simp: Let_def intro!: quiets)

lemma percall_destroy_quiet: "quiet (wsubus_percall_ctx_destroy a s) (\<lambda>t. t) s"
  by (auto simp: quiet_def wsubus_percall_ctx_destroy_def Let_def intro!: quiets)

lemma percall_create_quiet: "quiet (wsubus_percall_ctx_create E w rid args s) snd s"
  by (auto simp: quiet_def wsubus_percall_ctx_create_def Let_def)

lemmas [quiets] = access_check_quiet [THEN quiet_wp] percall_destroy_quiet [THEN quiet_wp]
  percall_create_quiet [THEN quiet_wp]

lemma do_check_quiet: "quiet (wsubus_call_do_check_then_do_call E a s) snd s"
  unfolding quiet_def wsubus_call_do_check_then_do_call_def wsubus_access_check__call_def
  by (auto simp: Let_def intro!: quiets)

lemma handle_call_quiet: "quiet (ubusrpc_handle_call E w args rid s) snd s"
  unfolding quiet_def ubusrpc_handle_call_def handle_call_ubus_def
  by (auto intro!: quiets do_check_quiet [THEN quiet_wp])

lemma unsub_elem_quiet: "quiet (wsubus_unsub_elem a s) (\<lambda>t. t) s"
  by (auto simp: quiet_def wsubus_unsub_elem_def)

lemma unsub_loop_quiet: "quiet (unsub_loop w pat as ret s) snd s"
proof (induction as arbitrary: ret s w pat)
  case (Cons a as)
  show ?case
    unfolding quiet_def
    by (auto intro!: quiets unsub_elem_quiet [THEN quiet_wp] Cons.IH [THEN quiet_wp])
qed (simp add: quiet_def)

lemma handle_sub_quiet: "quiet (ubusrpc_handle_sub E w sid pat rid s) snd s"
  unfolding quiet_def ubusrpc_handle_sub_def by (auto simp: Let_def intro!: quiets)

lemma handle_sub_list_quiet: "quiet (ubusrpc_handle_sub_list E w rid s) snd s"
  unfolding quiet_def ubusrpc_handle_sub_list_def by (auto intro!: quiets)

lemma handle_unsub_quiet: "quiet (ubusrpc_handle_unsub E w pat rid s) snd s"
  unfolding quiet_def ubusrpc_handle_unsub_def
  by (auto simp: Let_def intro!: quiets unsub_loop_quiet [THEN quiet_wp])

lemma handle_list_quiet: "quiet (ubusrpc_handle_list E w pat rid s) snd s"
  unfolding quiet_def ubusrpc_handle_list_def handle_list_ubus_def by (auto intro!: quiets)

lemmas [quiets] = handle_call_quiet [THEN quiet_wp] handle_sub_quiet [THEN quiet_wp]
  handle_sub_list_quiet [THEN quiet_wp] handle_unsub_quiet [THEN quiet_wp]
  handle_list_quiet [THEN quiet_wp] unsub_elem_quiet [THEN quiet_wp]

lemma dispatch_quiet: "quiet (rpc_dispatch E w req rid s) snd s"
  unfolding quiet_def rpc_dispatch_def
  by (auto intro!: quiets split: rpc_handler.splits ubusrpc_args.splits)

lemma validation_wp: "(\<And>b. Q b) \<Longrightarrow> wp (validate_json_call_string E str) Q"
  by (simp add: wp_def)

lemma on_msg_quiet: "quiet (wsu_on_msg_from_client E w blob s) (\<lambda>t. t) s"
  unfolding quiet_def wsu_on_msg_from_client_def
  by (auto simp: Let_def intro!: quiets validation_wp dispatch_quiet [THEN quiet_wp])

lemma rx_quiet: "quiet (wsubus_rx E w binary frame rest final s) (\<lambda>t. t) s"
  unfolding quiet_def wsubus_rx_def wsubus_rx_json_def wsubus_rx_blob_def wsu_read_reset_def
  by (auto simp: Let_def split: json.splits intro!: quiets on_msg_quiet [THEN quiet_wp])

lemma init_quiet: "ucalls (snd (wsu_peer_init E w role s)) = ucalls s"
  by (simp add: wsu_peer_init_def Let_def split: role.splits)

lemma clean_stale_loop_quiet: "quiet (clean_stale_loop E w q s) (\<lambda>t. t) s"
proof (induction q arbitrary: s)
  case (Cons r q)
  show ?case unfolding quiet_def by (cases r) (auto intro!: quiets Cons.IH [THEN quiet_wp])
qed (simp add: quiet_def)

lemma clean_stale_quiet: "quiet (wsubus_percall_clean_stale E w s) (\<lambda>t. t) s"
  unfolding quiet_def wsubus_percall_clean_stale_def
  by (auto intro!: quiets clean_stale_loop_quiet [THEN quiet_wp])

lemma ev_destroy_quiet: "quiet (wsubus_ev_destroy_ctx a s) (\<lambda>t. t) s"
  by (auto simp: quiet_def wsubus_ev_destroy_ctx_def)

lemmas [quiets] = ev_destroy_quiet [THEN quiet_wp]

lemma cancel_checks_quiet: "quiet (cancel_checks w ps s) (\<lambda>t. t) s"
proof (induction ps arbitrary: s)
  case (Cons p ps)
  show ?case
    unfolding quiet_def
    by (cases p) (auto simp: wsubus_ev_check__destroy_def intro!: quiets Cons.IH [THEN quiet_wp])
qed (simp add: quiet_def)

lemma cancel_calls_quiet: "quiet (cancel_calls w rs s) (\<lambda>t. t) s"
proof (induction rs arbitrary: s)
  case (Cons r rs)
  show ?case
    unfolding quiet_def
    by (cases r) (auto simp: cancel_and_destroy_def intro!: quiets Cons.IH [THEN quiet_wp])
qed (simp add: quiet_def)

lemma deinit_quiet: "quiet (wsu_peer_deinit w s) (\<lambda>t. t) s"
  unfolding quiet_def wsu_peer_deinit_def
  by (auto simp: Let_def split: wsu_role.splits
      intro!: cancel_checks_quiet [THEN quiet_wp] cancel_calls_quiet [THEN quiet_wp])

lemma tx_quiet: "quiet (wsubus_tx_text E w s) (\<lambda>x. snd (snd x)) s"
  unfolding quiet_def wsubus_tx_text_def by (auto simp: Let_def)

lemma lws_quiet: "quiet (wsubus_cb E w reason s) snd s"
proof (cases reason)
  case LWS_CALLBACK_ESTABLISHED
  then show ?thesis
    using init_quiet [of E w WSUBUS_ROLE_CLIENT s] by (auto simp: quiet_def wsubus_cb_def)
qed (auto simp: quiet_def wsubus_cb_def split: prod.splits
    intro!: rx_quiet [THEN quiet_wp] deinit_quiet [THEN quiet_wp] tx_quiet [THEN quiet_wp])

lemma sub_cb_quiet: "quiet (wsubus_sub_cb E a type msg s) (\<lambda>t. t) s"
  unfolding quiet_def wsubus_sub_cb_def wsubus_access_check__event_def
  by (auto simp: Let_def intro!: quiets access_check_quiet [THEN quiet_wp])

lemma ev_check_cb_quiet: "quiet (wsubus_ev_check_cb E req a access s) (\<lambda>t. t) s"
  unfolding quiet_def wsubus_ev_check_cb_def by (auto intro!: quiets)

lemma call_data_quiet: "quiet (wsubus_call_on_retdata a msg s) (\<lambda>t. t) s"
  unfolding quiet_def wsubus_call_on_retdata_def by auto

lemma call_done_quiet: "quiet (wsubus_call_on_completed E a status s) (\<lambda>t. t) s"
  unfolding quiet_def wsubus_call_on_completed_def by (auto simp: Let_def intro!: quiets)

lemma check_data_quiet: "quiet (wsubus_access_check__on_ret b msg s) (\<lambda>t. t) s"
  unfolding quiet_def wsubus_access_check__on_ret_def by (auto simp: Let_def)


section \<open>The steps that invoke a method\<close>

lemma do_call_log:
  "wp (wsubus_call_do_call E a s) (\<lambda>(rc, t).
     if rc \<noteq> 0 then ucalls t = ucalls s
     else \<exists>k obj args. call_heap s a = Some k \<and> ubus_lookup_id E (uc_object (pc_args k)) = (0, obj) \<and>
       owsd_listen E (pc_wsi k) (pc_args k) = Some args \<and>
       ucalls t = ucalls s @ [(UCall a, obj, uc_method args, uc_params args)])"
  unfolding wsubus_call_do_call_def
  by (auto simp: Let_def ucalls_def UBUS_STATUS_UNKNOWN_ERROR_def)

lemma acq_del_keeps:
  assumes "\<And>t. ucalls t = ucalls s \<Longrightarrow> call_heap t = call_heap s \<Longrightarrow> Q t"
  shows "wp (acq_del w own s) Q"
  using assms by (auto simp: wp_def acq_del_def upd_client_def split: option.splits if_splits wsu_role.splits)

definition call_logged :: "env \<Rightarrow> server \<Rightarrow> addr \<Rightarrow> addr \<Rightarrow> server \<Rightarrow> bool" where
  "call_logged E s b a t \<longleftrightarrow>
     (\<exists>k obj args. call_heap s a = Some k \<and> pc_check k = Some b \<and>
        ubus_lookup_id E (uc_object (pc_args k)) = (0, obj) \<and>
        owsd_listen E (pc_wsi k) (pc_args k) = Some args \<and>
        ucalls t = ucalls s @ [(UCall a, obj, uc_method args, uc_params args)])"

lemma access_on_completed_log:
  "wp (wsubus_access_on_completed E b a allow s) (\<lambda>t. ucalls t = ucalls s \<or> allow \<and> call_logged E s b a t)"
proof -
  have "wp (wsubus_call_do_call E a t) (\<lambda>(rc, u). if rc \<noteq> 0 then ucalls u = ucalls s else call_logged E s b a u)"
    if "ucalls t = ucalls s" "call_heap s a = Some k" "pc_check k = Some b"
      "call_heap t a = Some (k\<lparr>pc_check := None\<rparr>)" for t k
    using that by (intro wp_mono [OF do_call_log]) (auto simp: call_logged_def split: if_splits)
  note do_call = wp_mono [OF this]
  show ?thesis
    unfolding wsubus_access_on_completed_def
    by (auto simp: Let_def UBUS_STATUS_PERMISSION_DENIED_def intro!: acq_del_keeps do_call
        check_free_quiet [THEN quiet_wp] queue_write_quiet [THEN quiet_wp]
        queue_quiet(2) [THEN quiet_wp] percall_destroy_quiet [THEN quiet_wp])
qed

lemma run_access_cb_log:
  assumes "run_access_cb E b (own, allow) s = Some t"
  shows "ucalls t = ucalls s \<or> allow \<and> (\<exists>a. own = OCall a \<and> call_logged E s b a t)"
proof (cases own)
  case (OCall a)
  then show ?thesis
    using assms wpD [OF access_on_completed_log] by (fastforce simp: run_access_cb_def)
next
  case (OEv a)
  then show ?thesis
    using assms wpD [OF ev_check_cb_quiet [unfolded quiet_def]] by (fastforce simp: run_access_cb_def)
qed

lemma call_logged_pending [simp]:
  "call_logged E (s\<lparr>ubus_reqs := q\<rparr>) b a t = call_logged E s b a t"
  "call_logged E (s\<lparr>timers := ts\<rparr>) b a t = call_logged E s b a t"
  by (simp_all add: call_logged_def)

lemma step_calls:
  assumes "step E ev s = Some s'"
  shows "ucalls s' = ucalls s \<or>
     (\<exists>a b r. chk_heap s b = Some r \<and> ck_owner r = OCall a \<and> ck_result r \<and>
        (ev = CheckDone b 0 \<or> ev = Deferred b \<and> ck_tag r = REQ_TAG_DEFER) \<and> call_logged E s b a s')"
proof (cases ev)
  case (Lws w reason)
  then show ?thesis
    using assms lws_quiet [of E w reason s]
    by (auto simp: step_def quiet_def wp_def forget_peer_def)
next
  case (CheckData b msg)
  then show ?thesis
    using assms check_data_quiet [of b msg s] by (simp add: step_def quiet_def wp_def)
next
  case (CheckDone b status)
  then show ?thesis
    using assms run_access_cb_log [of E b]
    by (fastforce simp: step_def Let_def bind_conv wsubus_access_check__cb_def)
next
  case (Deferred b)
  then show ?thesis
    using assms run_access_cb_log [of E b]
    by (fastforce simp: step_def Let_def bind_conv deferral_cb_def split: option.splits if_splits)
next
  case (CallData a msg)
  then show ?thesis
    using assms call_data_quiet [of a msg s] by (simp add: step_def quiet_def wp_def)
next
  case (CallDone a status)
  then show ?thesis
    using assms call_done_quiet [of E a status "s\<lparr>ubus_reqs := ubus_reqs s - {UCall a}\<rparr>"]
    by (simp add: step_def quiet_def wp_def)
next
  case (UbusEvent a type msg)
  then show ?thesis
    using assms sub_cb_quiet [of E a type msg s] by (simp add: step_def quiet_def wp_def)
next
  case (Cleaner w)
  then have "wp (step E ev s) (\<lambda>t. ucalls t = ucalls s)"
    unfolding step_def by (auto intro!: quiets clean_stale_quiet [THEN quiet_wp])
  then show ?thesis using assms by (simp add: wp_def)
qed

end
