(* ===== verification/Demo.thy ===== *)
theory Demo
  imports Calls_Checked
begin

text \<open>
  A concrete instance of the library parameters, on which the hypotheses of the development
  hold: a linear-search policy parser, a formatter, and an environment in which every call
  succeeds. The witnesses evaluate the model on it.
\<close>

definition demo_parse :: "(string \<times> blobmsg_type) list \<Rightarrow> blob_attr list \<Rightarrow> blob_attr option list" where
  "demo_parse pol xs = map (\<lambda>(n, t). List.find (\<lambda>(m, v). m = n \<and> fits t v) xs) pol"

definition demo_parse_array :: "blobmsg_type list \<Rightarrow> blob_attr list \<Rightarrow> blob_attr option list" where
  "demo_parse_array pol xs =
     map (\<lambda>i. if i < length xs \<and> fits (pol ! i) (snd (xs ! i)) then Some (xs ! i) else None) [0..<length pol]"

fun demo_string :: "blob \<Rightarrow> string" where
  "demo_string (BString s) = s"
| "demo_string _ = []"

fun demo_attrs :: "blob \<Rightarrow> blob_attr list" where
  "demo_attrs (BTable xs) = xs"
| "demo_attrs (BArray xs) = xs"
| "demo_attrs _ = []"

definition demo_lib :: libubox where
  "demo_lib = \<lparr>blobmsg_parse = demo_parse, blobmsg_parse_array = demo_parse_array,
     blobmsg_get_string = demo_string, blobmsg_attrs = demo_attrs,
     blobmsg_format_json = (\<lambda>xs. Some (take 1000 (concat (map fst xs))))\<rparr>"

lemma demo_find:
  "List.find (\<lambda>(m, v). m = n \<and> fits t v) xs = Some (k, v) \<Longrightarrow> (k, v) \<in> set xs \<and> k = n \<and> fits t v"
  by (induction xs) (auto split: if_splits)

lemma demo_parse_slot:
  assumes "i < length pol" "demo_parse pol xs ! i = Some (k, v)"
  shows "(k, v) \<in> set xs \<and> k = fst (pol ! i) \<and> fits (snd (pol ! i)) v"
  by (rule demo_find) (use assms in \<open>simp add: demo_parse_def case_prod_beta\<close>)

lemma demo_parse_array_slot:
  assumes "i < length pol" "demo_parse_array pol xs ! i = Some (k, v)"
  shows "(k, v) \<in> set xs \<and> fits (pol ! i) v"
  using assms by (simp add: demo_parse_array_def split: if_splits) (metis nth_mem)

lemma demo_lib_ok: "libubox_ok demo_lib"
proof -
  have "length (demo_parse pol xs) = length pol" "length (demo_parse_array ty xs) = length ty" for pol ty xs
    by (simp_all add: demo_parse_def demo_parse_array_def)
  then show ?thesis
    unfolding libubox_ok_def demo_lib_def libubox.simps
    using demo_parse_slot demo_parse_array_slot by simp
qed

lemma demo_format [simp]:
  "blobmsg_format_json demo_lib xs = Some (take 1000 (concat (map fst xs)))"
  by (simp add: demo_lib_def)

definition demo_vh :: vh_context where
  "demo_vh = \<lparr>vh_origins = [''http://router''], vh_users = [''admin''], vh_name = ''lan'',
     restrict_origins = True\<rparr>"

definition demo_call :: "blob_attr list" where
  "demo_call =
     [(''jsonrpc'', BString ''2.0''), (''id'', BInt32 1), (''method'', BString ''call''),
      (''params'', BArray [([], BString ''abc''), ([], BString ''uci''), ([], BString ''get''),
         ([], BTable [(''config'', BString ''network'')])])]"

definition demo_env :: env where
  "demo_env =
     \<lparr>lib = demo_lib, alloc = (\<lambda>_. True), json_validation = False,
      schema_validator_validate_jobj = (\<lambda>_ _ _ _. True),
      blacklist_old = True, ubus_lookup_id = (\<lambda>_. (0, 7)), ubus_invoke_async = (\<lambda>_ _ _. 0),
      ubus_register_event_handler = (\<lambda>_. 0),
      ubus_lookup = (\<lambda>_. (0, [(''uci'', Some [(''get'', BTable [(''config'', BInt32 3)])])])),
      uloop_timeout_set = (\<lambda>_. 0), lws_callback_on_writable = (\<lambda>_. 0),
      vhost = (\<lambda>_. Some demo_vh), lws_is_ssl = (\<lambda>_. False),
      lws_tls_peer_cert_info = (\<lambda>_. (0, True)), lws_write = (\<lambda>_ len. (int len, False)),
      fnmatch_casefold = (\<lambda>p s. p = s),
      json_tokener_parse_ex = (\<lambda>_ new. (Some (JObject []), True, int (length new))),
      blobmsg_add_object = (\<lambda>_. demo_call), json_tokener_parse = (\<lambda>_. None),
      json_object_get_string = (\<lambda>_. []), monotonic = (100, 0)\<rparr>"

lemma demo_env_ok: "env_ok demo_env"
proof -
  have "length (take 1000 (x :: string)) < WSUBUS_MAX_MESSAGE_LEN" for x
    by (rule le_less_trans [of _ 1000]) (simp_all add: WSUBUS_MAX_MESSAGE_LEN_def)
  then show ?thesis
    by (auto simp: env_ok_def allocs_ok_def formats_ok_def lookups_ok_def prints_back_ok_def demo_env_def
        demo_lib_ok)
      (auto simp: demo_lib_def)
qed

lemma demo_write_ok: "write_ok (lws_write demo_env)"
  by (auto simp: write_ok_def demo_env_def)

text \<open>The same surroundings eleven seconds later.\<close>

definition demo_late :: env where
  "demo_late = demo_env\<lparr>monotonic := (111, 0)\<rparr>"

section \<open>The life of one call\<close>

text \<open>
  A client connects, sends the request above, the session object grants it, the method is
  invoked, answers and completes, and the response waits in the write queue.
\<close>

lemmas demo_ops =
  step_def wsubus_cb_def wsu_peer_init_def fresh_peer_def wsubus_rx_def wsubus_rx_json_def
  wsu_on_msg_from_client_def wsu_read_reset_def wsi_to_peer_def wsi_to_client_def client_of_def
  set_peer_def upd_client_def wsu_sid_update_def strncat_empty_def rpc_dispatch_def
  ubusrpc_handle_call_def handle_call_ubus_def wsubus_percall_ctx_create_def
  wsubus_percall_ctx_destroy_def wsubus_call_do_check_then_do_call_def wsubus_access_check_new_def
  wsubus_access_check__call_def wsubus_access_check_def wsu_sid_extended_def strstr_at_start_def
  wsu_ext_restrict_interface_def wsubus_access_check_via_session_def session_question_def
  rpc_q_add_def rpc_q_del_def acq_add_def acq_del_def rpc_q_len_inc_def rpc_q_len_dec_def
  wsubus_access_check__on_ret_def wsubus_access_check__cb_def wsubus_access_check_free_def
  run_access_cb_def wsubus_access_on_completed_def wsubus_call_do_call_def owsd_listen_def
  wsubus_call_on_retdata_def wsubus_call_on_completed_def call_response_def queue_write_def
  wsu_queue_write_str_def WSUBUS_MAX_MESSAGE_LEN_def Let_def

lemma demo_env_simps [simp]:
  "lib demo_env = demo_lib" "alloc demo_env x = True" "json_validation demo_env = False"
  "blacklist_old demo_env = True" "ubus_lookup_id demo_env obj = (0, 7)"
  "ubus_invoke_async demo_env i m xs = 0" "lws_callback_on_writable demo_env w = 0"
  "uloop_timeout_set demo_env ms = 0" "vhost demo_env w = Some demo_vh" "lws_is_ssl demo_env w = False"
  "json_tokener_parse_ex demo_env old new = (Some (JObject []), True, int (length new))"
  "blobmsg_add_object demo_env j = demo_call" "monotonic demo_env = (100, 0)"
  by (simp_all add: demo_env_def)

definition demo_args :: ubusrpc_blob_call where
  "demo_args = \<lparr>uc_sid = ''abc'', uc_object = ''uci'', uc_method = ''get'',
     uc_params = [(''config'', BString ''network'')]\<rparr>"

lemma demo_parse_call:
  "jsonrpc_blob_req_parse demo_lib demo_call =
     (0, \<lparr>jr_id = Some (''id'', BInt32 1), jr_version = Some ''2.0'', jr_method = Some ''call'',
          jr_params = Some (demo_call ! 3)\<rparr>)"
  "ubusrpc_blob_parse demo_lib True (alloc demo_env) ''call'' (demo_call ! 3) =
     (JSONRPC_ERRORCODE__OK,
      Some \<lparr>ur_sid = Some ''abc'', ur_args = CallArgs demo_args, ur_handler = Ubusrpc_handle_call\<rparr>)"
  by code_simp+

lemma demo_sid [simp]: "''abc'' \<noteq> UBUS_DEFAULT_SID"
  by (simp add: UBUS_DEFAULT_SID_def numeral_eq_Suc)

definition demo_client :: wsu_client_session where
  "demo_client =
     \<lparr>cs_id = 1, rpc_q_len = 0, percall_cleaner = True, rpc_call_q = [], access_check_q = []\<rparr>"

definition demo_peer :: "string \<Rightarrow> wsu_client_session \<Rightarrow> wsu_writereq list \<Rightarrow> wsu_peer" where
  "demo_peer sid c q =
     \<lparr>peer_ready = True, curr_msg_text = [], curr_msg_len = 0, write_q = q, peer_sid = sid,
      peer_u = UClient c\<rparr>"

definition demo_connected :: server where
  "demo_connected =
     (init_server 1024 [])\<lparr>num_active_ses := 1, req_max := 512, clientid := 2,
        peers := [1 \<mapsto> demo_peer [] demo_client []]\<rparr>"

definition demo_session_args :: ubusrpc_blob_call where
  "demo_session_args =
     demo_args\<lparr>uc_params := [(''config'', BString ''network''), (''ubus_rpc_session'', BString ''abc'')]\<rparr>"

definition demo_ctx :: wsubus_percall_ctx where
  "demo_ctx =
     \<lparr>pc_wsi = 1, pc_id = Some (''id'', BInt32 1), pc_retbuf = [], pc_args = demo_session_args,
      pc_invoke = False, pc_check = Some 1, pc_start = (100, 0)\<rparr>"

definition demo_called :: server where
  "demo_called =
     demo_connected\<lparr>
       peers := [1 \<mapsto> demo_peer ''abc'' (demo_client\<lparr>rpc_q_len := 1, rpc_call_q := [RCall 0],
                       access_check_q := [OCall 0]\<rparr>) []],
       call_heap := [0 \<mapsto> demo_ctx],
       chk_heap := [1 \<mapsto> \<lparr>ck_result = False, ck_owner = OCall 0, ck_tag = REQ_TAG_UBUS\<rparr>],
       next_addr := 2, ubus_reqs := {UChk 1},
       invoked := [(UChk 1, 7, ''access'', session_question ''abc'' None ''uci'' ''get''
                     (Some (uc_params demo_session_args)))]\<rparr>"

definition demo_granted :: server where
  "demo_granted =
     demo_called\<lparr>chk_heap := [1 \<mapsto> \<lparr>ck_result = True, ck_owner = OCall 0, ck_tag = REQ_TAG_UBUS\<rparr>]\<rparr>"

definition demo_invoked :: server where
  "demo_invoked =
     demo_granted\<lparr>
       peers := [1 \<mapsto> demo_peer ''abc'' (demo_client\<lparr>rpc_q_len := 1, rpc_call_q := [RCall 0]\<rparr>) []],
       call_heap := [0 \<mapsto> demo_ctx\<lparr>pc_check := None, pc_invoke := True\<rparr>], chk_heap := Map.empty,
       ubus_reqs := {UCall 0},
       invoked := invoked demo_granted @ [(UCall 0, 7, ''get'', uc_params demo_session_args)]\<rparr>"

definition demo_done :: server where
  "demo_done =
     demo_invoked\<lparr>
       peers := [1 \<mapsto> demo_peer ''abc'' demo_client [\<lparr>wr_buf = ''jsonrpcidresult'', wr_written = 0\<rparr>]],
       call_heap := Map.empty, ubus_reqs := {}\<rparr>"

definition demo_frame :: event where
  "demo_frame = Lws 1 (LWS_CALLBACK_RECEIVE False ''...'' 0 True)"

lemmas demo_states = demo_connected_def demo_called_def demo_granted_def demo_invoked_def demo_done_def
  demo_peer_def demo_client_def demo_ctx_def demo_session_args_def demo_args_def init_server_def

lemma demo_connect_step:
  "step demo_env (Lws 1 LWS_CALLBACK_ESTABLISHED) (init_server 1024 []) = Some demo_connected"
proof -
  have "recalc_req_max 1024 1 = 512" by (simp add: recalc_req_max_def MAX_ASYNC_REQS_def)
  then show ?thesis by (simp add: demo_ops demo_states)
qed

lemma demo_call_step: "step demo_env demo_frame demo_connected = Some demo_called"
  by (simp add: demo_ops demo_states demo_frame_def demo_parse_call [unfolded demo_args_def])

lemma demo_grant_step: "step demo_env (CheckData 1 [(''access'', BInt8 1)]) demo_called = Some demo_granted"
  by (simp add: demo_ops demo_states)

lemma demo_invoke_step: "step demo_env (CheckDone 1 0) demo_granted = Some demo_invoked"
  by (simp add: demo_ops demo_states)

lemma demo_done_step: "step demo_env (CallDone 0 0) demo_invoked = Some demo_done"
  by (simp add: demo_ops demo_states jsonrpc__resp_ubus_def resp_ubus_attrs_def resp_head_def)

lemma demo_frame_ok: "enabled demo_connected demo_frame" "safe demo_env demo_connected demo_frame"
proof -
  show "enabled demo_connected demo_frame"
    by (simp add: demo_states demo_frame_def enabled_def wsi_to_client_def wsi_to_peer_def client_of_def)
  have "request_of demo_env demo_call = Some (Some (''id'', BInt32 1),
      \<lparr>ur_sid = Some ''abc'', ur_args = CallArgs demo_args, ur_handler = Ubusrpc_handle_call\<rparr>)"
    by (simp add: request_of_def demo_parse_call)
  then show "safe demo_env demo_connected demo_frame"
    by (simp add: demo_states demo_frame_def safe_def safe_frame_def safe_request_def safe_call_def)
qed

lemma demo_reachable:
  "reachable (init_server 1024 []) demo_connected" "reachable (init_server 1024 []) demo_called"
  "reachable (init_server 1024 []) demo_granted" "reachable (init_server 1024 []) demo_invoked"
proof -
  show c: "reachable (init_server 1024 []) demo_connected"
    by (rule stepped [OF start demo_env_ok demo_write_ok _ _ demo_connect_step])
      (simp_all add: enabled_def safe_def init_server_def)
  show d: "reachable (init_server 1024 []) demo_called"
    by (rule stepped [OF c demo_env_ok demo_write_ok demo_frame_ok demo_call_step])
  show g: "reachable (init_server 1024 []) demo_granted"
    by (rule stepped [OF d demo_env_ok demo_write_ok _ _ demo_grant_step])
      (simp_all add: enabled_def safe_def demo_called_def)
  show "reachable (init_server 1024 []) demo_invoked"
    by (rule stepped [OF g demo_env_ok demo_write_ok _ _ demo_invoke_step])
      (simp_all add: enabled_def safe_def demo_granted_def demo_called_def)
qed

section \<open>The life of a subscription\<close>

text \<open>The client subscribes, an event fires and is being checked.\<close>

definition demo_sub_request :: "string \<Rightarrow> blob_attr list" where
  "demo_sub_request m =
     [(''jsonrpc'', BString ''2.0''), (''id'', BInt32 2), (''method'', BString m),
      (''params'', BArray [([], BString ''abc''), ([], BString ''foo'')])]"

definition demo_sends :: "blob_attr list \<Rightarrow> env" where
  "demo_sends blob = demo_env\<lparr>blobmsg_add_object := (\<lambda>_. blob)\<rparr>"

lemma demo_sends_ok: "env_ok (demo_sends blob)" "write_ok (lws_write (demo_sends blob))"
  using demo_env_ok demo_write_ok
  by (simp_all add: demo_sends_def env_ok_def allocs_ok_def formats_ok_def lookups_ok_def
      prints_back_ok_def demo_env_def)

lemma demo_sends_simps [simp]:
  "lib (demo_sends b) = demo_lib" "alloc (demo_sends b) = (\<lambda>_. True)" "json_validation (demo_sends b) = False"
  "blacklist_old (demo_sends b) = True" "ubus_register_event_handler (demo_sends b) pat = 0"
  "lws_callback_on_writable (demo_sends b) w = 0" "blobmsg_add_object (demo_sends b) j = b"
  "json_tokener_parse_ex (demo_sends b) old new = (Some (JObject []), True, int (length new))"
  by (simp_all add: demo_sends_def demo_env_def)

lemma demo_parse_sub:
  "jsonrpc_blob_req_parse demo_lib (demo_sub_request ''subscribe'') =
     (0, \<lparr>jr_id = Some (''id'', BInt32 2), jr_version = Some ''2.0'', jr_method = Some ''subscribe'',
          jr_params = Some (demo_sub_request [] ! 3)\<rparr>)"
  "ubusrpc_blob_parse demo_lib True (\<lambda>_. True) ''subscribe'' (demo_sub_request [] ! 3) =
     (JSONRPC_ERRORCODE__OK,
      Some \<lparr>ur_sid = Some ''abc'', ur_args = SubArgs ''foo'', ur_handler = Ubusrpc_handle_sub\<rparr>)"
  "jsonrpc_blob_req_parse demo_lib (demo_sub_request ''unsubscribe'') =
     (0, \<lparr>jr_id = Some (''id'', BInt32 2), jr_version = Some ''2.0'', jr_method = Some ''unsubscribe'',
          jr_params = Some (demo_sub_request [] ! 3)\<rparr>)"
  "ubusrpc_blob_parse demo_lib True (\<lambda>_. True) ''unsubscribe'' (demo_sub_request [] ! 3) =
     (JSONRPC_ERRORCODE__OK,
      Some \<lparr>ur_sid = Some ''abc'', ur_args = SubArgs ''foo'', ur_handler = Ubusrpc_handle_unsub\<rparr>)"
  by code_simp+

definition demo_resp :: wsu_writereq where
  "demo_resp = \<lparr>wr_buf = ''jsonrpcidresult'', wr_written = 0\<rparr>"

definition demo_sub :: ws_sub_info_ubus where
  "demo_sub = \<lparr>si_wsi = 1, si_sid = ''abc'', si_pattern = ''foo''\<rparr>"

definition demo_subscribed :: server where
  "demo_subscribed =
     demo_connected\<lparr>
       peers := [1 \<mapsto> demo_peer ''abc'' (demo_client\<lparr>rpc_call_q := [RSub 0]\<rparr>) [demo_resp]],
       sub_heap := [0 \<mapsto> demo_sub], ev_handlers := {0}, listen_list := [0], next_addr := 1\<rparr>"

definition demo_notified :: server where
  "demo_notified =
     demo_subscribed\<lparr>
       peers := [1 \<mapsto> demo_peer ''abc'' (demo_client\<lparr>rpc_call_q := [RSub 0], access_check_q := [OEv 1]\<rparr>)
                       [demo_resp]],
       ev_heap := [1 \<mapsto> \<lparr>ev_type = ''foo'', ev_msg = Some [], ev_info = 0, ev_check = Some 2, ev_wsi = 1\<rparr>],
       chk_heap := [2 \<mapsto> \<lparr>ck_result = False, ck_owner = OEv 1, ck_tag = REQ_TAG_UBUS\<rparr>],
       next_addr := 3, ubus_reqs := {UChk 2},
       invoked := [(UChk 2, 7, ''access'', session_question ''abc'' (Some ''owsd'') ''foo'' ''read'' None)]\<rparr>"

lemmas demo_sub_states = demo_subscribed_def demo_notified_def demo_sub_def demo_resp_def

lemmas demo_sub_ops = ubusrpc_handle_sub_def ubusrpc_handle_unsub_def wsubus_unsub_elem_def
  wsubus_sub_cb_def wsubus_access_check__event_def wsubus_ev_check_cb_def jsonrpc__resp_ubus_def
  resp_ubus_attrs_def resp_head_def

lemma demo_subscribe_step:
  "step (demo_sends (demo_sub_request ''subscribe'')) demo_frame demo_connected = Some demo_subscribed"
  by (simp add: demo_ops demo_states demo_sub_states demo_frame_def demo_parse_sub
      demo_sub_ops)

lemma demo_notify_step: "step demo_env (UbusEvent 0 ''foo'' []) demo_subscribed = Some demo_notified"
  by (simp add: demo_ops demo_states demo_sub_states demo_sub_ops numeral_2_eq_2)

lemma demo_sub_reachable:
  "reachable (init_server 1024 []) demo_subscribed" "reachable (init_server 1024 []) demo_notified"
proof -
  have "request_of (demo_sends (demo_sub_request ''subscribe'')) (demo_sub_request ''subscribe'') =
      Some (Some (''id'', BInt32 2),
        \<lparr>ur_sid = Some ''abc'', ur_args = SubArgs ''foo'', ur_handler = Ubusrpc_handle_sub\<rparr>)"
    by (simp add: request_of_def demo_parse_sub)
  then have "safe (demo_sends (demo_sub_request ''subscribe'')) demo_connected demo_frame"
    by (simp add: demo_states demo_frame_def safe_def safe_frame_def safe_request_def)
  then show s: "reachable (init_server 1024 []) demo_subscribed"
    by (rule stepped [OF demo_reachable(1) demo_sends_ok demo_frame_ok(1) _ demo_subscribe_step])
  show "reachable (init_server 1024 []) demo_notified"
    by (rule stepped [OF s demo_env_ok demo_write_ok _ _ demo_notify_step])
      (simp_all add: enabled_def safe_def safe_event_def demo_subscribed_def demo_sub_def)
qed

end
