(* ===== verification/Rpc_Properties.thy ===== *)
theory Rpc_Properties
  imports Demo
begin

text \<open>
  The properties of the components of the server one by one: the writer and the limits, parsing,
  access checks, subscriptions, the teardown of a connection, the round trip of a request, and
  the situations in which the code goes wrong. Witnesses run on the instance of \<open>Demo\<close>.
\<close>

section \<open>The writer and the request limit\<close>

text \<open>
  C26. The writer drains the queue in order: it always ends, hands the socket exactly the next
  bytes of the queued responses (what was unsent is what is handed over followed by what stays
  unsent), and returns 0 with an empty queue when the socket takes everything.
\<close>

theorem tx_queue_fifo:
  assumes "write_ok out" "buffers_ok q"
  shows "\<exists>rc q' sent. tx_queue out n q = Some (rc, q', sent) \<and> unsent q = sent @ unsent q' \<and>
     buffers_ok q' \<and> (rc = 0 \<or> rc = -1) \<and> (rc = 0 \<and> (\<forall>m l. \<not> snd (out m l)) \<longrightarrow> q' = [])"
proof -
  obtain rc q' sent where "tx_queue out n q = Some (rc, q', sent)" "unsent q = sent @ unsent q'"
    "buffers_ok q'" "rc = 0 \<or> rc = -1" "rc = 0 \<longrightarrow> (\<forall>m l. \<not> snd (out m l)) \<longrightarrow> q' = []"
    by (rule exE [OF tx_queue_result [OF assms, of n]]) (elim exE conjE, rule that)
  then show ?thesis by (intro exI conjI) auto
qed

theorem tx_queue_fifo_witness:
  "\<exists>q' sent. tx_queue (\<lambda>_ len. (int (min len 2), False)) 0 [\<lparr>wr_buf = ''abcde'', wr_written = 1\<rparr>] =
     Some (0, q', sent) \<and> ''bcde'' = sent @ unsent q' \<and> q' = []"
proof -
  have w: "write_ok (\<lambda>_ len. (int (min len 2), False))"
    "buffers_ok [\<lparr>wr_buf = ''abcde'', wr_written = 1\<rparr>]"
    by (auto simp: write_ok_def buffers_ok_def)
  have "tx_queue (\<lambda>_ len. (int (min len 2), False)) 0 [\<lparr>wr_buf = ''abcde'', wr_written = 1\<rparr>] =
      Some (0, [], ''bcde'')"
    by (simp add: write_loop.simps chunk_def)
  then show ?thesis using tx_queue_fifo [OF w, of 0] by (auto simp: unsent_def)
qed

text \<open>
  C30. The limit on requests per client: 512, or the client's share of the total when that is
  less, so that the shares of all clients together stay within the total.
\<close>

theorem recalc_req_max_share:
  assumes "0 \<le> tot" "tot < 2 ^ 63"
  shows "recalc_req_max tot n = (if n = 0 then 512 else min 512 (tot div uint n)) \<and>
     (n \<noteq> 0 \<longrightarrow> uint n * recalc_req_max tot n \<le> tot)"
proof -
  have u: "uint (word_of_int tot :: u64) = tot"
    using assms by (simp add: uint_word_of_int take_bit_int_eq_self)
  have d: "uint ((word_of_int tot :: u64) div n) = tot div uint n"
    by (simp add: uint_div u)
  have less: "(word_of_int tot :: u64) div n < 512 \<longleftrightarrow> tot div uint n < 512"
    by (simp add: word_less_def d)
  have "uint n * (tot div uint n) \<le> tot"
    using assms(1) by (metis mult.commute div_mult_mod_eq le_add_same_cancel1 pos_mod_sign uint_nonnegative
        mod_by_0 order_le_less)
  moreover have "uint n * min 512 (tot div uint n) \<le> uint n * (tot div uint n)"
    by (intro mult_left_mono) simp_all
  ultimately show ?thesis
    by (auto simp: recalc_req_max_def MAX_ASYNC_REQS_def less d min_def)
qed

theorem recalc_req_max_share_witness: "recalc_req_max 1024 3 = 341 \<and> uint (3 :: u64) * recalc_req_max 1024 3 \<le> 1024"
  using recalc_req_max_share [of 1024 3] by simp

text \<open>
  The age of a call: for two times with their nanoseconds in range, the loops that carry
  between nanoseconds and seconds compute the whole seconds of the difference, rounded down.
\<close>

theorem passed_seconds_floor:
  assumes "0 \<le> ns" "ns < 1000000000" "0 \<le> ns'" "ns' < 1000000000"
  shows "passed_seconds (t, ns) (t', ns') = ((t * 1000000000 + ns) - (t' * 1000000000 + ns')) div 1000000000"
proof (cases "ns < ns'")
  case True
  then have "carry_down (t - t') (ns - ns') = (t - t' - 1, ns - ns' + 1000000000)"
    using assms by (subst carry_down.simps, simp) (subst carry_down.simps, simp)
  moreover have "((t * 1000000000 + ns) - (t' * 1000000000 + ns')) div 1000000000 = t - t' - 1"
    using True assms by (intro int_div_pos_eq [where r = "ns - ns' + 1000000000"]) simp_all
  ultimately show ?thesis using True by (simp add: passed_seconds_def carry_up.simps)
next
  case False
  then have "carry_down (t - t') (ns - ns') = (t - t', ns - ns')"
    by (subst carry_down.simps) simp
  moreover have "((t * 1000000000 + ns) - (t' * 1000000000 + ns')) div 1000000000 = t - t'"
    using False assms by (intro int_div_pos_eq [where r = "ns - ns'"]) simp_all
  ultimately show ?thesis using assms by (simp add: passed_seconds_def carry_up.simps)
qed

theorem passed_seconds_floor_witness: "passed_seconds (20, 100) (9, 200) = 10"
  using passed_seconds_floor [of 100 200 20 9] by simp

text \<open>
  C31. The cleaner destroys exactly the calls of its client that are ten seconds old or older,
  provided none of those still waits for its access check.
\<close>

theorem clean_stale_exact:
  assumes "server_inv s" "wsi_to_client s w = Some c" "safe_stale E s w"
  shows "\<exists>s'. wsubus_percall_clean_stale E w s = Some s' \<and> server_inv s' \<and>
     (\<forall>a. call_heap s' a = (case call_heap s a of
        Some k \<Rightarrow> if pc_wsi k = w \<and> 10 \<le> passed_seconds (monotonic E) (pc_start k) then None else Some k
      | None \<Rightarrow> None))"
  using clean_stale_inv [OF assms] unfolding stale_def by metis

theorem clean_stale_exact_witness:
  "\<exists>s'. wsubus_percall_clean_stale demo_late 1 demo_invoked = Some s' \<and> server_inv s' \<and> call_heap s' 0 = None"
proof -
  have inv: "server_inv demo_invoked" by (rule reachable_inv [OF demo_reachable(4) init_inv])
  have c: "wsi_to_client demo_invoked 1 = Some (demo_client\<lparr>rpc_q_len := 1, rpc_call_q := [RCall 0]\<rparr>)"
    and safe: "safe_stale demo_late demo_invoked 1"
    by (auto simp: demo_states wsi_to_client_def wsi_to_peer_def client_of_def safe_stale_def)
  have "passed_seconds (111, 0) (100, 0) = 11"
    by (simp add: passed_seconds_def carry_up.simps carry_down.simps)
  then show ?thesis
    using clean_stale_exact [OF inv c safe] by (auto simp: demo_states demo_late_def)
qed

section \<open>Parsing\<close>

text \<open>
  The error codes of dispatch: an unknown method is \<open>METHOD_NOT_FOUND\<close>, a known one with bad
  parameters \<open>INVALID_PARAMS\<close>, and otherwise the request is returned with \<open>OK\<close>.
\<close>

theorem blob_parse_codes:
  "case ubusrpc_blob_parse L bl al m p of
     (e, r) \<Rightarrow>
       (e = JSONRPC_ERRORCODE__METHOD_NOT_FOUND \<longleftrightarrow>
          m \<notin> {''call'', ''list'', ''subscribe'', ''subscribe-list'', ''unsubscribe''}) \<and>
       (e = JSONRPC_ERRORCODE__OK \<longleftrightarrow> r \<noteq> None) \<and>
       e \<in> {JSONRPC_ERRORCODE__OK, JSONRPC_ERRORCODE__METHOD_NOT_FOUND, JSONRPC_ERRORCODE__INVALID_PARAMS}"
  by (auto simp: ubusrpc_blob_parse_def supported_methods_def split: option.splits)



section \<open>Access checks\<close>




text \<open>
  The certificate checker allows an object exactly on a TLS connection whose peer certificate
  was verified and for an object that a pattern of the access list covers; without TLS it leaves
  the decision to the session object.
\<close>

theorem certificate_check_exact:
  "(wsu_ext_check_tls E s w obj = EXT_CHECK_ALLOW \<longleftrightarrow>
      lws_is_ssl E w \<and> lws_tls_peer_cert_info E w = (0, True) \<and>
      ubusx_acl__allow_object olist_ops (acl_tree s) obj) \<and>
   (wsu_ext_check_tls E s w obj = EXT_CHECK_NEXT \<longleftrightarrow> \<not> lws_is_ssl E w)"
  by (auto simp: wsu_ext_check_tls_def Let_def split: if_splits prod.splits)

text \<open>
  C34. Logins on an interface with a list of users: a call of \<open>session login\<close> is refused when the
  first user name it carries is not on the list, allowed when it is, and left to the session
  object when there is none or the list is empty; no other call is concerned.
\<close>

theorem login_restriction:
  assumes "vhost E w = Some vc" "libubox_ok (lib E)"
    "\<And>n v. (n, v) \<in> set args \<Longrightarrow> n = ''username'' \<Longrightarrow> type_of_blob v = BLOBMSG_TYPE_STRING"
  shows "wsu_ext_restrict_interface E w obj m (Some args) =
     Some (if obj = ''session'' \<and> m = ''login'' \<and> vh_users vc \<noteq> [] then
             (case map_of args ''username'' of
                Some (BString u) \<Rightarrow> if u \<in> set (vh_users vc) then EXT_CHECK_ALLOW else EXT_CHECK_DENY
              | _ \<Rightarrow> EXT_CHECK_NEXT)
           else EXT_CHECK_NEXT)"
proof -
  have "restrict_users E w args =
      Some (if vh_users vc = [] then EXT_CHECK_NEXT
            else (case map_of args ''username'' of
                Some (BString u) \<Rightarrow> if u \<in> set (vh_users vc) then EXT_CHECK_ALLOW else EXT_CHECK_DENY
              | _ \<Rightarrow> EXT_CHECK_NEXT))"
    using assms(3)
  proof (induction args)
    case (Cons x args)
    obtain n v where x: "x = (n, v)" by fastforce
    show ?case
    proof (cases "n = ''username''")
      case True
      then obtain u where "v = BString u" using Cons.prems [of n v] by (cases v) (auto simp: x)
      then show ?thesis
        using True Cons assms(1) libubox_values(1) [OF assms(2)] by (auto simp: x list_ex_iff)
    next
      case False
      then show ?thesis using Cons by (auto simp: x)
    qed
  qed simp
  then show ?thesis by (simp add: wsu_ext_restrict_interface_def)
qed

theorem login_restriction_witness:
  "wsu_ext_restrict_interface demo_env 1 ''session'' ''login''
     (Some [(''username'', BString ''root''), (''password'', BString ''x'')]) = Some EXT_CHECK_DENY"
  using login_restriction [of demo_env 1 demo_vh "[(''username'', BString ''root''), (''password'', BString ''x'')]"
      "''session''" "''login''"] demo_lib_ok
  by (simp add: demo_vh_def)

section \<open>Subscriptions\<close>

text \<open>
  \<open>unsubscribe\<close> removes exactly the subscriptions of the client with that pattern, provided no
  event of one of them is waiting for its access check.
\<close>

theorem unsubscribe_exact:
  assumes "server_inv s" "env_ok E" "wsi_to_client s w = Some c" "safe_unsub s w pattern"
  shows "\<exists>s'. ubusrpc_handle_unsub E w pattern rid s = Some (0, s') \<and>
     (\<forall>a. sub_heap s' a = (case sub_heap s a of
        Some i \<Rightarrow> if si_wsi i = w \<and> si_pattern i = pattern then None else Some i | None \<Rightarrow> None)) \<and>
     ev_handlers s' = {a. sub_heap s' a \<noteq> None}"
proof -
  obtain s' where s': "ubusrpc_handle_unsub E w pattern rid s = Some (0, s')" "handled w s s'"
    "\<forall>a. sub_heap s' a = (if sub_matches s w pattern a then None else sub_heap s a)"
    using handle_unsub_effect [OF assms] by blast
  have "ev_handlers s' = {a. sub_heap s' a \<noteq> None}"
    using s'(2) by (auto simp: handled_def view_inv_def listen_ok_def sub_view_def)
  then show ?thesis using s'(1,3) by (auto simp: sub_matches_def split: option.splits)
qed

theorem unsubscribe_exact_witness:
  "\<exists>s'. ubusrpc_handle_unsub demo_env 1 ''foo'' None demo_subscribed = Some (0, s') \<and> sub_heap s' 0 = None"
proof -
  have c: "wsi_to_client demo_subscribed 1 = Some (demo_client\<lparr>rpc_call_q := [RSub 0]\<rparr>)"
    and safe: "safe_unsub demo_subscribed 1 ''foo''" and i: "sub_heap demo_subscribed 0 = Some demo_sub"
    by (simp_all add: demo_states demo_sub_states wsi_to_client_def wsi_to_peer_def client_of_def safe_unsub_def)
  have "\<exists>s'. ubusrpc_handle_unsub demo_env 1 ''foo'' None demo_subscribed = Some (0, s') \<and>
     (\<forall>a. sub_heap s' a = (case sub_heap demo_subscribed a of
        Some i \<Rightarrow> if si_wsi i = 1 \<and> si_pattern i = ''foo'' then None else Some i | None \<Rightarrow> None)) \<and>
     ev_handlers s' = {a. sub_heap s' a \<noteq> None}"
    by (rule unsubscribe_exact [OF reachable_inv [OF demo_sub_reachable(1) init_inv] demo_env_ok c safe])
  then show ?thesis using i by (auto simp: demo_sub_def)
qed

text \<open>
  \<open>subscribe-list\<close> reports each subscription of the client once, and no other.
\<close>

theorem subscribe_list_exact:
  assumes "server_inv s"
  shows "\<exists>as. distinct as \<and> set as = {a. \<exists>i. sub_heap s a = Some i \<and> si_wsi i = w} \<and>
     sub_list_entries s w (listen_list s) =
       Some (map (\<lambda>a. blobmsg_add_sub_info [] (the (sub_heap s a))) as)"
proof -
  have v: "view_inv (view_of s)" using assms by (simp add: server_inv_def)
  let ?as = "filter (\<lambda>a. si_wsi (the (sub_heap s a)) = w) (listen_list s)"
  have "distinct ?as" "set ?as = {a. \<exists>i. sub_heap s a = Some i \<and> si_wsi i = w}"
    using v by (auto simp: view_inv_def listen_ok_def sub_view_def)
  then show ?thesis using sub_list_entries_defined listen_live [OF v] by blast
qed

theorem subscribe_list_exact_witness:
  "\<exists>as. distinct as \<and> set as = {0} \<and>
     sub_list_entries demo_subscribed 1 (listen_list demo_subscribed) =
       Some (map (\<lambda>a. blobmsg_add_sub_info [] (the (sub_heap demo_subscribed a))) as)"
proof -
  have "{a. \<exists>i. sub_heap demo_subscribed a = Some i \<and> si_wsi i = 1} = {0}"
    by (auto simp: demo_subscribed_def demo_sub_def demo_connected_def init_server_def split: if_splits)
  then show ?thesis
    using subscribe_list_exact [OF reachable_inv [OF demo_sub_reachable(1) init_inv], of 1] by simp
qed

section \<open>Closing a connection\<close>

lemma heap_doms:
  "dom (call_heap s) = {a. call_view s a \<noteq> None}" "dom (sub_heap s) = {a. sub_view s a \<noteq> None}"
  "dom (ev_heap s) = {a. ev_view s a \<noteq> None}"
  by (auto simp: call_view_def sub_view_def ev_view_def)

text \<open>
  C38. When a client leaves, exactly its calls, subscriptions and event notifications are freed, and
  what the libraries have pending is what belongs to the objects that remain.
\<close>

theorem close_removes_the_clients_objects:
  assumes "server_inv s" "wsi_to_client s w = Some c"
  shows "\<exists>s'. wsu_peer_deinit w s = Some s' \<and> server_inv (forget_peer w s') \<and>
     dom (call_heap s') = {a. \<exists>k. call_heap s a = Some k \<and> pc_wsi k \<noteq> w} \<and>
     dom (sub_heap s') = {a. \<exists>i. sub_heap s a = Some i \<and> si_wsi i \<noteq> w} \<and>
     dom (ev_heap s') = {a. \<exists>e. ev_heap s a = Some e \<and> ev_wsi e \<noteq> w}"
proof -
  have q: "queues_ok (view_of s)" using assms(1) by (simp add: server_inv_def view_inv_def)
  obtain s' where s': "wsu_peer_deinit w s = Some s'" "server_inv (forget_peer w s')"
    "view_of (forget_peer w s') =
       remove_objs (set (rpc_call_q c)) {a. OEv a \<in> set (access_check_q c)} (view_of s)"
    using deinit_effect [OF assms] by blast
  have "call_view s' = v_call (view_of (forget_peer w s'))" "sub_view s' = v_sub (view_of (forget_peer w s'))"
    "ev_view s' = v_ev (view_of (forget_peer w s'))"
    by (simp_all add: fun_eq_iff forget_peer_def call_view_def sub_view_def ev_view_def)
  then have "call_view s' a = (if RCall a \<in> set (rq s w) then None else call_view s a)"
    "sub_view s' a = (if RSub a \<in> set (rq s w) then None else sub_view s a)"
    "ev_view s' a = (if OEv a \<in> set (aq s w) then None else ev_view s a)" for a
    unfolding s'(3) using assms(2) by (simp_all add: fun_eq_iff remove_objs_def rq_def aq_def)
  then have "dom (call_heap s') = {a. RCall a \<notin> set (rq s w) \<and> call_view s a \<noteq> None}"
    "dom (sub_heap s') = {a. RSub a \<notin> set (rq s w) \<and> sub_view s a \<noteq> None}"
    "dom (ev_heap s') = {a. OEv a \<notin> set (aq s w) \<and> ev_view s a \<noteq> None}"
    by (auto simp: heap_doms)
  then have "dom (call_heap s') = {a. \<exists>k. call_heap s a = Some k \<and> pc_wsi k \<noteq> w}"
    "dom (sub_heap s') = {a. \<exists>i. sub_heap s a = Some i \<and> si_wsi i \<noteq> w}"
    "dom (ev_heap s') = {a. \<exists>e. ev_heap s a = Some e \<and> ev_wsi e \<noteq> w}"
    using q by (auto simp: queues_ok_def call_view_def sub_view_def ev_view_def)
  then show ?thesis using s'(1,2) by blast
qed

theorem close_removes_the_clients_objects_witness:
  "\<exists>s'. wsu_peer_deinit 1 demo_notified = Some s' \<and> dom (sub_heap s') = {} \<and> dom (ev_heap s') = {}"
proof -
  have c: "wsi_to_client demo_notified 1 =
      Some (demo_client\<lparr>rpc_call_q := [RSub 0], access_check_q := [OEv 1]\<rparr>)"
    by (simp add: demo_states demo_sub_states wsi_to_client_def wsi_to_peer_def client_of_def)
  have "{a. \<exists>i. sub_heap demo_notified a = Some i \<and> si_wsi i \<noteq> 1} = {}"
    "{a. \<exists>e. ev_heap demo_notified a = Some e \<and> ev_wsi e \<noteq> 1} = {}"
    by (auto simp: demo_states demo_sub_states split: if_splits)
  then show ?thesis
    using close_removes_the_clients_objects [OF reachable_inv [OF demo_sub_reachable(2) init_inv] c] by metis
qed

section \<open>Where the code goes wrong\<close>

lemma strstr_found_mid: "strstr_found (pre @ p @ post) p"
proof (induction pre)
  case Nil
  then show ?case by (cases "p @ post") (auto, metis append_eq_conv_conj)
qed simp

text \<open>
  A \<open>list\<close> request without an id, and a call of a certificate session to an object whose name
  contains \<open>ubus.object.\<close>, make the server go wrong: the first dereferences a null id, the second
  reads the call's context as an event notification.
\<close>

theorem hazardous_requests:
  "ubusrpc_handle_list E w pat None s = None \<and>
   wsubus_access_check E b w ''X-tls-certificate'' scope (pre @ ''ubus.object.'' @ post) m args (OCall a) s = None"
  using strstr_found_mid [of pre "''ubus.object.''" post]
  by (auto simp: ubusrpc_handle_list_def wsubus_access_check_def tls_object_def wsu_sid_extended_def
      strstr_at_start_def Let_def strcmp_eq_0 bind_eq_None_conv)

text \<open>
  The cleaner can free a call whose access check is still pending: on a reachable state, after
  ten seconds without an answer, the cleaner runs, and the answer that then arrives reaches a
  freed call.
\<close>

theorem stale_check_use_after_free:
  "reachable (init_server 1024 []) demo_called \<and> enabled demo_called (Cleaner 1) \<and>
   (\<exists>s. step demo_late (Cleaner 1) demo_called = Some s \<and> enabled s (CheckDone 1 0) \<and>
        step demo_late (CheckDone 1 0) s = None)"
proof -
  have p: "passed_seconds (111, 0) (100, 0) = 11"
    by (simp add: passed_seconds_def carry_up.simps carry_down.simps)
  have "enabled demo_called (Cleaner 1)"
    by (simp add: enabled_def demo_states wsi_to_client_def wsi_to_peer_def client_of_def)
  moreover have "\<exists>s. step demo_late (Cleaner 1) demo_called = Some s \<and> enabled s (CheckDone 1 0) \<and>
        step demo_late (CheckDone 1 0) s = None"
    by (simp add: demo_ops demo_states wsubus_percall_clean_stale_def demo_late_def p enabled_def)
  ultimately show ?thesis using demo_reachable(2) by blast
qed

text \<open>
  \<open>unsubscribe\<close> can free a subscription while one of its events is being checked: on a reachable
  state the request is accepted, and the positive answer that then arrives reaches a freed
  subscription.
\<close>

theorem unsubscribe_use_after_free:
  "reachable (init_server 1024 []) demo_notified \<and>
   (\<exists>s s'. step (demo_sends (demo_sub_request ''unsubscribe'')) demo_frame demo_notified = Some s \<and>
      enabled s (CheckData 2 [(''access'', BInt8 1)]) \<and>
      step demo_env (CheckData 2 [(''access'', BInt8 1)]) s = Some s' \<and>
      enabled s' (CheckDone 2 0) \<and> step demo_env (CheckDone 2 0) s' = None)"
proof -
  have "\<exists>s s'. step (demo_sends (demo_sub_request ''unsubscribe'')) demo_frame demo_notified = Some s \<and>
      enabled s (CheckData 2 [(''access'', BInt8 1)]) \<and>
      step demo_env (CheckData 2 [(''access'', BInt8 1)]) s = Some s' \<and>
      enabled s' (CheckDone 2 0) \<and> step demo_env (CheckDone 2 0) s' = None"
    by (simp add: demo_ops demo_states demo_sub_states demo_sub_ops demo_parse_sub demo_frame_def enabled_def)
  then show ?thesis using demo_sub_reachable(2) by blast
qed

section \<open>Round trip\<close>













section \<open>The handlers against the ownership machine\<close>

text \<open>
  C10. The \<open>call\<close> handler implements the abstract operation: it returns with a new call added, its
  check pending, or with the owned objects as they were and a permission denied response at the
  end of the client's write queue.
\<close>

theorem call_handler_refines:
  assumes "server_inv s" "env_ok E" "wsi_to_client s w = Some c" "safe_call req" "alloc E A_write"
  shows "\<exists>s'. ubusrpc_handle_call E w req rid s = Some (0, s') \<and>
     ((\<exists>t. view_of s' = add_call w t (view_of s)) \<or>
      (\<exists>n str. view_of s' = (view_of s)\<lparr>v_next := n\<rparr> \<and>
         jsonrpc__resp_ubus (lib E) rid UBUS_STATUS_PERMISSION_DENIED None = Some str \<and>
         write_q (the (peers s' w)) = write_q (the (peers s w)) @ [\<lparr>wr_buf = str, wr_written = 0\<rparr>]))"
proof -
  have v: "view_inv (view_of s)" "all_ready s" using assms(1) by (simp_all add: server_inv_def)
  obtain str where str: "denied E rid = Some str"
    using assms(2) by (auto simp: denied_def jsonrpc__resp_ubus_def env_ok_def formats_ok_def)
  obtain s' where s': "handle_call_ubus E w req rid s = Some (0, s')"
    "call_refused E w rid s s' \<or> call_started E w req rid s s'"
    using handle_call_effect [OF v assms(2-4)] by blast
  have "write_q (the (peers s' w)) = write_q (the (peers s w)) @ [\<lparr>wr_buf = str, wr_written = 0\<rparr>]"
    if "call_refused E w rid s s'"
    using that str assms(5) by (auto simp: call_refused_def enqueue_def put_def)
  then show ?thesis
    using s' str refused_view [of E w rid s s'] started_view [of E w req rid s s']
    unfolding ubusrpc_handle_call_def denied_def by metis
qed

theorem call_handler_refines_witness:
  "\<exists>s'. ubusrpc_handle_call demo_env 1 demo_args None demo_connected = Some (0, s') \<and>
     ((\<exists>t. view_of s' = add_call 1 t (view_of demo_connected)) \<or>
      (\<exists>n str. view_of s' = (view_of demo_connected)\<lparr>v_next := n\<rparr> \<and>
         jsonrpc__resp_ubus (lib demo_env) None UBUS_STATUS_PERMISSION_DENIED None = Some str \<and>
         write_q (the (peers s' 1)) = write_q (the (peers demo_connected 1)) @ [\<lparr>wr_buf = str, wr_written = 0\<rparr>]))"
proof -
  have c: "wsi_to_client demo_connected 1 = Some demo_client"
    by (simp add: demo_states wsi_to_client_def wsi_to_peer_def client_of_def)
  show ?thesis
    by (rule call_handler_refines [OF reachable_inv [OF demo_reachable(1) init_inv] demo_env_ok c])
      (simp_all add: demo_args_def safe_call_def)
qed

section \<open>The handshake, lists and events\<close>

text \<open>
  C40. The origin filter: a connection is accepted exactly when the request has no \<open>Origin\<close> header,
  or the header can be read and the virtual host exists and does not restrict origins or has a
  pattern that matches.
\<close>

theorem origin_filter_exact:
  assumes "0 \<le> len" "alloc E A_origin"
  shows "wsubus_cb E w (LWS_CALLBACK_FILTER_PROTOCOL_CONNECTION len e origin) s =
     Some (if len = 0 \<or> 0 \<le> e \<and> (\<exists>vc. vhost E w = Some vc \<and>
              (restrict_origins vc \<longrightarrow> (\<exists>pat\<in>set (vh_origins vc). fnmatch_casefold E pat origin)))
           then 0 else -1, s)"
proof (cases "vhost E w")
  case None
  then show ?thesis using assms by (simp add: wsubus_cb_def wsubus_filter_def)
next
  case (Some vc)
  then show ?thesis
    using assms by (simp add: wsubus_cb_def wsubus_filter_def origin_allowed_def list_ex_iff)
qed

theorem origin_filter_exact_witness:
  "wsubus_cb demo_env 1 (LWS_CALLBACK_FILTER_PROTOCOL_CONNECTION 11 11 ''http://evil'') demo_connected =
     Some (-1, demo_connected)"
  using origin_filter_exact [of 11 demo_env 1 11 "''http://evil''" demo_connected]
  by (simp add: demo_vh_def) (simp add: demo_env_def)

text \<open>
  C39. \<open>list\<close> shows a certificate session only the objects its access list lets through, and shows
  any other session all objects, in the order of the bus.
\<close>

theorem list_shows_allowed_objects:
  assumes "wsi_to_peer s w = Some p" "lookup_all E s w [] objs = Some ys"
  shows "map fst ys = filter (\<lambda>path. strncmp (peer_sid p) ''X-tls-certificate'' 17 = 0 \<longrightarrow>
     ubusx_acl__allow_object olist_ops (acl_tree s) path) (map fst objs)"
proof -
  have "map fst ys = map fst buf @ filter (\<lambda>path. strncmp (peer_sid p) ''X-tls-certificate'' 17 = 0 \<longrightarrow>
     ubusx_acl__allow_object olist_ops (acl_tree s) path) (map fst objs)"
    if "lookup_all E s w buf objs = Some ys" for buf
    using that
  proof (induction objs arbitrary: buf)
    case (Cons x objs)
    obtain buf' where b: "ubus_lookup_cb E s w buf x = Some buf'" "lookup_all E s w buf' objs = Some ys"
      using Cons.prems by (auto simp: bind_conv)
    then show ?case
      using Cons.IH [OF b(2)] assms(1) by (auto simp: ubus_lookup_cb_def bind_conv split: if_splits)
  qed simp
  then show ?thesis using assms(2) by simp
qed

theorem list_shows_allowed_objects_witness:
  "map fst [(''uci'', BTable [(''get'', BTable [(''config'', BString ''string'')])])] =
     filter (\<lambda>path. strncmp (peer_sid (demo_peer [] demo_client [])) ''X-tls-certificate'' 17 = 0 \<longrightarrow>
       ubusx_acl__allow_object olist_ops (acl_tree demo_connected) path)
     (map fst (snd (ubus_lookup demo_env None)))"
proof (rule list_shows_allowed_objects [where E = demo_env and w = 1 and s = demo_connected])
  show "wsi_to_peer demo_connected 1 = Some (demo_peer [] demo_client [])"
    by (simp add: demo_connected_def wsi_to_peer_def)
  have "snd (ubus_lookup demo_env None) = [(''uci'', Some [(''get'', BTable [(''config'', BInt32 3)])])]"
    by (simp add: demo_env_def)
  moreover have "strncmp (peer_sid (demo_peer [] demo_client [])) ''X-tls-certificate'' 17 = -1"
    by (simp add: demo_peer_def numeral_eq_Suc)
  moreover have "blobmsg_type_to_str (blobmsg_type_of_u32 3) = Some (Some ''string'')"
    by (simp add: blobmsg_type_of_u32_def)
  moreover have "wsi_to_peer demo_connected 1 = Some (demo_peer [] demo_client [])"
    by (simp add: demo_connected_def wsi_to_peer_def)
  moreover have "blobmsg_attrs demo_lib (BTable xs) = xs" for xs by (simp add: demo_lib_def)
  ultimately show "lookup_all demo_env demo_connected 1 [] (snd (ubus_lookup demo_env None)) =
      Some [(''uci'', BTable [(''get'', BTable [(''config'', BString ''string'')])])]"
    by (simp add: ubus_lookup_cb_def ubusx_acl__allow_method_def)
qed

end
