(* ===== verification/Client_Manager.thy ===== *)
theory Client_Manager
  imports Json_Rpc "HOL-Library.Multiset"
begin

text \<open>
  The connections to other owsd servers, \<open>src/src/wsubus_client.c\<close> and \<open>wsubus_client.h\<close>: the list
  of clients with their indices, the states they go through, the reconnection timers, and the
  ubus object \<open>owsd.ubusproxy\<close> that adds, removes and lists them. (The path patterns of the same
  file are in \<open>Patterns\<close>.)

  A client is a node of the list; \<open>ci_addr\<close> is its address, which the timer inside it knows.
  What libwebsockets, the C library and the allocator answer is the record \<open>cl_env\<close>.
\<close>

section \<open>State\<close>

datatype client_type = CLIENT_TYPE_UNKNOWN | CLIENT_FROM_PROGARG | CLIENT_FROM_UBUS

datatype connection_state =
    CONNECTION_STATE_DISCONNECTED
  | CONNECTION_STATE_CONNECTING
  | CONNECTION_STATE_CONNECTED
  | CONNECTION_STATE_TEARINGDOWN

fun state_names :: "connection_state \<Rightarrow> string" where
  "state_names CONNECTION_STATE_DISCONNECTED = ''Disconnected''"
| "state_names CONNECTION_STATE_CONNECTING = ''Connecting''"
| "state_names CONNECTION_STATE_CONNECTED = ''Connected''"
| "state_names CONNECTION_STATE_TEARINGDOWN = ''Teardown''"

text \<open>
  The fields of \<open>struct lws_client_connect_info\<close> the program sets; \<open>cc_ssl\<close> tells whether one of
  the two TLS flags is set, and the virtual host and the context are the library's objects.
\<close>

record connect_info =
  cc_path :: string
  cc_address :: string
  cc_host :: string
  cc_port :: int
  cc_ssl :: bool
  cc_vhost :: "nat option"
  cc_context :: "nat option"
  cc_protocol :: string

text \<open>\<open>ci_timer\<close> is the time in milliseconds a pending timer was set to; the counter of failed attempts,
  an \<open>int\<close>, grows too slowly to overflow (the wait grows with it).\<close>

record client_connection_info =
  ci_addr :: addr
  ci_index :: int
  ci_wsi :: "wsi option"
  ci_reconnect_count :: int
  ci_timer :: "int option"
  ci_info :: connect_info
  ci_type :: client_type
  ci_state :: connection_state

text \<open>
  \<open>struct clvh_context\<close> with the static variables of the file; \<open>cl_retry_timeout\<close> is
  \<open>wsbus_client_connnection_retry_timeout\<close>, which the configuration can set, and the certificate
  paths are fields of \<open>clvh_info\<close>.
\<close>

record clvh_context =
  cl_enabled :: bool
  cl_clients :: "client_connection_info list"
  cl_plws_ctx :: "nat option"
  cl_pclvh :: "nat option"
  cl_cert :: "string option"
  cl_key :: "string option"
  cl_ca :: "string option"
  cl_rpcd_integration :: bool
  cl_retry_timeout :: int
  cl_next :: addr

definition init_clients :: clvh_context where
  "init_clients =
     \<lparr>cl_enabled = False, cl_clients = [], cl_plws_ctx = None, cl_pclvh = None, cl_cert = None,
      cl_key = None, cl_ca = None, cl_rpcd_integration = False, cl_retry_timeout = 2000, cl_next = 0\<rparr>"

text \<open>
  \<open>lws_client_connect_via_info\<close> returns a new connection, or fails at once, or fails after it has
  reported the error of the connection it had begun to make to the protocol's callback.
\<close>

datatype connect_result = Begun wsi | Failed | Failed_reported wsi

datatype cl_site = A_newcl | A_addr | A_path

record cl_env =
  cl_lib :: libubox
  cl_alloc :: "cl_site \<Rightarrow> bool"
  inet_pton :: "bool \<Rightarrow> string \<Rightarrow> bool"
  lws_client_connect_via_info :: "connect_info \<Rightarrow> connect_result"
  lws_create_vhost :: "nat option"

definition UBUS_STATUS_OK :: int where "UBUS_STATUS_OK = 0"
definition UBUS_STATUS_INVALID_ARGUMENT :: int where "UBUS_STATUS_INVALID_ARGUMENT = 2"
definition UBUS_STATUS_UNKNOWN :: int where "UBUS_STATUS_UNKNOWN = 9"

definition MAX_IP_LEN :: nat where "MAX_IP_LEN = 128"
definition MAX_PATH_LEN :: nat where "MAX_PATH_LEN = 128"
definition WSS_PORT :: int where "WSS_PORT = 443"

section \<open>Finding and changing a client\<close>

definition get_client_by_index :: "int \<Rightarrow> clvh_context \<Rightarrow> client_connection_info option" where
  "get_client_by_index index cs = List.find (\<lambda>c. ci_index c = index) (cl_clients cs)"

definition get_client_by_wsi :: "wsi option \<Rightarrow> clvh_context \<Rightarrow> client_connection_info option" where
  "get_client_by_wsi w cs =
     (case w of None \<Rightarrow> None | Some _ \<Rightarrow> List.find (\<lambda>c. ci_wsi c = w) (cl_clients cs))"

text \<open>A store through the pointer to a client.\<close>

definition upd_ci ::
    "addr \<Rightarrow> (client_connection_info \<Rightarrow> client_connection_info) \<Rightarrow> clvh_context \<Rightarrow> clvh_context" where
  "upd_ci a f cs = cs\<lparr>cl_clients := map (\<lambda>c. if ci_addr c = a then f c else c) (cl_clients cs)\<rparr>"

text \<open>The loop of \<open>insert_at_lowest_free_index\<close>, with its counter.\<close>

fun insert_from ::
    "int \<Rightarrow> client_connection_info \<Rightarrow> client_connection_info list \<Rightarrow> client_connection_info list" where
  "insert_from i client [] = [client\<lparr>ci_index := i\<rparr>]"
| "insert_from i client (tmp # rest) =
     (if ci_index tmp > i then client\<lparr>ci_index := i\<rparr> # tmp # rest
      else tmp # insert_from (i + 1) client rest)"

definition insert_at_lowest_free_index ::
    "client_connection_info \<Rightarrow> client_connection_info list \<Rightarrow> client_connection_info list" where
  "insert_at_lowest_free_index client head = insert_from 0 client head"

definition wsubus_client_enable_proxy :: "clvh_context \<Rightarrow> clvh_context" where
  "wsubus_client_enable_proxy cs = cs\<lparr>cl_enabled := True\<rparr>"

section \<open>States and destruction\<close>

definition wsubus_client_set_state :: "wsi option \<Rightarrow> connection_state \<Rightarrow> clvh_context \<Rightarrow> clvh_context" where
  "wsubus_client_set_state w state cs =
     (case get_client_by_wsi w cs of
        None \<Rightarrow> cs
      | Some client \<Rightarrow>
          upd_ci (ci_addr client)
            (\<lambda>c. let c = c\<lparr>ci_state := state\<rparr> in
                 if state = CONNECTION_STATE_CONNECTED then c\<lparr>ci_reconnect_count := 0\<rparr> else c) cs)"

definition wsubus_client_should_destroy :: "wsi option \<Rightarrow> clvh_context \<Rightarrow> bool" where
  "wsubus_client_should_destroy w cs =
     (case get_client_by_wsi w cs of
        None \<Rightarrow> True
      | Some client \<Rightarrow> ci_state client = CONNECTION_STATE_TEARINGDOWN)"

definition wsubus_client_del :: "addr \<Rightarrow> clvh_context \<Rightarrow> clvh_context" where
  "wsubus_client_del a cs = cs\<lparr>cl_clients := filter (\<lambda>c. ci_addr c \<noteq> a) (cl_clients cs)\<rparr>"

definition wsubus_client_destroy :: "wsi option \<Rightarrow> clvh_context \<Rightarrow> clvh_context" where
  "wsubus_client_destroy w cs =
     (case get_client_by_wsi w cs of None \<Rightarrow> cs | Some client \<Rightarrow> wsubus_client_del (ci_addr client) cs)"

definition wsubus_client_clean :: "clvh_context \<Rightarrow> clvh_context" where
  "wsubus_client_clean cs = foldl (\<lambda>cs c. wsubus_client_del (ci_addr c) cs) cs (cl_clients cs)"

section \<open>Timers and reconnection\<close>

definition arm :: "int \<Rightarrow> client_connection_info \<Rightarrow> client_connection_info" where
  "arm timeout c = c\<lparr>ci_reconnect_count := 0, ci_timer := Some timeout\<rparr>"

definition client_connect :: "wsi option \<Rightarrow> int \<Rightarrow> clvh_context \<Rightarrow> clvh_context" where
  "client_connect w timeout cs =
     (case w of
        None \<Rightarrow> cs\<lparr>cl_clients := map (arm timeout) (cl_clients cs)\<rparr>
      | Some _ \<Rightarrow>
          (case get_client_by_wsi w cs of
             None \<Rightarrow> cs
           | Some client \<Rightarrow> upd_ci (ci_addr client) (arm timeout) cs))"

definition wsubus_client_connect_all :: "clvh_context \<Rightarrow> clvh_context" where
  "wsubus_client_connect_all cs = client_connect None 0 cs"

definition wsubus_client_reconnect :: "wsi option \<Rightarrow> clvh_context \<Rightarrow> clvh_context" where
  "wsubus_client_reconnect w cs = client_connect w 2000 cs"

definition wsubus_client_connect_retry :: "wsi option \<Rightarrow> clvh_context \<Rightarrow> clvh_context" where
  "wsubus_client_connect_retry w cs =
     (case w of
        None \<Rightarrow> cs
      | Some _ \<Rightarrow>
          (case get_client_by_wsi w cs of
             None \<Rightarrow> cs
           | Some client \<Rightarrow>
               upd_ci (ci_addr client)
                 (\<lambda>c. let n = ci_reconnect_count c + 1 in
                      c\<lparr>ci_wsi := None, ci_reconnect_count := n,
                        ci_timer := Some (n * cl_retry_timeout cs)\<rparr>) cs))"

text \<open>\<open>LWS_CALLBACK_CLIENT_CONNECTION_ERROR\<close> of \<open>ws_ubusproxy_cb\<close>.\<close>

definition proxy_connection_error :: "wsi \<Rightarrow> clvh_context \<Rightarrow> clvh_context" where
  "proxy_connection_error w cs =
     (if wsubus_client_should_destroy (Some w) cs then wsubus_client_destroy (Some w) cs
      else wsubus_client_connect_retry (Some w)
             (wsubus_client_set_state (Some w) CONNECTION_STATE_DISCONNECTED cs))"

text \<open>
  The timer of client \<open>a\<close> has expired. \<open>pwsi\<close> points to the client's \<open>wsi\<close>, where the library
  stores a connection as soon as it begins to make it.
\<close>

definition utimer_reconnect_cb :: "cl_env \<Rightarrow> addr \<Rightarrow> clvh_context \<Rightarrow> clvh_context option" where
  "utimer_reconnect_cb E a cs =
     (case List.find (\<lambda>c. ci_addr c = a) (cl_clients cs) of
        None \<Rightarrow> None
      | Some c \<Rightarrow>
          let cs = upd_ci a (\<lambda>c. c\<lparr>ci_timer := None\<rparr>) cs in
          (case lws_client_connect_via_info E (ci_info c) of
             Begun w \<Rightarrow>
               Some (wsubus_client_set_state (Some w) CONNECTION_STATE_CONNECTING
                       (upd_ci a (\<lambda>c. c\<lparr>ci_wsi := Some w\<rparr>) cs))
           | Failed \<Rightarrow> Some cs
           | Failed_reported w \<Rightarrow>
               Some (proxy_connection_error w (upd_ci a (\<lambda>c. c\<lparr>ci_wsi := Some w\<rparr>) cs))))"

section \<open>Adding a client\<close>

text \<open>
  The port is corrected in place; the result is \<^term>\<open>None\<close> for a bad address. \<open>addr\<close> and \<open>path\<close>
  can be null.
\<close>

definition validate_ip_port_path ::
    "cl_env \<Rightarrow> string option \<Rightarrow> int \<Rightarrow> string option \<Rightarrow> (string \<times> int \<times> string) option" where
  "validate_ip_port_path E addr port path =
     (case (addr, path) of
        (Some a, Some p) \<Rightarrow>
          if \<not> inet_pton E False a \<and> \<not> inet_pton E True a then None
          else Some (a, if port \<le> 0 \<or> port \<ge> 65536 then 443 else port, p)
      | _ \<Rightarrow> None)"

definition unique_ip :: "string \<Rightarrow> clvh_context \<Rightarrow> bool" where
  "unique_ip addr cs =
     (\<not> list_ex (\<lambda>c. strcmp addr (cc_address (ci_info c)) = 0 \<and>
                     ci_state c \<noteq> CONNECTION_STATE_TEARINGDOWN) (cl_clients cs))"

text \<open>
  \<open>strncpy\<close> into a zeroed buffer: a string that does not fit is cut and left without its end.
\<close>

definition new_client ::
    "clvh_context \<Rightarrow> string \<Rightarrow> int \<Rightarrow> string \<Rightarrow> client_type \<Rightarrow> client_connection_info" where
  "new_client cs addr port path type =
     \<lparr>ci_addr = cl_next cs, ci_index = 0, ci_wsi = None, ci_reconnect_count = 0, ci_timer = None,
      ci_info = \<lparr>cc_path = take MAX_PATH_LEN path, cc_address = take MAX_IP_LEN addr,
                 cc_host = take MAX_IP_LEN addr, cc_port = port, cc_ssl = True,
                 cc_vhost = cl_pclvh cs, cc_context = cl_plws_ctx cs, cc_protocol = ''ubus-json''\<rparr>,
      ci_type = type, ci_state = CONNECTION_STATE_DISCONNECTED\<rparr>"

definition wsubus_client_create ::
    "cl_env \<Rightarrow> string option \<Rightarrow> int \<Rightarrow> string option \<Rightarrow> client_type \<Rightarrow> clvh_context \<Rightarrow>
     int \<times> clvh_context" where
  "wsubus_client_create E addr port path type cs =
     (case validate_ip_port_path E addr port path of
        None \<Rightarrow> (UBUS_STATUS_INVALID_ARGUMENT, cs)
      | Some (addr, port, path) \<Rightarrow>
          if \<not> unique_ip addr cs then (UBUS_STATUS_INVALID_ARGUMENT, cs)
          else if \<not> cl_alloc E A_newcl then (UBUS_STATUS_UNKNOWN, cs)
          else if \<not> cl_alloc E A_addr then (UBUS_STATUS_UNKNOWN, cs)
          else if \<not> cl_alloc E A_path then (UBUS_STATUS_UNKNOWN, cs)
          else
            let newcl = new_client cs addr port path type;
                newcl = (if type = CLIENT_FROM_UBUS then newcl\<lparr>ci_timer := Some 100\<rparr> else newcl);
                cs = cs\<lparr>cl_next := cl_next cs + 1,
                        cl_clients := insert_at_lowest_free_index newcl (cl_clients cs)\<rparr> in
            (0, wsubus_client_enable_proxy cs))"

section \<open>The ubus object\<close>

definition get_u32 :: "blob_attr \<Rightarrow> u32" where
  "get_u32 a = (case snd a of BInt32 x \<Rightarrow> x | _ \<Rightarrow> 0)"

definition add_client_policy :: "(string \<times> blobmsg_type) list" where
  "add_client_policy = [(''ip'', BLOBMSG_TYPE_STRING), (''port'', BLOBMSG_TYPE_INT32)]"

definition client_index_policy :: "(string \<times> blobmsg_type) list" where
  "client_index_policy = [(''index'', BLOBMSG_TYPE_INT32)]"

definition client_remove_policy :: "(string \<times> blobmsg_type) list" where
  "client_remove_policy = [(''index'', BLOBMSG_TYPE_INT32), (''ip'', BLOBMSG_TYPE_STRING)]"

text \<open>The 32 bits of the port are stored into an \<open>int\<close>.\<close>

definition add_client :: "cl_env \<Rightarrow> blob_attr list \<Rightarrow> clvh_context \<Rightarrow> int \<times> clvh_context" where
  "add_client E msg cs =
     (let tb = blobmsg_parse (cl_lib E) add_client_policy msg in
      case tb ! 0 of
        None \<Rightarrow> (UBUS_STATUS_INVALID_ARGUMENT, cs)
      | Some ip \<Rightarrow>
          let port = (case tb ! 1 of Some p \<Rightarrow> sint (get_u32 p) | None \<Rightarrow> WSS_PORT) in
          if port \<le> 0 \<or> port \<ge> 65536 then (UBUS_STATUS_INVALID_ARGUMENT, cs)
          else wsubus_client_create E (Some (blobmsg_get_string (cl_lib E) (snd ip))) port (Some ''/'')
                 CLIENT_FROM_UBUS cs)"

text \<open>For a connected client a writeable callback is requested, which the client's teardown waits for.\<close>

definition manage_remove_client :: "client_connection_info \<Rightarrow> clvh_context \<Rightarrow> clvh_context" where
  "manage_remove_client client cs =
     (case ci_state client of
        CONNECTION_STATE_DISCONNECTED \<Rightarrow> wsubus_client_del (ci_addr client) cs
      | CONNECTION_STATE_CONNECTING \<Rightarrow>
          upd_ci (ci_addr client) (\<lambda>c. c\<lparr>ci_state := CONNECTION_STATE_TEARINGDOWN\<rparr>) cs
      | CONNECTION_STATE_CONNECTED \<Rightarrow>
          upd_ci (ci_addr client) (\<lambda>c. c\<lparr>ci_state := CONNECTION_STATE_TEARINGDOWN\<rparr>) cs
      | CONNECTION_STATE_TEARINGDOWN \<Rightarrow> cs)"

text \<open>
  An index that names no client is a null pointer that \<open>manage_remove_client\<close> dereferences. After
  the loop over the addresses \<open>client\<close> is never null.
\<close>

definition remove_client :: "cl_env \<Rightarrow> blob_attr list \<Rightarrow> clvh_context \<Rightarrow> (int \<times> clvh_context) option" where
  "remove_client E msg cs =
     (let tb = blobmsg_parse (cl_lib E) client_remove_policy msg in
      case (tb ! 0, tb ! 1) of
        (Some i, _) \<Rightarrow>
          (case get_client_by_index (sint (get_u32 i)) cs of
             None \<Rightarrow> None
           | Some client \<Rightarrow> Some (UBUS_STATUS_OK, manage_remove_client client cs))
      | (None, Some ip) \<Rightarrow>
          let ip = blobmsg_get_string (cl_lib E) (snd ip) in
          Some (UBUS_STATUS_OK,
                foldl (\<lambda>cs c. if strcmp ip (cc_address (ci_info c)) \<noteq> 0 then cs
                              else manage_remove_client c cs) cs (cl_clients cs))
      | (None, None) \<Rightarrow> Some (UBUS_STATUS_INVALID_ARGUMENT, cs))"

text \<open>The decimal digits \<open>%d\<close> prints.\<close>

fun digits :: "nat \<Rightarrow> string" where
  "digits n = (if n < 10 then [char_of (48 + n)] else digits (n div 10) @ [char_of (48 + n mod 10)])"

declare digits.simps [simp del]

definition show_int :: "int \<Rightarrow> string" where
  "show_int i = (if i < 0 then CHR ''-'' # digits (nat (- i)) else digits (nat i))"

text \<open>
  A path that filled its buffer has no end: reading it as a string runs past the buffer. (An
  address that \<open>inet_pton\<close> accepts is shorter than its buffer.)
\<close>

definition dump_client :: "client_connection_info \<Rightarrow> blob_attr option" where
  "dump_client client =
     (let clname = take 15 (''proxy-'' @ show_int (ci_index client)); info = ci_info client in
      if \<not> length (cc_path info) < MAX_PATH_LEN \<or> \<not> length (cc_address info) < MAX_IP_LEN then None
      else
        Some (clname, BTable
          [(''index'', BInt32 (word_of_int (ci_index client))),
           (''ip'', BString (cc_address info)), (''port'', BInt32 (word_of_int (cc_port info))),
           (''path'', BString (cc_path info)), (''protocol'', BString (cc_protocol info)),
           (''SSL'', BInt8 (if cc_ssl info then 1 else 0)),
           (''type'', BString (if ci_type client = CLIENT_FROM_UBUS then ''ubus'' else ''uci'')),
           (''state'', BString (state_names (ci_state client))),
           (''reconnect_count'', BInt32 (word_of_int (ci_reconnect_count client)))]))"

fun dump_clients :: "client_connection_info list \<Rightarrow> blob_attr list option" where
  "dump_clients [] = Some []"
| "dump_clients (c # cs) = do { t \<leftarrow> dump_client c; ts \<leftarrow> dump_clients cs; Some (t # ts) }"

text \<open>The reply of \<open>list\<close>: all clients in an array, or the one with the wanted index, which
  is compared as a 64-bit \<open>long\<close>.\<close>

definition list_client :: "cl_env \<Rightarrow> blob_attr list \<Rightarrow> clvh_context \<Rightarrow> (int \<times> blob_attr list) option" where
  "list_client E msg cs =
     (let tb = blobmsg_parse (cl_lib E) client_index_policy msg in
      case tb ! 0 of
        None \<Rightarrow> map_option (\<lambda>ts. (UBUS_STATUS_OK, [(''clients'', BArray ts)])) (dump_clients (cl_clients cs))
      | Some i \<Rightarrow>
          (case get_client_by_index (uint (get_u32 i)) cs of
             None \<Rightarrow> Some (UBUS_STATUS_OK, [])
           | Some c \<Rightarrow> map_option (\<lambda>t. (UBUS_STATUS_OK, [t])) (dump_client c)))"

section \<open>Starting\<close>

definition wsubus_client_start_proxying :: "cl_env \<Rightarrow> nat \<Rightarrow> clvh_context \<Rightarrow> int \<times> clvh_context" where
  "wsubus_client_start_proxying E lws_ctx cs =
     (if \<not> cl_enabled cs then (-1, cs)
      else if cl_cert cs = None \<or> cl_key cs = None \<or> cl_ca cs = None then (-2, cs)
      else
        (case lws_create_vhost E of
           None \<Rightarrow> (-3, cs)
         | Some clvh \<Rightarrow>
             (0, cs\<lparr>cl_pclvh := Some clvh, cl_plws_ctx := Some lws_ctx,
                    cl_clients := map (\<lambda>c. c\<lparr>ci_info := (ci_info c)\<lparr>cc_vhost := Some clvh,
                                         cc_context := Some lws_ctx\<rparr>\<rparr>) (cl_clients cs)\<rparr>)))"

definition wsubus_client_set_cert_filepath :: "string \<Rightarrow> clvh_context \<Rightarrow> clvh_context" where
  "wsubus_client_set_cert_filepath filepath cs = cs\<lparr>cl_cert := Some filepath\<rparr>"

definition wsubus_client_set_private_key_filepath :: "string \<Rightarrow> clvh_context \<Rightarrow> clvh_context" where
  "wsubus_client_set_private_key_filepath filepath cs = cs\<lparr>cl_key := Some filepath\<rparr>"

definition wsubus_client_set_ca_filepath :: "string \<Rightarrow> clvh_context \<Rightarrow> clvh_context" where
  "wsubus_client_set_ca_filepath filepath cs = cs\<lparr>cl_ca := Some filepath\<rparr>"

definition wsubus_client_set_rpcd_integration :: "bool \<Rightarrow> clvh_context \<Rightarrow> clvh_context" where
  "wsubus_client_set_rpcd_integration connect_to_rpcd cs = cs\<lparr>cl_rpcd_integration := connect_to_rpcd\<rparr>"

definition wsubus_client_get_rpcd_integration :: "clvh_context \<Rightarrow> bool" where
  "wsubus_client_get_rpcd_integration cs = cl_rpcd_integration cs"

end
