(* ===== verification/Local_Stub.thy ===== *)
theory Local_Stub
  imports Peer Client_Manager
begin

text \<open>
  The stub objects that stand on the local bus for the objects of a remote one,
  \<open>src/src/local_stub.c\<close>: their names and signatures, their creation and destruction, the calls
  made to them, and the events of the remote bus replayed on the local one.

  The state of the proxy is the server's state (the connections with their remote buses), the
  client manager, the path patterns, the objects registered on the local bus, and what was sent
  to the local bus. The tree of stubs of a remote bus is the list of its elements in the order of
  their keys, as libubox links them. json-c, the lease file and the answers of the local bus are
  the record \<open>penv\<close>. \<open>strdup\<close> is taken to succeed.
\<close>

section \<open>State\<close>

text \<open>What is sent to the local bus: an event, a part of a reply, the end of a deferred request.\<close>

datatype bus_out =
    Bus_event string "blob_attr list"
  | Bus_reply nat "blob_attr list"
  | Bus_complete nat int

record proxy =
  px_server :: server
  px_clients :: clvh_context
  px_paths :: "string list"
  px_objects :: "wsu_local_stub list"
  px_next :: addr
  px_out :: "bus_out list"

datatype px_site = A_stub | A_method_args | A_objname | A_ip | A_objname_dup | A_mac | A_event

record penv =
  px_env :: env
  px_clenv :: cl_env
  px_alloc :: "px_site \<Rightarrow> bool"
  json_print :: "json \<Rightarrow> string option"
  json_alloc :: "req_alloc \<Rightarrow> bool"
  json_object_get_int :: "json \<Rightarrow> int"
  lws_get_peer_simple :: "wsi \<Rightarrow> nat \<Rightarrow> string"
  cert_common_name :: "wsi \<Rightarrow> int \<times> string"
  ubus_add_object :: "string \<Rightarrow> int"
  ubusx_prefix_mac :: bool
  dhcp_leases :: "string list option"

text \<open>
  \<open>dhcp_leases\<close> holds the lines \<open>fgets\<close> reads from \<open>/var/dhcp.leases\<close>; \<open>lws_get_peer_simple w n\<close>
  is the address of the other end as it fits a buffer of \<open>n\<close> bytes.
\<close>

definition UBUS_STATUS_NOT_SUPPORTED :: int where
  "UBUS_STATUS_NOT_SUPPORTED = 8"

section \<open>json-c\<close>

text \<open>
  The null value is the null pointer. A member that does not exist leaves a null pointer behind,
  an index past the end of an array gives one; the number of members is defined for objects only.
\<close>

fun is_array :: "json \<Rightarrow> bool" where
  "is_array (JArray _) = True"
| "is_array _ = False"

fun is_object :: "json \<Rightarrow> bool" where
  "is_object (JObject _) = True"
| "is_object _ = False"

fun is_string :: "json \<Rightarrow> bool" where
  "is_string (JString _) = True"
| "is_string _ = False"

fun is_int :: "json \<Rightarrow> bool" where
  "is_int (JInt _) = True"
| "is_int _ = False"

fun json_members :: "json \<Rightarrow> (string \<times> json) list option" where
  "json_members (JObject fs) = Some fs"
| "json_members _ = None"

definition json_string :: "penv \<Rightarrow> json \<Rightarrow> string option" where
  "json_string E j = (if j = JNull then None else Some (json_object_get_string (px_env E) j))"

section \<open>The remote bus of a connection\<close>

definition remote_of :: "wsi \<Rightarrow> proxy \<Rightarrow> (wsu_peer \<times> wsu_remote_bus) option" where
  "remote_of w px =
     (case wsi_to_peer (px_server px) w of
        None \<Rightarrow> None
      | Some peer \<Rightarrow> (case peer_u peer of URemote r \<Rightarrow> Some (peer, r) | UClient _ \<Rightarrow> None))"

definition set_remote :: "wsi \<Rightarrow> wsu_peer \<Rightarrow> wsu_remote_bus \<Rightarrow> proxy \<Rightarrow> proxy" where
  "set_remote w peer r px =
     px\<lparr>px_server := set_peer w (peer\<lparr>peer_u := URemote r\<rparr>) (px_server px)\<rparr>"

definition px_write :: "penv \<Rightarrow> wsi \<Rightarrow> string option \<Rightarrow> proxy \<Rightarrow> proxy option" where
  "px_write E w d px =
     map_option (\<lambda>s. px\<lparr>px_server := s\<rparr>) (queue_write (px_env E) w d (px_server px))"

section \<open>Names\<close>

text \<open>The string after the first slash, \<open>strchr(name, '/') + 1\<close>.\<close>

fun after_slash :: "string \<Rightarrow> string option" where
  "after_slash [] = None"
| "after_slash (c # s) = (if c = CHR ''/'' then Some s else after_slash s)"

definition proxied_name_size :: "string \<Rightarrow> nat" where
  "proxied_name_size name = length name + 50 + 2"

text \<open>Writing past the buffer is \<^term>\<open>None\<close>; \<open>strncat\<close> adds a NUL after the bytes it copies.\<close>

definition proxied_name_fill :: "penv \<Rightarrow> nat \<Rightarrow> wsi \<Rightarrow> string \<Rightarrow> string option" where
  "proxied_name_fill E sz w name =
     (let p = lws_get_peer_simple E w sz;
          p = (if strncmp p ''::ffff:'' 7 = 0 then drop 7 p else p);
          p = p @ take (sz - length p) ''/'';
          p = p @ take (sz - length p) name in
      if length p < sz then Some p else None)"

text \<open>\<open>sscanf(line, "%*s %18s %15s", mac, ip)\<close>: the number of assignments, the two strings.\<close>

definition is_space :: "char \<Rightarrow> bool" where
  "is_space c \<longleftrightarrow> c \<in> {CHR '' '', CHR 0x09, CHR 0x0A, CHR 0x0B, CHR 0x0C, CHR 0x0D}"

definition scan_word :: "nat \<Rightarrow> string \<Rightarrow> string \<times> string" where
  "scan_word n s =
     (let s = dropWhile is_space s; w = take n (takeWhile (\<lambda>c. \<not> is_space c) s) in (w, drop (length w) s))"

definition sscanf_lease :: "string \<Rightarrow> int \<times> string \<times> string" where
  "sscanf_lease line =
     (let (skipped, rest) = scan_word (length line) line; (mac, rest) = scan_word 18 rest; (ip, _) = scan_word 15 rest in
      if skipped = [] \<or> mac = [] then (-1, [], [])
      else if ip = [] then (1, mac, []) else (2, mac, ip))"

text \<open>The loop over the lines, with the content of \<open>mac\<close>.\<close>

fun lease_loop :: "string \<Rightarrow> string list \<Rightarrow> string \<Rightarrow> string" where
  "lease_loop ipaddr [] mac = mac"
| "lease_loop ipaddr (line # rest) _ =
     (let (rv, mac, ip) = sscanf_lease line in
      if rv \<noteq> 2 then lease_loop ipaddr rest mac
      else if strcmp ipaddr ip = 0 then mac
      else lease_loop ipaddr rest mac)"

definition get_mac_by_ip :: "penv \<Rightarrow> string \<Rightarrow> string option" where
  "get_mac_by_ip E ipaddr =
     (if \<not> px_alloc E A_mac then None
      else map_option (\<lambda>lines. lease_loop ipaddr lines []) (dhcp_leases E))"

definition proxied_name_mac_prefix :: "penv \<Rightarrow> string \<Rightarrow> nat \<Rightarrow> string" where
  "proxied_name_mac_prefix E name sz =
     (if \<not> ubusx_prefix_mac E then name
      else if length name < 3 \<or> sz \<le> 21 then name
      else
        (case after_slash name of
           None \<Rightarrow> name
         | Some objname \<Rightarrow>
             let ip = takeWhile (\<lambda>c. c \<noteq> CHR ''/'') name in
             if \<not> px_alloc E A_ip \<or> \<not> px_alloc E A_objname_dup then name
             else
               (case get_mac_by_ip E ip of
                  None \<Rightarrow> name
                | Some mac \<Rightarrow> take (sz - 1) (mac @ ''/'' @ objname))))"

section \<open>Signatures\<close>

text \<open>
  The methods of a stub made from a signature: one argument list for each method. A signature or
  an argument list that is not an object fails in json-c.
\<close>

definition policy_of :: "penv \<Rightarrow> (string \<times> json) list \<Rightarrow> (string \<times> blobmsg_type) list" where
  "policy_of E args = map (\<lambda>(aname, atype). (aname, blobmsg_type_from_str (json_string E atype))) args"

fun methods_of :: "penv \<Rightarrow> (string \<times> json) list \<Rightarrow> ubus_method_sig list option" where
  "methods_of E [] = Some []"
| "methods_of E ((mname, margs) # ms) = do {
     args \<leftarrow> json_members margs;
     rest \<leftarrow> methods_of E ms;
     Some (\<lparr>um_name = mname, um_policy = policy_of E args\<rparr> # rest)
   }"

fun same_args :: "penv \<Rightarrow> (string \<times> blobmsg_type) list \<Rightarrow> (string \<times> json) list \<Rightarrow> bool option" where
  "same_args E bs [] = Some True"
| "same_args E [] (_ # _) = None"
| "same_args E ((bname, btype) # bs) ((aname, atype) # as) =
     (if btype \<noteq> blobmsg_type_from_str (json_string E atype) then Some False
      else if strcmp bname aname \<noteq> 0 then Some False
      else same_args E bs as)"

fun same_methods :: "penv \<Rightarrow> ubus_method_sig list \<Rightarrow> (string \<times> json) list \<Rightarrow> bool option" where
  "same_methods E ms [] = Some True"
| "same_methods E [] (_ # _) = None"
| "same_methods E (m # ms) ((mname, margs) # sig) = do {
     args \<leftarrow> json_members margs;
     if length (um_policy m) \<noteq> length args then Some False
     else if strcmp (um_name m) mname \<noteq> 0 then Some False
     else do {
       same \<leftarrow> same_args E (um_policy m) args;
       if \<not> same then Some False else same_methods E ms sig
     }
   }"

definition wsu_local_stub_is_same_signature :: "penv \<Rightarrow> wsu_local_stub \<Rightarrow> json \<Rightarrow> bool option" where
  "wsu_local_stub_is_same_signature E stub signature = do {
     sig \<leftarrow> json_members signature;
     if length (st_methods stub) \<noteq> length sig then Some False
     else same_methods E (st_methods stub) sig
   }"

section \<open>Stubs\<close>

text \<open>\<open>avl_insert\<close> with \<open>avl_strcmp\<close> into a tree without duplicates.\<close>

definition stubs_insert :: "wsu_local_stub \<Rightarrow> wsu_local_stub list \<Rightarrow> wsu_local_stub list" where
  "stubs_insert stub t =
     (if list_ex (\<lambda>x. strcmp (st_key x) (st_key stub) = 0) t then t
      else takeWhile (\<lambda>x. strcmp (st_key x) (st_key stub) < 0) t @ stub #
           dropWhile (\<lambda>x. strcmp (st_key x) (st_key stub) < 0) t)"

definition wsu_local_stub_create :: "penv \<Rightarrow> wsi \<Rightarrow> string \<Rightarrow> json \<Rightarrow> proxy \<Rightarrow> proxy option" where
  "wsu_local_stub_create E w object signature px = do {
     (peer, remote) \<leftarrow> remote_of w px;
     sig \<leftarrow> json_members signature;
     methods \<leftarrow> methods_of E sig;
     if \<not> px_alloc E A_stub \<or> (\<not> px_alloc E A_method_args \<and> list_ex (\<lambda>m. um_policy m \<noteq> []) methods) \<or>
        \<not> px_alloc E A_objname
     then None
     else do {
       let sz = proxied_name_size object;
       name \<leftarrow> proxied_name_fill E sz w object;
       let name = proxied_name_mac_prefix E name sz;
       key \<leftarrow> after_slash name;
       let stub = \<lparr>st_addr = px_next px, st_wsi = w, st_key = key, st_name = name, st_methods = methods\<rparr>;
       let px = set_remote w peer (remote\<lparr>stubs := stubs_insert stub (stubs remote)\<rparr>) (px\<lparr>px_next := px_next px + 1\<rparr>);
       Some (if ubus_add_object E name = 0 then px\<lparr>px_objects := px_objects px @ [stub]\<rparr> else px)
     }
   }"

definition wsu_local_stub_destroy :: "wsu_local_stub \<Rightarrow> proxy \<Rightarrow> proxy option" where
  "wsu_local_stub_destroy stub px = do {
     (peer, remote) \<leftarrow> remote_of (st_wsi stub) px;
     let px = px\<lparr>px_objects := filter (\<lambda>x. st_addr x \<noteq> st_addr stub) (px_objects px)\<rparr>;
     Some (set_remote (st_wsi stub) peer
             (remote\<lparr>stubs := filter (\<lambda>x. st_addr x \<noteq> st_addr stub) (stubs remote)\<rparr>) px)
   }"

section \<open>Calls and events\<close>

text \<open>A method of a stub object is called on the local bus, with request \<open>req\<close>.\<close>

definition wsu_local_stub_handle_call ::
    "penv \<Rightarrow> wsu_local_stub \<Rightarrow> nat \<Rightarrow> string \<Rightarrow> blob_attr list \<Rightarrow> proxy \<Rightarrow> (int \<times> proxy) option" where
  "wsu_local_stub_handle_call E stub req meth args px = do {
     (peer, remote) \<leftarrow> remote_of (st_wsi stub) px;
     let args_jobj = Option.bind (blobmsg_format_json (lib (px_env E)) args) (json_tokener_parse (px_env E));
     local_name \<leftarrow> after_slash (st_name stub);
     let remote = remote\<lparr>call_id := call_id remote + 1\<rparr>;
     let d = jsonrpc__req_ubuscall (json_print E) (json_alloc E) (call_id remote) (Some (peer_sid peer))
               local_name meth args_jobj;
     (case wsu_proxied_call_new remote of
        None \<Rightarrow> Some (UBUS_STATUS_NOT_SUPPORTED, set_remote (st_wsi stub) peer remote px)
      | Some (p, remote) \<Rightarrow> do {
          let remote = remote\<lparr>calls := (calls remote)[p := \<lparr>jsonrpc_id = call_id remote, ureq = req\<rparr>]\<rparr>;
          px \<leftarrow> px_write E (st_wsi stub) d (set_remote (st_wsi stub) peer remote px);
          Some (0, px)
        })
   }"

text \<open>The name and the data of the event; only an object is copied as data.\<close>

definition wsu_local_proxied_event_create ::
    "penv \<Rightarrow> wsi \<Rightarrow> string \<Rightarrow> json \<Rightarrow> (string \<times> blob_attr list) option" where
  "wsu_local_proxied_event_create E w event_name event_data =
     (if \<not> px_alloc E A_event then None
      else do {
        name \<leftarrow> proxied_name_fill E (proxied_name_size event_name) w event_name;
        Some (name, if is_object event_data then blobmsg_add_object (px_env E) event_data else [])
      })"

end
