(* ===== verification/Proxy.thy ===== *)
theory Proxy
  imports Local_Stub
begin

text \<open>
  The protocol of the connections to other owsd servers, \<open>src/src/ws_ubusproxy.c\<close>: the login, the
  subscription to all events and the listing of the remote objects, the merge of a list with the
  stubs that exist, the answers to proxied calls and the events of the remote bus.
\<close>

section \<open>The merge of the remote list with the stubs\<close>

text \<open>
  A pointer into the list of the tree: null, an element, or the list head itself, which the list
  macros of libubox treat as an element. The key of the head is not a string, so reading it is a
  fault. The address of a destroyed element is not used again.
\<close>

datatype cursor = CNull | CAt addr | CHead

definition cursor_of :: "wsu_local_stub list \<Rightarrow> cursor" where
  "cursor_of t = (case t of [] \<Rightarrow> CHead | x # _ \<Rightarrow> CAt (st_addr x))"

definition avl_last_element :: "wsu_local_stub list \<Rightarrow> cursor" where
  "avl_last_element t = cursor_of (rev t)"

definition avl_find_ge_element :: "wsu_local_stub list \<Rightarrow> string \<Rightarrow> wsu_local_stub option" where
  "avl_find_ge_element t key = List.find (\<lambda>x. \<not> strcmp (st_key x) key < 0) t"

definition stub_at :: "wsu_local_stub list \<Rightarrow> cursor \<Rightarrow> wsu_local_stub option" where
  "stub_at t c = (case c of CAt a \<Rightarrow> List.find (\<lambda>x. st_addr x = a) t | _ \<Rightarrow> None)"

text \<open>The elements before and from a cursor on; \<open>avl_next_element\<close> goes round through the head.\<close>

fun before_cursor :: "wsu_local_stub list \<Rightarrow> cursor \<Rightarrow> wsu_local_stub list" where
  "before_cursor t (CAt a) = takeWhile (\<lambda>x. st_addr x \<noteq> a) t"
| "before_cursor t CHead = t"
| "before_cursor t CNull = []"

fun from_cursor :: "wsu_local_stub list \<Rightarrow> cursor \<Rightarrow> wsu_local_stub list" where
  "from_cursor t (CAt a) = dropWhile (\<lambda>x. st_addr x \<noteq> a) t"
| "from_cursor t CHead = []"
| "from_cursor t CNull = []"

definition avl_next_element :: "wsu_local_stub list \<Rightarrow> cursor \<Rightarrow> cursor" where
  "avl_next_element t c = (case from_cursor t c of [] \<Rightarrow> cursor_of t | x # xs \<Rightarrow> cursor_of xs)"

text \<open>
  The loop \<open>avl_for_element_range_safe\<close> from an element on, given with the element before it: it
  ends on an element whose predecessor is \<open>last\<close>, or by its \<open>break\<close>.
\<close>

fun advance :: "cursor \<Rightarrow> string \<Rightarrow> cursor \<Rightarrow> wsu_local_stub list \<Rightarrow> int \<Rightarrow> (cursor \<times> int) option" where
  "advance lst obj_name prv [] cmp_result = (if prv = lst then Some (CHead, cmp_result) else None)"
| "advance lst obj_name prv (x # xs) cmp_result =
     (if prv = lst then Some (CAt (st_addr x), cmp_result)
      else
        let cmp_result = strcmp (st_key x) obj_name in
        if cmp_result \<ge> 0 then Some (CAt (st_addr x), cmp_result)
        else advance lst obj_name (CAt (st_addr x)) xs cmp_result)"

definition advance_cur ::
    "wsu_local_stub list \<Rightarrow> cursor \<Rightarrow> string \<Rightarrow> cursor \<Rightarrow> int \<Rightarrow> (cursor \<times> int) option" where
  "advance_cur t lst obj_name cur cmp_result =
     (case cur of
        CNull \<Rightarrow> Some (CNull, cmp_result)
      | CAt a \<Rightarrow>
          if stub_at t cur = None then None
          else advance lst obj_name (cursor_of (rev (before_cursor t cur))) (from_cursor t cur) cmp_result
      | CHead \<Rightarrow> advance lst obj_name (cursor_of (rev t)) [] cmp_result)"

text \<open>The body of the loop over the objects of the list.\<close>

definition merge_object ::
    "penv \<Rightarrow> wsi \<Rightarrow> cursor \<Rightarrow> string \<times> json \<Rightarrow> cursor \<times> int \<times> proxy \<Rightarrow> (cursor \<times> int \<times> proxy) option" where
  "merge_object E w lst obj st = do {
     let (obj_name, obj_methods) = obj;
     let (cur, cmp_result, px) = st;
     (_, remote) \<leftarrow> remote_of w px;
     (cur, cmp_result) \<leftarrow> advance_cur (stubs remote) lst obj_name cur cmp_result;
     let nxt = avl_next_element (stubs remote) cur;
     let create = (\<lambda>px. if \<not> wsubus_client_match_pattern olist_ops (px_paths px) obj_name then Some px
                        else wsu_local_stub_create E w obj_name obj_methods px);
     if cmp_result \<noteq> 0 then map_option (\<lambda>px. (cur, cmp_result, px)) (create px)
     else do {
       stub \<leftarrow> stub_at (stubs remote) cur;
       same \<leftarrow> wsu_local_stub_is_same_signature E stub obj_methods;
       if same then Some (cur, cmp_result, px)
       else do {
         px \<leftarrow> wsu_local_stub_destroy stub px;
         map_option (\<lambda>px. (nxt, cmp_result, px)) (create px)
       }
     }
   }"

fun merge_objects ::
    "penv \<Rightarrow> wsi \<Rightarrow> cursor \<Rightarrow> (string \<times> json) list \<Rightarrow> cursor \<times> int \<times> proxy \<Rightarrow> (cursor \<times> int \<times> proxy) option" where
  "merge_objects E w lst [] st = Some st"
| "merge_objects E w lst (obj # objs) st = Option.bind (merge_object E w lst obj st) (merge_objects E w lst objs)"

definition merge_list :: "penv \<Rightarrow> wsi \<Rightarrow> (string \<times> json) list \<Rightarrow> proxy \<Rightarrow> proxy option" where
  "merge_list E w objs px = do {
     (_, remote) \<leftarrow> remote_of w px;
     let t = stubs remote;
     let start = (case objs of
           [] \<Rightarrow> (CNull, 1)
         | (key, _) # _ \<Rightarrow>
             (case avl_find_ge_element t key of
                None \<Rightarrow> (CNull, 1)
              | Some x \<Rightarrow> (CAt (st_addr x), strcmp (st_key x) key)));
     (_, _, px) \<leftarrow> merge_objects E w (avl_last_element t) objs (fst start, snd start, px);
     Some px
   }"

section \<open>Answers\<close>

text \<open>
  \<open>++remote->call_id\<close>, a request with that id, and the state that waits for its answer. \<open>build\<close>
  builds the request, \<open>wait\<close> sets the field of \<open>waiting_for\<close>.
\<close>

definition send_request ::
    "penv \<Rightarrow> wsi \<Rightarrow> (int \<Rightarrow> string option \<Rightarrow> string option) \<Rightarrow> (wsu_remote_bus \<Rightarrow> wsu_remote_bus) \<Rightarrow>
     proxy \<Rightarrow> proxy option" where
  "send_request E w build wait px = do {
     (peer, remote) \<leftarrow> remote_of w px;
     let remote = remote\<lparr>call_id := call_id remote + 1\<rparr>;
     px_write E w (build (call_id remote) (Some (peer_sid peer))) (set_remote w peer (wait remote) px)
   }"

definition send_listen :: "penv \<Rightarrow> wsi \<Rightarrow> proxy \<Rightarrow> proxy option" where
  "send_listen E w =
     send_request E w (\<lambda>i sid. jsonrpc__req_ubuslisten (json_print E) (json_alloc E) i sid ''*'')
       (\<lambda>r. r\<lparr>wait_listen := True\<rparr>)"

definition send_list :: "penv \<Rightarrow> wsi \<Rightarrow> proxy \<Rightarrow> proxy option" where
  "send_list E w =
     send_request E w (\<lambda>i sid. jsonrpc__req_ubuslist (json_print E) (json_alloc E) i sid ''*'')
       (\<lambda>r. r\<lparr>wait_list_id := call_id r\<rparr>)"

definition on_login_result :: "penv \<Rightarrow> wsi \<Rightarrow> json \<Rightarrow> proxy \<Rightarrow> proxy option" where
  "on_login_result E w tmp px =
     (if \<not> is_array tmp \<or> json_object_get_int E (json_array_get_idx tmp 0) \<noteq> 0 then Some px
      else
        let (found, session) = json_get_ex (json_array_get_idx tmp 1) ''ubus_rpc_session'' in
        if found \<and> is_string session then do {
          (peer, remote) \<leftarrow> remote_of w px;
          let px = set_remote w (wsu_sid_update peer (json_object_get_string (px_env E) session))
                     (remote\<lparr>wait_login := False\<rparr>) px;
          send_listen E w px
        }
        else Some px)"

definition on_listen_result :: "penv \<Rightarrow> wsi \<Rightarrow> json \<Rightarrow> proxy \<Rightarrow> proxy option" where
  "on_listen_result E w tmp px =
     (if is_array tmp \<and> json_object_get_int E (json_array_get_idx tmp 0) = 0 then do {
        (peer, remote) \<leftarrow> remote_of w px;
        send_list E w (set_remote w peer (remote\<lparr>wait_listen := False\<rparr>) px)
      }
      else Some px)"

definition on_list_result :: "penv \<Rightarrow> wsi \<Rightarrow> json \<Rightarrow> proxy \<Rightarrow> proxy option" where
  "on_list_result E w tmp px =
     (if \<not> is_array tmp \<or> json_object_get_int E (json_array_get_idx tmp 0) \<noteq> 0 then Some px
      else
        (case json_array_get_idx tmp 1 of
           JObject objs \<Rightarrow> do {
             px \<leftarrow> merge_list E w objs px;
             (peer, remote) \<leftarrow> remote_of w px;
             Some (set_remote w peer (remote\<lparr>wait_list_id := 0\<rparr>) px)
           }
         | _ \<Rightarrow> Some px))"

text \<open>The answer to the call with slot \<open>p\<close>: what is sent to the local bus.\<close>

definition call_answer :: "penv \<Rightarrow> nat \<Rightarrow> json \<Rightarrow> bus_out list" where
  "call_answer E req tmp =
     (if is_array tmp then
        let data_jobj = json_array_get_idx tmp 1; rc_jobj = json_array_get_idx tmp 0 in
        (if is_object data_jobj then [Bus_reply req (blobmsg_add_object (px_env E) data_jobj)] else []) @
        (if is_int rc_jobj then [Bus_complete req (json_object_get_int E rc_jobj)] else [])
      else [Bus_complete req UBUS_STATUS_UNKNOWN_ERROR])"

definition on_call_result :: "penv \<Rightarrow> wsi \<Rightarrow> json \<Rightarrow> json \<Rightarrow> proxy \<Rightarrow> proxy option" where
  "on_call_result E w id_jobj tmp px = do {
     (peer, remote) \<leftarrow> remote_of w px;
     if \<not> is_int id_jobj then Some px
     else
       let rid = json_object_get_int E id_jobj in
       if rid = 0 then Some px
       else
         (case List.find (\<lambda>p. jsonrpc_id (calls remote ! p) = rid) (wsu_proxied_call_foreach remote) of
            None \<Rightarrow> Some px
          | Some p \<Rightarrow>
              let px = px\<lparr>px_out := px_out px @ call_answer E (ureq (calls remote ! p)) tmp\<rparr> in
              Some (set_remote w peer (wsu_proxied_call_free remote (int p)) px))
   }"

text \<open>What a result is depends on what the connection waits for.\<close>

definition on_result :: "penv \<Rightarrow> wsi \<Rightarrow> json \<Rightarrow> json \<Rightarrow> proxy \<Rightarrow> proxy option" where
  "on_result E w id_jobj tmp px = do {
     (_, remote) \<leftarrow> remote_of w px;
     if wait_login remote then on_login_result E w tmp px
     else if wait_listen remote then on_listen_result E w tmp px
     else if wait_list_id remote \<noteq> 0 \<and> is_int id_jobj \<and> json_object_get_int E id_jobj = wait_list_id remote
     then on_list_result E w tmp px
     else if wait_call remote \<noteq> 0 then on_call_result E w id_jobj tmp px
     else Some px
   }"

section \<open>Events\<close>

text \<open>
  \<open>data\<close> is the member \<open>data\<close> of the event. An \<open>ubus.object.add\<close> or \<open>ubus.object.remove\<close> event
  without a path in its data is replayed with the value of the member \<open>path\<close> as its data.
\<close>

definition on_event :: "penv \<Rightarrow> wsi \<Rightarrow> string \<Rightarrow> json \<Rightarrow> proxy \<Rightarrow> proxy option" where
  "on_event E w type data px =
     (let path = snd (json_get_ex data ''path'');
          replay = (\<lambda>d. map_option (\<lambda>(name, b). px\<lparr>px_out := px_out px @ [Bus_event name b]\<rparr>)
                          (wsu_local_proxied_event_create E w type d)) in
      if strcmp ''ubus.object.add'' type = 0 then
        if is_string path then send_list E w px else replay path
      else if strcmp ''ubus.object.remove'' type = 0 then
        if is_string path then do {
          (_, remote) \<leftarrow> remote_of w px;
          (case List.find (\<lambda>x. strcmp (st_key x) (json_object_get_string (px_env E) path) = 0) (stubs remote) of
             None \<Rightarrow> Some px
           | Some cur \<Rightarrow> wsu_local_stub_destroy cur px)
        }
        else replay path
      else replay data)"

text \<open>A message that is not an answer; a member \<open>method\<close> that is null is a null string to \<open>strcmp\<close>.\<close>

definition on_method :: "penv \<Rightarrow> wsi \<Rightarrow> json \<Rightarrow> json \<Rightarrow> proxy \<Rightarrow> proxy option" where
  "on_method E w jobj tmp px = do {
     name \<leftarrow> json_string E tmp;
     let params = snd (json_get_ex jobj ''params'');
     let type_jobj = snd (json_get_ex params ''type'');
     if strcmp ''event'' name = 0 \<and> is_object params \<and> is_string type_jobj
     then on_event E w (json_object_get_string (px_env E) type_jobj) (snd (json_get_ex params ''data'')) px
     else Some px
   }"

section \<open>The callback\<close>

definition proxy_receive :: "penv \<Rightarrow> wsi \<Rightarrow> string \<Rightarrow> proxy \<Rightarrow> proxy option" where
  "proxy_receive E w txt px = do {
     (_, remote) \<leftarrow> remote_of w px;
     if \<not> alloc (px_env E) A_tokener then None
     else
       (case fst (json_tokener_parse_ex (px_env E) [] txt) of
          None \<Rightarrow> Some px
        | Some jobj \<Rightarrow>
            let id_jobj = snd (json_get_ex jobj ''id'');
                (is_result, result) = json_get_ex jobj ''result'';
                (is_method, meth) = json_get_ex jobj ''method'' in
            if is_result then on_result E w id_jobj result px
            else if is_method then on_method E w jobj meth px
            else Some px)
   }"

text \<open>The login request; a connection without TLS or certificate sends nothing.\<close>

definition send_login :: "penv \<Rightarrow> wsi \<Rightarrow> proxy \<Rightarrow> proxy option" where
  "send_login E w px =
     (if \<not> lws_is_ssl (px_env E) w then Some px
      else
        let (rc, name) = cert_common_name E w in
        if rc \<noteq> 0 then Some px
        else
          send_request E w (\<lambda>i _. jsonrpc__req_ubuscall (json_print E) (json_alloc E) i None ''session'' ''login''
                              (Some (JObject [(''certificate'', JString name)])))
            (\<lambda>r. r\<lparr>wait_login := True\<rparr>) px)"

definition proxy_established :: "penv \<Rightarrow> wsi \<Rightarrow> proxy \<Rightarrow> (int \<times> proxy) option" where
  "proxy_established E w px =
     (if wsubus_client_should_destroy (Some w) (px_clients px) then Some (-1, px)
      else
        let (rc, s) = wsu_peer_init (px_env E) w WSUBUS_ROLE_REMOTE (px_server px); px = px\<lparr>px_server := s\<rparr> in
        if rc \<noteq> 0 then Some (-1, px)
        else
          let px = px\<lparr>px_clients := wsubus_client_set_state (Some w) CONNECTION_STATE_CONNECTED (px_clients px)\<rparr> in
          map_option (Pair 0)
            (if wsubus_client_get_rpcd_integration (px_clients px) then send_login E w px
             else do {
               (peer, remote) \<leftarrow> remote_of w px;
               send_listen E w (set_remote w (wsu_sid_update peer ''X-tls-certificate'') remote px)
             }))"

fun destroy_stubs :: "wsu_local_stub list \<Rightarrow> proxy \<Rightarrow> proxy option" where
  "destroy_stubs [] px = Some px"
| "destroy_stubs (x # xs) px = Option.bind (wsu_local_stub_destroy x px) (destroy_stubs xs)"

text \<open>
  The connection is closed: \<open>wsu_peer_deinit\<close> destroys the stubs, the client manager reconnects or
  forgets the client. The library frees the peer after the callback.
\<close>

definition proxy_closed :: "wsi \<Rightarrow> proxy \<Rightarrow> proxy option" where
  "proxy_closed w px = do {
     px \<leftarrow> (case remote_of w px of None \<Rightarrow> Some px | Some (_, remote) \<Rightarrow> destroy_stubs (stubs remote) px);
     s \<leftarrow> wsu_peer_deinit w (px_server px);
     let role_client = Option.bind (peers s w) client_of \<noteq> None;
     let px = px\<lparr>px_server := s\<lparr>peers := (peers s)(w := None)\<rparr>\<rparr>;
     let cs = px_clients px;
     Some (px\<lparr>px_clients :=
       (if role_client then cs
        else if wsubus_client_should_destroy (Some w) cs then wsubus_client_destroy (Some w) cs
        else wsubus_client_reconnect (Some w)
               (wsubus_client_set_state (Some w) CONNECTION_STATE_DISCONNECTED cs))\<rparr>)
   }"

definition proxy_writeable :: "penv \<Rightarrow> wsi \<Rightarrow> proxy \<Rightarrow> (int \<times> proxy) option" where
  "proxy_writeable E w px =
     (if wsubus_client_should_destroy (Some w) (px_clients px) then Some (-1, px)
      else map_option (\<lambda>(rc, _, s). (rc, px\<lparr>px_server := s\<rparr>)) (wsubus_tx_text (px_env E) w (px_server px)))"

datatype proxy_reason =
    PROXY_WRITEABLE
  | PROXY_CLOSED
  | PROXY_CONNECTION_ERROR
  | PROXY_INIT "int option"
  | PROXY_ESTABLISHED
  | PROXY_RECEIVE string
  | PROXY_OTHER

definition CONTEXT_PORT_NO_LISTEN :: int where
  "CONTEXT_PORT_NO_LISTEN = -1"

definition ws_ubusproxy_cb :: "penv \<Rightarrow> wsi \<Rightarrow> proxy_reason \<Rightarrow> proxy \<Rightarrow> (int \<times> proxy) option" where
  "ws_ubusproxy_cb E w reason px =
     (case reason of
        PROXY_WRITEABLE \<Rightarrow> proxy_writeable E w px
      | PROXY_CLOSED \<Rightarrow> map_option (Pair 0) (proxy_closed w px)
      | PROXY_CONNECTION_ERROR \<Rightarrow> Some (0, px\<lparr>px_clients := proxy_connection_error w (px_clients px)\<rparr>)
      | PROXY_INIT port \<Rightarrow>
          Some (0, if port = Some CONTEXT_PORT_NO_LISTEN
                   then px\<lparr>px_clients := wsubus_client_connect_all (px_clients px)\<rparr> else px)
      | PROXY_ESTABLISHED \<Rightarrow> proxy_established E w px
      | PROXY_RECEIVE txt \<Rightarrow> map_option (Pair 0) (proxy_receive E w txt px)
      | PROXY_OTHER \<Rightarrow> Some (0, px))"

end
