(* ===== verification/Proxy_Inv.thy ===== *)
theory Proxy_Inv
  imports Proxy
begin

text \<open>
  The stubs of a remote bus: their names, their order, and what the merge of a list of remote
  objects does to them.
\<close>

section \<open>Names\<close>

text \<open>
  What the names rely on: the address of the other end fits 50 bytes and, like the lines of the
  lease file, has no slash.
\<close>

definition names_ok :: "penv \<Rightarrow> bool" where
  "names_ok E \<longleftrightarrow>
     (\<forall>w n. length (lws_get_peer_simple E w n) \<le> 50 \<and> CHR ''/'' \<notin> set (lws_get_peer_simple E w n)) \<and>
     (\<forall>ls. dhcp_leases E = Some ls \<longrightarrow> (\<forall>l\<in>set ls. CHR ''/'' \<notin> set l))"

definition peer_prefix :: "penv \<Rightarrow> wsi \<Rightarrow> nat \<Rightarrow> string" where
  "peer_prefix E w sz =
     (let p = lws_get_peer_simple E w sz in if strncmp p ''::ffff:'' 7 = 0 then drop 7 p else p)"

lemma peer_prefix_ok:
  assumes "names_ok E"
  shows "length (peer_prefix E w sz) \<le> 50" "CHR ''/'' \<notin> set (peer_prefix E w sz)"
  using assms in_set_dropD [of "CHR ''/''" 7 "lws_get_peer_simple E w sz"]
  by (auto simp: names_ok_def peer_prefix_def Let_def intro: le_trans [OF diff_le_self])

lemma fill_eq:
  assumes "names_ok E"
  shows "proxied_name_fill E (proxied_name_size name) w name =
    Some (peer_prefix E w (proxied_name_size name) @ ''/'' @ name)"
proof -
  define p where "p = peer_prefix E w (proxied_name_size name)"
  have "length p \<le> 50" unfolding p_def by (rule peer_prefix_ok [OF assms])
  then have "take (proxied_name_size name - length p) ''/'' = ''/''"
    "take (proxied_name_size name - length (p @ ''/'')) name = name" "length (p @ ''/'' @ name) < proxied_name_size name"
    by (simp_all add: proxied_name_size_def)
  then show ?thesis
    unfolding proxied_name_fill_def Let_def
    by (simp only: p_def [symmetric, unfolded peer_prefix_def Let_def] p_def [symmetric] append_assoc if_True)
qed

lemma after_slash_append: "CHR ''/'' \<notin> set p \<Longrightarrow> after_slash (p @ CHR ''/'' # s) = Some s"
  by (induction p) auto

lemma before_slash_append: "CHR ''/'' \<notin> set p \<Longrightarrow> takeWhile (\<lambda>c. c \<noteq> CHR ''/'') (p @ CHR ''/'' # s) = p"
  by (induction p) auto

lemma scan_word_set: "set (fst (scan_word n s)) \<subseteq> set s" "set (snd (scan_word n s)) \<subseteq> set s"
  and scan_word_length: "length (fst (scan_word n s)) \<le> n"
  by (auto simp: scan_word_def Let_def dest!: in_set_takeD in_set_dropD set_takeWhileD set_dropWhileD)

lemma lease_mac:
  assumes "sscanf_lease line = (rv, mac, ip)"
  shows "set mac \<subseteq> set line" "length mac \<le> 18"
proof -
  obtain sk r mac' r' ip' r'' where "scan_word (length line) line = (sk, r)" "scan_word 18 r = (mac', r')"
    "scan_word 15 r' = (ip', r'')"
    by (metis surj_pair)
  moreover from this have "set mac' \<subseteq> set line" "length mac' \<le> 18"
    using scan_word_set [of "length line" line] scan_word_set [of 18 r] scan_word_length [of 18 r] by auto
  ultimately show "set mac \<subseteq> set line" "length mac \<le> 18"
    using assms by (auto simp: sscanf_lease_def split: if_splits)
qed

lemma lease_loop_mac:
  assumes "\<forall>l\<in>set ls. CHR ''/'' \<notin> set l" "CHR ''/'' \<notin> set m" "length m \<le> 18"
  shows "CHR ''/'' \<notin> set (lease_loop ip ls m) \<and> length (lease_loop ip ls m) \<le> 18"
  using assms
proof (induction ls arbitrary: m)
  case (Cons l ls)
  obtain rv mac i where l: "sscanf_lease l = (rv, mac, i)" by (metis surj_pair)
  then have "CHR ''/'' \<notin> set mac" "length mac \<le> 18" using lease_mac [OF l] Cons.prems(1) by auto
  then show ?case using Cons l by simp
qed simp

text \<open>The name of a stub: the address of the other end, or a hardware address, a slash, the object.\<close>

lemma stub_name:
  assumes ok: "names_ok E" and sz: "sz = proxied_name_size object"
  shows "\<exists>p. CHR ''/'' \<notin> set p \<and> proxied_name_mac_prefix E (peer_prefix E w sz @ ''/'' @ object) sz = p @ ''/'' @ object"
proof -
  let ?p = "peer_prefix E w sz"
  note p = peer_prefix_ok [OF ok, of w sz]
  show ?thesis
  proof (cases "proxied_name_mac_prefix E (?p @ ''/'' @ object) sz = ?p @ ''/'' @ object")
    case False
    then obtain ls where ls: "dhcp_leases E = Some ls" and
      eq: "proxied_name_mac_prefix E (?p @ ''/'' @ object) sz = take (sz - 1) (lease_loop ?p ls [] @ ''/'' @ object)"
      using p by (auto simp: proxied_name_mac_prefix_def get_mac_by_ip_def Let_def after_slash_append
          before_slash_append split: if_splits option.splits)
    have m: "CHR ''/'' \<notin> set (lease_loop ?p ls []) \<and> length (lease_loop ?p ls []) \<le> 18"
      by (rule lease_loop_mac) (use ok ls in \<open>auto simp: names_ok_def\<close>)
    then have "take (sz - 1) (lease_loop ?p ls [] @ ''/'' @ object) = lease_loop ?p ls [] @ ''/'' @ object"
      by (intro take_all) (simp add: sz proxied_name_size_def)
    then show ?thesis using eq m by metis
  qed (use p in blast)
qed

section \<open>The tree of stubs\<close>

definition stubs_ok :: "wsi \<Rightarrow> addr \<Rightarrow> wsu_local_stub list \<Rightarrow> bool" where
  "stubs_ok w n t \<longleftrightarrow>
     sorted_wrt (\<lambda>x y. bytes (st_key x) < bytes (st_key y)) t \<and> distinct (map st_addr t) \<and>
     (\<forall>x\<in>set t. st_addr x < n \<and> st_wsi x = w)"

lemma stubs_insert_split:
  assumes "\<forall>x\<in>set A. bytes (st_key x) < bytes (st_key s)" "\<forall>x\<in>set B. bytes (st_key s) < bytes (st_key x)"
  shows "stubs_insert s (A @ B) = A @ s # B"
proof -
  have "takeWhile (\<lambda>x. strcmp (st_key x) (st_key s) < 0) (A @ B) = A @ takeWhile (\<lambda>x. strcmp (st_key x) (st_key s) < 0) B"
    "dropWhile (\<lambda>x. strcmp (st_key x) (st_key s) < 0) (A @ B) = dropWhile (\<lambda>x. strcmp (st_key x) (st_key s) < 0) B"
    using assms(1) by (simp_all add: strcmp_neg)
  moreover have "takeWhile (\<lambda>x. strcmp (st_key x) (st_key s) < 0) B = []"
    "dropWhile (\<lambda>x. strcmp (st_key x) (st_key s) < 0) B = B"
    using assms(2) by (cases B; force simp: strcmp_neg)+
  moreover have "\<not> list_ex (\<lambda>x. strcmp (st_key x) (st_key s) = 0) (A @ B)"
    using assms by (auto simp: list_ex_iff)
  ultimately show ?thesis by (simp only: stubs_insert_def if_False append_assoc) simp
qed

section \<open>Creating and destroying\<close>

lemma remote_of_set [simp]:
  "remote_of v (set_remote w peer r px) = (if v = w then Some (peer\<lparr>peer_u := URemote r\<rparr>, r) else remote_of v px)"
  by (simp add: remote_of_def set_remote_def set_peer_def wsi_to_peer_def)

lemma set_remote_frame [simp]:
  "px_paths (set_remote w peer r px) = px_paths px" "px_objects (set_remote w peer r px) = px_objects px"
  "px_next (set_remote w peer r px) = px_next px" "px_out (set_remote w peer r px) = px_out px"
  "px_clients (set_remote w peer r px) = px_clients px"
  by (simp_all add: set_remote_def)

lemma remote_of_frame [simp]:
  "remote_of v (px\<lparr>px_objects := os\<rparr>) = remote_of v px" "remote_of v (px\<lparr>px_next := n\<rparr>) = remote_of v px"
  "remote_of v (px\<lparr>px_out := out\<rparr>) = remote_of v px" "remote_of v (px\<lparr>px_clients := cl\<rparr>) = remote_of v px"
  by (simp_all add: remote_of_def)

text \<open>The stubs of connection \<open>w\<close> are \<open>t\<close>.\<close>

definition has_stubs :: "wsi \<Rightarrow> proxy \<Rightarrow> wsu_local_stub list \<Rightarrow> bool" where
  "has_stubs w px t \<longleftrightarrow> (\<exists>peer r. remote_of w px = Some (peer, r) \<and> stubs r = t) \<and> stubs_ok w (px_next px) t"

definition made_from :: "penv \<Rightarrow> wsi \<Rightarrow> string \<Rightarrow> json \<Rightarrow> wsu_local_stub \<Rightarrow> bool" where
  "made_from E w object signature x \<longleftrightarrow>
     st_wsi x = w \<and> st_key x = object \<and> after_slash (st_name x) = Some object \<and>
     Option.bind (json_members signature) (methods_of E) = Some (st_methods x)"

lemma create_effect:
  assumes ok: "names_ok E" and r: "remote_of w px = Some (peer, r)"
    and c: "wsu_local_stub_create E w object signature px = Some px'"
  shows "\<exists>x. made_from E w object signature x \<and> st_addr x = px_next px \<and>
     px' = set_remote w peer (r\<lparr>stubs := stubs_insert x (stubs r)\<rparr>)
             (px\<lparr>px_next := px_next px + 1,
                 px_objects := px_objects px @ (if ubus_add_object E (st_name x) = 0 then [x] else [])\<rparr>)"
proof -
  let ?sz = "proxied_name_size object"
  obtain p where p: "CHR ''/'' \<notin> set p"
    "proxied_name_mac_prefix E (peer_prefix E w ?sz @ ''/'' @ object) ?sz = p @ ''/'' @ object"
    using stub_name [OF ok refl] by blast
  obtain ms where ms: "Option.bind (json_members signature) (methods_of E) = Some ms"
    using c r by (auto simp: wsu_local_stub_create_def bind_conv split: if_splits)
  let ?x = "\<lparr>st_addr = px_next px, st_wsi = w, st_key = object, st_name = p @ ''/'' @ object, st_methods = ms\<rparr>"
  have "made_from E w object signature ?x" using ms p(1) by (simp add: made_from_def after_slash_append)
  moreover have "px' = set_remote w peer (r\<lparr>stubs := stubs_insert ?x (stubs r)\<rparr>)
             (px\<lparr>px_next := px_next px + 1,
                 px_objects := px_objects px @ (if ubus_add_object E (st_name ?x) = 0 then [?x] else [])\<rparr>)"
    using c ms by (auto simp: wsu_local_stub_create_def r bind_conv fill_eq [OF ok, simplified] p(1) p(2) [simplified]
        after_slash_append Let_def set_remote_def split: if_splits)
  ultimately show ?thesis by (intro exI [of _ ?x]) simp
qed

lemma stubs_ok_insert:
  assumes "stubs_ok w n (A @ B)" "\<forall>y\<in>set A. bytes (st_key y) < bytes (st_key x)"
    "\<forall>y\<in>set B. bytes (st_key x) < bytes (st_key y)" "st_addr x = n" "st_wsi x = w"
  shows "stubs_ok w (Suc n) (A @ x # B)"
  using assms by (auto simp: stubs_ok_def sorted_wrt_append less_Suc_eq)

lemma create_has_stubs:
  assumes ok: "names_ok E" and h: "has_stubs w px (A @ B)"
    and new: "\<forall>x\<in>set A. bytes (st_key x) < bytes object" "\<forall>x\<in>set B. bytes object < bytes (st_key x)"
    and c: "wsu_local_stub_create E w object signature px = Some px'"
  shows "\<exists>x. made_from E w object signature x \<and> st_addr x = px_next px \<and> has_stubs w px' (A @ x # B) \<and>
    px_paths px' = px_paths px"
proof -
  obtain peer r where r: "remote_of w px = Some (peer, r)" "stubs r = A @ B" and s: "stubs_ok w (px_next px) (A @ B)"
    using h by (auto simp: has_stubs_def)
  obtain x where x: "made_from E w object signature x" "st_addr x = px_next px"
    "px' = set_remote w peer (r\<lparr>stubs := stubs_insert x (stubs r)\<rparr>)
       (px\<lparr>px_next := px_next px + 1,
           px_objects := px_objects px @ (if ubus_add_object E (st_name x) = 0 then [x] else [])\<rparr>)"
    using create_effect [OF ok r(1) c] by blast
  then have "stubs_insert x (A @ B) = A @ x # B"
    using new by (intro stubs_insert_split) (auto simp: made_from_def)
  then have "has_stubs w px' (A @ x # B)"
    using stubs_ok_insert [OF s, of x] x new r(2) by (auto simp: has_stubs_def made_from_def)
  then show ?thesis using x(1,2) by (intro exI [of _ x]) (simp add: x(3))
qed

lemma destroy_has_stubs:
  assumes h: "has_stubs w px (A @ x # B)"
  shows "\<exists>px'. wsu_local_stub_destroy x px = Some px' \<and> has_stubs w px' (A @ B) \<and> px_paths px' = px_paths px \<and>
    px_next px' = px_next px \<and> px_objects px' = filter (\<lambda>y. st_addr y \<noteq> st_addr x) (px_objects px)"
proof -
  obtain peer r where r: "remote_of w px = Some (peer, r)" "stubs r = A @ x # B"
    and s: "stubs_ok w (px_next px) (A @ x # B)"
    using h by (auto simp: has_stubs_def)
  have w: "st_wsi x = w" and "st_addr x \<notin> st_addr ` set A" "st_addr x \<notin> st_addr ` set B"
    using s by (auto simp: stubs_ok_def)
  then have "filter (\<lambda>y. st_addr y \<noteq> st_addr x) (A @ x # B) = A @ B"
    by (simp add: image_iff filter_id_conv [THEN iffD2] eq_commute)
  moreover have "stubs_ok w (px_next px) (A @ B)"
    using s by (auto simp: stubs_ok_def sorted_wrt_append)
  ultimately show ?thesis
    using r w by (simp add: wsu_local_stub_destroy_def has_stubs_def)
qed

end
