(* ===== verification/Proxy_Merge.thy ===== *)
theory Proxy_Merge
  imports Proxy_Inv
begin

text \<open>
  The merge of a list of remote objects with the stubs, compared with a reference that looks
  every object up.
\<close>

section \<open>The reference\<close>

definition create_matching :: "penv \<Rightarrow> wsi \<Rightarrow> string \<times> json \<Rightarrow> proxy \<Rightarrow> proxy option" where
  "create_matching E w obj px =
     (if wsubus_client_match_pattern olist_ops (px_paths px) (fst obj)
      then wsu_local_stub_create E w (fst obj) (snd obj) px else Some px)"

definition put_object :: "penv \<Rightarrow> wsi \<Rightarrow> string \<times> json \<Rightarrow> proxy \<Rightarrow> proxy option" where
  "put_object E w obj px = do {
     (_, remote) \<leftarrow> remote_of w px;
     (case List.find (\<lambda>x. st_key x = fst obj) (stubs remote) of
        None \<Rightarrow> create_matching E w obj px
      | Some stub \<Rightarrow> do {
          same \<leftarrow> wsu_local_stub_is_same_signature E stub (snd obj);
          if same then Some px
          else Option.bind (wsu_local_stub_destroy stub px) (create_matching E w obj)
        })
   }"

fun put_objects :: "penv \<Rightarrow> wsi \<Rightarrow> (string \<times> json) list \<Rightarrow> proxy \<Rightarrow> proxy option" where
  "put_objects E w [] px = Some px"
| "put_objects E w (obj # objs) px = Option.bind (put_object E w obj px) (put_objects E w objs)"

definition below :: "wsu_local_stub list \<Rightarrow> string list \<Rightarrow> bool" where
  "below t names \<longleftrightarrow> (\<forall>x\<in>set t. \<forall>n\<in>set names. bytes (st_key x) < bytes n)"

lemma below_simps [simp]:
  "below [] ns" "below t []"
  "below (x # t) ns \<longleftrightarrow> (\<forall>n\<in>set ns. bytes (st_key x) < bytes n) \<and> below t ns"
  "below (A @ B) ns \<longleftrightarrow> below A ns \<and> below B ns"
  "below t (n # ns) \<longleftrightarrow> (\<forall>x\<in>set t. bytes (st_key x) < bytes n) \<and> below t ns"
  by (auto simp: below_def)

lemma find_below: "below t (n # ns) \<Longrightarrow> List.find (\<lambda>x. st_key x = n) t = None"
  by (auto simp: find_None_iff)

text \<open>Creating an object between two parts of the tree.\<close>

lemma create_matching_stubs:
  assumes "names_ok E" "has_stubs w px (A @ B)"
    "\<forall>x\<in>set A. bytes (st_key x) < bytes (fst obj)" "\<forall>x\<in>set B. bytes (fst obj) < bytes (st_key x)"
    and "create_matching E w obj px = Some px'"
  shows "\<exists>N. has_stubs w px' (A @ N @ B) \<and> px_paths px' = px_paths px \<and>
    (if wsubus_client_match_pattern olist_ops (px_paths px) (fst obj)
     then \<exists>x. N = [x] \<and> made_from E w (fst obj) (snd obj) x \<and> st_addr x = px_next px else N = [])"
proof (cases "wsubus_client_match_pattern olist_ops (px_paths px) (fst obj)")
  case True
  then obtain x where "made_from E w (fst obj) (snd obj) x" "st_addr x = px_next px"
    "has_stubs w px' (A @ x # B)" "px_paths px' = px_paths px"
    using create_has_stubs [OF assms(1-4), of "snd obj" px'] assms(5) by (auto simp: create_matching_def)
  with True show ?thesis by (intro exI [of _ "[x]"]) simp
qed (use assms(2,5) in \<open>simp add: create_matching_def\<close>)

section \<open>The cursor\<close>

lemma advance_scan:
  assumes "distinct (map st_addr (x # B))" "prv \<noteq> CAt (st_addr (last (x # B)))"
  shows "advance (CAt (st_addr (last (x # B)))) n prv (x # B) cmp =
    Some (case dropWhile (\<lambda>x. bytes (st_key x) < bytes n) (x # B) of
       [] \<Rightarrow> (CHead, strcmp (st_key (last (x # B))) n) | y # _ \<Rightarrow> (CAt (st_addr y), strcmp (st_key y) n))"
  using assms
proof (induction B arbitrary: x prv cmp)
  case (Cons b B)
  have "st_addr x \<noteq> st_addr (last (b # B))"
    using Cons.prems(1) last_in_set [of "b # B"] by (metis distinct.simps(2) image_eqI list.map(2) list.set_map list.distinct(1))
  then have IH: "advance (CAt (st_addr (last (b # B)))) n (CAt (st_addr x)) (b # B) (strcmp (st_key x) n) =
    Some (case dropWhile (\<lambda>x. bytes (st_key x) < bytes n) (b # B) of
       [] \<Rightarrow> (CHead, strcmp (st_key (last (b # B))) n) | y # _ \<Rightarrow> (CAt (st_addr y), strcmp (st_key y) n))"
    using Cons.prems(1) by (intro Cons.IH) simp_all
  have l: "last (x # b # B) = last (b # B)" by simp
  show ?case
  proof (cases "bytes (st_key x) < bytes n")
    case True
    then have "\<not> 0 \<le> strcmp (st_key x) n" by (simp add: strcmp_neg not_le)
    then show ?thesis
      using True Cons.prems(2) IH unfolding l
      by (subst advance.simps(2)) (simp del: advance.simps last.simps)
  qed (use Cons.prems(2) in \<open>simp add: not_less [symmetric] strcmp_neg\<close>)
qed (simp add: not_less [symmetric] strcmp_neg)

text \<open>Where the cursor is: the elements before it are smaller than all names to come.\<close>

fun cursor_ok :: "wsu_local_stub \<Rightarrow> wsu_local_stub list \<Rightarrow> string list \<Rightarrow> cursor \<Rightarrow> int \<Rightarrow> bool" where
  "cursor_ok l t ns CNull cmp \<longleftrightarrow> False"
| "cursor_ok l t ns (CAt a) cmp \<longleftrightarrow>
     (\<exists>A x B. t = A @ x # B \<and> st_addr x = a \<and> last (x # B) = l \<and> below A ns)"
| "cursor_ok l t ns CHead cmp \<longleftrightarrow> t \<noteq> [] \<and> last t = l \<and> cmp \<noteq> 0 \<and> below t ns"

lemma stub_at_split:
  assumes "stubs_ok w n (A @ x # B)"
  shows "stub_at (A @ x # B) (CAt (st_addr x)) = Some x" "before_cursor (A @ x # B) (CAt (st_addr x)) = A"
    "from_cursor (A @ x # B) (CAt (st_addr x)) = x # B" "avl_next_element (A @ x # B) (CAt (st_addr x)) = cursor_of B"
proof -
  have "st_addr x \<notin> st_addr ` set A" using assms by (simp add: stubs_ok_def)
  then have d: "\<forall>y\<in>set A. st_addr y \<noteq> st_addr x" by (metis imageI)
  then have "List.find (\<lambda>y. st_addr y = st_addr x) (A @ x # B) = Some x"
    by (induction A) auto
  moreover have "takeWhile (\<lambda>y. st_addr y \<noteq> st_addr x) (A @ x # B) = A"
    "dropWhile (\<lambda>y. st_addr y \<noteq> st_addr x) (A @ x # B) = x # B"
    using d by (induction A) auto
  ultimately show "stub_at (A @ x # B) (CAt (st_addr x)) = Some x" "before_cursor (A @ x # B) (CAt (st_addr x)) = A"
    "from_cursor (A @ x # B) (CAt (st_addr x)) = x # B" "avl_next_element (A @ x # B) (CAt (st_addr x)) = cursor_of B"
    by (simp_all add: stub_at_def avl_next_element_def)
qed

lemma advance_cur_at:
  assumes ok: "stubs_ok w k (A @ x # B)" and l: "last (x # B) = l"
  shows "advance_cur (A @ x # B) (CAt (st_addr l)) n (CAt (st_addr x)) cmp =
    Some (case dropWhile (\<lambda>x. bytes (st_key x) < bytes n) (x # B) of
       [] \<Rightarrow> (CHead, strcmp (st_key l) n) | y # _ \<Rightarrow> (CAt (st_addr y), strcmp (st_key y) n))"
proof -
  have d: "distinct (map st_addr (x # B))" "st_addr ` set A \<inter> st_addr ` set (x # B) = {}"
    using ok by (auto simp: stubs_ok_def)
  have "cursor_of (rev A) \<noteq> CAt (st_addr l)"
  proof (cases "rev A")
    case (Cons a R)
    then have "a \<in> set A" by (metis list.set_intros(1) set_rev)
    then show ?thesis using d(2) l last_in_set [of "x # B"] Cons by (auto simp: cursor_of_def simp del: last.simps)
  qed (simp add: cursor_of_def)
  then show ?thesis
    using advance_scan [OF d(1), of "cursor_of (rev A)" n cmp] unfolding l [symmetric]
    by (simp add: advance_cur_def stub_at_split [OF ok] del: last.simps advance.simps dropWhile.simps
        before_cursor.simps from_cursor.simps)
qed

section \<open>One object\<close>

text \<open>An object that changes the end of the tree, whose last element was \<open>l\<close>.\<close>

definition changes_end :: "penv \<Rightarrow> string list \<Rightarrow> wsu_local_stub \<Rightarrow> string \<times> json \<Rightarrow> bool" where
  "changes_end E paths l obj \<longleftrightarrow>
     (bytes (st_key l) < bytes (fst obj) \<and> wsubus_client_match_pattern olist_ops paths (fst obj)) \<or>
     (st_key l = fst obj \<and> wsu_local_stub_is_same_signature E l (snd obj) \<noteq> Some True)"

text \<open>The end has changed: the cursor stands on the head, and the last element is not \<open>l\<close> any more.\<close>

definition cursor_lost :: "wsu_local_stub \<Rightarrow> wsu_local_stub list \<Rightarrow> cursor \<Rightarrow> bool" where
  "cursor_lost l t cur \<longleftrightarrow> cur = CHead \<and> cursor_of (rev t) \<noteq> CAt (st_addr l)"

lemma merge_object_eq:
  assumes "has_stubs w px t"
    and "advance_cur t lst (fst obj) cur cmp = Some (cur', cmp')"
    and "cmp' \<noteq> 0 \<Longrightarrow> List.find (\<lambda>x. st_key x = fst obj) t = None"
    and "cmp' = 0 \<Longrightarrow> \<exists>x. List.find (\<lambda>x. st_key x = fst obj) t = Some x \<and> stub_at t cur' = Some x"
  shows "merge_object E w lst obj (cur, cmp, px) =
    map_option (\<lambda>px'. (if cmp' = 0 \<and> (\<forall>x. stub_at t cur' = Some x \<longrightarrow> wsu_local_stub_is_same_signature E x (snd obj) \<noteq> Some True)
                       then avl_next_element t cur' else cur', cmp', px')) (put_object E w obj px)"
proof -
  obtain peer r where r: "remote_of w px = Some (peer, r)" "stubs r = t"
    using assms(1) by (auto simp: has_stubs_def)
  obtain n sig where obj: "obj = (n, sig)" by (metis surj_pair)
  have create: "(if \<not> wsubus_client_match_pattern olist_ops (px_paths p) n then Some p
      else wsu_local_stub_create E w n sig p) = create_matching E w obj p" for p
    by (simp add: create_matching_def obj)
  show ?thesis
  proof (cases "cmp' = 0")
    case True
    then obtain x where x: "List.find (\<lambda>x. st_key x = n) t = Some x" "stub_at t cur' = Some x"
      using assms(4) obj by auto
    then show ?thesis
      using True assms(2) r
      by (cases "wsu_local_stub_is_same_signature E x sig")
        (simp_all add: merge_object_def put_object_def obj create [unfolded obj] option.map_comp comp_def
          Option.map_conv_bind_option)
  next
    case False
    then show ?thesis
      using assms(2,3) r by (simp add: merge_object_def put_object_def obj create [unfolded obj])
  qed
qed

lemma cursor_ok_atI:
  "t = A @ x # B \<Longrightarrow> last (x # B) = l \<Longrightarrow> below A ns \<Longrightarrow> cursor_ok l t ns (CAt (st_addr x)) cmp"
  unfolding cursor_ok.simps by blast

lemma cursor_of_rev: "t \<noteq> [] \<Longrightarrow> cursor_of (rev t) = CAt (st_addr (last t))"
  by (cases t rule: rev_cases) (simp_all add: cursor_of_def)

lemma find_append:
  "List.find P (xs @ ys) = (case List.find P xs of None \<Rightarrow> List.find P ys | Some x \<Rightarrow> Some x)"
  by (induction xs) auto

lemma find_split: "List.find P t = Some x \<Longrightarrow> \<exists>A B. t = A @ x # B \<and> P x \<and> (\<forall>y\<in>set A. \<not> P y)"
proof (induction t)
  case (Cons z t)
  show ?case
  proof (cases "P z")
    case True
    then show ?thesis using Cons.prems by (intro exI [of _ "[]"] exI [of _ t]) simp
  next
    case False
    then obtain A B where "t = A @ x # B" "P x" "\<forall>y\<in>set A. \<not> P y" using Cons by auto
    then show ?thesis using False by (intro exI [of _ "z # A"] exI [of _ B]) simp
  qed
qed simp

text \<open>The first element that is not below a name.\<close>

lemma sorted_tail_split:
  assumes "stubs_ok w k (A @ C)" "below A [n]" "C = dropWhile (\<lambda>x. bytes (st_key x) < bytes n) D" "C = y # B"
  shows "bytes n \<le> bytes (st_key y)" "\<forall>z\<in>set B. bytes n < bytes (st_key z)"
    "List.find (\<lambda>x. st_key x = n) (A @ C) = (if st_key y = n then Some y else None)"
proof -
  show y: "bytes n \<le> bytes (st_key y)"
    using assms(3,4) hd_dropWhile [of "\<lambda>x. bytes (st_key x) < bytes n" D] by (metis list.distinct(1) list.sel(1) not_le)
  show B: "\<forall>z\<in>set B. bytes n < bytes (st_key z)"
    using assms(1,4) y by (auto simp: stubs_ok_def sorted_wrt_append)
  have "List.find (\<lambda>x. st_key x = n) A = None" "List.find (\<lambda>x. st_key x = n) B = None"
    using assms(2) B by (auto simp: find_None_iff)
  then show "List.find (\<lambda>x. st_key x = n) (A @ C) = (if st_key y = n then Some y else None)"
    by (simp add: assms(4) find_append)
qed

lemma cursor_after_removal:
  assumes s: "stubs_ok w nx (A @ y # B)" and l: "last (y # B) = l" and An: "below (A @ N) ns"
    and N: "N = [] \<or> (\<exists>x. N = [x] \<and> st_addr x = nx)"
  shows "if B = [] then cursor_lost l (A @ N @ B) (cursor_of B) else cursor_ok l (A @ N @ B) ns (cursor_of B) cmp"
proof (cases B)
  case Nil
  then have "st_addr l < nx" "st_addr l \<notin> st_addr ` set A"
    using s l by (auto simp: stubs_ok_def)
  moreover have "cursor_of (rev (A @ N)) \<noteq> CAt (st_addr l)"
    using N calculation by (cases "rev A") (auto simp: cursor_of_def rev_eq_Cons_iff)
  ultimately show ?thesis using Nil by (simp add: cursor_lost_def cursor_of_def)
next
  case (Cons b B')
  then have "last (b # B') = l" using l by auto
  then have "cursor_ok l (A @ N @ B) ns (CAt (st_addr b)) cmp"
    using An by (intro cursor_ok_atI [of _ "A @ N" b B']) (simp_all add: Cons)
  then show ?thesis by (simp add: cursor_of_def Cons)
qed

lemma step_at:
  assumes E: "names_ok E" and h: "has_stubs w px (A @ C)" and C: "C = y # B" "last C = l"
    and A: "below A (fst obj # ns)" and ns: "\<forall>n\<in>set ns. bytes (fst obj) < bytes n"
    and y: "bytes (fst obj) \<le> bytes (st_key y)" and p: "put_object E w obj px = Some px'"
    and f: "List.find (\<lambda>x. st_key x = fst obj) (A @ C) = (if st_key y = fst obj then Some y else None)"
  defines "gone \<equiv> st_key y = fst obj \<and> wsu_local_stub_is_same_signature E y (snd obj) \<noteq> Some True"
  shows "\<exists>t'. has_stubs w px' t' \<and> px_paths px' = px_paths px \<and>
    (let cur = if gone then cursor_of B else CAt (st_addr y) in
     if gone \<and> B = [] then cursor_lost l t' cur else cursor_ok l t' ns cur cmp)"
proof -
  obtain peer r where r: "remote_of w px = Some (peer, r)" "stubs r = A @ C"
    using h by (auto simp: has_stubs_def)
  have s: "stubs_ok w (px_next px) (A @ y # B)" using h C by (simp add: has_stubs_def)
  have B: "\<forall>z\<in>set B. bytes (fst obj) < bytes (st_key z)"
    using s y by (auto simp: stubs_ok_def sorted_wrt_append)
  have An: "below A ns" "\<forall>x\<in>set A. bytes (st_key x) < bytes (fst obj)" using A by auto
  show ?thesis
  proof (cases gone)
    case True
    then obtain same where same: "wsu_local_stub_is_same_signature E y (snd obj) = Some same"
      using p r f by (auto simp: put_object_def gone_def bind_conv)
    then have "\<not> same" using True by (auto simp: gone_def)
    then obtain px1 where px1: "wsu_local_stub_destroy y px = Some px1" "create_matching E w obj px1 = Some px'"
      using p r f same True by (auto simp: put_object_def gone_def bind_conv)
    then have h1: "has_stubs w px1 (A @ B)" "px_paths px1 = px_paths px" "px_next px1 = px_next px"
      using destroy_has_stubs [of w px A y B] h C(1) by auto
    obtain N where N: "has_stubs w px' (A @ N @ B)" "px_paths px' = px_paths px1"
      "N = [] \<or> (\<exists>x. N = [x] \<and> st_key x = fst obj \<and> st_addr x = px_next px)"
      using create_matching_stubs [OF E h1(1) An(2) B px1(2)] h1(3) by (auto simp: made_from_def split: if_splits)
    have "below (A @ N) ns" using An(1) N(3) ns by auto
    moreover have "N = [] \<or> (\<exists>x. N = [x] \<and> st_addr x = px_next px)" using N(3) by blast
    ultimately have "if B = [] then cursor_lost l (A @ N @ B) (cursor_of B) else cursor_ok l (A @ N @ B) ns (cursor_of B) cmp"
      using s C by (intro cursor_after_removal) simp_all
    then show ?thesis
      using N(1,2) h1(2) True by (intro exI [of _ "A @ N @ B"]) (simp add: Let_def)
  next
    case False
    show ?thesis
    proof (cases "st_key y = fst obj")
      case True
      then have "px' = px" using p r f False by (auto simp: put_object_def gone_def bind_conv)
      then show ?thesis
        using h C An(1) False by (intro exI [of _ "A @ C"]) (auto simp: Let_def simp del: last.simps)
    next
      case new: False
      then have "create_matching E w obj px = Some px'" using p r f by (simp add: put_object_def)
      moreover have "\<forall>z\<in>set C. bytes (fst obj) < bytes (st_key z)"
        using B y new C(1) by (auto simp: le_less)
      ultimately obtain N where N: "has_stubs w px' (A @ N @ C)" "px_paths px' = px_paths px"
        "N = [] \<or> (\<exists>x. N = [x] \<and> st_key x = fst obj)"
        using create_matching_stubs [OF E h An(2)] by (fastforce simp: made_from_def split: if_splits)
      then have "below (A @ N) ns" using An(1) ns by auto
      then have "cursor_ok l (A @ N @ C) ns (CAt (st_addr y)) cmp"
        using C by (intro cursor_ok_atI [of _ "A @ N" y B]) simp_all
      then show ?thesis
        using N False by (intro exI [of _ "A @ N @ C"]) (simp add: Let_def del: cursor_ok.simps)
    qed
  qed
qed

text \<open>An object behind all elements: the cursor goes to the head.\<close>

lemma step_head:
  assumes E: "names_ok E" and h: "has_stubs w px t" and t: "t \<noteq> []" "last t = l" and b: "below t (fst obj # ns)"
    and ns: "\<forall>n\<in>set ns. bytes (fst obj) < bytes n" and p: "put_object E w obj px = Some px'" and cmp: "cmp \<noteq> 0"
  shows "\<exists>t'. has_stubs w px' t' \<and> px_paths px' = px_paths px \<and>
    (if wsubus_client_match_pattern olist_ops (px_paths px) (fst obj) then cursor_lost l t' CHead
     else cursor_ok l t' ns CHead cmp)"
proof -
  have "create_matching E w obj px = Some px'"
    using p h find_below [OF b] by (auto simp: put_object_def has_stubs_def)
  then obtain N where N: "has_stubs w px' (t @ N)" "px_paths px' = px_paths px"
    "if wsubus_client_match_pattern olist_ops (px_paths px) (fst obj)
     then \<exists>x. N = [x] \<and> st_addr x = px_next px else N = []"
    using create_matching_stubs [OF E, of w px t "[]" obj px'] h b by (auto split: if_splits)
  have "st_addr l < px_next px" using h t by (auto simp: has_stubs_def stubs_ok_def)
  then show ?thesis
    using N t b cmp by (intro exI [of _ "t @ N"]) (auto simp: cursor_lost_def cursor_of_def)
qed

text \<open>One object: the walk does what the look-up does, and the cursor is fit for the next one or lost.\<close>

definition step_agrees :: "penv \<Rightarrow> wsi \<Rightarrow> wsu_local_stub \<Rightarrow> string list \<Rightarrow> string \<times> json \<Rightarrow> cursor \<Rightarrow> int \<Rightarrow> proxy \<Rightarrow> bool" where
  "step_agrees E w l ns obj cur cmp px \<longleftrightarrow>
     (\<exists>cur' cmp'. merge_object E w (CAt (st_addr l)) obj (cur, cmp, px) =
        map_option (\<lambda>px'. (cur', cmp', px')) (put_object E w obj px) \<and>
      (\<forall>px'. put_object E w obj px = Some px' \<longrightarrow> (\<exists>t'. has_stubs w px' t' \<and> px_paths px' = px_paths px \<and>
        (if changes_end E (px_paths px) l obj then cursor_lost l t' cur' else cursor_ok l t' ns cur' cmp'))))"

lemma merge_step_head:
  assumes E: "names_ok E" and h: "has_stubs w px t" and ns: "\<forall>n\<in>set ns. bytes (fst obj) < bytes n"
    and t: "t \<noteq> []" "last t = l" "below t (fst obj # ns)" and cmp': "cmp' \<noteq> 0"
    and adv: "advance_cur t (CAt (st_addr l)) (fst obj) cur cmp = Some (CHead, cmp')"
  shows "step_agrees E w l ns obj cur cmp px"
proof -
  have ends: "changes_end E (px_paths px) l obj \<longleftrightarrow> wsubus_client_match_pattern olist_ops (px_paths px) (fst obj)"
    using t(2,3) last_in_set [OF t(1)] by (fastforce simp: changes_end_def)
  have "merge_object E w (CAt (st_addr l)) obj (cur, cmp, px) =
    map_option (\<lambda>px'. (CHead, cmp', px')) (put_object E w obj px)"
    using merge_object_eq [OF h adv] cmp' find_below [OF t(3)] by simp
  then show ?thesis
    unfolding step_agrees_def ends using step_head [OF E h t ns _ cmp'] by blast
qed

lemma merge_step_stop:
  assumes E: "names_ok E" and h: "has_stubs w px (A @ C)" and ns: "\<forall>n\<in>set ns. bytes (fst obj) < bytes n"
    and C: "C = dropWhile (\<lambda>x. bytes (st_key x) < bytes (fst obj)) D" "C = y # B" and l: "last C = l"
    and A: "below A (fst obj # ns)"
    and adv: "advance_cur (A @ C) (CAt (st_addr l)) (fst obj) cur cmp = Some (CAt (st_addr y), strcmp (st_key y) (fst obj))"
  shows "step_agrees E w l ns obj cur cmp px"
proof -
  have s: "stubs_ok w (px_next px) (A @ C)" using h by (simp add: has_stubs_def)
  have "below A [fst obj]" using A by simp
  note sp = sorted_tail_split [OF s this C]
  let ?gone = "st_key y = fst obj \<and> wsu_local_stub_is_same_signature E y (snd obj) \<noteq> Some True"
  have at: "stub_at (A @ C) (CAt (st_addr y)) = Some y" "avl_next_element (A @ C) (CAt (st_addr y)) = cursor_of B"
    using stub_at_split [of w "px_next px" A y B] s unfolding C(2) by simp_all
  have "merge_object E w (CAt (st_addr l)) obj (cur, cmp, px) = map_option (\<lambda>px'.
      (if ?gone then cursor_of B else CAt (st_addr y), strcmp (st_key y) (fst obj), px')) (put_object E w obj px)"
    using merge_object_eq [OF h adv] sp(3) at by (simp add: conj_commute cong: if_cong)
  moreover have "changes_end E (px_paths px) l obj \<longleftrightarrow> ?gone \<and> B = []"
    using l C(2) sp(1,2) by (auto simp: changes_end_def split: if_splits dest!: last_in_set)
  ultimately show ?thesis
    unfolding step_agrees_def
    using step_at [OF E h C(2) l A ns sp(1) _ sp(3), of _ "strcmp (st_key y) (fst obj)"]
    by (simp only: Let_def) blast
qed

lemma merge_step:
  assumes E: "names_ok E" and h: "has_stubs w px t" and c: "cursor_ok l t (fst obj # ns) cur cmp"
    and ns: "\<forall>n\<in>set ns. bytes (fst obj) < bytes n"
  shows "step_agrees E w l ns obj cur cmp px"
proof (cases cur)
  case CHead
  then show ?thesis
    using c by (intro merge_step_head [OF E h ns, of l cmp]) (auto simp: advance_cur_def cursor_of_rev)
next
  case (CAt a)
  have s: "stubs_ok w (px_next px) t" using h by (simp add: has_stubs_def)
  obtain A x D where t: "t = A @ x # D" "st_addr x = a" "last (x # D) = l" "below A (fst obj # ns)"
    using c CAt by auto
  let ?P = "\<lambda>x. bytes (st_key x) < bytes (fst obj)"
  define A' C where "A' = A @ takeWhile ?P (x # D)" and C: "C = dropWhile ?P (x # D)"
  then have tC: "A' @ C = t" using t(1) by (simp only: takeWhile_dropWhile_id append_assoc)
  have "below (takeWhile ?P (x # D)) (fst obj # ns)"
    using ns by (auto dest!: set_takeWhileD simp: below_def simp del: takeWhile.simps)
  then have bA: "below A' (fst obj # ns)" using t(4) \<open>A' = _\<close> by (simp only: below_simps(4))
  note adv = advance_cur_at [OF s [unfolded t(1)] t(3), of "fst obj" cmp, folded t(1) C, unfolded t(2)]
  show ?thesis
  proof (cases C)
    case Nil
    then have "\<forall>z\<in>set (x # D). bytes (st_key z) < bytes (fst obj)" unfolding C by (simp only: dropWhile_eq_Nil_conv)
    then have "strcmp (st_key l) (fst obj) \<noteq> 0" using t(3) last_in_set [of "x # D"] by fastforce
    moreover have "below t (fst obj # ns)" using bA tC Nil by simp
    moreover have "advance_cur t (CAt (st_addr l)) (fst obj) cur cmp = Some (CHead, strcmp (st_key l) (fst obj))"
      using adv unfolding Nil CAt by simp
    moreover have "t \<noteq> []" "last t = l" using t(1,3) by simp_all
    ultimately show ?thesis by (intro merge_step_head [OF E h ns])
  next
    case (Cons y B)
    have "last t = last C" using tC [symmetric] Cons by simp
    then have "last C = l" using t(1,3) by simp
    then show ?thesis
      using adv by (intro merge_step_stop [OF E h [folded tC] ns C Cons _ bA]) (simp_all add: Cons CAt tC [unfolded Cons])
  qed
qed (use c in simp)

section \<open>The whole list\<close>

abbreviation sorted_names :: "(string \<times> json) list \<Rightarrow> bool" where
  "sorted_names objs \<equiv> sorted_wrt (\<lambda>x y. bytes (fst x) < bytes (fst y)) objs"

lemma below_sorted:
  assumes "\<forall>x\<in>set A. bytes (st_key x) < bytes (fst obj)" "sorted_names (obj # rest)"
  shows "below A (map fst (obj # rest))"
proof -
  have "bytes (st_key x) < bytes n" if "x \<in> set A" "n = fst obj \<or> n \<in> set (map fst rest)" for x n
    using assms that by (fastforce intro: less_trans [of _ "bytes (fst obj)"])
  then show ?thesis by (simp add: below_def)
qed

lemma merge_lost:
  assumes "has_stubs w px t" "cursor_lost l t cur"
  shows "merge_objects E w (CAt (st_addr l)) objs (cur, cmp, px) = (if objs = [] then Some (cur, cmp, px) else None)"
proof (cases objs)
  case (Cons obj rest)
  obtain peer r where "remote_of w px = Some (peer, r)" "stubs r = t"
    using assms(1) by (auto simp: has_stubs_def)
  then have "merge_object E w (CAt (st_addr l)) obj (cur, cmp, px) = None"
    using assms(2) by (cases obj) (simp add: merge_object_def cursor_lost_def advance_cur_def)
  then show ?thesis using Cons by simp
qed simp

lemma merge_objects_eq:
  assumes E: "names_ok E"
  shows "has_stubs w px t \<Longrightarrow> cursor_ok l t (map fst objs) cur cmp \<Longrightarrow> sorted_names objs \<Longrightarrow>
    map_option (snd \<circ> snd) (merge_objects E w (CAt (st_addr l)) objs (cur, cmp, px)) =
    (if \<exists>obj\<in>set (butlast objs). changes_end E (px_paths px) l obj then None else put_objects E w objs px)"
proof (induction objs arbitrary: px t cur cmp)
  case (Cons obj objs)
  obtain cur' cmp' where step: "merge_object E w (CAt (st_addr l)) obj (cur, cmp, px) =
      map_option (\<lambda>px'. (cur', cmp', px')) (put_object E w obj px)"
    "\<And>px'. put_object E w obj px = Some px' \<Longrightarrow> \<exists>t'. has_stubs w px' t' \<and> px_paths px' = px_paths px \<and>
      (if changes_end E (px_paths px) l obj then cursor_lost l t' cur' else cursor_ok l t' (map fst objs) cur' cmp')"
    using merge_step [unfolded step_agrees_def, OF E Cons.prems(1), of l obj "map fst objs" cur cmp] Cons.prems(2,3) by auto
  show ?case
  proof (cases "put_object E w obj px")
    case (Some px')
    then obtain t' where t': "has_stubs w px' t'" "px_paths px' = px_paths px"
      "if changes_end E (px_paths px) l obj then cursor_lost l t' cur' else cursor_ok l t' (map fst objs) cur' cmp'"
      using step(2) by blast
    show ?thesis
    proof (cases "changes_end E (px_paths px) l obj")
      case True
      then show ?thesis using t' step(1) Some merge_lost [OF t'(1), of l cur' E objs cmp'] by auto
    next
      case False
      then show ?thesis
        using Cons.IH [OF t'(1), of cur' cmp'] Cons.prems(3) t' step(1) Some by auto
    qed
  qed (use step(1) in simp)
qed simp

text \<open>Without a cursor every object of the list lies behind the tree and is new.\<close>

lemma merge_objects_null:
  assumes E: "names_ok E"
  shows "has_stubs w px t \<Longrightarrow> below t (map fst objs) \<Longrightarrow> sorted_names objs \<Longrightarrow> cmp \<noteq> 0 \<Longrightarrow>
    map_option (snd \<circ> snd) (merge_objects E w lst objs (CNull, cmp, px)) = put_objects E w objs px"
proof (induction objs arbitrary: px t)
  case (Cons obj objs)
  have adv: "advance_cur t lst (fst obj) CNull cmp = Some (CNull, cmp)" by (simp add: advance_cur_def)
  have step: "merge_object E w lst obj (CNull, cmp, px) = map_option (\<lambda>px'. (CNull, cmp, px')) (put_object E w obj px)"
    using merge_object_eq [OF Cons.prems(1) adv, of E] find_below [of t "fst obj" "map fst objs"] Cons.prems(2,4)
    by simp
  show ?case
  proof (cases "put_object E w obj px")
    case (Some px')
    have "create_matching E w obj px = Some px'"
      using Some Cons.prems(1,2) find_below [of t "fst obj" "map fst objs"]
      by (auto simp: put_object_def has_stubs_def)
    then obtain N where "has_stubs w px' (t @ N)" "N = [] \<or> (\<exists>x. N = [x] \<and> st_key x = fst obj)"
      using create_matching_stubs [OF E, of w px t "[]" obj px'] Cons.prems(1,2)
      by (auto simp: made_from_def split: if_splits)
    then show ?thesis
      using Cons.IH [of px' "t @ N"] Cons.prems(2-4) step Some by auto
  qed (use step in simp)
qed simp

text \<open>When the merge goes through: the objects that change the end of the tree come last in the list.\<close>

definition merge_safe :: "penv \<Rightarrow> string list \<Rightarrow> wsu_local_stub list \<Rightarrow> (string \<times> json) list \<Rightarrow> bool" where
  "merge_safe E paths t objs \<longleftrightarrow>
     t = [] \<or> objs = [] \<or> bytes (st_key (last t)) < bytes (fst (hd objs)) \<or>
     \<not> (\<exists>obj\<in>set (butlast objs). changes_end E paths (last t) obj)"

lemma merge_list_eq:
  assumes E: "names_ok E" and h: "has_stubs w px t" and sorted: "sorted_names objs"
  shows "merge_list E w objs px = (if merge_safe E (px_paths px) t objs then put_objects E w objs px else None)"
proof (cases objs)
  case Nil
  then show ?thesis using h by (auto simp: merge_list_def has_stubs_def merge_safe_def)
next
  case (Cons obj rest)
  obtain key sig where obj: "obj = (key, sig)" by (metis surj_pair)
  obtain peer r where r: "remote_of w px = Some (peer, r)" "stubs r = t" and s: "stubs_ok w (px_next px) t"
    using h by (auto simp: has_stubs_def)
  have snd3: "Option.bind m (\<lambda>(_, _, px). Some px) = map_option (snd \<circ> snd) m" for m :: "(cursor \<times> int \<times> proxy) option"
    by (cases m) auto
  have ml: "merge_list E w objs px = map_option (snd \<circ> snd)
     (merge_objects E w (avl_last_element t) objs
       (case List.find (\<lambda>x. \<not> strcmp (st_key x) key < 0) t of None \<Rightarrow> (CNull, 1, px)
        | Some x \<Rightarrow> (CAt (st_addr x), strcmp (st_key x) key, px)))"
    using r by (simp add: merge_list_def Cons obj avl_find_ge_element_def snd3 split: option.split)
  show ?thesis
  proof (cases "List.find (\<lambda>x. \<not> strcmp (st_key x) key < 0) t")
    case None
    then have below: "\<forall>x\<in>set t. bytes (st_key x) < bytes key" by (auto simp: find_None_iff strcmp_neg)
    then have "below t (map fst objs)"
      using below_sorted [of t obj rest] sorted Cons obj by simp
    then have "merge_list E w objs px = put_objects E w objs px"
      using ml None merge_objects_null [OF E h _ sorted] by simp
    moreover have "merge_safe E (px_paths px) t objs"
      using below Cons obj by (cases "t = []") (auto simp: merge_safe_def)
    ultimately show ?thesis by simp
  next
    case (Some x)
    then obtain A B where t: "t = A @ x # B" "\<not> strcmp (st_key x) key < 0" "\<forall>y\<in>set A. strcmp (st_key y) key < 0"
      using find_split [OF Some] by auto
    have "below A (map fst objs)"
      using below_sorted [of A obj rest] t(3) sorted Cons obj by (simp add: strcmp_neg)
    then have "cursor_ok (last t) t (map fst objs) (CAt (st_addr x)) (strcmp (st_key x) key)"
      by (intro cursor_ok_atI [OF t(1)]) (simp_all add: t(1))
    note eq = merge_objects_eq [OF E h this sorted]
    have "avl_last_element t = CAt (st_addr (last t))"
      using t(1) by (simp add: avl_last_element_def cursor_of_rev del: rev_append)
    moreover have "\<not> bytes (st_key (last t)) < bytes key"
    proof -
      have "bytes (st_key x) \<le> bytes (st_key (last t))"
        using s t(1) by (auto simp: stubs_ok_def sorted_wrt_append le_less)
      then show ?thesis using t(2) by (auto simp: strcmp_neg)
    qed
    ultimately show ?thesis
      using ml Some eq t(1) Cons obj by (auto simp: merge_safe_def)
  qed
qed

end
