(* ===== verification/Proxy_Put.thy ===== *)
theory Proxy_Put
  imports Proxy_Merge
begin

text \<open>
  What the reference for the merge does to the stubs: every object of the list that the patterns
  admit gets a stub with its signature, and the other stubs stay.
\<close>

section \<open>Signatures\<close>

text \<open>A signature json-c can walk: an object of objects.\<close>

definition valid_signature :: "json \<Rightarrow> bool" where
  "valid_signature signature \<longleftrightarrow>
     (\<exists>ms. signature = JObject ms \<and> (\<forall>m\<in>set ms. is_object (snd m)))"

lemma same_args_eq:
  "length bs = length args \<Longrightarrow> same_args E bs args = Some (bs = policy_of E args)"
  by (induction bs args rule: list_induct2) (auto simp: policy_of_def)

lemma methods_of_total: "\<forall>m\<in>set ms. is_object (snd m) \<Longrightarrow> \<exists>us. methods_of E ms = Some us"
proof (induction ms)
  case (Cons m ms)
  obtain n args where "m = (n, JObject args)"
    using Cons.prems by (metis is_object.elims(2) list.set_intros(1) prod.collapse)
  then show ?case using Cons by auto
qed simp

lemma same_methods_eq:
  "methods_of E ms = Some us \<Longrightarrow> length vs = length ms \<Longrightarrow> same_methods E vs ms = Some (vs = us)"
proof (induction ms arbitrary: us vs)
  case (Cons m ms)
  obtain v vs' where vs: "vs = v # vs'" using Cons.prems(2) by (cases vs) auto
  obtain n j where m: "m = (n, j)" by (metis surj_pair)
  obtain args us' where us: "json_members j = Some args" "methods_of E ms = Some us'"
    "us = \<lparr>um_name = n, um_policy = policy_of E args\<rparr> # us'"
    using Cons.prems(1) by (auto simp: m bind_conv)
  have "length (um_policy v) \<noteq> length args \<Longrightarrow> um_policy v \<noteq> policy_of E args" by (auto simp: policy_of_def)
  moreover have "v = \<lparr>um_name = n, um_policy = p\<rparr> \<longleftrightarrow> um_name v = n \<and> um_policy v = p" for p by (cases v) auto
  ultimately show ?case
    using Cons.IH [OF us(2), of vs'] Cons.prems(2) us same_args_eq [of "um_policy v" args E]
    by (auto simp: vs m)
qed simp

lemma methods_of_length: "methods_of E ms = Some us \<Longrightarrow> length us = length ms"
  by (induction ms arbitrary: us) (auto simp: bind_conv)

lemma same_signature_eq:
  assumes "Option.bind (json_members signature) (methods_of E) = Some us"
  shows "wsu_local_stub_is_same_signature E stub signature = Some (st_methods stub = us)"
proof -
  obtain ms where ms: "json_members signature = Some ms" "methods_of E ms = Some us"
    using assms by (auto simp: bind_conv)
  note len = methods_of_length [OF ms(2)]
  show ?thesis
  proof (cases "length (st_methods stub) = length ms")
    case True
    then show ?thesis
      using ms same_methods_eq [OF ms(2) True] by (simp add: wsu_local_stub_is_same_signature_def)
  next
    case False
    then have "st_methods stub \<noteq> us" using len by auto
    with False ms show ?thesis by (simp add: wsu_local_stub_is_same_signature_def)
  qed
qed

section \<open>What the reference does\<close>

text \<open>The tree around a name.\<close>

lemma tree_split:
  assumes "stubs_ok w k t"
  shows "\<exists>A M B. t = A @ M @ B \<and> (\<forall>x\<in>set A. bytes (st_key x) < bytes n) \<and>
    (\<forall>x\<in>set B. bytes n < bytes (st_key x)) \<and> M = (case List.find (\<lambda>x. st_key x = n) t of None \<Rightarrow> [] | Some x \<Rightarrow> [x])"
proof -
  let ?P = "\<lambda>x. bytes (st_key x) < bytes n"
  define A C where A: "A = takeWhile ?P t" and C: "C = dropWhile ?P t"
  have t: "t = A @ C" by (simp add: A C)
  have below: "\<forall>x\<in>set A. bytes (st_key x) < bytes n" by (auto simp: A dest: set_takeWhileD)
  then have bA: "below A [n]" by simp
  show ?thesis
  proof (cases C)
    case Nil
    then have "List.find (\<lambda>x. st_key x = n) t = None" using bA find_below [of A n "[]"] t by simp
    then show ?thesis using below t Nil by (intro exI [of _ A] exI [of _ "[]"]) simp
  next
    case (Cons y B)
    note sp = sorted_tail_split [OF assms [unfolded t] bA C Cons]
    show ?thesis
    proof (cases "st_key y = n")
      case True
      then show ?thesis using sp below t Cons by (intro exI [of _ A] exI [of _ "[y]"] exI [of _ B]) simp
    next
      case False
      then have "\<forall>x\<in>set C. bytes n < bytes (st_key x)" using sp(1,2) Cons by (auto simp: le_less)
      then show ?thesis using sp(3) False below t by (intro exI [of _ A] exI [of _ "[]"] exI [of _ C]) simp
    qed
  qed
qed

text \<open>One object of the list is in the tree as it should be.\<close>

definition put_done :: "penv \<Rightarrow> string list \<Rightarrow> string \<times> json \<Rightarrow> wsu_local_stub list \<Rightarrow> bool" where
  "put_done E paths obj t \<longleftrightarrow>
     (\<forall>x\<in>set t. st_key x = fst obj \<longrightarrow> wsu_local_stub_is_same_signature E x (snd obj) = Some True) \<and>
     (wsubus_client_match_pattern olist_ops paths (fst obj) \<longrightarrow> (\<exists>x\<in>set t. st_key x = fst obj))"

lemma put_object_result:
  assumes E: "names_ok E" and h: "has_stubs w px t" and p: "put_object E w obj px = Some px'"
  shows "\<exists>t'. has_stubs w px' t' \<and> px_paths px' = px_paths px \<and> put_done E (px_paths px) obj t' \<and>
    (\<forall>x. st_key x \<noteq> fst obj \<longrightarrow> (x \<in> set t' \<longleftrightarrow> x \<in> set t))"
proof -
  obtain peer r where r: "remote_of w px = Some (peer, r)" "stubs r = t" and s: "stubs_ok w (px_next px) t"
    using h by (auto simp: has_stubs_def)
  obtain A M B where t: "t = A @ M @ B" and A: "\<forall>x\<in>set A. bytes (st_key x) < bytes (fst obj)"
    and B: "\<forall>x\<in>set B. bytes (fst obj) < bytes (st_key x)"
    and M: "M = (case List.find (\<lambda>x. st_key x = fst obj) t of None \<Rightarrow> [] | Some x \<Rightarrow> [x])"
    using tree_split [OF s] by blast
  have fin: ?thesis
    if c: "has_stubs w px1 (A @ B)" "px_paths px1 = px_paths px" "create_matching E w obj px1 = Some px'"
      "\<forall>x\<in>set M. st_key x = fst obj" for px1
  proof -
    obtain N where N: "has_stubs w px' (A @ N @ B)" "px_paths px' = px_paths px1"
      "if wsubus_client_match_pattern olist_ops (px_paths px1) (fst obj)
       then \<exists>x. N = [x] \<and> made_from E w (fst obj) (snd obj) x \<and> st_addr x = px_next px1 else N = []"
      using create_matching_stubs [OF E c(1) A B c(3)] by blast
    have "wsu_local_stub_is_same_signature E x (snd obj) = Some True" if "made_from E w (fst obj) (snd obj) x" for x
      using that same_signature_eq by (auto simp: made_from_def)
    then have "put_done E (px_paths px) obj (A @ N @ B)"
      using N(3) A B c(2) by (auto simp: put_done_def made_from_def split: if_splits)
    moreover have "\<forall>x. st_key x \<noteq> fst obj \<longrightarrow> (x \<in> set (A @ N @ B) \<longleftrightarrow> x \<in> set t)"
      using N(3) c(4) t by (auto simp: made_from_def split: if_splits)
    ultimately show ?thesis using N(1,2) c(2) by auto
  qed
  show ?thesis
  proof (cases "List.find (\<lambda>x. st_key x = fst obj) t")
    case None
    then have "M = []" unfolding M by simp
    then show ?thesis using fin [of px] h p r None unfolding t by (simp add: put_object_def)
  next
    case (Some x)
    have xM: "M = [x]" unfolding M Some by simp
    have x: "M = [x]" "st_key x = fst obj" "t = A @ x # B"
      using xM find_split [OF Some] t [unfolded xM] by auto
    then obtain same where same: "wsu_local_stub_is_same_signature E x (snd obj) = Some same"
      using p r Some by (auto simp: put_object_def bind_conv)
    show ?thesis
    proof (cases same)
      case True
      then have "px' = px" using p r Some same by (simp add: put_object_def)
      moreover have "put_done E (px_paths px) obj t"
        using same True x A B by (auto simp: put_done_def)
      ultimately show ?thesis using h by auto
    next
      case False
      then obtain px1 where px1: "wsu_local_stub_destroy x px = Some px1" "create_matching E w obj px1 = Some px'"
        using p r Some same by (auto simp: put_object_def bind_conv)
      then show ?thesis
        using fin [of px1] destroy_has_stubs [of w px A x B] h x by auto
    qed
  qed
qed

lemma put_done_other:
  assumes "put_done E paths obj t" "fst obj \<noteq> n" "\<forall>x. st_key x \<noteq> n \<longrightarrow> (x \<in> set t' \<longleftrightarrow> x \<in> set t)"
  shows "put_done E paths obj t'"
  using assms unfolding put_done_def by metis

lemma put_objects_result:
  assumes E: "names_ok E"
  shows "has_stubs w px t \<Longrightarrow> distinct (map fst objs) \<Longrightarrow> put_objects E w objs px = Some px' \<Longrightarrow>
    \<exists>t'. has_stubs w px' t' \<and> px_paths px' = px_paths px \<and> (\<forall>obj\<in>set objs. put_done E (px_paths px) obj t') \<and>
      (\<forall>x. st_key x \<notin> fst ` set objs \<longrightarrow> (x \<in> set t' \<longleftrightarrow> x \<in> set t))"
proof (induction objs arbitrary: px t)
  case (Cons obj objs)
  then obtain px1 where px1: "put_object E w obj px = Some px1" "put_objects E w objs px1 = Some px'"
    by (auto simp: bind_conv)
  obtain t1 where t1: "has_stubs w px1 t1" "px_paths px1 = px_paths px" "put_done E (px_paths px) obj t1"
    "\<forall>x. st_key x \<noteq> fst obj \<longrightarrow> (x \<in> set t1 \<longleftrightarrow> x \<in> set t)"
    using put_object_result [OF E Cons.prems(1) px1(1)] by blast
  obtain t' where t': "has_stubs w px' t'" "px_paths px' = px_paths px1"
    "\<forall>obj\<in>set objs. put_done E (px_paths px1) obj t'"
    "\<forall>x. st_key x \<notin> fst ` set objs \<longrightarrow> (x \<in> set t' \<longleftrightarrow> x \<in> set t1)"
    using Cons.IH [OF t1(1) _ px1(2)] Cons.prems(2) by auto
  have "put_done E (px_paths px) obj t'"
    using t1(3) t'(4) Cons.prems(2) unfolding put_done_def by simp metis
  then show ?case using t1 t' by (intro exI [of _ t']) auto
qed auto

text \<open>With memory and well-formed signatures every step returns.\<close>

lemma valid_methods:
  assumes "valid_signature signature"
  shows "\<exists>us. Option.bind (json_members signature) (methods_of E) = Some us"
proof -
  obtain ms where "signature = JObject ms" "\<forall>m\<in>set ms. is_object (snd m)"
    using assms by (auto simp: valid_signature_def)
  then show ?thesis using methods_of_total [of ms E] by auto
qed

lemma create_total:
  assumes "names_ok E" "\<forall>a. px_alloc E a" "valid_signature signature" "remote_of w px = Some (peer, r)"
  shows "\<exists>px'. wsu_local_stub_create E w object signature px = Some px'"
proof -
  obtain ms us where "json_members signature = Some ms" "methods_of E ms = Some us"
    using valid_methods [OF assms(3), of E] by (auto simp: bind_conv)
  moreover obtain p where "CHR ''/'' \<notin> set p" "proxied_name_mac_prefix E
      (peer_prefix E w (proxied_name_size object) @ ''/'' @ object) (proxied_name_size object) = p @ ''/'' @ object"
    using stub_name [OF assms(1) refl] by blast
  ultimately show ?thesis
    using assms by (simp add: wsu_local_stub_create_def fill_eq [OF assms(1), simplified] after_slash_append Let_def)
qed

lemma put_object_total:
  assumes E: "names_ok E" and a: "\<forall>a. px_alloc E a" and v: "valid_signature (snd obj)" and h: "has_stubs w px t"
  shows "\<exists>px'. put_object E w obj px = Some px'"
proof -
  obtain peer r where r: "remote_of w px = Some (peer, r)" "stubs r = t"
    using h by (auto simp: has_stubs_def)
  have c: "\<exists>px'. create_matching E w obj px1 = Some px'" if "has_stubs w px1 t1" for px1 t1
    using that create_total [OF E a v] by (auto simp: create_matching_def has_stubs_def)
  show ?thesis
  proof (cases "List.find (\<lambda>x. st_key x = fst obj) t")
    case None
    then show ?thesis using c [OF h] r by (simp add: put_object_def)
  next
    case (Some x)
    then obtain A B where "t = A @ x # B" using find_split [OF Some] by blast
    with h have "has_stubs w px (A @ x # B)" by simp
    then obtain px1 where px1: "wsu_local_stub_destroy x px = Some px1" "has_stubs w px1 (A @ B)"
      using destroy_has_stubs by blast
    obtain same where "wsu_local_stub_is_same_signature E x (snd obj) = Some same"
      using valid_methods [OF v, of E] same_signature_eq by blast
    then show ?thesis using Some r px1(1) c [OF px1(2)] by (simp add: put_object_def)
  qed
qed

lemma put_objects_total:
  assumes E: "names_ok E" and a: "\<forall>a. px_alloc E a"
  shows "\<forall>obj\<in>set objs. valid_signature (snd obj) \<Longrightarrow> has_stubs w px t \<Longrightarrow> \<exists>px'. put_objects E w objs px = Some px'"
proof (induction objs arbitrary: px t)
  case (Cons obj objs)
  then obtain px1 where px1: "put_object E w obj px = Some px1"
    using put_object_total [OF E a, of obj w px t] by auto
  then obtain t1 where "has_stubs w px1 t1" using put_object_result [OF E Cons.prems(2)] by blast
  then show ?case using Cons.IH [of px1 t1] Cons.prems(1) px1 by auto
qed simp

end
