(* ===== verification/Client_Inv.thy ===== *)
theory Client_Inv
  imports Client_Manager
begin

text \<open>
  The client manager as a state machine driven by the library callbacks and the ubus object, and
  its invariant: indices strictly increase along the list, no two live clients have the same
  address, a connection belongs to one client, and a timer is pending only for a client that is
  disconnected.
\<close>

section \<open>The lowest free index\<close>

definition indices :: "client_connection_info list \<Rightarrow> int set" where
  "indices cs = ci_index ` set cs"

lemma insert_from_spec:
  assumes "sorted_wrt (<) (map ci_index cs)" "\<forall>c\<in>set cs. i \<le> ci_index c"
  shows "\<exists>n\<ge>i. n \<notin> indices cs \<and> (\<forall>j. i \<le> j \<and> j < n \<longrightarrow> j \<in> indices cs) \<and>
     sorted_wrt (<) (map ci_index (insert_from i c cs)) \<and>
     mset (insert_from i c cs) = add_mset (c\<lparr>ci_index := n\<rparr>) (mset cs)"
  using assms
proof (induction cs arbitrary: i)
  case Nil
  then show ?case by (intro exI [of _ i]) (auto simp: indices_def)
next
  case (Cons d cs)
  show ?case
  proof (cases "ci_index d > i")
    case True
    then show ?thesis
      using Cons.prems by (intro exI [of _ i]) (auto simp: indices_def)
  next
    case False
    then have d: "ci_index d = i" using Cons.prems by auto
    have "\<forall>c\<in>set cs. i + 1 \<le> ci_index c" using Cons.prems d by auto
    then obtain n where n: "n \<ge> i + 1" "n \<notin> indices cs" "\<forall>j. i + 1 \<le> j \<and> j < n \<longrightarrow> j \<in> indices cs"
      "sorted_wrt (<) (map ci_index (insert_from (i + 1) c cs))"
      "mset (insert_from (i + 1) c cs) = add_mset (c\<lparr>ci_index := n\<rparr>) (mset cs)"
      using Cons.IH [of "i + 1"] Cons.prems(1) by auto
    have "set (insert_from (i + 1) c cs) = insert (c\<lparr>ci_index := n\<rparr>) (set cs)"
      using n(5) by (metis set_mset_add_mset_insert set_mset_mset)
    then have "sorted_wrt (<) (map ci_index (insert_from i c (d # cs)))"
      using False d n(1,4) \<open>\<forall>c\<in>set cs. i + 1 \<le> ci_index c\<close> by auto
    moreover have "\<forall>j. i \<le> j \<and> j < n \<longrightarrow> j \<in> indices (d # cs)"
      using n(3) d by (auto simp: indices_def) (metis add1_zle_eq linorder_neqE_linordered_idom not_le)
    ultimately show ?thesis
      using False d n by (intro exI [of _ n]) (auto simp: indices_def)
  qed
qed

section \<open>The machine\<close>

text \<open>The manager's part of \<open>LWS_CALLBACK_CLIENT_ESTABLISHED\<close> and of the close callbacks.\<close>

definition proxy_established_clients :: "wsi \<Rightarrow> clvh_context \<Rightarrow> clvh_context" where
  "proxy_established_clients w cs =
     (if wsubus_client_should_destroy (Some w) cs then cs
      else wsubus_client_set_state (Some w) CONNECTION_STATE_CONNECTED cs)"

definition proxy_closed_clients :: "wsi \<Rightarrow> clvh_context \<Rightarrow> clvh_context" where
  "proxy_closed_clients w cs =
     (if wsubus_client_should_destroy (Some w) cs then wsubus_client_destroy (Some w) cs
      else wsubus_client_reconnect (Some w)
             (wsubus_client_set_state (Some w) CONNECTION_STATE_DISCONNECTED cs))"

datatype cl_event =
    Create "string option" int "string option" client_type
  | Start
  | Tick addr
  | Established wsi
  | Conn_error wsi
  | Closed wsi
  | Ubus_add "blob_attr list"
  | Ubus_remove "blob_attr list"

definition cl_step :: "cl_env \<Rightarrow> cl_event \<Rightarrow> clvh_context \<Rightarrow> clvh_context option" where
  "cl_step E ev cs =
     (case ev of
        Create addr port path type \<Rightarrow> Some (snd (wsubus_client_create E addr port path type cs))
      | Start \<Rightarrow> Some (wsubus_client_connect_all cs)
      | Tick a \<Rightarrow> utimer_reconnect_cb E a cs
      | Established w \<Rightarrow> Some (proxy_established_clients w cs)
      | Conn_error w \<Rightarrow> Some (proxy_connection_error w cs)
      | Closed w \<Rightarrow> Some (proxy_closed_clients w cs)
      | Ubus_add msg \<Rightarrow> Some (snd (add_client E msg cs))
      | Ubus_remove msg \<Rightarrow> map_option snd (remove_client E msg cs))"

definition active :: "connection_state \<Rightarrow> bool" where
  "active st \<longleftrightarrow> st \<noteq> CONNECTION_STATE_DISCONNECTED"

text \<open>
  When an event can happen. A new connection is one no client of the list still holds: the
  library gives no connection twice while it is held (the manager itself keeps a closed one).
\<close>

definition fresh_wsi :: "wsi \<Rightarrow> clvh_context \<Rightarrow> bool" where
  "fresh_wsi w cs \<longleftrightarrow> (\<forall>c\<in>set (cl_clients cs). ci_wsi c \<noteq> Some w)"

definition cl_enabled_ev :: "cl_env \<Rightarrow> clvh_context \<Rightarrow> cl_event \<Rightarrow> bool" where
  "cl_enabled_ev E cs ev =
     (case ev of
        Start \<Rightarrow> (\<forall>c\<in>set (cl_clients cs). \<not> active (ci_state c))
      | Tick a \<Rightarrow>
          (\<exists>c\<in>set (cl_clients cs). ci_addr c = a \<and> ci_timer c \<noteq> None \<and>
             (case lws_client_connect_via_info E (ci_info c) of
                Begun w \<Rightarrow> fresh_wsi w cs | Failed_reported w \<Rightarrow> fresh_wsi w cs | Failed \<Rightarrow> True))
      | Established w \<Rightarrow> (\<exists>c\<in>set (cl_clients cs). ci_wsi c = Some w \<and> active (ci_state c))
      | Conn_error w \<Rightarrow> (\<exists>c\<in>set (cl_clients cs). ci_wsi c = Some w \<and> active (ci_state c))
      | Closed w \<Rightarrow> (\<exists>c\<in>set (cl_clients cs). ci_wsi c = Some w \<and> active (ci_state c))
      | Ubus_remove msg \<Rightarrow> remove_client E msg cs \<noteq> None
      | _ \<Rightarrow> True)"

definition cl_env_ok :: "cl_env \<Rightarrow> bool" where
  "cl_env_ok E \<longleftrightarrow> (\<forall>v6 a. inet_pton E v6 a \<longrightarrow> length a < 46)"

section \<open>The invariant\<close>

definition client_ok :: "client_connection_info \<Rightarrow> bool" where
  "client_ok c \<longleftrightarrow>
     0 \<le> ci_index c \<and> (active (ci_state c) \<longrightarrow> ci_wsi c \<noteq> None \<and> ci_timer c = None) \<and>
     length (cc_address (ci_info c)) < 46"

text \<open>
  A key of a client that no other client of the list has: its connection, and its address unless
  it is being torn down.
\<close>

definition own :: "(client_connection_info \<Rightarrow> 'a option) \<Rightarrow> client_connection_info set \<Rightarrow> bool" where
  "own key C \<longleftrightarrow>
     (\<forall>c\<in>C. \<forall>d\<in>C. \<forall>x. key c = Some x \<longrightarrow> key d = Some x \<longrightarrow> ci_addr c = ci_addr d)"

definition live_address :: "client_connection_info \<Rightarrow> string option" where
  "live_address c =
     (if ci_state c = CONNECTION_STATE_TEARINGDOWN then None else Some (cc_address (ci_info c)))"

definition cl_inv :: "clvh_context \<Rightarrow> bool" where
  "cl_inv cs \<longleftrightarrow>
     sorted_wrt (<) (map ci_index (cl_clients cs)) \<and> distinct (map ci_addr (cl_clients cs)) \<and>
     (\<forall>c\<in>set (cl_clients cs). client_ok c \<and> ci_addr c < cl_next cs) \<and>
     own ci_wsi (set (cl_clients cs)) \<and> own live_address (set (cl_clients cs))"

lemma ownD: "own key C \<Longrightarrow> c \<in> C \<Longrightarrow> d \<in> C \<Longrightarrow> key c = Some x \<Longrightarrow> key d = Some x \<Longrightarrow> ci_addr c = ci_addr d"
  unfolding own_def by blast

lemma own_subset: "own key C \<Longrightarrow> D \<subseteq> C \<Longrightarrow> own key D"
  unfolding own_def by blast

lemma own_insert:
  assumes "own key C" "\<And>c x. c \<in> C \<Longrightarrow> key d = Some x \<Longrightarrow> key c \<noteq> Some x"
  shows "own key (insert d C)"
  using assms unfolding own_def by (metis insert_iff)

lemma own_image:
  assumes own: "own key C" and g: "\<And>c. ci_addr (g c) = ci_addr c"
    and key: "\<And>c x. c \<in> C \<Longrightarrow> key (g c) = Some x \<Longrightarrow> key c = Some x \<or> (\<forall>d\<in>C. ci_addr d \<noteq> ci_addr c \<longrightarrow> key (g d) \<noteq> Some x)"
  shows "own key (g ` C)"
proof -
  have "ci_addr c = ci_addr d" if "c \<in> C" "d \<in> C" "key (g c) = Some x" "key (g d) = Some x" for c d x
    using key [OF that(1,3)] key [OF that(2,4)] ownD [OF own that(1,2)] that by metis
  then show ?thesis by (simp only: own_def ball_simps g) blast
qed

lemma filter_inv:
  assumes "cl_inv cs"
  shows "cl_inv (cs\<lparr>cl_clients := filter P (cl_clients cs)\<rparr>)"
proof -
  have "sorted_wrt (<) (map ci_index (filter P (cl_clients cs)))"
    "distinct (map ci_addr (filter P (cl_clients cs)))"
    using assms by (simp_all add: cl_inv_def sorted_wrt_map sorted_wrt_filter distinct_map_filter)
  moreover have "own ci_wsi (set (filter P (cl_clients cs)))" "own live_address (set (filter P (cl_clients cs)))"
    using assms unfolding cl_inv_def by (auto elim: own_subset)
  ultimately show ?thesis using assms by (simp add: cl_inv_def)
qed

text \<open>A change of one client that keeps what identifies it.\<close>

lemma upd_inv:
  assumes inv: "cl_inv cs"
    and f: "\<And>c. ci_index (f c) = ci_index c" "\<And>c. ci_addr (f c) = ci_addr c" "\<And>c. ci_info (f c) = ci_info c"
    and ok: "\<And>c. c \<in> set (cl_clients cs) \<Longrightarrow> ci_addr c = a \<Longrightarrow> client_ok c \<Longrightarrow> client_ok (f c)"
    and wsi: "\<And>c. c \<in> set (cl_clients cs) \<Longrightarrow> ci_addr c = a \<Longrightarrow> ci_wsi (f c) = ci_wsi c \<or> ci_wsi (f c) = None \<or>
        (\<exists>w. ci_wsi (f c) = Some w \<and> fresh_wsi w cs)"
    and st: "\<And>c. c \<in> set (cl_clients cs) \<Longrightarrow> ci_addr c = a \<Longrightarrow> ci_state c = CONNECTION_STATE_TEARINGDOWN \<Longrightarrow>
        ci_state (f c) = CONNECTION_STATE_TEARINGDOWN"
  shows "cl_inv (upd_ci a f cs)"
proof -
  define g where "g = (\<lambda>c. if ci_addr c = a then f c else c)"
  let ?C = "set (cl_clients cs)"
  have cl: "cl_clients (upd_ci a f cs) = map g (cl_clients cs)" "cl_next (upd_ci a f cs) = cl_next cs"
    by (simp_all add: upd_ci_def g_def)
  have keep: "map ci_index (map g xs) = map ci_index xs" "map ci_addr (map g xs) = map ci_addr xs" for xs
    using f by (auto simp: g_def)
  have ga: "ci_addr (g c) = ci_addr c" for c using f by (simp add: g_def)
  have "ci_wsi c = Some w \<or> (\<forall>d\<in>?C. ci_addr d \<noteq> ci_addr c \<longrightarrow> ci_wsi (g d) \<noteq> Some w)"
    if "c \<in> ?C" "ci_wsi (g c) = Some w" for c w
  proof (cases "ci_addr c = a")
    case True
    then show ?thesis using wsi [OF that(1)] that(2) by (auto simp: g_def fresh_wsi_def)
  qed (use that in \<open>simp add: g_def\<close>)
  then have "own ci_wsi (g ` ?C)"
    using inv by (intro own_image) (auto simp: cl_inv_def ga)
  moreover have "own live_address (g ` ?C)"
    by (rule own_image) (use inv st f ga in \<open>auto simp: cl_inv_def live_address_def g_def split: if_splits\<close>)
  ultimately show ?thesis
    using inv ok f(2) unfolding cl_inv_def cl keep set_map by (auto simp: g_def)
qed

lemma same_client:
  "cl_inv cs \<Longrightarrow> c \<in> set (cl_clients cs) \<Longrightarrow> d \<in> set (cl_clients cs) \<Longrightarrow> ci_addr c = ci_addr d \<Longrightarrow> c = d"
  by (auto simp: cl_inv_def distinct_map inj_on_def)

lemma upd_one_inv:
  assumes inv: "cl_inv cs" and c: "c \<in> set (cl_clients cs)"
    and f: "\<And>c. ci_index (f c) = ci_index c" "\<And>c. ci_addr (f c) = ci_addr c" "\<And>c. ci_info (f c) = ci_info c"
    and ok: "client_ok c \<Longrightarrow> client_ok (f c)"
    and wsi: "ci_wsi (f c) = ci_wsi c \<or> ci_wsi (f c) = None \<or> (\<exists>w. ci_wsi (f c) = Some w \<and> fresh_wsi w cs)"
    and st: "ci_state c = CONNECTION_STATE_TEARINGDOWN \<Longrightarrow> ci_state (f c) = CONNECTION_STATE_TEARINGDOWN"
  shows "cl_inv (upd_ci (ci_addr c) f cs)"
proof (rule upd_inv [OF inv f])
  fix d assume "d \<in> set (cl_clients cs)" "ci_addr d = ci_addr c"
  then have "d = c" using same_client [OF inv _ c] by blast
  then show "client_ok d \<Longrightarrow> client_ok (f d)"
    and "ci_wsi (f d) = ci_wsi d \<or> ci_wsi (f d) = None \<or> (\<exists>w. ci_wsi (f d) = Some w \<and> fresh_wsi w cs)"
    and "ci_state d = CONNECTION_STATE_TEARINGDOWN \<Longrightarrow> ci_state (f d) = CONNECTION_STATE_TEARINGDOWN"
    using ok wsi st by simp_all
qed

lemma found_by_wsi:
  assumes "cl_inv cs" "c \<in> set (cl_clients cs)" "ci_wsi c = Some w"
  shows "get_client_by_wsi (Some w) cs = Some c"
proof -
  obtain d where d: "List.find (\<lambda>c. ci_wsi c = Some w) (cl_clients cs) = Some d"
    using assms(2,3)
    by (cases "List.find (\<lambda>c. ci_wsi c = Some w) (cl_clients cs)") (auto simp: find_None_iff)
  then have "d \<in> set (cl_clients cs)" "ci_wsi d = Some w"
    by (auto simp: find_Some_iff)
  moreover have "own ci_wsi (set (cl_clients cs))" using assms(1) by (simp add: cl_inv_def)
  ultimately have "d = c"
    using same_client [OF assms(1), of d c] ownD [of ci_wsi "set (cl_clients cs)" d c w] assms(2,3) by blast
  then show ?thesis using d by (simp add: get_client_by_wsi_def)
qed

lemma found_by_addr:
  assumes "cl_inv cs" "c \<in> set (cl_clients cs)"
  shows "List.find (\<lambda>d. ci_addr d = ci_addr c) (cl_clients cs) = Some c"
proof -
  obtain d where d: "List.find (\<lambda>d. ci_addr d = ci_addr c) (cl_clients cs) = Some d"
    using assms(2)
    by (cases "List.find (\<lambda>d. ci_addr d = ci_addr c) (cl_clients cs)") (auto simp: find_None_iff)
  then have "d \<in> set (cl_clients cs)" "ci_addr d = ci_addr c" by (auto simp: find_Some_iff)
  then show ?thesis using d same_client [OF assms(1), of d c] assms(2) by simp
qed

lemma upd_upd: "(\<And>c. ci_addr (f c) = ci_addr c) \<Longrightarrow> upd_ci a g (upd_ci a f cs) = upd_ci a (\<lambda>c. g (f c)) cs"
  by (auto simp: upd_ci_def)

lemma upd_retry [simp]: "cl_retry_timeout (upd_ci a f cs) = cl_retry_timeout cs"
  by (simp add: upd_ci_def)

lemma in_upd: "c \<in> set (cl_clients cs) \<Longrightarrow> f c \<in> set (cl_clients (upd_ci (ci_addr c) f cs))"
  by (auto simp: upd_ci_def image_iff)

section \<open>What each callback does to the client it concerns\<close>

lemma destroyed_when_tearing_down:
  assumes "cl_inv cs" "c \<in> set (cl_clients cs)" "ci_wsi c = Some w" "ci_state c = CONNECTION_STATE_TEARINGDOWN"
  shows "proxy_closed_clients w cs = wsubus_client_del (ci_addr c) cs"
    "proxy_connection_error w cs = wsubus_client_del (ci_addr c) cs"
    "proxy_established_clients w cs = cs"
  using assms(4) found_by_wsi [OF assms(1-3)]
  by (simp_all add: proxy_closed_clients_def proxy_connection_error_def proxy_established_clients_def
      wsubus_client_should_destroy_def wsubus_client_destroy_def)

lemma set_state_eq:
  assumes "cl_inv cs" "c \<in> set (cl_clients cs)" "ci_wsi c = Some w"
  shows "wsubus_client_set_state (Some w) st cs =
     upd_ci (ci_addr c) (\<lambda>c. if st = CONNECTION_STATE_CONNECTED then c\<lparr>ci_state := st, ci_reconnect_count := 0\<rparr>
                              else c\<lparr>ci_state := st\<rparr>) cs"
  by (simp add: wsubus_client_set_state_def found_by_wsi [OF assms] Let_def cong: if_cong)

lemma upd_found:
  assumes inv: "cl_inv (upd_ci (ci_addr c) f cs)" and c: "c \<in> set (cl_clients cs)" and w: "ci_wsi (f c) = Some w"
  shows "get_client_by_wsi (Some w) (upd_ci (ci_addr c) f cs) = Some (f c)"
  by (rule found_by_wsi [OF inv in_upd [OF c] w])

lemma closed_effect:
  assumes inv: "cl_inv cs" and c: "c \<in> set (cl_clients cs)" "ci_wsi c = Some w"
    and st: "ci_state c \<noteq> CONNECTION_STATE_TEARINGDOWN"
  shows "proxy_closed_clients w cs =
     upd_ci (ci_addr c) (\<lambda>c. c\<lparr>ci_state := CONNECTION_STATE_DISCONNECTED, ci_reconnect_count := 0,
       ci_timer := Some 2000\<rparr>) cs"
proof -
  let ?f = "\<lambda>c. c\<lparr>ci_state := CONNECTION_STATE_DISCONNECTED\<rparr>"
  let ?cs = "upd_ci (ci_addr c) ?f cs"
  have "cl_inv ?cs"
    by (rule upd_one_inv [OF inv c(1)]) (use st in \<open>simp_all add: client_ok_def active_def\<close>)
  then have "get_client_by_wsi (Some w) ?cs = Some (?f c)"
    by (rule upd_found) (use c in simp_all)
  then show ?thesis
    using st found_by_wsi [OF inv c]
    by (simp add: proxy_closed_clients_def wsubus_client_should_destroy_def set_state_eq [OF inv c]
        wsubus_client_reconnect_def client_connect_def arm_def upd_upd)
qed

lemma connection_error_effect:
  assumes inv: "cl_inv cs" and c: "c \<in> set (cl_clients cs)" "ci_wsi c = Some w"
    and st: "ci_state c \<noteq> CONNECTION_STATE_TEARINGDOWN"
  shows "proxy_connection_error w cs =
     upd_ci (ci_addr c) (\<lambda>c. c\<lparr>ci_state := CONNECTION_STATE_DISCONNECTED, ci_wsi := None,
       ci_reconnect_count := ci_reconnect_count c + 1,
       ci_timer := Some ((ci_reconnect_count c + 1) * cl_retry_timeout cs)\<rparr>) cs"
proof -
  let ?f = "\<lambda>c. c\<lparr>ci_state := CONNECTION_STATE_DISCONNECTED\<rparr>"
  let ?cs = "upd_ci (ci_addr c) ?f cs"
  have "cl_inv ?cs"
    by (rule upd_one_inv [OF inv c(1)]) (use st in \<open>simp_all add: client_ok_def active_def\<close>)
  then have "get_client_by_wsi (Some w) ?cs = Some (?f c)"
    by (rule upd_found) (use c in simp_all)
  then show ?thesis
    using st found_by_wsi [OF inv c]
    by (simp add: proxy_connection_error_def wsubus_client_should_destroy_def set_state_eq [OF inv c]
        wsubus_client_connect_retry_def upd_upd Let_def)
qed

lemma established_effect:
  assumes inv: "cl_inv cs" and c: "c \<in> set (cl_clients cs)" "ci_wsi c = Some w"
    and st: "ci_state c \<noteq> CONNECTION_STATE_TEARINGDOWN"
  shows "proxy_established_clients w cs =
     upd_ci (ci_addr c) (\<lambda>c. c\<lparr>ci_state := CONNECTION_STATE_CONNECTED, ci_reconnect_count := 0\<rparr>) cs"
  using st found_by_wsi [OF inv c]
  by (simp add: proxy_established_clients_def wsubus_client_should_destroy_def set_state_eq [OF inv c])

lemma tick_effect:
  assumes inv: "cl_inv cs" and c: "c \<in> set (cl_clients cs)" "ci_timer c \<noteq> None"
    and fresh: "\<And>w. lws_client_connect_via_info E (ci_info c) \<in> {Begun w, Failed_reported w} \<Longrightarrow> fresh_wsi w cs"
  shows "utimer_reconnect_cb E (ci_addr c) cs = Some (upd_ci (ci_addr c)
     (case lws_client_connect_via_info E (ci_info c) of
        Begun w \<Rightarrow> \<lambda>c. c\<lparr>ci_timer := None, ci_wsi := Some w, ci_state := CONNECTION_STATE_CONNECTING\<rparr>
      | Failed \<Rightarrow> \<lambda>c. c\<lparr>ci_timer := None\<rparr>
      | Failed_reported w \<Rightarrow> \<lambda>c. c\<lparr>ci_state := CONNECTION_STATE_DISCONNECTED, ci_wsi := None,
          ci_reconnect_count := ci_reconnect_count c + 1,
          ci_timer := Some ((ci_reconnect_count c + 1) * cl_retry_timeout cs)\<rparr>) cs)"
proof -
  have st: "ci_state c = CONNECTION_STATE_DISCONNECTED"
    using inv c by (auto simp: cl_inv_def client_ok_def active_def)
  let ?f = "\<lambda>w c. c\<lparr>ci_timer := None, ci_wsi := Some w\<rparr>"
  have inv': "cl_inv (upd_ci (ci_addr c) (?f w) cs)" if "fresh_wsi w cs" for w
    by (rule upd_one_inv [OF inv c(1)]) (use st that in \<open>simp_all add: client_ok_def active_def\<close>)
  show ?thesis
  proof (cases "lws_client_connect_via_info E (ci_info c)")
    case (Begun w)
    then have "cl_inv (upd_ci (ci_addr c) (?f w) cs)" using inv' fresh by simp
    from set_state_eq [OF this in_upd [OF c(1)], of w CONNECTION_STATE_CONNECTING] show ?thesis
      using Begun by (simp add: utimer_reconnect_cb_def found_by_addr [OF inv c(1)] Let_def upd_upd)
  next
    case (Failed_reported w)
    then have "cl_inv (upd_ci (ci_addr c) (?f w) cs)" using inv' fresh by simp
    from connection_error_effect [OF this in_upd [OF c(1)], of w] show ?thesis
      using Failed_reported st by (simp add: utimer_reconnect_cb_def found_by_addr [OF inv c(1)] Let_def upd_upd)
  qed (simp add: utimer_reconnect_cb_def found_by_addr [OF inv c(1)] Let_def)
qed

section \<open>Every step keeps the invariant\<close>

lemma create_inv:
  assumes inv: "cl_inv cs" and env: "cl_env_ok E"
  shows "cl_inv (snd (wsubus_client_create E addr port path type cs))"
proof (cases "validate_ip_port_path E addr port path")
  case (Some v)
  obtain a p q where v: "v = (a, p, q)" by (metis surj_pair)
  have len: "length a < 46"
    using Some env by (auto simp: v validate_ip_port_path_def cl_env_ok_def split: option.splits if_splits)
  show ?thesis
  proof (cases "unique_ip a cs \<and> cl_alloc E A_newcl \<and> cl_alloc E A_addr \<and> cl_alloc E A_path")
    case True
    define d where "d = (if type = CLIENT_FROM_UBUS then (new_client cs a p q type)\<lparr>ci_timer := Some 100\<rparr>
        else new_client cs a p q type)"
    have "sorted_wrt (<) (map ci_index (cl_clients cs))" "\<forall>c\<in>set (cl_clients cs). 0 \<le> ci_index c"
      using inv by (auto simp: cl_inv_def client_ok_def)
    then obtain n where n: "n \<ge> 0" "sorted_wrt (<) (map ci_index (insert_from 0 d (cl_clients cs)))"
      "mset (insert_from 0 d (cl_clients cs)) = add_mset (d\<lparr>ci_index := n\<rparr>) (mset (cl_clients cs))"
      using insert_from_spec [of "cl_clients cs" 0 d] by blast
    let ?d = "d\<lparr>ci_index := n\<rparr>" and ?l = "insert_from 0 d (cl_clients cs)"
    have set: "set ?l = insert ?d (set (cl_clients cs))"
      using n(3) by (metis set_mset_add_mset_insert set_mset_mset)
    have "mset (map ci_addr ?l) = mset (ci_addr ?d # map ci_addr (cl_clients cs))" using n(3) by simp
    moreover have "ci_addr ?d \<notin> set (map ci_addr (cl_clients cs))"
      using inv by (auto simp: cl_inv_def d_def new_client_def)
    ultimately have da: "distinct (map ci_addr ?l)"
      using inv by (metis cl_inv_def distinct.simps(2) mset_eq_imp_distinct_iff)
    have d: "ci_wsi ?d = None" "ci_state ?d = CONNECTION_STATE_DISCONNECTED" "cc_address (ci_info ?d) = a"
      "ci_addr ?d = cl_next cs" "client_ok ?d"
      using len n(1) by (simp_all add: d_def new_client_def MAX_IP_LEN_def client_ok_def active_def)
    have "own ci_wsi (set ?l)"
      unfolding set by (rule own_insert) (use inv d(1) in \<open>simp_all add: cl_inv_def\<close>)
    moreover have "own live_address (set ?l)"
      unfolding set
      by (rule own_insert)
        (use inv True d(2,3) in \<open>auto simp: cl_inv_def live_address_def unique_ip_def list_ex_iff split: if_splits\<close>)
    moreover have "\<forall>c\<in>set ?l. client_ok c \<and> ci_addr c < cl_next cs + 1"
      using inv d(4,5) unfolding set cl_inv_def by auto
    ultimately show ?thesis
      using True n(2) da
      by (simp add: wsubus_client_create_def Some v Let_def wsubus_client_enable_proxy_def
          insert_at_lowest_free_index_def cl_inv_def d_def [symmetric])
  next
    case False
    then show ?thesis using inv by (auto simp: wsubus_client_create_def Some v)
  qed
qed (use inv in \<open>simp add: wsubus_client_create_def\<close>)

lemma add_inv:
  assumes "cl_inv cs" "cl_env_ok E"
  shows "cl_inv (snd (add_client E msg cs))"
  using assms create_inv by (auto simp: add_client_def Let_def split: option.splits)

lemma manage_remove_inv:
  assumes "cl_inv cs" "d \<in> set (cl_clients cs)" "ci_state d = ci_state c" "ci_addr d = ci_addr c"
  shows "cl_inv (manage_remove_client c cs)"
proof -
  have "cl_inv (upd_ci (ci_addr d) (\<lambda>c. c\<lparr>ci_state := CONNECTION_STATE_TEARINGDOWN\<rparr>) cs)"
    if "active (ci_state c)"
    by (rule upd_one_inv [OF assms(1,2)]) (use that assms(3) in \<open>simp_all add: client_ok_def\<close>)
  then show ?thesis
    using assms(1,4) filter_inv [OF assms(1)]
    by (auto simp: manage_remove_client_def active_def wsubus_client_del_def split: connection_state.splits)
qed

lemma manage_remove_other:
  "d \<in> set (cl_clients cs) \<Longrightarrow> ci_addr d \<noteq> ci_addr c \<Longrightarrow> d \<in> set (cl_clients (manage_remove_client c cs))"
  by (auto simp: manage_remove_client_def wsubus_client_del_def upd_ci_def image_iff
      split: connection_state.splits)

lemma remove_all_inv:
  assumes "cl_inv cs" "set xs \<subseteq> set (cl_clients cs)" "distinct (map ci_addr xs)"
  shows "cl_inv (foldl (\<lambda>cs c. if P c then cs else manage_remove_client c cs) cs xs)"
  using assms
proof (induction xs arbitrary: cs)
  case (Cons c xs)
  have "cl_inv (manage_remove_client c cs)"
    using Cons.prems by (intro manage_remove_inv [of _ c]) auto
  moreover have "set xs \<subseteq> set (cl_clients (manage_remove_client c cs))"
    using Cons.prems manage_remove_other by (fastforce simp: image_iff)
  ultimately show ?case using Cons by simp
qed simp

lemma remove_inv:
  assumes inv: "cl_inv cs"
  shows "wp (remove_client E msg cs) (\<lambda>(rc, cs'). cl_inv cs')"
proof -
  have "cl_inv (manage_remove_client c cs)" if "get_client_by_index i cs = Some c" for i c
    by (rule manage_remove_inv [OF inv]) (use that in \<open>auto simp: get_client_by_index_def find_Some_iff\<close>)
  moreover have "cl_inv (foldl (\<lambda>cs c. if P c then cs else manage_remove_client c cs) cs (cl_clients cs))" for P
    by (rule remove_all_inv [OF inv]) (use inv in \<open>simp_all add: cl_inv_def\<close>)
  ultimately show ?thesis
    using inv unfolding remove_client_def by (auto simp: wp_def Let_def split: option.splits)
qed

lemma start_inv:
  assumes inv: "cl_inv cs" and idle: "\<forall>c\<in>set (cl_clients cs). \<not> active (ci_state c)"
  shows "cl_inv (wsubus_client_connect_all cs)"
proof -
  let ?l = "map (arm 0) (cl_clients cs)"
  have arm: "ci_index (arm t c) = ci_index c" "ci_addr (arm t c) = ci_addr c" "ci_wsi (arm t c) = ci_wsi c"
    "ci_info (arm t c) = ci_info c" "ci_state (arm t c) = ci_state c" for t c
    by (simp_all add: arm_def)
  then have "map ci_index ?l = map ci_index (cl_clients cs)" "map ci_addr ?l = map ci_addr (cl_clients cs)"
    by simp_all
  moreover have "own ci_wsi (set ?l)" "own live_address (set ?l)"
    unfolding set_map using inv
    by (auto intro!: own_image simp: arm cl_inv_def live_address_def split: if_splits)
  moreover have "\<forall>c\<in>set ?l. client_ok c \<and> ci_addr c < cl_next cs"
    using inv idle by (auto simp: cl_inv_def client_ok_def arm)
  ultimately show ?thesis
    using inv by (simp add: cl_inv_def wsubus_client_connect_all_def client_connect_def comp_def arm)
qed

lemma wsi_event_inv:
  assumes inv: "cl_inv cs" and c: "c \<in> set (cl_clients cs)" "ci_wsi c = Some w" and act: "active (ci_state c)"
  shows "cl_inv (proxy_established_clients w cs)" "cl_inv (proxy_closed_clients w cs)"
    "cl_inv (proxy_connection_error w cs)"
proof -
  show "cl_inv (proxy_established_clients w cs)"
  proof (cases "ci_state c = CONNECTION_STATE_TEARINGDOWN")
    case False
    then show ?thesis
      unfolding established_effect [OF inv c False]
      by (intro upd_one_inv [OF inv c(1)]) (use act in \<open>simp_all add: client_ok_def active_def\<close>)
  qed (use inv destroyed_when_tearing_down [OF inv c] in simp)
  show "cl_inv (proxy_closed_clients w cs)"
  proof (cases "ci_state c = CONNECTION_STATE_TEARINGDOWN")
    case False
    then show ?thesis
      unfolding closed_effect [OF inv c False]
      by (intro upd_one_inv [OF inv c(1)]) (simp_all add: client_ok_def active_def)
  qed (use filter_inv [OF inv] destroyed_when_tearing_down [OF inv c] in \<open>simp add: wsubus_client_del_def\<close>)
  show "cl_inv (proxy_connection_error w cs)"
  proof (cases "ci_state c = CONNECTION_STATE_TEARINGDOWN")
    case False
    then show ?thesis
      unfolding connection_error_effect [OF inv c False]
      by (intro upd_one_inv [OF inv c(1)]) (simp_all add: client_ok_def active_def)
  qed (use filter_inv [OF inv] destroyed_when_tearing_down [OF inv c] in \<open>simp add: wsubus_client_del_def\<close>)
qed

lemma tick_inv:
  assumes inv: "cl_inv cs" and c: "c \<in> set (cl_clients cs)" "ci_timer c \<noteq> None"
    and fresh: "\<And>w. lws_client_connect_via_info E (ci_info c) \<in> {Begun w, Failed_reported w} \<Longrightarrow> fresh_wsi w cs"
  shows "\<exists>cs'. utimer_reconnect_cb E (ci_addr c) cs = Some cs' \<and> cl_inv cs'"
proof -
  have "ci_state c = CONNECTION_STATE_DISCONNECTED"
    using inv c by (auto simp: cl_inv_def client_ok_def active_def)
  then have "cl_inv (upd_ci (ci_addr c)
     (case lws_client_connect_via_info E (ci_info c) of
        Begun w \<Rightarrow> \<lambda>c. c\<lparr>ci_timer := None, ci_wsi := Some w, ci_state := CONNECTION_STATE_CONNECTING\<rparr>
      | Failed \<Rightarrow> \<lambda>c. c\<lparr>ci_timer := None\<rparr>
      | Failed_reported w \<Rightarrow> \<lambda>c. c\<lparr>ci_state := CONNECTION_STATE_DISCONNECTED, ci_wsi := None,
          ci_reconnect_count := ci_reconnect_count c + 1,
          ci_timer := Some ((ci_reconnect_count c + 1) * cl_retry_timeout cs)\<rparr>) cs)"
    by (intro upd_one_inv [OF inv c(1)])
      (use fresh in \<open>auto simp: client_ok_def active_def split: connect_result.splits\<close>)
  then show ?thesis using tick_effect [OF inv c fresh] by blast
qed

lemma cl_step_inv:
  assumes inv: "cl_inv cs" and env: "cl_env_ok E" and en: "cl_enabled_ev E cs ev"
  shows "\<exists>cs'. cl_step E ev cs = Some cs' \<and> cl_inv cs'"
proof (cases ev)
  case (Tick a)
  then obtain c where c: "c \<in> set (cl_clients cs)" "ci_addr c = a" "ci_timer c \<noteq> None"
    "case lws_client_connect_via_info E (ci_info c) of
       Begun w \<Rightarrow> fresh_wsi w cs | Failed_reported w \<Rightarrow> fresh_wsi w cs | Failed \<Rightarrow> True"
    using en by (auto simp: cl_enabled_ev_def)
  then have "\<exists>cs'. utimer_reconnect_cb E (ci_addr c) cs = Some cs' \<and> cl_inv cs'"
    by (intro tick_inv [OF inv]) auto
  then show ?thesis using Tick c(2) by (simp add: cl_step_def)
next
  case (Ubus_remove msg)
  then show ?thesis
    using en wpD [OF remove_inv [OF inv]] by (fastforce simp: cl_step_def cl_enabled_ev_def)
qed (use en create_inv [OF inv env] add_inv [OF inv env] start_inv [OF inv] wsi_event_inv [OF inv] in
    \<open>auto simp: cl_step_def cl_enabled_ev_def\<close>)

text \<open>The manager begins without clients, with the timeout the configuration has set.\<close>

inductive cl_reachable :: "clvh_context \<Rightarrow> bool" where
  initial: "cl_reachable (init_clients\<lparr>cl_retry_timeout := t\<rparr>)"
| moved: "cl_reachable cs \<Longrightarrow> cl_env_ok E \<Longrightarrow> cl_enabled_ev E cs ev \<Longrightarrow> cl_step E ev cs = Some cs' \<Longrightarrow>
    cl_reachable cs'"

lemma cl_reachable_inv: "cl_reachable cs \<Longrightarrow> cl_inv cs"
proof (induction rule: cl_reachable.induct)
  case initial
  then show ?case by (simp add: cl_inv_def init_clients_def own_def)
next
  case (moved cs E ev cs')
  then show ?case using cl_step_inv by force
qed

section \<open>Repeated attempts\<close>

lemma upd_one_cong:
  assumes "cl_inv cs" "c \<in> set (cl_clients cs)" "f c = g c"
  shows "upd_ci (ci_addr c) f cs = upd_ci (ci_addr c) g cs"
proof -
  have "map (\<lambda>d. if ci_addr d = ci_addr c then f d else d) (cl_clients cs) =
    map (\<lambda>d. if ci_addr d = ci_addr c then g d else d) (cl_clients cs)"
    using same_client [OF assms(1) _ assms(2)] assms(3) by (intro map_cong) force+
  then show ?thesis by (simp add: upd_ci_def)
qed

lemma upd_unchanged: "upd_ci a (\<lambda>c. c) cs = cs"
  by (simp add: upd_ci_def)

lemma others_after_upd:
  "(\<And>c. ci_addr (f c) = ci_addr c) \<Longrightarrow>
   filter (\<lambda>d. ci_addr d \<noteq> a) (cl_clients (upd_ci a f cs)) = filter (\<lambda>d. ci_addr d \<noteq> a) (cl_clients cs)"
proof -
  assume "\<And>c. ci_addr (f c) = ci_addr c"
  then have "filter (\<lambda>d. ci_addr d \<noteq> a) (map (\<lambda>c. if ci_addr c = a then f c else c) xs) =
    filter (\<lambda>d. ci_addr d \<noteq> a) xs" for xs
    by (induction xs) auto
  then show ?thesis by (simp add: upd_ci_def)
qed

lemma failed_rounds:
  assumes inv: "cl_inv cs" and c: "c \<in> set (cl_clients cs)" "ci_timer c \<noteq> None"
    and fail: "lws_client_connect_via_info E (ci_info c) = Failed_reported w" "fresh_wsi w cs"
  shows "((\<lambda>s. Option.bind s (utimer_reconnect_cb E (ci_addr c))) ^^ Suc n) (Some cs) =
      Some (upd_ci (ci_addr c) (\<lambda>c. c\<lparr>ci_wsi := None, ci_reconnect_count := ci_reconnect_count c + int (Suc n),
         ci_timer := Some ((ci_reconnect_count c + int (Suc n)) * cl_retry_timeout cs)\<rparr>) cs)"
proof -
  have dis: "ci_state c = CONNECTION_STATE_DISCONNECTED"
    using inv c by (auto simp: cl_inv_def client_ok_def active_def)
  let ?f = "\<lambda>n c. c\<lparr>ci_wsi := None, ci_reconnect_count := ci_reconnect_count c + int (Suc n),
         ci_timer := Some ((ci_reconnect_count c + int (Suc n)) * cl_retry_timeout cs)\<rparr>"
  have inv': "cl_inv (upd_ci (ci_addr c) (?f n) cs)" for n
    by (rule upd_one_inv [OF inv c(1)]) (use dis in \<open>simp_all add: client_ok_def active_def\<close>)
  have fr: "fresh_wsi w (upd_ci (ci_addr c) (?f n) cs)" for n
    using fail(2) by (auto simp: fresh_wsi_def upd_ci_def)
  show ?thesis
  proof (induction n)
    case 0
    then show ?case
      using tick_effect [OF inv c, of E] fail by (simp, intro upd_one_cong [OF inv c(1)]) (simp add: dis)
  next
    case (Suc n)
    have "utimer_reconnect_cb E (ci_addr c) (upd_ci (ci_addr c) (?f n) cs) =
      Some (upd_ci (ci_addr c) (?f (Suc n)) cs)"
      using tick_effect [OF inv' in_upd [OF c(1), of "?f n"], of E] fail(1) fr
      by (simp add: upd_upd, intro upd_one_cong [OF inv c(1)]) (simp add: dis)
    with Suc show ?case by simp
  qed
qed

lemma connected_round:
  assumes inv: "cl_inv cs" and c: "c \<in> set (cl_clients cs)" "ci_timer c \<noteq> None"
    and begun: "lws_client_connect_via_info E (ci_info c) = Begun w" "fresh_wsi w cs"
  shows "map_option (proxy_established_clients w) (utimer_reconnect_cb E (ci_addr c) cs) =
      Some (upd_ci (ci_addr c) (\<lambda>c. c\<lparr>ci_timer := None, ci_wsi := Some w,
         ci_state := CONNECTION_STATE_CONNECTED, ci_reconnect_count := 0\<rparr>) cs)"
proof -
  let ?f = "\<lambda>c. c\<lparr>ci_timer := None, ci_wsi := Some w, ci_state := CONNECTION_STATE_CONNECTING\<rparr>"
  have dis: "ci_state c = CONNECTION_STATE_DISCONNECTED"
    using inv c by (auto simp: cl_inv_def client_ok_def active_def)
  have "cl_inv (upd_ci (ci_addr c) ?f cs)"
    by (rule upd_one_inv [OF inv c(1)]) (use begun(2) dis in \<open>simp_all add: client_ok_def active_def\<close>)
  from established_effect [OF this in_upd [OF c(1)], of w] show ?thesis
    using tick_effect [OF inv c, of E] begun by (simp add: upd_upd)
qed

end
