(* ===== verification/Proxy_Safe.thy ===== *)
theory Proxy_Safe
  imports Proxy_Put Writer Client_Inv
begin

text \<open>
  The invariant of the proxy: the stubs of every connection are in order, the calls that wait for
  an answer have distinct ids, the registered objects are stubs of connections; and every callback
  keeps it and does not go wrong.
\<close>

section \<open>Waiting calls\<close>

definition slot_id :: "wsu_remote_bus \<Rightarrow> nat \<Rightarrow> int" where
  "slot_id r p = jsonrpc_id (calls r ! p)"

definition calls_ok :: "wsu_remote_bus \<Rightarrow> bool" where
  "calls_ok r \<longleftrightarrow>
     length (calls r) = MAX_PROXIED_CALLS \<and> 0 \<le> call_id r \<and> wait_list_id r \<le> call_id r \<and>
     (\<forall>p\<in>busy_calls r. 0 < slot_id r p \<and> slot_id r p \<le> call_id r \<and> slot_id r p \<noteq> wait_list_id r) \<and>
     inj_on (slot_id r) (busy_calls r)"

lemma busy_less: "p \<in> busy_calls r \<Longrightarrow> p < MAX_PROXIED_CALLS"
  using proxied.busy_bound [of r] by auto

lemma busy_frame [simp]:
  "busy_calls (r\<lparr>call_id := i\<rparr>) = busy_calls r" "busy_calls (r\<lparr>stubs := t\<rparr>) = busy_calls r"
  "busy_calls (r\<lparr>wait_login := b\<rparr>) = busy_calls r" "busy_calls (r\<lparr>wait_listen := b\<rparr>) = busy_calls r"
  "busy_calls (r\<lparr>wait_list_id := i\<rparr>) = busy_calls r" "busy_calls (r\<lparr>calls := cs\<rparr>) = busy_calls r"
  by (simp_all add: busy_calls_def)

lemma slot_id_frame [simp]:
  "slot_id (r\<lparr>call_id := i\<rparr>) = slot_id r" "slot_id (r\<lparr>stubs := t\<rparr>) = slot_id r"
  "slot_id (r\<lparr>wait_login := b\<rparr>) = slot_id r" "slot_id (r\<lparr>wait_listen := b\<rparr>) = slot_id r"
  "slot_id (r\<lparr>wait_list_id := i\<rparr>) = slot_id r" "slot_id (r\<lparr>wait_call := c\<rparr>) = slot_id r"
  by (simp_all add: slot_id_def fun_eq_iff)

lemma calls_ok_next: "calls_ok r \<Longrightarrow> calls_ok (r\<lparr>call_id := call_id r + 1\<rparr>)"
  by (force simp: calls_ok_def)

lemma calls_ok_frame [simp]:
  "calls_ok (r\<lparr>stubs := t\<rparr>) = calls_ok r" "calls_ok (r\<lparr>wait_login := b\<rparr>) = calls_ok r"
  "calls_ok (r\<lparr>wait_listen := b\<rparr>) = calls_ok r"
  by (simp_all add: calls_ok_def)

lemma calls_ok_list: "calls_ok r \<Longrightarrow> calls_ok (r\<lparr>call_id := call_id r + 1, wait_list_id := call_id r + 1\<rparr>)"
  "calls_ok r \<Longrightarrow> calls_ok (r\<lparr>wait_list_id := 0\<rparr>)"
  by (force simp: calls_ok_def)+

text \<open>Calls do not change what else the connection waits for.\<close>

definition same_phase :: "wsu_remote_bus \<Rightarrow> wsu_remote_bus \<Rightarrow> bool" where
  "same_phase r r' \<longleftrightarrow>
     wait_login r' = wait_login r \<and> wait_listen r' = wait_listen r \<and> wait_list_id r' = wait_list_id r"

lemma calls_ok_new:
  fixes req :: nat
  assumes ok: "calls_ok r" and new: "wsu_proxied_call_new (r\<lparr>call_id := call_id r + 1\<rparr>) = Some (p, r1)"
  defines "r2 \<equiv> r1\<lparr>calls := (calls r1)[p := \<lparr>jsonrpc_id = call_id r1, ureq = req\<rparr>]\<rparr>"
  shows "calls_ok r2" "p \<notin> busy_calls r" "busy_calls r2 = insert p (busy_calls r)"
    "\<forall>q\<in>busy_calls r. calls r2 ! q = calls r ! q" "calls r2 ! p = \<lparr>jsonrpc_id = call_id r + 1, ureq = req\<rparr>"
    "stubs r2 = stubs r" "same_phase r r2"
proof -
  have n: "p < MAX_PROXIED_CALLS" "p \<notin> busy_calls r" "busy_calls r1 = insert p (busy_calls r)"
    and "r1 = r\<lparr>call_id := call_id r + 1, wait_call := wait_call r1\<rparr>"
    using new_spec [of "r\<lparr>call_id := call_id r + 1\<rparr>"] new by (auto simp: MAX_PROXIED_CALLS_def)
  then obtain m where r1: "r1 = r\<lparr>call_id := call_id r + 1, wait_call := m\<rparr>" by blast
  have c: "calls r2 = (calls r)[p := \<lparr>jsonrpc_id = call_id r + 1, ureq = req\<rparr>]" "call_id r2 = call_id r + 1"
    "wait_list_id r2 = wait_list_id r" "stubs r2 = stubs r"
    by (simp_all add: r2_def r1)
  show "p \<notin> busy_calls r" by fact
  show b: "busy_calls r2 = insert p (busy_calls r)" using n(3) by (simp add: r2_def)
  show "stubs r2 = stubs r" by fact
  show "same_phase r r2" by (simp add: same_phase_def r2_def r1)
  show other: "\<forall>q\<in>busy_calls r. calls r2 ! q = calls r ! q" using n(2) unfolding c by (metis nth_list_update_neq)
  show new: "calls r2 ! p = \<lparr>jsonrpc_id = call_id r + 1, ureq = req\<rparr>"
    using ok n(1) by (simp add: c calls_ok_def)
  have ids: "slot_id r2 p = call_id r + 1" "\<forall>q\<in>busy_calls r. slot_id r2 q = slot_id r q"
    using new other by (simp_all add: slot_id_def)
  have "inj_on (slot_id r2) (busy_calls r)"
    using ok ids(2) by (simp add: calls_ok_def inj_on_def)
  then show "calls_ok r2"
    using ok ids n(1) unfolding calls_ok_def b by (force simp: c)
qed

lemma calls_ok_free:
  assumes "calls_ok r" "p \<in> busy_calls r"
  shows "calls_ok (wsu_proxied_call_free r (int p))" "busy_calls (wsu_proxied_call_free r (int p)) = busy_calls r - {p}"
    "calls (wsu_proxied_call_free r (int p)) = calls r" "stubs (wsu_proxied_call_free r (int p)) = stubs r"
proof -
  show b: "busy_calls (wsu_proxied_call_free r (int p)) = busy_calls r - {p}"
    by (rule proxied.busy_free [OF busy_less [OF assms(2)]])
  have f: "\<exists>c. wsu_proxied_call_free r (int p) = r\<lparr>wait_call := c\<rparr>"
    using busy_less [OF assms(2)] by (auto simp: wsu_proxied_call_free_def)
  then show "calls (wsu_proxied_call_free r (int p)) = calls r" "stubs (wsu_proxied_call_free r (int p)) = stubs r"
    by auto
  show "calls_ok (wsu_proxied_call_free r (int p))"
    using assms(1) f b unfolding calls_ok_def by (auto intro: inj_on_subset)
qed

text \<open>The search for the id of a waiting call finds its slot.\<close>

lemma find_slot:
  assumes "calls_ok r" "p \<in> busy_calls r"
  shows "List.find (\<lambda>q. jsonrpc_id (calls r ! q) = slot_id r p) (wsu_proxied_call_foreach r) = Some p"
proof -
  obtain q where q: "List.find (\<lambda>q. jsonrpc_id (calls r ! q) = slot_id r p) (wsu_proxied_call_foreach r) = Some q"
    using assms(2) proxied.walk_busy(2) [of r]
    by (cases "List.find (\<lambda>q. jsonrpc_id (calls r ! q) = slot_id r p) (wsu_proxied_call_foreach r)")
      (auto simp: find_None_iff slot_id_def)
  then have "q \<in> busy_calls r" "slot_id r q = slot_id r p"
    using proxied.walk_busy(2) [of r] by (auto simp: find_Some_iff slot_id_def)
  then have "q = p" using assms by (auto simp: calls_ok_def inj_on_def)
  then show ?thesis using q by simp
qed

section \<open>The invariant\<close>

definition peer_fine :: "wsu_peer \<Rightarrow> bool" where
  "peer_fine peer \<longleftrightarrow> peer_ready peer \<and> buffers_ok (write_q peer)"

lemma peer_fine_frame [simp]:
  "peer_fine (peer\<lparr>peer_u := u\<rparr>) = peer_fine peer" "peer_fine (wsu_sid_update peer sid) = peer_fine peer"
  by (simp_all add: peer_fine_def wsu_sid_update_def)

definition conn_ok :: "wsi \<Rightarrow> addr \<Rightarrow> wsu_peer \<Rightarrow> wsu_remote_bus \<Rightarrow> bool" where
  "conn_ok w n peer r \<longleftrightarrow>
     peer_fine peer \<and> stubs_ok w n (stubs r) \<and> calls_ok r \<and>
     (\<forall>x\<in>set (stubs r). after_slash (st_name x) = Some (st_key x))"

definition px_inv :: "proxy \<Rightarrow> bool" where
  "px_inv px \<longleftrightarrow>
     (\<forall>w peer r. remote_of w px = Some (peer, r) \<longrightarrow> conn_ok w (px_next px) peer r) \<and>
     (\<forall>x\<in>set (px_objects px). \<exists>peer r. remote_of (st_wsi x) px = Some (peer, r) \<and> x \<in> set (stubs r))"

text \<open>
  What one callback of connection \<open>w\<close> changes: its remote bus becomes \<open>r\<close>, the other connections,
  the clients and the patterns stay, and the objects of \<open>w\<close> are stubs of it. An operation that keeps the stubs keeps the
  objects and the addresses too.
\<close>

definition moved :: "wsi \<Rightarrow> wsu_remote_bus \<Rightarrow> proxy \<Rightarrow> proxy \<Rightarrow> bool" where
  "moved w r px px' \<longleftrightarrow>
     (\<exists>peer. remote_of w px' = Some (peer, r) \<and> conn_ok w (px_next px') peer r) \<and>
     (\<forall>v. v \<noteq> w \<longrightarrow> remote_of v px' = remote_of v px) \<and> px_next px \<le> px_next px' \<and>
     px_clients px' = px_clients px \<and> px_paths px' = px_paths px \<and>
     (\<forall>x\<in>set (px_objects px'). if st_wsi x = w then x \<in> set (stubs r) else x \<in> set (px_objects px))"

definition unmoved :: "proxy \<Rightarrow> proxy \<Rightarrow> bool" where
  "unmoved px px' \<longleftrightarrow>
     px_objects px' = px_objects px \<and> px_next px' = px_next px \<and> px_paths px' = px_paths px \<and>
     px_clients px' = px_clients px"

lemma conn_ok_mono: "conn_ok w n peer r \<Longrightarrow> n \<le> m \<Longrightarrow> conn_ok w m peer r"
  by (force simp: conn_ok_def stubs_ok_def)

lemma px_invD: "px_inv px \<Longrightarrow> remote_of w px = Some (peer, r) \<Longrightarrow> conn_ok w (px_next px) peer r"
  by (auto simp: px_inv_def)

lemma moved_inv:
  assumes "px_inv px" "moved w r px px'"
  shows "px_inv px'"
  unfolding px_inv_def
proof (intro conjI allI impI ballI)
  fix v peer r' assume "remote_of v px' = Some (peer, r')"
  then show "conn_ok v (px_next px') peer r'"
    using assms conn_ok_mono [OF px_invD [OF assms(1)], of v peer r' "px_next px'"]
    by (cases "v = w") (auto simp: moved_def)
next
  fix x assume x: "x \<in> set (px_objects px')"
  show "\<exists>peer r. remote_of (st_wsi x) px' = Some (peer, r) \<and> x \<in> set (stubs r)"
  proof (cases "st_wsi x = w")
    case True
    then show ?thesis using assms(2) x by (auto simp: moved_def)
  next
    case False
    then have "x \<in> set (px_objects px)" "remote_of (st_wsi x) px' = remote_of (st_wsi x) px"
      using assms(2) x by (auto simp: moved_def)
    then show ?thesis using assms(1) by (auto simp: px_inv_def)
  qed
qed

text \<open>A change of the connection's own data that keeps its stubs.\<close>

lemma moved_same_stubs:
  assumes inv: "px_inv px" and r: "remote_of w px = Some (peer, r)"
    and "remote_of w px' = Some (peer', r')" "peer_fine peer'" "stubs r' = stubs r" "calls_ok r'"
    and "\<And>v. v \<noteq> w \<Longrightarrow> remote_of v px' = remote_of v px" "unmoved px px'"
  shows "moved w r' px px'"
proof -
  have c: "conn_ok w (px_next px) peer r" by (rule px_invD [OF inv r])
  have "x \<in> set (stubs r)" if "x \<in> set (px_objects px)" "st_wsi x = w" for x
    using inv r that by (force simp: px_inv_def)
  then show ?thesis
    using assms(3-8) c by (auto simp: moved_def unmoved_def conn_ok_def)
qed

section \<open>Writing\<close>

text \<open>The environment: names, memory, and messages shorter than the limit.\<close>

definition penv_ok :: "penv \<Rightarrow> bool" where
  "penv_ok E \<longleftrightarrow> names_ok E \<and> (\<forall>a. px_alloc E a) \<and> (\<forall>a. alloc (px_env E) a) \<and>
     (\<forall>j s. json_print E j = Some s \<longrightarrow> length s < WSUBUS_MAX_MESSAGE_LEN)"

lemma req_short:
  assumes "penv_ok E" "jsonrpc__req_to_string (json_print E) al i sid m obj meth arg pat = Some s"
  shows "length s < WSUBUS_MAX_MESSAGE_LEN"
  using assms by (auto simp: jsonrpc__req_to_string_def penv_ok_def Let_def split: if_splits option.splits prod.splits json.splits)

lemma write_effect:
  assumes "penv_ok E" "remote_of w px = Some (peer, r)" "peer_fine peer"
    "\<And>s. d = Some s \<Longrightarrow> length s < WSUBUS_MAX_MESSAGE_LEN"
  shows "\<exists>px' peer'. px_write E w d px = Some px' \<and> remote_of w px' = Some (peer', r) \<and>
     peer_fine peer' \<and> peer' = peer\<lparr>write_q := write_q peer @ (case d of None \<Rightarrow> [] | Some s \<Rightarrow> [\<lparr>wr_buf = s, wr_written = 0\<rparr>])\<rparr> \<and>
     (\<forall>v. v \<noteq> w \<longrightarrow> remote_of v px' = remote_of v px) \<and> unmoved px px' \<and> px_out px' = px_out px"
proof -
  have p: "wsi_to_peer (px_server px) w = Some peer" "peer_u peer = URemote r"
    using assms(2) by (auto simp: remote_of_def split: option.splits wsu_role.splits)
  have "alloc (px_env E) A_write" using assms(1) by (simp add: penv_ok_def)
  then show ?thesis
    using assms(3,4) p
    by (cases d) (auto simp: px_write_def queue_write_def wsu_queue_write_str_def Let_def remote_of_def
        wsi_to_peer_def set_peer_def unmoved_def peer_fine_def buffers_ok_def)
qed

lemma send_effect:
  assumes E: "penv_ok E" and inv: "px_inv px" and r: "remote_of w px = Some (peer, r)"
    and build: "\<And>i sid s. build i sid = Some s \<Longrightarrow> length s < WSUBUS_MAX_MESSAGE_LEN"
    and wait: "stubs (wait (r\<lparr>call_id := call_id r + 1\<rparr>)) = stubs r"
      "calls_ok (wait (r\<lparr>call_id := call_id r + 1\<rparr>))"
  shows "\<exists>px'. send_request E w build wait px = Some px' \<and> moved w (wait (r\<lparr>call_id := call_id r + 1\<rparr>)) px px' \<and>
    px_out px' = px_out px"
proof -
  let ?r = "wait (r\<lparr>call_id := call_id r + 1\<rparr>)"
  let ?px = "set_remote w peer ?r px"
  have ready: "peer_fine peer" using px_invD [OF inv r] by (simp add: conn_ok_def)
  have "remote_of w ?px = Some (peer\<lparr>peer_u := URemote ?r\<rparr>, ?r)" by simp
  then obtain px' peer' where px': "px_write E w (build (call_id r + 1) (Some (peer_sid peer))) ?px = Some px'"
    "remote_of w px' = Some (peer', ?r)" "peer_fine peer'" "\<forall>v. v \<noteq> w \<longrightarrow> remote_of v px' = remote_of v ?px"
    "unmoved ?px px'" "px_out px' = px_out px"
    using write_effect [OF E, of w ?px _ ?r "build (call_id r + 1) (Some (peer_sid peer))"] ready build by auto
  have "moved w ?r px px'"
    by (rule moved_same_stubs [OF inv r px'(2,3) wait]) (use px'(4,5) in \<open>auto simp: unmoved_def\<close>)
  then show ?thesis using px'(1,6) r by (auto simp: send_request_def)
qed

section \<open>Stubs\<close>

lemma moved_trans: "moved w r px px1 \<Longrightarrow> moved w r' px1 px2 \<Longrightarrow> moved w r' px px2"
  unfolding moved_def by (metis le_trans)

lemma moved_remote: "moved w r px px' \<Longrightarrow> \<exists>peer. remote_of w px' = Some (peer, r)"
  by (auto simp: moved_def)

lemma has_stubs_inv: "px_inv px \<Longrightarrow> remote_of w px = Some (peer, r) \<Longrightarrow> has_stubs w px (stubs r)"
  using px_invD [of px w peer r] by (auto simp: has_stubs_def conn_ok_def)

lemma create_moved:
  assumes E: "penv_ok E" and inv: "px_inv px" and r: "remote_of w px = Some (peer, r)"
    and new: "List.find (\<lambda>x. st_key x = object) (stubs r) = None"
    and c: "wsu_local_stub_create E w object signature px = Some px'"
  shows "\<exists>t. moved w (r\<lparr>stubs := t\<rparr>) px px'"
proof -
  have ok: "conn_ok w (px_next px) peer r" by (rule px_invD [OF inv r])
  then have "stubs_ok w (px_next px) (stubs r)" by (simp add: conn_ok_def)
  from tree_split [OF this, of object] obtain A B where t: "stubs r = A @ B"
    and A: "\<forall>x\<in>set A. bytes (st_key x) < bytes object" and B: "\<forall>x\<in>set B. bytes object < bytes (st_key x)"
    unfolding new by auto
  obtain x where x: "made_from E w object signature x" "st_addr x = px_next px"
    "px' = set_remote w peer (r\<lparr>stubs := stubs_insert x (stubs r)\<rparr>)
       (px\<lparr>px_next := px_next px + 1,
           px_objects := px_objects px @ (if ubus_add_object E (st_name x) = 0 then [x] else [])\<rparr>)"
    using create_effect [OF _ r c] E by (auto simp: penv_ok_def)
  have ins: "stubs_insert x (stubs r) = A @ x # B"
    unfolding t using A B x(1) by (intro stubs_insert_split) (auto simp: made_from_def)
  have "stubs_ok w (Suc (px_next px)) (A @ x # B)"
    using ok A B x(1,2) t by (intro stubs_ok_insert) (auto simp: conn_ok_def made_from_def)
  moreover have "y \<in> set (stubs r)" if "y \<in> set (px_objects px)" "st_wsi y = w" for y
    using inv r that by (force simp: px_inv_def)
  ultimately have "moved w (r\<lparr>stubs := A @ x # B\<rparr>) px px'"
    using ok x(1) t unfolding x(3) ins
    by (auto simp: moved_def conn_ok_def made_from_def split: if_splits)
  then show ?thesis by blast
qed

lemma destroy_moved:
  assumes inv: "px_inv px" and r: "remote_of w px = Some (peer, r)" and x: "x \<in> set (stubs r)"
  shows "\<exists>px'. wsu_local_stub_destroy x px = Some px' \<and>
    moved w (r\<lparr>stubs := filter (\<lambda>y. st_addr y \<noteq> st_addr x) (stubs r)\<rparr>) px px'"
proof -
  let ?t = "filter (\<lambda>y. st_addr y \<noteq> st_addr x) (stubs r)"
  have ok: "conn_ok w (px_next px) peer r" by (rule px_invD [OF inv r])
  then have "st_wsi x = w" "stubs_ok w (px_next px) ?t"
    using x by (auto simp: conn_ok_def stubs_ok_def sorted_wrt_filter distinct_map_filter)
  moreover have "y \<in> set (stubs r)" if "y \<in> set (px_objects px)" "st_wsi y = w" for y
    using inv r that by (force simp: px_inv_def)
  ultimately show ?thesis
    using r ok by (auto simp: wsu_local_stub_destroy_def moved_def conn_ok_def)
qed

lemma create_matching_moved:
  assumes "penv_ok E" "px_inv px" "remote_of w px = Some (peer, r)"
    "List.find (\<lambda>x. st_key x = fst obj) (stubs r) = None" "create_matching E w obj px = Some px'"
  shows "\<exists>t. moved w (r\<lparr>stubs := t\<rparr>) px px'"
proof (cases "wsubus_client_match_pattern olist_ops (px_paths px) (fst obj)")
  case True
  then show ?thesis using create_moved [OF assms(1-4), of "snd obj" px'] assms(5) by (simp add: create_matching_def)
next
  case False
  then have "moved w r px px'"
    using assms px_invD [OF assms(2,3)]
    by (intro moved_same_stubs [OF assms(2,3), of _ peer]) (auto simp: create_matching_def unmoved_def conn_ok_def)
  then show ?thesis by (intro exI [of _ "stubs r"]) simp
qed

lemma same_key:
  assumes "stubs_ok w k t" "x \<in> set t" "y \<in> set t" "st_key x = st_key y"
  shows "x = y"
proof -
  obtain ys zs where t: "t = ys @ x # zs" using split_list [OF assms(2)] by blast
  then show ?thesis using assms(1,3,4) by (auto simp: stubs_ok_def sorted_wrt_append)
qed

lemma put_object_moved:
  assumes E: "penv_ok E" and inv: "px_inv px" and r: "remote_of w px = Some (peer, r)"
    and p: "put_object E w obj px = Some px'"
  shows "\<exists>t. moved w (r\<lparr>stubs := t\<rparr>) px px'"
proof (cases "List.find (\<lambda>x. st_key x = fst obj) (stubs r)")
  case None
  then show ?thesis using p r create_matching_moved [OF E inv r None] by (simp add: put_object_def)
next
  case (Some x)
  then obtain same where same: "wsu_local_stub_is_same_signature E x (snd obj) = Some same"
    using p r by (auto simp: put_object_def bind_conv)
  have x: "x \<in> set (stubs r)" "st_key x = fst obj" using find_split [OF Some] by auto
  show ?thesis
  proof (cases same)
    case True
    then have "px' = px" using p r Some same by (simp add: put_object_def)
    then have "moved w r px px'"
      using r px_invD [OF inv r] by (intro moved_same_stubs [OF inv r, of _ peer]) (auto simp: unmoved_def conn_ok_def)
    then show ?thesis by (intro exI [of _ "stubs r"]) simp
  next
    case False
    let ?t = "filter (\<lambda>y. st_addr y \<noteq> st_addr x) (stubs r)"
    obtain px1 where px1: "wsu_local_stub_destroy x px = Some px1" "create_matching E w obj px1 = Some px'"
      using p r Some same False by (auto simp: put_object_def bind_conv)
    have m: "moved w (r\<lparr>stubs := ?t\<rparr>) px px1"
      using destroy_moved [OF inv r x(1)] px1(1) by auto
    have "stubs_ok w (px_next px) (stubs r)" using px_invD [OF inv r] by (simp add: conn_ok_def)
    then have "\<forall>y\<in>set ?t. st_key y \<noteq> fst obj"
      using x same_key by fastforce
    then have "List.find (\<lambda>y. st_key y = fst obj) ?t = None" by (auto simp: find_None_iff)
    moreover obtain peer1 where "remote_of w px1 = Some (peer1, r\<lparr>stubs := ?t\<rparr>)" using moved_remote [OF m] by blast
    ultimately obtain t where "moved w (r\<lparr>stubs := t\<rparr>) px1 px'"
      using create_matching_moved [OF E moved_inv [OF inv m], of w peer1 "r\<lparr>stubs := ?t\<rparr>" obj px'] px1(2) by auto
    then show ?thesis using moved_trans [OF m] by blast
  qed
qed

lemma put_objects_moved:
  assumes E: "penv_ok E"
  shows "px_inv px \<Longrightarrow> remote_of w px = Some (peer, r) \<Longrightarrow> put_objects E w objs px = Some px' \<Longrightarrow>
    \<exists>t. moved w (r\<lparr>stubs := t\<rparr>) px px'"
proof (induction objs arbitrary: px peer r)
  case Nil
  then have "moved w r px px'"
    using px_invD [OF Nil(1,2)] by (intro moved_same_stubs [OF Nil(1,2), of _ peer]) (auto simp: unmoved_def conn_ok_def)
  then show ?case by (intro exI [of _ "stubs r"]) simp
next
  case (Cons obj objs)
  then obtain px1 where px1: "put_object E w obj px = Some px1" "put_objects E w objs px1 = Some px'"
    by (auto simp: bind_conv)
  obtain t1 where m: "moved w (r\<lparr>stubs := t1\<rparr>) px px1" using put_object_moved [OF E Cons.prems(1,2) px1(1)] by blast
  obtain peer1 where "remote_of w px1 = Some (peer1, r\<lparr>stubs := t1\<rparr>)" using moved_remote [OF m] by blast
  then obtain t where "moved w (r\<lparr>stubs := t1, stubs := t\<rparr>) px1 px'"
    using Cons.IH [OF moved_inv [OF Cons.prems(1) m] _ px1(2)] by blast
  then show ?case using moved_trans [OF m, of "r\<lparr>stubs := t\<rparr>" px'] by auto
qed

section \<open>Messages\<close>

lemma send_listen_moved:
  assumes "penv_ok E" "px_inv px" "remote_of w px = Some (peer, r)"
  shows "\<exists>px' r'. send_listen E w px = Some px' \<and> moved w r' px px' \<and> px_out px' = px_out px"
  unfolding send_listen_def
  using send_effect [OF assms, of "\<lambda>i sid. jsonrpc__req_ubuslisten (json_print E) (json_alloc E) i sid ''*''"
      "\<lambda>r. r\<lparr>wait_listen := True\<rparr>"] calls_ok_next px_invD [OF assms(2,3)] req_short [OF assms(1)]
  by (auto simp: jsonrpc__req_ubuslisten_def conn_ok_def)

lemma send_list_moved:
  assumes "penv_ok E" "px_inv px" "remote_of w px = Some (peer, r)"
  shows "\<exists>px' r'. send_list E w px = Some px' \<and> moved w r' px px' \<and> px_out px' = px_out px"
  unfolding send_list_def
  using send_effect [OF assms, of "\<lambda>i sid. jsonrpc__req_ubuslist (json_print E) (json_alloc E) i sid ''*''"
      "\<lambda>r. r\<lparr>wait_list_id := call_id r\<rparr>"] calls_ok_list px_invD [OF assms(2,3)] req_short [OF assms(1)]
  by (auto simp: jsonrpc__req_ubuslist_def conn_ok_def)

lemma stay_moved:
  assumes "px_inv px" "remote_of w px = Some (peer, r)"
  shows "moved w r px px" "moved w r px (px\<lparr>px_out := out\<rparr>)"
  using px_invD [OF assms]
  by (intro moved_same_stubs [OF assms, of _ peer]; auto simp: assms(2) unmoved_def conn_ok_def)+

lemma set_remote_moved:
  assumes "px_inv px" "remote_of w px = Some (peer, r)" "peer_fine peer' = peer_fine peer"
    "stubs r' = stubs r" "calls_ok r'"
  shows "moved w r' px (set_remote w peer' r' (px\<lparr>px_out := out\<rparr>))"
  using px_invD [OF assms(1,2)] assms(3-5)
  by (intro moved_same_stubs [OF assms(1,2), of _ "peer'\<lparr>peer_u := URemote r'\<rparr>"])
    (auto simp: unmoved_def conn_ok_def)

lemma set_remote_moved':
  assumes "px_inv px" "remote_of w px = Some (peer, r)" "peer_fine peer' = peer_fine peer"
    "stubs r' = stubs r" "calls_ok r'"
  shows "moved w r' px (set_remote w peer' r' px)"
  using set_remote_moved [OF assms, of "px_out px"] by simp

lemma login_moved:
  assumes E: "penv_ok E" and inv: "px_inv px" and r: "remote_of w px = Some (peer, r)"
  shows "\<exists>px' r'. on_login_result E w tmp px = Some px' \<and> moved w r' px px'"
proof -
  have "\<exists>px' r'. send_listen E w (set_remote w (wsu_sid_update peer sid) (r\<lparr>wait_login := False\<rparr>) px) = Some px' \<and>
      moved w r' px px'" for sid
  proof -
    have m: "moved w (r\<lparr>wait_login := False\<rparr>) px (set_remote w (wsu_sid_update peer sid) (r\<lparr>wait_login := False\<rparr>) px)"
      by (rule set_remote_moved' [OF inv r]) (use px_invD [OF inv r] in \<open>auto simp: conn_ok_def\<close>)
    obtain peer1 where "remote_of w (set_remote w (wsu_sid_update peer sid) (r\<lparr>wait_login := False\<rparr>) px) =
      Some (peer1, r\<lparr>wait_login := False\<rparr>)"
      using moved_remote [OF m] by blast
    from send_listen_moved [OF E moved_inv [OF inv m] this] moved_trans [OF m] show ?thesis by blast
  qed
  then show ?thesis using r stay_moved(1) [OF inv r] by (auto simp: on_login_result_def split: prod.split)
qed

lemma listen_moved:
  assumes E: "penv_ok E" and inv: "px_inv px" and r: "remote_of w px = Some (peer, r)"
  shows "\<exists>px' r'. on_listen_result E w tmp px = Some px' \<and> moved w r' px px'"
proof -
  have m: "moved w (r\<lparr>wait_listen := False\<rparr>) px (set_remote w peer (r\<lparr>wait_listen := False\<rparr>) px)"
    by (rule set_remote_moved' [OF inv r]) (use px_invD [OF inv r] in \<open>auto simp: conn_ok_def\<close>)
  obtain peer1 where "remote_of w (set_remote w peer (r\<lparr>wait_listen := False\<rparr>) px) = Some (peer1, r\<lparr>wait_listen := False\<rparr>)"
    using moved_remote [OF m] by blast
  from send_list_moved [OF E moved_inv [OF inv m] this] moved_trans [OF m]
  have "\<exists>px' r'. send_list E w (set_remote w peer (r\<lparr>wait_listen := False\<rparr>) px) = Some px' \<and> moved w r' px px'" by blast
  then show ?thesis using r stay_moved(1) [OF inv r] by (auto simp: on_listen_result_def)
qed

text \<open>A list the merge can take.\<close>

definition list_safe :: "penv \<Rightarrow> proxy \<Rightarrow> wsi \<Rightarrow> json \<Rightarrow> bool" where
  "list_safe E px w tmp \<longleftrightarrow>
     (\<forall>objs. json_array_get_idx tmp 1 = JObject objs \<longrightarrow>
        sorted_names objs \<and> (\<forall>obj\<in>set objs. valid_signature (snd obj)) \<and>
        (\<forall>peer r. remote_of w px = Some (peer, r) \<longrightarrow> merge_safe E (px_paths px) (stubs r) objs))"

lemma list_moved:
  assumes E: "penv_ok E" and inv: "px_inv px" and r: "remote_of w px = Some (peer, r)" and safe: "list_safe E px w tmp"
  shows "\<exists>px' r'. on_list_result E w tmp px = Some px' \<and> moved w r' px px'"
proof -
  have E': "names_ok E" "\<forall>a. px_alloc E a" using E by (auto simp: penv_ok_def)
  have "\<exists>px' r'. Option.bind (merge_list E w objs px) (\<lambda>px. Option.bind (remote_of w px)
        (\<lambda>(peer, remote). Some (set_remote w peer (remote\<lparr>wait_list_id := 0\<rparr>) px))) = Some px' \<and> moved w r' px px'"
    if "json_array_get_idx tmp 1 = JObject objs" for objs
  proof -
    have objs: "sorted_names objs" "\<forall>obj\<in>set objs. valid_signature (snd obj)" "merge_safe E (px_paths px) (stubs r) objs"
      using safe that r by (auto simp: list_safe_def)
    note h = has_stubs_inv [OF inv r]
    obtain px1 where px1: "put_objects E w objs px = Some px1" using put_objects_total [OF E' objs(2) h] by blast
    then obtain t where m: "moved w (r\<lparr>stubs := t\<rparr>) px px1" using put_objects_moved [OF E inv r] by blast
    then obtain peer1 where r1: "remote_of w px1 = Some (peer1, r\<lparr>stubs := t\<rparr>)" using moved_remote by blast
    have "moved w (r\<lparr>stubs := t, wait_list_id := 0\<rparr>) px1 (set_remote w peer1 (r\<lparr>stubs := t, wait_list_id := 0\<rparr>) px1)"
      by (rule set_remote_moved' [OF moved_inv [OF inv m] r1])
        (use px_invD [OF inv r] calls_ok_list(2) [of "r\<lparr>stubs := t\<rparr>"] in \<open>auto simp: conn_ok_def\<close>)
    then show ?thesis
      using moved_trans [OF m] merge_list_eq [OF E'(1) h objs(1)] objs(3) px1 r1 by auto
  qed
  then show ?thesis
    using stay_moved(1) [OF inv r] by (auto simp: on_list_result_def split: json.split)
qed

lemma call_moved:
  assumes inv: "px_inv px" and r: "remote_of w px = Some (peer, r)"
  shows "\<exists>px' r'. on_call_result E w id_jobj tmp px = Some px' \<and> moved w r' px px'"
proof -
  have ok: "calls_ok r" using px_invD [OF inv r] by (simp add: conn_ok_def)
  have "\<exists>r'. moved w r' px (set_remote w peer (wsu_proxied_call_free r (int p)) (px\<lparr>px_out := out\<rparr>))"
    if "List.find P (wsu_proxied_call_foreach r) = Some p" for P p out
  proof -
    have "p \<in> busy_calls r" using find_split [OF that] proxied.walk_busy(2) [of r] by auto
    then have "moved w (wsu_proxied_call_free r (int p)) px
        (set_remote w peer (wsu_proxied_call_free r (int p)) (px\<lparr>px_out := out\<rparr>))"
      by (intro set_remote_moved [OF inv r]) (use calls_ok_free [OF ok] in auto)
    then show ?thesis by blast
  qed
  then show ?thesis
    using r stay_moved(1) [OF inv r] by (auto simp: on_call_result_def Let_def split: option.split)
qed

lemma result_moved:
  assumes E: "penv_ok E" and inv: "px_inv px" and r: "remote_of w px = Some (peer, r)" and safe: "list_safe E px w tmp"
  shows "\<exists>px' r'. on_result E w id_jobj tmp px = Some px' \<and> moved w r' px px'"
  using login_moved [OF E inv r, of tmp] listen_moved [OF E inv r, of tmp] list_moved [OF E inv r safe]
    call_moved [OF inv r, of E id_jobj tmp] stay_moved(1) [OF inv r] r
  by (auto simp: on_result_def)

lemma event_moved:
  assumes E: "penv_ok E" and inv: "px_inv px" and r: "remote_of w px = Some (peer, r)"
  shows "\<exists>px' r'. on_event E w type data px = Some px' \<and> moved w r' px px'"
proof -
  have "names_ok E" "px_alloc E A_event" using E by (auto simp: penv_ok_def)
  then have replay: "\<exists>px' r'. map_option (\<lambda>(name, b). px\<lparr>px_out := px_out px @ [Bus_event name b]\<rparr>)
      (wsu_local_proxied_event_create E w type d) = Some px' \<and> moved w r' px px'" for d
    using stay_moved(2) [OF inv r] by (auto simp: wsu_local_proxied_event_create_def fill_eq)
  have "\<exists>px' r'. wsu_local_stub_destroy x px = Some px' \<and> moved w r' px px'"
    if "List.find P (stubs r) = Some x" for P x
  proof -
    have "x \<in> set (stubs r)" using find_split [OF that] by auto
    from destroy_moved [OF inv r this] show ?thesis by blast
  qed
  then show ?thesis
    using send_list_moved [OF E inv r] replay stay_moved(1) [OF inv r] r
    by (auto simp: on_event_def Let_def split: option.split)
qed

text \<open>What a message has to be for the callback not to go wrong.\<close>

definition message_safe :: "penv \<Rightarrow> proxy \<Rightarrow> wsi \<Rightarrow> string \<Rightarrow> bool" where
  "message_safe E px w txt \<longleftrightarrow>
     (\<forall>jobj. fst (json_tokener_parse_ex (px_env E) [] txt) = Some jobj \<longrightarrow>
        list_safe E px w (snd (json_get_ex jobj ''result'')) \<and>
        (\<not> fst (json_get_ex jobj ''result'') \<longrightarrow> json_get_ex jobj ''method'' \<noteq> (True, JNull)))"

lemma receive_moved:
  assumes E: "penv_ok E" and inv: "px_inv px" and r: "remote_of w px = Some (peer, r)" and safe: "message_safe E px w txt"
  shows "\<exists>px' r'. proxy_receive E w txt px = Some px' \<and> moved w r' px px'"
proof -
  have a: "alloc (px_env E) A_tokener" using E by (simp add: penv_ok_def)
  show ?thesis
  proof (cases "fst (json_tokener_parse_ex (px_env E) [] txt)")
    case None
    then show ?thesis using r a stay_moved(1) [OF inv r] by (auto simp: proxy_receive_def)
  next
    case (Some jobj)
    obtain f res g meth where j: "json_get_ex jobj ''result'' = (f, res)" "json_get_ex jobj ''method'' = (g, meth)"
      by (metis surj_pair)
    have "list_safe E px w res" "\<not> f \<Longrightarrow> g \<Longrightarrow> meth \<noteq> JNull"
      using safe Some j by (auto simp: message_safe_def)
    moreover have "\<exists>px' r'. on_method E w jobj meth px = Some px' \<and> moved w r' px px'" if "meth \<noteq> JNull"
      using that event_moved [OF E inv r] stay_moved(1) [OF inv r] by (auto simp: on_method_def json_string_def Let_def)
    ultimately show ?thesis
      using r a Some j result_moved [OF E inv r, of res] stay_moved(1) [OF inv r] by (auto simp: proxy_receive_def)
  qed
qed

text \<open>The request a call to stub \<open>x\<close> makes.\<close>

definition call_request ::
    "penv \<Rightarrow> wsu_peer \<Rightarrow> wsu_remote_bus \<Rightarrow> wsu_local_stub \<Rightarrow> string \<Rightarrow> blob_attr list \<Rightarrow> string option" where
  "call_request E peer r x meth args =
     jsonrpc__req_ubuscall (json_print E) (json_alloc E) (call_id r + 1) (Some (peer_sid peer)) (st_key x) meth
       (Option.bind (blobmsg_format_json (lib (px_env E)) args) (json_tokener_parse (px_env E)))"

lemma local_call_moved:
  assumes E: "penv_ok E" and inv: "px_inv px" and r: "remote_of w px = Some (peer, r)" and x: "x \<in> set (stubs r)"
  shows "\<exists>rc px' r'. wsu_local_stub_handle_call E x req meth args px = Some (rc, px') \<and> moved w r' px px' \<and>
    px_out px' = px_out px \<and> same_phase r r' \<and>
    (if busy_calls r = {..<MAX_PROXIED_CALLS} then rc = UBUS_STATUS_NOT_SUPPORTED \<and> busy_calls r' = busy_calls r
     else rc = 0 \<and> (\<exists>p. p \<notin> busy_calls r \<and> busy_calls r' = insert p (busy_calls r) \<and>
            (\<forall>q\<in>busy_calls r. calls r' ! q = calls r ! q) \<and>
            calls r' ! p = \<lparr>jsonrpc_id = call_id r + 1, ureq = req\<rparr>) \<and>
          (\<exists>peer'. remote_of w px' = Some (peer', r') \<and>
             write_q peer' = write_q peer @ (case call_request E peer r x meth args of
               None \<Rightarrow> [] | Some s \<Rightarrow> [\<lparr>wr_buf = s, wr_written = 0\<rparr>])))"
proof -
  have ok: "conn_ok w (px_next px) peer r" by (rule px_invD [OF inv r])
  then have x': "st_wsi x = w" "after_slash (st_name x) = Some (st_key x)" "calls_ok r" "peer_fine peer"
    using x by (auto simp: conn_ok_def stubs_ok_def)
  let ?r = "r\<lparr>call_id := call_id r + 1\<rparr>"
  show ?thesis
  proof (cases "wsu_proxied_call_new ?r")
    case None
    then have full: "busy_calls r = {..<MAX_PROXIED_CALLS}" using proxied.new_None [of ?r] by simp
    have "moved w ?r px (set_remote w peer ?r px)"
      by (rule set_remote_moved' [OF inv r]) (use calls_ok_next [OF x'(3)] in auto)
    then show ?thesis
      using None full r x' by (auto simp: wsu_local_stub_handle_call_def Let_def same_phase_def)
  next
    case (Some pr)
    obtain p r1 where pr: "pr = (p, r1)" by (metis surj_pair)
    define r2 where "r2 = r1\<lparr>calls := (calls r1)[p := \<lparr>jsonrpc_id = call_id r1, ureq = req\<rparr>]\<rparr>"
    note n = calls_ok_new(1,3-7) [where req = req, OF x'(3) Some [unfolded pr], folded r2_def]
      calls_ok_new(2) [OF x'(3) Some [unfolded pr]]
    have free: "busy_calls r \<noteq> {..<MAX_PROXIED_CALLS}"
      using proxied.new_Some [OF Some [unfolded pr]] by auto
    have m: "moved w r2 px (set_remote w peer r2 px)"
      by (rule set_remote_moved' [OF inv r]) (use n in auto)
    let ?d = "call_request E peer r x meth args"
    let ?px = "set_remote w peer r2 px"
    have "remote_of w ?px = Some (peer\<lparr>peer_u := URemote r2\<rparr>, r2)" by simp
    then obtain px' peer' where px': "px_write E w ?d ?px = Some px'"
      "remote_of w px' = Some (peer', r2)" "peer_fine peer'" "\<forall>v. v \<noteq> w \<longrightarrow> remote_of v px' = remote_of v ?px"
      "unmoved ?px px'" "px_out px' = px_out px"
      "write_q peer' = write_q peer @ (case ?d of None \<Rightarrow> [] | Some s \<Rightarrow> [\<lparr>wr_buf = s, wr_written = 0\<rparr>])"
      using write_effect [OF E, of w ?px _ r2 ?d] x'(4) req_short [OF E]
      by (auto simp: jsonrpc__req_ubuscall_def call_request_def)
    have "moved w r2 px px'"
      by (rule moved_same_stubs [OF inv r px'(2,3)]) (use n px'(4,5) in \<open>auto simp: unmoved_def\<close>)
    moreover have "wsu_local_stub_handle_call E x req meth args px = Some (0, px')"
      using px'(1) Some r x' by (simp add: wsu_local_stub_handle_call_def Let_def pr r2_def call_request_def)
    ultimately show ?thesis
      using n free px'(2,6,7) by (intro exI [of _ 0] exI [of _ px'] exI [of _ r2]) auto
  qed
qed

end
