(* ===== verification/Proxy_System.thy ===== *)
theory Proxy_System
  imports Proxy_Safe Machine
begin

text \<open>
  The proxy as a machine: the callbacks of its connections, the calls to its objects on the local
  bus and the events of the client manager, each followed by its effect on the whole state.
\<close>

section \<open>Establishing, writing and closing\<close>

lemma clients_inv [simp]: "px_inv (px\<lparr>px_clients := cs\<rparr>) = px_inv px"
  by (simp add: px_inv_def)

lemma zero_remote_ok: "calls_ok zero_remote" "stubs zero_remote = []"
  by (simp_all add: calls_ok_def zero_remote_def busy_calls_def)

lemma init_moved:
  assumes E: "penv_ok E" and inv: "px_inv px" and new: "peers (px_server px) w = None"
  shows "\<exists>s. wsu_peer_init (px_env E) w WSUBUS_ROLE_REMOTE (px_server px) = (0, s) \<and>
    moved w zero_remote px (px\<lparr>px_server := s\<rparr>)"
proof -
  have "remote_of w px = None" using new by (simp add: remote_of_def wsi_to_peer_def)
  then have "\<forall>x\<in>set (px_objects px). st_wsi x \<noteq> w" using inv by (force simp: px_inv_def)
  moreover have "alloc (px_env E) A_tokener" using E by (simp add: penv_ok_def)
  ultimately show ?thesis
    using zero_remote_ok
    by (auto simp: wsu_peer_init_def moved_def remote_of_def wsi_to_peer_def set_peer_def fresh_peer_def conn_ok_def
        peer_fine_def buffers_ok_def stubs_ok_def)
qed

lemma send_login_moved:
  assumes "penv_ok E" "px_inv px" "remote_of w px = Some (peer, r)"
  shows "\<exists>px' r'. send_login E w px = Some px' \<and> moved w r' px px'"
proof -
  have "\<exists>px' r'. send_request E w (\<lambda>i _. jsonrpc__req_ubuscall (json_print E) (json_alloc E) i None ''session'' ''login''
      (Some (JObject [(''certificate'', JString name)]))) (\<lambda>r. r\<lparr>wait_login := True\<rparr>) px = Some px' \<and> moved w r' px px'" for name
    using send_effect [OF assms, of "\<lambda>i _. jsonrpc__req_ubuscall (json_print E) (json_alloc E) i None ''session'' ''login''
      (Some (JObject [(''certificate'', JString name)]))" "\<lambda>r. r\<lparr>wait_login := True\<rparr>"]
      calls_ok_next px_invD [OF assms(2,3)] req_short [OF assms(1)]
    by (auto simp: jsonrpc__req_ubuscall_def conn_ok_def)
  then show ?thesis
    using stay_moved(1) [OF assms(2,3)] by (auto simp: send_login_def split: prod.split)
qed

lemma established_moved:
  assumes E: "penv_ok E" and inv: "px_inv px" and new: "peers (px_server px) w = None"
  shows "\<exists>rc px'. proxy_established E w px = Some (rc, px') \<and> px_inv px' \<and>
    px_clients px' = (if rc = 0 then proxy_established_clients w (px_clients px) else px_clients px)"
proof (cases "wsubus_client_should_destroy (Some w) (px_clients px)")
  case False
  let ?cs = "wsubus_client_set_state (Some w) CONNECTION_STATE_CONNECTED (px_clients px)"
  obtain s where s: "wsu_peer_init (px_env E) w WSUBUS_ROLE_REMOTE (px_server px) = (0, s)"
    "moved w zero_remote (px\<lparr>px_clients := ?cs\<rparr>) (px\<lparr>px_clients := ?cs, px_server := s\<rparr>)"
    using init_moved [OF E, of "px\<lparr>px_clients := ?cs\<rparr>" w] inv new by auto
  let ?px = "px\<lparr>px_server := s, px_clients := ?cs\<rparr>"
  have m: "moved w zero_remote (px\<lparr>px_clients := ?cs\<rparr>) ?px" using s(2) by (cases px) simp
  have inv1: "px_inv ?px" using moved_inv [OF _ m] inv by simp
  obtain peer where r: "remote_of w ?px = Some (peer, zero_remote)" using moved_remote [OF m] by blast
  let ?sid = "set_remote w (wsu_sid_update peer ''X-tls-certificate'') zero_remote ?px"
  have m2: "moved w zero_remote ?px ?sid"
    by (rule set_remote_moved' [OF inv1 r]) (simp_all add: zero_remote_ok)
  obtain peer2 where r2: "remote_of w ?sid = Some (peer2, zero_remote)" using moved_remote [OF m2] by blast
  obtain pxl rl where l: "send_login E w ?px = Some pxl" "moved w rl ?px pxl"
    using send_login_moved [OF E inv1 r] by blast
  obtain pxs rs where ls: "send_listen E w ?sid = Some pxs" "moved w rs ?sid pxs"
    using send_listen_moved [OF E moved_inv [OF inv1 m2] r2] by blast
  have "px_clients pxl = ?cs" "px_clients pxs = ?cs"
    using l(2) ls(2) by (simp_all add: moved_def)
  moreover have "proxy_established E w px =
      Some (0, if wsubus_client_get_rpcd_integration ?cs then pxl else pxs)"
    using False s(1) l ls r by (simp add: proxy_established_def Let_def)
  ultimately show ?thesis
    using False moved_inv [OF inv1 l(2)] moved_inv [OF moved_inv [OF inv1 m2] ls(2)]
    by (simp add: proxy_established_clients_def)
qed (use inv in \<open>simp add: proxy_established_def\<close>)

lemma destroy_stubs_moved:
  "px_inv px \<Longrightarrow> remote_of w px = Some (peer, r) \<Longrightarrow> stubs r = t \<Longrightarrow>
   \<exists>px'. destroy_stubs t px = Some px' \<and> moved w (r\<lparr>stubs := []\<rparr>) px px'"
proof (induction t arbitrary: px peer r)
  case Nil
  then have "r\<lparr>stubs := []\<rparr> = r" by simp
  then show ?case using stay_moved(1) [OF Nil(1,2)] by simp
next
  case (Cons x t)
  have ok: "stubs_ok w (px_next px) (x # t)" using px_invD [OF Cons.prems(1,2)] Cons.prems(3) by (simp add: conn_ok_def)
  then have "st_addr x \<notin> st_addr ` set t" by (simp add: stubs_ok_def)
  then have t: "filter (\<lambda>y. st_addr y \<noteq> st_addr x) (x # t) = t" by (simp add: filter_id_conv) (metis imageI)
  obtain px1 where px1: "wsu_local_stub_destroy x px = Some px1" "moved w (r\<lparr>stubs := t\<rparr>) px px1"
    using destroy_moved [OF Cons.prems(1,2), of x] Cons.prems(3) t by auto
  obtain peer1 where r1: "remote_of w px1 = Some (peer1, r\<lparr>stubs := t\<rparr>)" using moved_remote [OF px1(2)] by blast
  obtain px2 where "destroy_stubs t px1 = Some px2" "moved w (r\<lparr>stubs := t, stubs := []\<rparr>) px1 px2"
    using Cons.IH [OF moved_inv [OF Cons.prems(1) px1(2)] r1] by auto
  then show ?case using px1(1) moved_trans [OF px1(2), of "r\<lparr>stubs := []\<rparr>" px2] by auto
qed

text \<open>What is left to do once the stubs of the connection are destroyed.\<close>

lemma proxy_closed_finish:
  assumes pre: "(case remote_of w px of None \<Rightarrow> Some px | Some (_, remote) \<Rightarrow> destroy_stubs (stubs remote) px) = Some px1"
    and deinit: "wsu_peer_deinit w (px_server px1) = Some s" and cl: "px_clients px1 = px_clients px"
    and other: "\<forall>v. v \<noteq> w \<longrightarrow> peers s v = peers (px_server px1) v"
      "\<forall>v. v \<noteq> w \<longrightarrow> remote_of v px1 = remote_of v px" and client: "Option.bind (peers s w) client_of = None"
    and none: "\<forall>x\<in>set (px_objects px1). st_wsi x \<noteq> w" and inv1: "px_inv px1"
  shows "\<exists>px'. proxy_closed w px = Some px' \<and> px_inv px' \<and> remote_of w px' = None \<and>
    (\<forall>v. v \<noteq> w \<longrightarrow> remote_of v px' = remote_of v px) \<and>
    (\<forall>x\<in>set (px_objects px'). st_wsi x \<noteq> w) \<and> px_clients px' = proxy_closed_clients w (px_clients px)"
proof -
  let ?px = "px1\<lparr>px_server := s\<lparr>peers := (peers s)(w := None)\<rparr>, px_clients := proxy_closed_clients w (px_clients px)\<rparr>"
  have rem: "remote_of v (px1\<lparr>px_server := s\<lparr>peers := (peers s)(w := None)\<rparr>\<rparr>) = (if v = w then None else remote_of v px)" for v
    using other by (auto simp: remote_of_def wsi_to_peer_def)
  have "proxy_closed w px = Some ?px"
    using pre deinit client cl by (simp add: proxy_closed_def Let_def proxy_closed_clients_def)
  moreover have "px_inv ?px"
    unfolding px_inv_def
  proof (intro conjI allI impI ballI)
    fix v peer r assume "remote_of v ?px = Some (peer, r)"
    then have "remote_of v px1 = Some (peer, r)" using other(2) by (simp add: rem split: if_splits)
    then show "conn_ok v (px_next ?px) peer r" using px_invD [OF inv1] by simp
  next
    fix x assume x: "x \<in> set (px_objects ?px)"
    then have "st_wsi x \<noteq> w" "\<exists>peer r. remote_of (st_wsi x) px1 = Some (peer, r) \<and> x \<in> set (stubs r)"
      using none inv1 by (auto simp: px_inv_def)
    then show "\<exists>peer r. remote_of (st_wsi x) ?px = Some (peer, r) \<and> x \<in> set (stubs r)"
      using other(2) by (simp add: rem)
  qed
  ultimately show ?thesis using rem none by auto
qed

lemma proxy_closed_effect:
  assumes inv: "px_inv px" and role: "wsi_to_client (px_server px) w = None"
  shows "\<exists>px'. proxy_closed w px = Some px' \<and> px_inv px' \<and> remote_of w px' = None \<and>
    (\<forall>v. v \<noteq> w \<longrightarrow> remote_of v px' = remote_of v px) \<and>
    (\<forall>x\<in>set (px_objects px'). st_wsi x \<noteq> w) \<and> px_clients px' = proxy_closed_clients w (px_clients px)"
proof (cases "remote_of w px")
  case None
  then have "peers (px_server px) w = None"
    using role by (auto simp: remote_of_def wsi_to_client_def wsi_to_peer_def client_of_def split: option.splits wsu_role.splits)
  moreover have "\<forall>x\<in>set (px_objects px). st_wsi x \<noteq> w" using inv None by (force simp: px_inv_def)
  ultimately show ?thesis
    using None inv by (intro proxy_closed_finish [of px w px "px_server px"]) (simp_all add: wsu_peer_deinit_def)
next
  case (Some pr)
  obtain peer r where pr: "pr = (peer, r)" by (metis surj_pair)
  obtain px1 where px1: "destroy_stubs (stubs r) px = Some px1" "moved w (r\<lparr>stubs := []\<rparr>) px px1"
    using destroy_stubs_moved [OF inv Some [unfolded pr] refl] by blast
  obtain peer1 where r1: "remote_of w px1 = Some (peer1, r\<lparr>stubs := []\<rparr>)" "peer_ready peer1"
    using px1(2) by (auto simp: moved_def conn_ok_def peer_fine_def)
  then have "peers (px_server px1) w = Some peer1" "peer_u peer1 = URemote (r\<lparr>stubs := []\<rparr>)"
    by (auto simp: remote_of_def wsi_to_peer_def split: option.splits wsu_role.splits)
  then have "wsu_peer_deinit w (px_server px1) =
    Some (set_peer w (peer1\<lparr>write_q := [], peer_u := URemote (r\<lparr>stubs := []\<rparr>)\<rparr>) (px_server px1))"
    using r1(2) by (simp add: wsu_peer_deinit_def)
  moreover have "\<forall>x\<in>set (px_objects px1). st_wsi x \<noteq> w" using px1(2) by (auto simp: moved_def)
  ultimately show ?thesis
    using Some pr px1 moved_inv [OF inv px1(2)]
    by (intro proxy_closed_finish [of px w px1 "set_peer w (peer1\<lparr>write_q := [], peer_u := URemote (r\<lparr>stubs := []\<rparr>)\<rparr>) (px_server px1)"])
      (auto simp: set_peer_def client_of_def moved_def)
qed

lemma writeable_effect:
  assumes inv: "px_inv px" and wr: "write_ok (lws_write (px_env E))" and r: "remote_of w px = Some (peer, r)"
  shows "\<exists>rc px'. proxy_writeable E w px = Some (rc, px') \<and> px_inv px' \<and> px_clients px' = px_clients px"
proof -
  have ok: "peer_ready peer" "buffers_ok (write_q peer)" "calls_ok r"
    using px_invD [OF inv r] by (auto simp: conn_ok_def peer_fine_def)
  obtain rc q sent where q: "tx_queue (lws_write (px_env E)) 0 (write_q peer) = Some (rc, q, sent)" "buffers_ok q"
    using tx_queue_result [OF wr ok(2)] by blast
  have p: "wsi_to_peer (px_server px) w = Some peer" "peer_u peer = URemote r"
    using r by (auto simp: remote_of_def split: option.splits wsu_role.splits)
  define s where "s = (let s = set_peer w (peer\<lparr>write_q := q\<rparr>) (px_server px) in
    if rc < 0 then s\<lparr>shut := insert (w, SHUT_RDWR) (shut s)\<rparr> else s)"
  have tx: "wsubus_tx_text (px_env E) w (px_server px) = Some (rc, sent, s)"
    using p ok(1) q by (simp add: wsubus_tx_text_def s_def Let_def)
  have pe: "peers s = (peers (px_server px))(w \<mapsto> peer\<lparr>write_q := q\<rparr>)"
    by (simp add: s_def Let_def set_peer_def)
  have "moved w r px (px\<lparr>px_server := s\<rparr>)"
    by (rule moved_same_stubs [OF inv r, of _ "peer\<lparr>write_q := q\<rparr>"])
      (use ok q(2) p(2) in \<open>auto simp: remote_of_def wsi_to_peer_def pe unmoved_def peer_fine_def\<close>)
  then show ?thesis
    using tx inv moved_inv [OF inv] by (auto simp: proxy_writeable_def)
qed

section \<open>The machine\<close>

datatype px_event =
    Manage cl_event
  | Callback wsi proxy_reason
  | Stub_call wsu_local_stub nat string "blob_attr list"

definition px_step :: "penv \<Rightarrow> px_event \<Rightarrow> proxy \<Rightarrow> proxy option" where
  "px_step E ev px =
     (case ev of
        Manage ce \<Rightarrow> map_option (\<lambda>cs. px\<lparr>px_clients := cs\<rparr>) (cl_step (px_clenv E) ce (px_clients px))
      | Callback w reason \<Rightarrow> map_option snd (ws_ubusproxy_cb E w reason px)
      | Stub_call stub req meth args \<Rightarrow> map_option snd (wsu_local_stub_handle_call E stub req meth args px))"

text \<open>
  When an event can happen, and which messages are excluded: lists that the merge cannot take and a
  null \<open>method\<close>. The callbacks of a connection come from its client; calls come to registered objects.
\<close>

definition px_enabled :: "penv \<Rightarrow> proxy \<Rightarrow> px_event \<Rightarrow> bool" where
  "px_enabled E px ev =
     (case ev of
        Manage ce \<Rightarrow>
          cl_enabled_ev (px_clenv E) (px_clients px) ce \<and>
          (case ce of Established _ \<Rightarrow> False | Conn_error _ \<Rightarrow> False | Closed _ \<Rightarrow> False | _ \<Rightarrow> True)
      | Callback w reason \<Rightarrow>
          (case reason of
             PROXY_WRITEABLE \<Rightarrow> remote_of w px \<noteq> None
           | PROXY_CLOSED \<Rightarrow>
               wsi_to_client (px_server px) w = None \<and> cl_enabled_ev (px_clenv E) (px_clients px) (Closed w)
           | PROXY_CONNECTION_ERROR \<Rightarrow> cl_enabled_ev (px_clenv E) (px_clients px) (Conn_error w)
           | PROXY_INIT port \<Rightarrow> cl_enabled_ev (px_clenv E) (px_clients px) Start
           | PROXY_ESTABLISHED \<Rightarrow>
               peers (px_server px) w = None \<and> cl_enabled_ev (px_clenv E) (px_clients px) (Established w)
           | PROXY_RECEIVE txt \<Rightarrow> remote_of w px \<noteq> None \<and> message_safe E px w txt
           | PROXY_OTHER \<Rightarrow> True)
      | Stub_call stub req meth args \<Rightarrow> stub \<in> set (px_objects px))"

definition px_env_ok :: "penv \<Rightarrow> bool" where
  "px_env_ok E \<longleftrightarrow> penv_ok E \<and> cl_env_ok (px_clenv E) \<and> write_ok (lws_write (px_env E))"

lemma callback_inv:
  assumes inv: "px_inv px" "cl_inv (px_clients px)" and env: "px_env_ok E" and en: "px_enabled E px (Callback w reason)"
  shows "\<exists>rc px'. ws_ubusproxy_cb E w reason px = Some (rc, px') \<and> px_inv px' \<and> cl_inv (px_clients px')"
proof -
  have E: "penv_ok E" "cl_env_ok (px_clenv E)" "write_ok (lws_write (px_env E))" using env by (auto simp: px_env_ok_def)
  have cl: "cl_inv (proxy_established_clients w cs)" "cl_inv (proxy_closed_clients w cs)" "cl_inv (proxy_connection_error w cs)"
    if "cl_inv cs" "\<exists>c\<in>set (cl_clients cs). ci_wsi c = Some w \<and> active (ci_state c)" for cs
    using that wsi_event_inv by blast+
  show ?thesis
  proof (cases reason)
    case (PROXY_RECEIVE m)
    then obtain peer r where r: "remote_of w px = Some (peer, r)" and safe: "message_safe E px w m"
      using en by (auto simp: px_enabled_def)
    obtain px' r' where "proxy_receive E w m px = Some px'" "moved w r' px px'"
      using receive_moved [OF E(1) inv(1) r safe] by blast
    moreover have "cl_inv (px_clients px')" using calculation(2) inv(2) by (simp add: moved_def)
    ultimately show ?thesis using PROXY_RECEIVE moved_inv [OF inv(1)] by (auto simp: ws_ubusproxy_cb_def)
  next
    case PROXY_CLOSED
    then show ?thesis
      using proxy_closed_effect [OF inv(1), of w] cl(2) [OF inv(2)] en
      by (fastforce simp: px_enabled_def cl_enabled_ev_def ws_ubusproxy_cb_def)
  next
    case PROXY_ESTABLISHED
    then obtain rc px' where px': "proxy_established E w px = Some (rc, px')" "px_inv px'"
      "px_clients px' = (if rc = 0 then proxy_established_clients w (px_clients px) else px_clients px)"
      using established_moved [OF E(1) inv(1), of w] en by (auto simp: px_enabled_def)
    moreover have "cl_inv (px_clients px')"
      using px'(3) cl(1) [OF inv(2)] inv(2) en PROXY_ESTABLISHED by (simp add: px_enabled_def cl_enabled_ev_def)
    ultimately show ?thesis using PROXY_ESTABLISHED by (simp add: ws_ubusproxy_cb_def)
  next
    case PROXY_WRITEABLE
    then show ?thesis
      using writeable_effect [OF inv(1) E(3)] inv(2) en by (fastforce simp: px_enabled_def ws_ubusproxy_cb_def)
  qed (use inv en cl(3) [OF inv(2)] start_inv [OF inv(2)] in
      \<open>auto simp: ws_ubusproxy_cb_def px_enabled_def cl_enabled_ev_def\<close>)
qed

lemma px_step_inv:
  assumes inv: "px_inv px" "cl_inv (px_clients px)" and env: "px_env_ok E" and en: "px_enabled E px ev"
  shows "\<exists>px'. px_step E ev px = Some px' \<and> px_inv px' \<and> cl_inv (px_clients px')"
proof (cases ev)
  case (Manage ce)
  then show ?thesis
    using cl_step_inv [OF inv(2), of "px_clenv E" ce] env en inv(1)
    by (auto simp: px_step_def px_enabled_def px_env_ok_def)
next
  case (Callback w reason)
  then show ?thesis using callback_inv [OF inv env] en by (fastforce simp: px_step_def)
next
  case (Stub_call x req meth args)
  then obtain peer r where r: "remote_of (st_wsi x) px = Some (peer, r)" "x \<in> set (stubs r)"
    using en inv(1) by (auto simp: px_enabled_def px_inv_def)
  obtain rc px' r' where "wsu_local_stub_handle_call E x req meth args px = Some (rc, px')" "moved (st_wsi x) r' px px'"
    using local_call_moved [OF _ inv(1) r, of E req meth args] env by (auto simp: px_env_ok_def)
  then show ?thesis
    using Stub_call moved_inv [OF inv(1)] inv(2) by (auto simp: px_step_def moved_def)
qed

text \<open>The proxy with its client manager as a machine.\<close>

definition proxy_call :: "penv \<times> px_event \<Rightarrow> proxy \<Rightarrow> proxy option" where
  "proxy_call e = px_step (fst e) (snd e)"

definition proxy_admits :: "proxy \<Rightarrow> penv \<times> px_event \<Rightarrow> bool" where
  "proxy_admits px e \<longleftrightarrow> px_env_ok (fst e) \<and> px_enabled (fst e) px (snd e)"

definition proxy_ok :: "proxy \<Rightarrow> bool" where
  "proxy_ok px \<longleftrightarrow> px_inv px \<and> cl_inv (px_clients px)"

interpretation proxy_loop: safe_machine proxy_call proxy_admits proxy_ok
  by unfold_locales (use px_step_inv in \<open>simp add: proxy_call_def proxy_admits_def proxy_ok_def\<close>)

text \<open>
  The proxy begins without connections; the configuration may have added clients before.
\<close>

definition init_proxy :: "server \<Rightarrow> clvh_context \<Rightarrow> string list \<Rightarrow> proxy" where
  "init_proxy s cs paths =
     \<lparr>px_server = s\<lparr>peers := \<lambda>_. None\<rparr>, px_clients = cs, px_paths = paths, px_objects = [], px_next = 0,
      px_out = []\<rparr>"

inductive px_reachable :: "proxy \<Rightarrow> bool" where
  px_initial: "cl_reachable cs \<Longrightarrow> px_reachable (init_proxy s cs paths)"
| px_moved: "px_reachable px \<Longrightarrow> px_env_ok E \<Longrightarrow> px_enabled E px ev \<Longrightarrow> px_step E ev px = Some px' \<Longrightarrow>
    px_reachable px'"

inductive_cases px_reachable_cases: "px_reachable px"

lemma px_reachable_inv: "px_reachable px \<Longrightarrow> px_inv px \<and> cl_inv (px_clients px)"
proof (induction rule: px_reachable.induct)
  case (px_initial cs s paths)
  then show ?case
    using cl_reachable_inv by (simp add: px_inv_def init_proxy_def remote_of_def wsi_to_peer_def)
next
  case (px_moved px E ev px')
  then show ?case using px_step_inv [of px E ev] by force
qed

end
