(* ===== verification/Client_Properties.thy ===== *)
theory Client_Properties
  imports Client_Inv Demo
begin

text \<open>
  The properties of the client manager, with a run of it on a concrete environment for their
  witnesses: two clients are added from ubus, the first one connects and is closed again.
\<close>

section \<open>A run\<close>

definition demo_clib :: "connect_result \<Rightarrow> cl_env" where
  "demo_clib r =
     \<lparr>cl_lib = demo_lib, cl_alloc = (\<lambda>_. True),
      inet_pton = (\<lambda>v6 a. \<not> v6 \<and> a \<in> {''10.0.0.1'', ''10.0.0.2''}),
      lws_client_connect_via_info = (\<lambda>_. r), lws_create_vhost = Some 1\<rparr>"

definition demo_add :: "string \<Rightarrow> blob_attr list" where
  "demo_add ip = [(''ip'', BString ip), (''port'', BInt32 8443)]"

definition demo_cinfo :: "nat \<Rightarrow> string \<Rightarrow> client_connection_info" where
  "demo_cinfo n ip =
     \<lparr>ci_addr = n, ci_index = int n, ci_wsi = None, ci_reconnect_count = 0, ci_timer = Some 100,
      ci_info = \<lparr>cc_path = ''/'', cc_address = ip, cc_host = ip, cc_port = 8443, cc_ssl = True,
                 cc_vhost = None, cc_context = None, cc_protocol = ''ubus-json''\<rparr>,
      ci_type = CLIENT_FROM_UBUS, ci_state = CONNECTION_STATE_DISCONNECTED\<rparr>"

definition demo_clients :: "client_connection_info list \<Rightarrow> clvh_context" where
  "demo_clients cls = init_clients\<lparr>cl_enabled := True, cl_clients := cls, cl_next := 2\<rparr>"

definition demo_two :: clvh_context where
  "demo_two = demo_clients [demo_cinfo 0 ''10.0.0.1'', demo_cinfo 1 ''10.0.0.2'']"

definition demo_one_connected :: clvh_context where
  "demo_one_connected =
     demo_clients [(demo_cinfo 0 ''10.0.0.1'')\<lparr>ci_timer := None, ci_wsi := Some 5,
                      ci_state := CONNECTION_STATE_CONNECTED\<rparr>, demo_cinfo 1 ''10.0.0.2'']"

definition demo_one_closed :: clvh_context where
  "demo_one_closed =
     demo_clients [(demo_cinfo 0 ''10.0.0.1'')\<lparr>ci_timer := Some 2000, ci_wsi := Some 5\<rparr>,
                   demo_cinfo 1 ''10.0.0.2'']"

lemmas demo_cl_defs = demo_clib_def demo_add_def demo_cinfo_def demo_clients_def demo_two_def
  demo_one_connected_def demo_one_closed_def init_clients_def demo_lib_def demo_parse_def fits_def

lemmas demo_cl_ops = add_client_def wsubus_client_create_def validate_ip_port_path_def unique_ip_def
  new_client_def insert_at_lowest_free_index_def wsubus_client_enable_proxy_def add_client_policy_def
  get_u32_def WSS_PORT_def UBUS_STATUS_OK_def MAX_IP_LEN_def MAX_PATH_LEN_def utimer_reconnect_cb_def upd_ci_def
  wsubus_client_set_state_def get_client_by_wsi_def proxy_established_clients_def proxy_closed_clients_def
  wsubus_client_should_destroy_def wsubus_client_reconnect_def client_connect_def arm_def

lemma demo_clib_ok: "cl_env_ok (demo_clib r)"
  by (auto simp: cl_env_ok_def demo_clib_def)

definition demo_one_connecting :: clvh_context where
  "demo_one_connecting =
     demo_clients [(demo_cinfo 0 ''10.0.0.1'')\<lparr>ci_timer := None, ci_wsi := Some 5,
                      ci_state := CONNECTION_STATE_CONNECTING\<rparr>, demo_cinfo 1 ''10.0.0.2'']"

lemma cl_start: "cl_reachable init_clients"
  using cl_reachable.initial [of 2000] by (simp add: init_clients_def)

lemma demo_cl_steps:
  "cl_step (demo_clib Failed) (Ubus_add (demo_add ''10.0.0.1'')) init_clients =
     Some ((demo_clients [demo_cinfo 0 ''10.0.0.1''])\<lparr>cl_next := 1\<rparr>)"
  "cl_step (demo_clib Failed) (Ubus_add (demo_add ''10.0.0.2''))
     ((demo_clients [demo_cinfo 0 ''10.0.0.1''])\<lparr>cl_next := 1\<rparr>) = Some demo_two"
  "cl_step (demo_clib (Begun 5)) (Tick 0) demo_two = Some demo_one_connecting"
  "cl_step (demo_clib Failed) (Established 5) demo_one_connecting = Some demo_one_connected"
  "cl_step (demo_clib Failed) (Closed 5) demo_one_connected = Some demo_one_closed"
  by (simp_all add: cl_step_def demo_cl_ops demo_cl_defs demo_one_connecting_def Let_def)

lemma demo_cl_reachable:
  "cl_reachable demo_two" "cl_reachable demo_one_connected" "cl_reachable demo_one_closed"
proof -
  have "cl_reachable ((demo_clients [demo_cinfo 0 ''10.0.0.1''])\<lparr>cl_next := 1\<rparr>)"
    by (rule cl_reachable.moved [OF cl_start demo_clib_ok _ demo_cl_steps(1)])
      (simp add: cl_enabled_ev_def)
  then show two: "cl_reachable demo_two"
    by (rule cl_reachable.moved [OF _ demo_clib_ok _ demo_cl_steps(2)]) (simp add: cl_enabled_ev_def)
  then have "cl_reachable demo_one_connecting"
    by (rule cl_reachable.moved [OF _ demo_clib_ok _ demo_cl_steps(3)])
      (simp add: cl_enabled_ev_def demo_cl_defs fresh_wsi_def)
  then show one: "cl_reachable demo_one_connected"
    by (rule cl_reachable.moved [OF _ demo_clib_ok _ demo_cl_steps(4)])
      (simp add: cl_enabled_ev_def demo_one_connecting_def demo_cl_defs active_def)
  then show "cl_reachable demo_one_closed"
    by (rule cl_reachable.moved [OF _ demo_clib_ok _ demo_cl_steps(5)])
      (simp add: cl_enabled_ev_def demo_cl_defs active_def)
qed

section \<open>Properties\<close>



text \<open>
  C27. \<^bold>\<open>Adding a client.\<close> \<open>wsubus_client_create\<close> answers 0 exactly when the address is an IP
  address that no client which is not being torn down has, the path is given and memory is
  available. Then the list has one more client, at the least index no other client has; it is
  disconnected, has the wanted address, port 443 in place of a port out of range, and a timer of
  100 ms exactly when it comes from ubus. Any other answer leaves the clients as they were.
\<close>

theorem client_create_correct:
  assumes "cl_reachable cs" "wsubus_client_create E addr port path type cs = (rc, cs')"
  shows "(rc = 0 \<longleftrightarrow>
     (\<exists>a p. addr = Some a \<and> path = Some p \<and> (inet_pton E False a \<or> inet_pton E True a) \<and>
        (\<forall>c\<in>set (cl_clients cs). cc_address (ci_info c) = a \<longrightarrow> ci_state c = CONNECTION_STATE_TEARINGDOWN) \<and>
        cl_alloc E A_newcl \<and> cl_alloc E A_addr \<and> cl_alloc E A_path)) \<and>
    (rc \<noteq> 0 \<longrightarrow> cs' = cs) \<and>
    (rc = 0 \<longrightarrow> (\<exists>c n. mset (cl_clients cs') = add_mset c (mset (cl_clients cs)) \<and>
        sorted_wrt (<) (map ci_index (cl_clients cs')) \<and> ci_index c = int n \<and>
        int n \<notin> indices (cl_clients cs) \<and> (\<forall>j<n. int j \<in> indices (cl_clients cs)) \<and>
        ci_state c = CONNECTION_STATE_DISCONNECTED \<and> ci_wsi c = None \<and>
        cc_address (ci_info c) = take MAX_IP_LEN (the addr) \<and>
        cc_port (ci_info c) = (if port \<le> 0 \<or> port \<ge> 65536 then 443 else port) \<and>
        ci_timer c = (if type = CLIENT_FROM_UBUS then Some 100 else None)))"
proof (intro conjI impI)
  note defs = wsubus_client_create_def validate_ip_port_path_def unique_ip_def list_ex_iff
  show "cs' = cs" if "rc \<noteq> 0"
    using assms(2) that by (auto simp: defs Let_def split: option.splits if_splits)
  show "rc = 0 \<longleftrightarrow>
     (\<exists>a p. addr = Some a \<and> path = Some p \<and> (inet_pton E False a \<or> inet_pton E True a) \<and>
        (\<forall>c\<in>set (cl_clients cs). cc_address (ci_info c) = a \<longrightarrow> ci_state c = CONNECTION_STATE_TEARINGDOWN) \<and>
        cl_alloc E A_newcl \<and> cl_alloc E A_addr \<and> cl_alloc E A_path)"
    using assms(2)
    by (auto simp: defs Let_def UBUS_STATUS_INVALID_ARGUMENT_def UBUS_STATUS_UNKNOWN_def
        split: option.splits if_splits)
  assume ok: "rc = 0"
  then obtain a p where a: "addr = Some a" "path = Some p" and
    cs': "cs' = wsubus_client_enable_proxy (cs\<lparr>cl_next := cl_next cs + 1,
      cl_clients := insert_at_lowest_free_index
        ((new_client cs a (if port \<le> 0 \<or> port \<ge> 65536 then 443 else port) p type)
           \<lparr>ci_timer := if type = CLIENT_FROM_UBUS then Some 100 else None\<rparr>) (cl_clients cs)\<rparr>)"
    using assms(2)
    by (auto simp: defs Let_def UBUS_STATUS_INVALID_ARGUMENT_def UBUS_STATUS_UNKNOWN_def new_client_def
        split: option.splits if_splits)
  let ?c = "(new_client cs a (if port \<le> 0 \<or> port \<ge> 65536 then 443 else port) p type)
           \<lparr>ci_timer := if type = CLIENT_FROM_UBUS then Some 100 else None\<rparr>"
  obtain n where "n \<ge> 0" and n: "n \<notin> indices (cl_clients cs)" "\<forall>j. 0 \<le> j \<and> j < n \<longrightarrow> j \<in> indices (cl_clients cs)"
    "sorted_wrt (<) (map ci_index (insert_from 0 ?c (cl_clients cs)))"
    "mset (insert_from 0 ?c (cl_clients cs)) = add_mset (?c\<lparr>ci_index := n\<rparr>) (mset (cl_clients cs))"
    using insert_from_spec [of "cl_clients cs" 0 ?c] cl_reachable_inv [OF assms(1)]
    by (auto simp: cl_inv_def client_ok_def)
  then obtain m where m: "n = int m" using nonneg_int_cases by blast
  show "\<exists>c n. mset (cl_clients cs') = add_mset c (mset (cl_clients cs)) \<and>
        sorted_wrt (<) (map ci_index (cl_clients cs')) \<and> ci_index c = int n \<and>
        int n \<notin> indices (cl_clients cs) \<and> (\<forall>j<n. int j \<in> indices (cl_clients cs)) \<and>
        ci_state c = CONNECTION_STATE_DISCONNECTED \<and> ci_wsi c = None \<and>
        cc_address (ci_info c) = take MAX_IP_LEN (the addr) \<and>
        cc_port (ci_info c) = (if port \<le> 0 \<or> port \<ge> 65536 then 443 else port) \<and>
        ci_timer c = (if type = CLIENT_FROM_UBUS then Some 100 else None)"
    by (rule exI [of _ "?c\<lparr>ci_index := n\<rparr>"], rule exI [of _ m])
      (use n a m in \<open>simp add: cs' wsubus_client_enable_proxy_def insert_at_lowest_free_index_def new_client_def\<close>)
qed

theorem client_create_correct_witness:
  "\<exists>cs'. wsubus_client_create (demo_clib Failed) (Some ''10.0.0.2'') 0 (Some ''/'') CLIENT_FROM_PROGARG
      ((demo_clients [demo_cinfo 0 ''10.0.0.1''])\<lparr>cl_next := 1\<rparr>) = (0, cs') \<and>
     (\<exists>c. c \<in> set (cl_clients cs') \<and> ci_index c = 1 \<and> cc_port (ci_info c) = 443 \<and> ci_timer c = None)"
proof -
  let ?cs = "(demo_clients [demo_cinfo 0 ''10.0.0.1''])\<lparr>cl_next := 1\<rparr>"
  have r: "cl_reachable ?cs"
    by (rule cl_reachable.moved [OF cl_start demo_clib_ok _ demo_cl_steps(1)])
      (simp add: cl_enabled_ev_def)
  obtain rc cs' where e:
    "wsubus_client_create (demo_clib Failed) (Some ''10.0.0.2'') 0 (Some ''/'') CLIENT_FROM_PROGARG ?cs = (rc, cs')"
    by (metis surj_pair)
  have rc: "rc = 0"
    using client_create_correct [OF r e] by (simp add: demo_cl_defs)
  obtain c n where c: "mset (cl_clients cs') = add_mset c (mset (cl_clients ?cs))" "ci_index c = int n"
    "int n \<notin> indices (cl_clients ?cs)" "\<forall>j<n. int j \<in> indices (cl_clients ?cs)"
    "cc_port (ci_info c) = 443" "ci_timer c = None"
    using client_create_correct [OF r e] rc by auto
  have "indices (cl_clients ?cs) = {0}" by (simp add: indices_def demo_cl_defs)
  with c(3,4) have "n = 1" by (metis One_nat_def Suc_lessI gr0I int_eq_iff_numeral less_one of_nat_0 of_nat_eq_0_iff singleton_iff zero_neq_one)
  moreover have "c \<in> set (cl_clients cs')"
    using c(1) by (metis set_mset_mset union_single_eq_member)
  ultimately show ?thesis using e rc c(2,5,6) by auto
qed

text \<open>
  C28. \<^bold>\<open>Removing a client.\<close> Removing a client that is disconnected takes it off the list at once.
  Removing one that is connecting or connected, with connection \<open>w\<close>, leaves it on the list, but
  its address can be added again at once, and the next close or connection error of \<open>w\<close> takes
  exactly it off the list; an establishment of \<open>w\<close> that comes first changes nothing.
\<close>

theorem client_removal:
  assumes "cl_reachable cs" "c \<in> set (cl_clients cs)"
  defines "cs' \<equiv> manage_remove_client c cs" and "others \<equiv> filter (\<lambda>d. ci_addr d \<noteq> ci_addr c) (cl_clients cs)"
  shows "(ci_state c = CONNECTION_STATE_DISCONNECTED \<longrightarrow> cl_clients cs' = others) \<and>
    (ci_state c \<noteq> CONNECTION_STATE_DISCONNECTED \<longrightarrow>
      map ci_addr (cl_clients cs') = map ci_addr (cl_clients cs) \<and>
      (\<forall>a. unique_ip a cs' \<longleftrightarrow> unique_ip a (cs\<lparr>cl_clients := others\<rparr>)) \<and>
      (\<exists>w. ci_wsi c = Some w \<and> proxy_established_clients w cs' = cs' \<and>
         cl_clients (proxy_closed_clients w cs') = others \<and> cl_clients (proxy_connection_error w cs') = others))"
proof (intro conjI impI)
  show "cl_clients cs' = others" if "ci_state c = CONNECTION_STATE_DISCONNECTED"
    using that by (simp add: cs'_def others_def manage_remove_client_def wsubus_client_del_def)
next
  note inv = cl_reachable_inv [OF assms(1)]
  assume st: "ci_state c \<noteq> CONNECTION_STATE_DISCONNECTED"
  then obtain w where w: "ci_wsi c = Some w"
    using inv assms(2) by (auto simp: cl_inv_def client_ok_def active_def)
  let ?f = "\<lambda>c. c\<lparr>ci_state := CONNECTION_STATE_TEARINGDOWN\<rparr>"
  have "upd_ci (ci_addr c) ?f cs = cs" if "ci_state c = CONNECTION_STATE_TEARINGDOWN"
    using upd_one_cong [OF inv assms(2), of ?f "\<lambda>c. c"] that by (simp add: upd_unchanged)
  then have cs': "cs' = upd_ci (ci_addr c) ?f cs"
    using st by (cases "ci_state c") (simp_all add: cs'_def manage_remove_client_def)
  have inv': "cl_inv cs'"
    unfolding cs'_def by (rule manage_remove_inv [OF inv assms(2)]) simp_all
  have c': "?f c \<in> set (cl_clients cs')" unfolding cs' by (rule in_upd [OF assms(2)])
  have rest: "filter (\<lambda>d. ci_addr d \<noteq> ci_addr c) (cl_clients cs') = others"
    unfolding cs' others_def by (rule others_after_upd) simp
  have "unique_ip a cs' \<longleftrightarrow> unique_ip a (cs\<lparr>cl_clients := others\<rparr>)" for a
    by (auto simp: unique_ip_def list_ex_iff cs' others_def upd_ci_def)
  moreover have "map ci_addr (cl_clients cs') = map ci_addr (cl_clients cs)"
    by (simp add: cs' upd_ci_def)
  moreover have "\<exists>w. ci_wsi c = Some w \<and> proxy_established_clients w cs' = cs' \<and>
      cl_clients (proxy_closed_clients w cs') = others \<and> cl_clients (proxy_connection_error w cs') = others"
    using destroyed_when_tearing_down [OF inv' c', of w] w rest by (simp add: wsubus_client_del_def)
  ultimately show "map ci_addr (cl_clients cs') = map ci_addr (cl_clients cs)"
    "\<forall>a. unique_ip a cs' \<longleftrightarrow> unique_ip a (cs\<lparr>cl_clients := others\<rparr>)"
    "\<exists>w. ci_wsi c = Some w \<and> proxy_established_clients w cs' = cs' \<and>
      cl_clients (proxy_closed_clients w cs') = others \<and> cl_clients (proxy_connection_error w cs') = others"
    by blast+
qed

theorem client_removal_witness:
  "cl_clients (proxy_closed_clients 5 (manage_remove_client (hd (cl_clients demo_one_connected)) demo_one_connected)) =
     [demo_cinfo 1 ''10.0.0.2'']"
proof -
  let ?c = "hd (cl_clients demo_one_connected)"
  have c: "?c \<in> set (cl_clients demo_one_connected)" "ci_wsi ?c = Some 5"
    "ci_state ?c \<noteq> CONNECTION_STATE_DISCONNECTED"
    by (simp_all add: demo_cl_defs)
  show ?thesis
    using client_removal [OF demo_cl_reachable(2) c(1)] c(2,3) by (simp add: demo_cl_defs)
qed



text \<open>
  \<^bold>\<open>A closed connection is not forgotten.\<close> After its connection was closed a client keeps the
  pointer to it although the library has freed it. When the library then gives another client a
  connection at the same address, the state of the wrong client is changed: in a state the
  manager can reach, the attempt of the second client to connect leaves the second client
  disconnected and sets the first to connecting although its timer still runs.
\<close>

theorem stale_connection_pointer:
  "\<exists>cs cs' a b. cl_reachable cs \<and> map ci_state (cl_clients cs) = replicate 2 CONNECTION_STATE_DISCONNECTED \<and>
     utimer_reconnect_cb (demo_clib (Begun 5)) 1 cs = Some cs' \<and> cl_clients cs' = [a, b] \<and>
     ci_addr b = 1 \<and> ci_wsi b = Some 5 \<and> ci_state b = CONNECTION_STATE_DISCONNECTED \<and>
     ci_addr a = 0 \<and> ci_state a = CONNECTION_STATE_CONNECTING \<and> ci_timer a \<noteq> None"
proof -
  let ?a = "(demo_cinfo 0 ''10.0.0.1'')\<lparr>ci_timer := Some 2000, ci_wsi := Some 5,
              ci_state := CONNECTION_STATE_CONNECTING\<rparr>"
  let ?b = "(demo_cinfo 1 ''10.0.0.2'')\<lparr>ci_timer := None, ci_wsi := Some 5\<rparr>"
  have "map ci_state (cl_clients demo_one_closed) = replicate 2 CONNECTION_STATE_DISCONNECTED"
    by (simp add: demo_cl_defs numeral_2_eq_2)
  moreover have "utimer_reconnect_cb (demo_clib (Begun 5)) 1 demo_one_closed = Some (demo_clients [?a, ?b])"
    by (simp add: demo_cl_ops demo_cl_defs)
  moreover have "cl_clients (demo_clients [?a, ?b]) = [?a, ?b]"
    by (simp add: demo_clients_def)
  moreover have "ci_addr ?b = 1 \<and> ci_wsi ?b = Some 5 \<and> ci_state ?b = CONNECTION_STATE_DISCONNECTED \<and>
     ci_addr ?a = 0 \<and> ci_state ?a = CONNECTION_STATE_CONNECTING \<and> ci_timer ?a \<noteq> None"
    by (simp add: demo_cinfo_def)
  ultimately show ?thesis
    using demo_cl_reachable(3) by blast
qed

text \<open>
  \<^bold>\<open>Removing an unknown client.\<close> A request to remove the client with an index that no
  client has makes \<open>remove_client\<close> dereference a null pointer, before the check for it.
\<close>

theorem remove_unknown_index:
  assumes "blobmsg_parse (cl_lib E) client_remove_policy msg ! 0 = Some (n, BInt32 i)"
    and "sint i \<notin> indices (cl_clients cs)"
  shows "remove_client E msg cs = None"
  using assms by (force simp: remove_client_def get_client_by_index_def get_u32_def indices_def
      Let_def find_None_iff split: option.splits)

lemma sint_7: "sint (7 :: 32 word) = 7"
  by code_simp

theorem remove_unknown_index_witness:
  "remove_client (demo_clib Failed) [(''index'', BInt32 7)] demo_two = None"
proof (rule remove_unknown_index)
  show "blobmsg_parse (cl_lib (demo_clib Failed)) client_remove_policy [(''index'', BInt32 7)] ! 0 =
      Some (''index'', BInt32 7)"
    by (simp add: demo_cl_defs client_remove_policy_def)
  show "sint (7 :: u32) \<notin> indices (cl_clients demo_two)"
    unfolding sint_7 by (simp add: demo_cl_defs indices_def)
qed

end
