(* ===== verification/Proxy_Properties.thy ===== *)
theory Proxy_Properties
  imports Proxy_System Client_Properties
begin

text \<open>
  The properties of the proxy, with a run of it for their witnesses: the first client of
  \<open>Client_Properties\<close> connects, its subscription is accepted, and a list with one remote object
  arrives, which becomes a stub.
\<close>

section \<open>A run\<close>

definition demo_penv :: "connect_result \<Rightarrow> json \<Rightarrow> penv" where
  "demo_penv c j =
     \<lparr>px_env = demo_env\<lparr>json_tokener_parse_ex := \<lambda>_ _. (Some j, False, 0),
        json_object_get_string := \<lambda>j. case j of JString s \<Rightarrow> s | _ \<Rightarrow> []\<rparr>, px_clenv = demo_clib c,
      px_alloc = (\<lambda>_. True), json_print = (\<lambda>_. Some ''req''), json_alloc = (\<lambda>_. True),
      json_object_get_int = (\<lambda>j. case j of JInt i \<Rightarrow> i | _ \<Rightarrow> 0),
      lws_get_peer_simple = (\<lambda>_ _. ''::ffff:10.0.0.1''), cert_common_name = (\<lambda>_. (0, ''router'')),
      ubus_add_object = (\<lambda>_. 0), ubusx_prefix_mac = False, dhcp_leases = None\<rparr>"

definition demo_listen_reply :: json where
  "demo_listen_reply = JObject [(''id'', JInt 1), (''result'', JArray [JInt 0])]"

definition demo_objects :: "(string \<times> json) list" where
  "demo_objects = [(''uci'', JObject [(''get'', JObject [(''config'', JString ''string'')])])]"

definition demo_list_reply :: json where
  "demo_list_reply = JObject [(''id'', JInt 2), (''result'', JArray [JInt 0, JObject demo_objects])]"

definition demo_stub :: wsu_local_stub where
  "demo_stub = \<lparr>st_addr = 0, st_wsi = 5, st_key = ''uci'', st_name = ''10.0.0.1/uci'',
     st_methods = [\<lparr>um_name = ''get'', um_policy = [(''config'', BLOBMSG_TYPE_STRING)]\<rparr>]\<rparr>"

text \<open>A state with connection 5, \<open>q\<close> requests in its queue, and its remote bus.\<close>

definition demo_conn :: "clvh_context \<Rightarrow> nat \<Rightarrow> wsu_remote_bus \<Rightarrow> wsu_local_stub list \<Rightarrow> proxy" where
  "demo_conn cs q r objs =
     \<lparr>px_server = (init_server 512 [])\<lparr>peers := [5 \<mapsto> \<lparr>peer_ready = True, curr_msg_text = [], curr_msg_len = 0,
        write_q = replicate q \<lparr>wr_buf = ''req'', wr_written = 0\<rparr>, peer_sid = ''X-tls-certificate'', peer_u = URemote r\<rparr>]\<rparr>,
      px_clients = cs, px_paths = [], px_objects = objs, px_next = length objs, px_out = []\<rparr>"

definition demo_px_start :: "clvh_context \<Rightarrow> proxy" where
  "demo_px_start cs = (init_proxy (init_server 512 []) init_clients [])\<lparr>px_clients := cs\<rparr>"

definition demo_listening :: proxy where
  "demo_listening = demo_conn demo_one_connected 1 (zero_remote\<lparr>call_id := 1, wait_listen := True\<rparr>) []"

definition demo_listing :: proxy where
  "demo_listing = demo_conn demo_one_connected 2 (zero_remote\<lparr>call_id := 2, wait_list_id := 2\<rparr>) []"

definition demo_proxied :: proxy where
  "demo_proxied = demo_conn demo_one_connected 2 (zero_remote\<lparr>call_id := 2, stubs := [demo_stub]\<rparr>) [demo_stub]"

lemma demo_penv_ok: "px_env_ok (demo_penv c j)"
proof -
  have "alloc demo_env a" for a by (simp add: demo_env_def)
  moreover have "write_ok (lws_write demo_env)" by (rule demo_write_ok)
  ultimately show ?thesis
    using demo_clib_ok by (simp add: px_env_ok_def penv_ok_def names_ok_def demo_penv_def WSUBUS_MAX_MESSAGE_LEN_def)
qed

lemmas demo_px_defs = demo_penv_def demo_conn_def demo_px_start_def demo_listening_def demo_listing_def
  demo_proxied_def demo_stub_def demo_objects_def demo_list_reply_def demo_listen_reply_def

lemma demo_px_manage:
  "px_step (demo_penv Failed JNull) (Manage (Ubus_add (demo_add ''10.0.0.1''))) (demo_px_start init_clients) =
     Some (demo_px_start ((demo_clients [demo_cinfo 0 ''10.0.0.1''])\<lparr>cl_next := 1\<rparr>))"
  "px_step (demo_penv Failed JNull) (Manage (Ubus_add (demo_add ''10.0.0.2'')))
     (demo_px_start ((demo_clients [demo_cinfo 0 ''10.0.0.1''])\<lparr>cl_next := 1\<rparr>)) = Some (demo_px_start demo_two)"
  "px_step (demo_penv (Begun 5) JNull) (Manage (Tick 0)) (demo_px_start demo_two) = Some (demo_px_start demo_one_connecting)"
  by (simp_all add: px_step_def demo_px_start_def demo_penv_def demo_cl_steps del: One_nat_def)

lemma demo_printed_req:
  "jsonrpc__req_to_string (\<lambda>_. Some ''req'') (\<lambda>_. True) i sid ''call'' obj meth (Some arg) pat = Some ''req''"
  "jsonrpc__req_to_string (\<lambda>_. Some ''req'') (\<lambda>_. True) i sid ''list'' obj meth None pat = Some ''req''"
  "jsonrpc__req_to_string (\<lambda>_. Some ''req'') (\<lambda>_. True) i sid ''subscribe'' obj meth None pat = Some ''req''"
  by (simp_all add: jsonrpc__req_to_string_def custom_json_object_array_add_string_def Let_def)

lemma replicate_2: "replicate 2 x = [x, x]"
  by (simp add: numeral_2_eq_2)

lemmas demo_px_send = send_listen_def send_list_def send_request_def remote_of_def wsi_to_peer_def set_remote_def set_peer_def
  fresh_peer_def px_write_def queue_write_def wsu_queue_write_str_def jsonrpc__req_ubuslisten_def
  jsonrpc__req_ubuslist_def jsonrpc__req_ubuscall_def demo_printed_req WSUBUS_MAX_MESSAGE_LEN_def
  wsu_sid_update_def strncat_empty_def Let_def

lemma demo_px_established:
  "px_step (demo_penv Failed JNull) (Callback 5 PROXY_ESTABLISHED) (demo_px_start demo_one_connecting) = Some demo_listening"
proof -
  have "\<not> wsubus_client_should_destroy (Some 5) demo_one_connecting"
    "wsubus_client_set_state (Some 5) CONNECTION_STATE_CONNECTED demo_one_connecting = demo_one_connected"
    "\<not> wsubus_client_get_rpcd_integration demo_one_connected"
    by (simp_all add: demo_cl_ops demo_cl_defs demo_one_connecting_def wsubus_client_get_rpcd_integration_def)
  then show ?thesis
    by (simp add: px_step_def ws_ubusproxy_cb_def proxy_established_def demo_px_defs init_proxy_def wsu_peer_init_def demo_env_def
        demo_px_send zero_remote_def)
qed

lemma demo_px_listen:
  "px_step (demo_penv Failed demo_listen_reply) (Callback 5 (PROXY_RECEIVE [])) demo_listening = Some demo_listing"
  by (simp add: px_step_def ws_ubusproxy_cb_def proxy_receive_def demo_px_defs demo_env_def json_get_ex_def on_result_def
      on_listen_result_def json_array_get_idx_def demo_px_send zero_remote_def replicate_2)

lemma demo_px_list:
  "px_step (demo_penv Failed demo_list_reply) (Callback 5 (PROXY_RECEIVE [])) demo_listing = Some demo_proxied"
  by (simp add: px_step_def ws_ubusproxy_cb_def proxy_receive_def demo_px_defs demo_env_def json_get_ex_def on_result_def
      on_list_result_def json_array_get_idx_def demo_px_send zero_remote_def replicate_2
      merge_list_def avl_find_ge_element_def merge_object_def advance_cur_def avl_next_element_def
      wsubus_client_match_pattern_def olist_ops_def wsu_local_stub_create_def policy_of_def json_string_def
      blobmsg_type_from_str_def proxied_name_size_def proxied_name_fill_def proxied_name_mac_prefix_def strncmp_eq_0
      stubs_insert_def)

lemma demo_px_safe:
  "px_enabled (demo_penv Failed JNull) (demo_px_start demo_one_connecting) (Callback 5 PROXY_ESTABLISHED)"
  "px_enabled (demo_penv Failed demo_listen_reply) demo_listening (Callback 5 (PROXY_RECEIVE []))"
  "px_enabled (demo_penv Failed demo_list_reply) demo_listing (Callback 5 (PROXY_RECEIVE []))"
proof -
  show "px_enabled (demo_penv Failed JNull) (demo_px_start demo_one_connecting) (Callback 5 PROXY_ESTABLISHED)"
    by (simp add: px_enabled_def cl_enabled_ev_def demo_px_defs demo_one_connecting_def demo_cl_defs active_def init_proxy_def)
  show "px_enabled (demo_penv Failed demo_listen_reply) demo_listening (Callback 5 (PROXY_RECEIVE []))"
    by (simp add: px_enabled_def message_safe_def list_safe_def json_get_ex_def json_array_get_idx_def demo_px_defs
        remote_of_def wsi_to_peer_def)
  show "px_enabled (demo_penv Failed demo_list_reply) demo_listing (Callback 5 (PROXY_RECEIVE []))"
    by (simp add: px_enabled_def message_safe_def list_safe_def json_get_ex_def json_array_get_idx_def demo_px_defs
        remote_of_def wsi_to_peer_def valid_signature_def merge_safe_def)
qed

lemma demo_px_reachable: "px_reachable demo_listing" "px_reachable demo_proxied"
proof -
  have "px_reachable (demo_px_start init_clients)"
    using px_initial [OF cl_start, of "init_server 512 []" "[]"] by (simp add: demo_px_start_def init_proxy_def)
  then have "px_reachable (demo_px_start ((demo_clients [demo_cinfo 0 ''10.0.0.1''])\<lparr>cl_next := 1\<rparr>))"
    by (rule px_moved [OF _ demo_penv_ok _ demo_px_manage(1)]) (simp add: px_enabled_def cl_enabled_ev_def)
  then have "px_reachable (demo_px_start demo_two)"
    by (rule px_moved [OF _ demo_penv_ok _ demo_px_manage(2)]) (simp add: px_enabled_def cl_enabled_ev_def)
  then have "px_reachable (demo_px_start demo_one_connecting)"
    by (rule px_moved [OF _ demo_penv_ok _ demo_px_manage(3)])
      (simp add: px_enabled_def cl_enabled_ev_def demo_px_start_def demo_penv_def demo_cl_defs fresh_wsi_def)
  then have "px_reachable demo_listening"
    by (rule px_moved [OF _ demo_penv_ok demo_px_safe(1) demo_px_established])
  then show l: "px_reachable demo_listing"
    by (rule px_moved [OF _ demo_penv_ok demo_px_safe(2) demo_px_listen])
  then show "px_reachable demo_proxied"
    by (rule px_moved [OF _ demo_penv_ok demo_px_safe(3) demo_px_list])
qed

section \<open>The proxy as a whole\<close>



section \<open>Lists of remote objects\<close>

text \<open>
  C4. \<^bold>\<open>The merge is exact where it ends.\<close> On a list sorted by name, the loop that walks the list
  and the tree of stubs side by side does what looking every object up in the tree would do, unless an
  object that changes the end of the tree (a new object behind its last element, or the last
  element with a new signature) is followed by another object of the list: then the loop reads the
  key of the list head, an invalid access. (When the first name of the list lies behind the tree
  there is no such restriction.)
\<close>

theorem list_merge_exact:
  assumes "px_reachable px" "names_ok E" "remote_of w px = Some (peer, r)"
    and "sorted_wrt (\<lambda>x y. bytes (fst x) < bytes (fst y)) objs"
  shows "merge_list E w objs px =
     (if stubs r = [] \<or> objs = [] \<or> bytes (st_key (last (stubs r))) < bytes (fst (hd objs)) \<or>
         \<not> (\<exists>obj\<in>set (butlast objs). changes_end E (px_paths px) (last (stubs r)) obj)
      then put_objects E w objs px else None)"
  using merge_list_eq [OF assms(2) has_stubs_inv [OF _ assms(3)] assms(4)] px_reachable_inv [OF assms(1)]
  by (simp add: merge_safe_def)

lemma demo_proxied_remote:
  "\<exists>peer. remote_of 5 demo_proxied = Some (peer, zero_remote\<lparr>call_id := 2, stubs := [demo_stub]\<rparr>)"
  by (simp add: remote_of_def wsi_to_peer_def demo_proxied_def demo_conn_def)

lemma demo_names_ok: "names_ok (demo_penv c j)"
  using demo_penv_ok [of c j] by (simp add: px_env_ok_def penv_ok_def)

theorem list_merge_exact_witness:
  "merge_list (demo_penv Failed JNull) 5 (demo_objects @ [(''wifi'', JObject [])]) demo_proxied =
   put_objects (demo_penv Failed JNull) 5 (demo_objects @ [(''wifi'', JObject [])]) demo_proxied"
proof -
  obtain peer where r: "remote_of 5 demo_proxied = Some (peer, zero_remote\<lparr>call_id := 2, stubs := [demo_stub]\<rparr>)"
    using demo_proxied_remote by blast
  have "sorted_wrt (\<lambda>x y. bytes (fst x) < bytes (fst y)) (demo_objects @ [(''wifi'', JObject [])])"
    by (simp add: demo_objects_def byte_of_def)
  moreover have "\<not> changes_end (demo_penv Failed JNull) (px_paths demo_proxied) demo_stub (hd demo_objects)"
    by (simp add: changes_end_def demo_px_defs wsu_local_stub_is_same_signature_def json_string_def
        blobmsg_type_from_str_def)
  ultimately show ?thesis
    using list_merge_exact [OF demo_px_reachable(2) demo_names_ok r] by (simp add: demo_objects_def)
qed

text \<open>
  C14. \<^bold>\<open>What a list leads to.\<close> With memory available, a sorted list of well-formed objects that the
  merge can take ends with the stubs in order; every object of the list that the path patterns admit
  has exactly one stub, with its signature; a stub of an object that is not admitted has the
  signature of the list; and the stubs of objects that are not in the list are the same as before.
\<close>

theorem list_merge_result:
  assumes "px_reachable px" "px_env_ok E" "remote_of w px = Some (peer, r)"
    and "sorted_wrt (\<lambda>x y. bytes (fst x) < bytes (fst y)) objs" "\<forall>obj\<in>set objs. valid_signature (snd obj)"
    and "merge_safe E (px_paths px) (stubs r) objs"
  shows "\<exists>px' peer' r'. merge_list E w objs px = Some px' \<and> remote_of w px' = Some (peer', r') \<and>
     sorted_wrt (\<lambda>x y. bytes (st_key x) < bytes (st_key y)) (stubs r') \<and>
     (\<forall>obj\<in>set objs.
        (wsubus_client_match_pattern olist_ops (px_paths px) (fst obj) \<longrightarrow> (\<exists>!x. x \<in> set (stubs r') \<and> st_key x = fst obj)) \<and>
        (\<forall>x\<in>set (stubs r'). st_key x = fst obj \<longrightarrow> wsu_local_stub_is_same_signature E x (snd obj) = Some True)) \<and>
     (\<forall>x. st_key x \<notin> fst ` set objs \<longrightarrow> (x \<in> set (stubs r') \<longleftrightarrow> x \<in> set (stubs r)))"
proof -
  have E: "names_ok E" "\<forall>a. px_alloc E a" using assms(2) by (auto simp: px_env_ok_def penv_ok_def)
  have h: "has_stubs w px (stubs r)" using has_stubs_inv px_reachable_inv [OF assms(1)] assms(3) by blast
  obtain px' where px': "put_objects E w objs px = Some px'" using put_objects_total [OF E assms(5) h] by blast
  have "distinct (map fst objs)"
    using assms(4) by (induction objs) force+
  from put_objects_result [OF E(1) h this px'] obtain t' where t': "has_stubs w px' t'"
    "\<forall>obj\<in>set objs. put_done E (px_paths px) obj t'"
    "\<forall>x. st_key x \<notin> fst ` set objs \<longrightarrow> (x \<in> set t' \<longleftrightarrow> x \<in> set (stubs r))"
    by blast
  obtain peer' r' where r': "remote_of w px' = Some (peer', r')" "stubs r' = t'" and ok: "stubs_ok w (px_next px') t'"
    using t'(1) by (auto simp: has_stubs_def)
  have "merge_list E w objs px = Some px'"
    using merge_list_eq [OF E(1) h assms(4)] assms(6) px' by simp
  moreover have "\<exists>!x. x \<in> set t' \<and> st_key x = fst obj" if "\<exists>x\<in>set t'. st_key x = fst obj" for obj :: "string \<times> json"
    using that same_key [OF ok] by metis
  ultimately show ?thesis
    using t'(2,3) r' ok by (intro exI [of _ px'] exI [of _ peer'] exI [of _ r']) (auto simp: put_done_def stubs_ok_def)
qed

theorem list_merge_result_witness:
  "\<exists>px' peer' r'. merge_list (demo_penv Failed JNull) 5 demo_objects demo_listing = Some px' \<and>
     remote_of 5 px' = Some (peer', r') \<and> (\<exists>!x. x \<in> set (stubs r') \<and> st_key x = ''uci'')"
proof -
  obtain peer where r: "remote_of 5 demo_listing = Some (peer, zero_remote\<lparr>call_id := 2, wait_list_id := 2\<rparr>)"
    by (simp add: remote_of_def wsi_to_peer_def demo_listing_def demo_conn_def)
  have "merge_safe (demo_penv Failed JNull) (px_paths demo_listing) (stubs (zero_remote\<lparr>call_id := 2, wait_list_id := 2\<rparr>)) demo_objects"
    by (simp add: merge_safe_def zero_remote_def)
  moreover have "\<forall>obj\<in>set demo_objects. valid_signature (snd obj)" "sorted_wrt (\<lambda>x y. bytes (fst x) < bytes (fst y)) demo_objects"
    by (simp_all add: demo_objects_def valid_signature_def)
  moreover have "wsubus_client_match_pattern olist_ops (px_paths demo_listing) ''uci''"
    by (simp add: wsubus_client_match_pattern_def olist_ops_def demo_px_defs)
  moreover obtain obj where obj: "obj \<in> set demo_objects" "fst obj = ''uci''" by (simp add: demo_objects_def)
  ultimately obtain px' peer' r' where "merge_list (demo_penv Failed JNull) 5 demo_objects demo_listing = Some px'"
    "remote_of 5 px' = Some (peer', r')" "\<exists>!x. x \<in> set (stubs r') \<and> st_key x = fst obj"
    using list_merge_result [OF demo_px_reachable(1) demo_penv_ok r, of demo_objects Failed JNull] by metis
  then show ?thesis unfolding obj(2) by blast
qed

text \<open>
  \<^bold>\<open>Two new objects behind the last one.\<close> When a list begins at or before the last stub of the
  tree and two objects of it lie behind that stub, the first of them admitted by the patterns, the
  merge makes an invalid access.
\<close>

theorem list_merge_two_new:
  assumes "px_reachable px" "names_ok E" "remote_of w px = Some (peer, r)" "stubs r \<noteq> []"
    and "sorted_wrt (\<lambda>x y. bytes (fst x) < bytes (fst y)) (first # objs @ [new1, new2])"
    and "bytes (fst first) \<le> bytes (st_key (last (stubs r)))" "bytes (st_key (last (stubs r))) < bytes (fst new1)"
    and "wsubus_client_match_pattern olist_ops (px_paths px) (fst new1)"
  shows "merge_list E w (first # objs @ [new1, new2]) px = None"
proof -
  have "changes_end E (px_paths px) (last (stubs r)) new1" using assms(7,8) by (simp add: changes_end_def)
  moreover have "new1 \<in> set (butlast (first # objs @ [new1, new2]))" by (simp add: butlast_append)
  ultimately have "\<not> merge_safe E (px_paths px) (stubs r) (first # objs @ [new1, new2])"
    using assms(4,6) by (auto simp: merge_safe_def)
  then show ?thesis
    using merge_list_eq [OF assms(2) has_stubs_inv [OF _ assms(3)] assms(5)] px_reachable_inv [OF assms(1)] by simp
qed

theorem list_merge_two_new_witness:
  "merge_list (demo_penv Failed JNull) 5 (hd demo_objects # [] @ [(''wifi'', JObject []), (''xy'', JObject [])]) demo_proxied = None"
proof -
  obtain peer where r: "remote_of 5 demo_proxied = Some (peer, zero_remote\<lparr>call_id := 2, stubs := [demo_stub]\<rparr>)"
    using demo_proxied_remote by blast
  show ?thesis
    by (rule list_merge_two_new [OF demo_px_reachable(2) demo_names_ok r])
      (simp_all add: demo_px_defs byte_of_def wsubus_client_match_pattern_def olist_ops_def)
qed

section \<open>Calls\<close>


lemma demo_idle:
  "busy_calls zero_remote = {}" "({} = {..<(20 :: nat)}) = False" "\<not> wait_login zero_remote" "\<not> wait_listen zero_remote"
  using lessThan_empty_iff [of 20] by (auto simp: busy_calls_def zero_remote_def)



lemma demo_stub_call:
  "\<exists>px' peer' r' p. wsu_local_stub_handle_call (demo_penv Failed JNull) demo_stub 42 ''get'' [] demo_proxied = Some (0, px') \<and>
     remote_of 5 px' = Some (peer', r') \<and> busy_calls r' = {p} \<and> calls r' ! p = \<lparr>jsonrpc_id = 3, ureq = 42\<rparr> \<and>
     \<not> wait_login r' \<and> \<not> wait_listen r'"
proof -
  obtain peer where r: "remote_of 5 demo_proxied = Some (peer, zero_remote\<lparr>call_id := 2, stubs := [demo_stub]\<rparr>)"
    using demo_proxied_remote by blast
  have "px_inv demo_proxied" "penv_ok (demo_penv Failed JNull)"
    using px_reachable_inv [OF demo_px_reachable(2)] demo_penv_ok [of Failed JNull] by (auto simp: px_env_ok_def)
  from local_call_moved [OF this(2,1) r, of demo_stub 42 "''get''" "[]"] show ?thesis
    by (auto simp: demo_idle MAX_PROXIED_CALLS_def same_phase_def)
qed

text \<open>
  C12. \<^bold>\<open>An answer reaches its request.\<close> When login and subscription are over, a result that
  carries the id of a waiting call is sent to the request of exactly that call: its data, if it is
  an object, then its status code, if it is a number, or an unknown error when the result is not an
  array. The slot is free afterwards and the other waiting calls are as before.
\<close>

theorem proxied_answer_routed:
  assumes "px_reachable px" "remote_of w px = Some (peer, r)" "\<not> wait_login r" "\<not> wait_listen r" "p \<in> busy_calls r"
    and "json_object_get_int E (JInt (slot_id r p)) = slot_id r p"
  shows "\<exists>px' peer' r'. on_result E w (JInt (slot_id r p)) tmp px = Some px' \<and> remote_of w px' = Some (peer', r') \<and>
     px_out px' = px_out px @ call_answer E (ureq (calls r ! p)) tmp \<and>
     busy_calls r' = busy_calls r - {p} \<and> calls r' = calls r"
proof -
  have inv: "px_inv px" using px_reachable_inv [OF assms(1)] by blast
  have ok: "calls_ok r" using px_invD [OF inv assms(2)] by (simp add: conn_ok_def)
  have "slot_id r p \<noteq> 0" "slot_id r p \<noteq> wait_list_id r" using ok assms(5) by (force simp: calls_ok_def)+
  moreover have "wait_call r \<noteq> 0" using assms(5) by (auto simp: busy_calls_def)
  ultimately have "on_result E w (JInt (slot_id r p)) tmp px =
    Some (set_remote w peer (wsu_proxied_call_free r (int p))
       (px\<lparr>px_out := px_out px @ call_answer E (ureq (calls r ! p)) tmp\<rparr>))"
    using assms(2-4,6) find_slot [OF ok assms(5)] by (auto simp: on_result_def on_call_result_def Let_def)
  then show ?thesis using calls_ok_free [OF ok assms(5)] by simp
qed

theorem proxied_answer_routed_witness:
  "\<exists>px. px_reachable px \<and> (\<exists>px'. on_result (demo_penv Failed JNull) 5 (JInt 3) (JArray [JInt 0]) px = Some px' \<and>
     px_out px' = px_out px @ [Bus_complete 42 0])"
proof -
  obtain px' peer' r' p where c:
    "wsu_local_stub_handle_call (demo_penv Failed JNull) demo_stub 42 ''get'' [] demo_proxied = Some (0, px')"
    "remote_of 5 px' = Some (peer', r')" "busy_calls r' = {p}" "calls r' ! p = \<lparr>jsonrpc_id = 3, ureq = 42\<rparr>"
    "\<not> wait_login r'" "\<not> wait_listen r'"
    using demo_stub_call by blast
  have "px_reachable px'"
    by (rule px_moved [OF demo_px_reachable(2) demo_penv_ok, of Failed JNull "Stub_call demo_stub 42 ''get'' []"])
      (use c(1) in \<open>simp_all add: px_step_def px_enabled_def demo_proxied_def demo_conn_def\<close>)
  moreover have "slot_id r' p = 3" "p \<in> busy_calls r'" using c by (simp_all add: slot_id_def)
  moreover have "json_object_get_int (demo_penv Failed JNull) (JInt 3) = 3" by (simp add: demo_penv_def)
  ultimately show ?thesis
    using proxied_answer_routed [of px' 5 peer' r' p "demo_penv Failed JNull" "JArray [JInt 0]"] c
    by (auto simp: call_answer_def json_array_get_idx_def demo_penv_def)
qed

section \<open>Closing\<close>

text \<open>
  C15. \<^bold>\<open>Closing a connection.\<close> When the connection of a client is closed, every object that stands for
  the remote bus leaves the local bus, the other connections and their objects stay, and the client
  is forgotten when it was being removed and otherwise tried again after two seconds.
\<close>

theorem proxy_close_correct:
  assumes "px_reachable px" "px_enabled E px (Callback w PROXY_CLOSED)"
    and "c \<in> set (cl_clients (px_clients px))" "ci_wsi c = Some w"
  shows "\<exists>px'. ws_ubusproxy_cb E w PROXY_CLOSED px = Some (0, px') \<and> remote_of w px' = None \<and>
     (\<forall>v. v \<noteq> w \<longrightarrow> remote_of v px' = remote_of v px) \<and> (\<forall>x\<in>set (px_objects px'). st_wsi x \<noteq> w) \<and>
     px_clients px' =
       (if ci_state c = CONNECTION_STATE_TEARINGDOWN then wsubus_client_del (ci_addr c) (px_clients px)
        else upd_ci (ci_addr c) (\<lambda>c. c\<lparr>ci_state := CONNECTION_STATE_DISCONNECTED, ci_reconnect_count := 0,
               ci_timer := Some 2000\<rparr>) (px_clients px))"
proof -
  have inv: "px_inv px" "cl_inv (px_clients px)" using px_reachable_inv [OF assms(1)] by auto
  have "wsi_to_client (px_server px) w = None" using assms(2) by (simp add: px_enabled_def)
  from proxy_closed_effect [OF inv(1) this] obtain px' where px': "proxy_closed w px = Some px'" "remote_of w px' = None"
    "\<forall>v. v \<noteq> w \<longrightarrow> remote_of v px' = remote_of v px" "\<forall>x\<in>set (px_objects px'). st_wsi x \<noteq> w"
    "px_clients px' = proxy_closed_clients w (px_clients px)"
    by blast
  have "proxy_closed_clients w (px_clients px) =
       (if ci_state c = CONNECTION_STATE_TEARINGDOWN then wsubus_client_del (ci_addr c) (px_clients px)
        else upd_ci (ci_addr c) (\<lambda>c. c\<lparr>ci_state := CONNECTION_STATE_DISCONNECTED, ci_reconnect_count := 0,
               ci_timer := Some 2000\<rparr>) (px_clients px))"
    using destroyed_when_tearing_down(1) [OF inv(2) assms(3,4)] closed_effect [OF inv(2) assms(3,4)] by simp
  with px' show ?thesis by (intro exI [of _ px']) (simp add: ws_ubusproxy_cb_def)
qed

theorem proxy_close_correct_witness:
  "\<exists>px'. ws_ubusproxy_cb (demo_penv Failed JNull) 5 PROXY_CLOSED demo_proxied = Some (0, px') \<and>
     remote_of 5 px' = None \<and> (\<forall>x\<in>set (px_objects px'). st_wsi x \<noteq> 5)"
proof -
  let ?c = "hd (cl_clients demo_one_connected)"
  have cl: "px_clients demo_proxied = demo_one_connected" by (simp add: demo_proxied_def demo_conn_def)
  have c: "?c \<in> set (cl_clients demo_one_connected)" "ci_wsi ?c = Some 5" "active (ci_state ?c)"
    by (simp_all add: demo_cl_defs active_def)
  have "px_enabled (demo_penv Failed JNull) demo_proxied (Callback 5 PROXY_CLOSED)"
    unfolding px_enabled_def
    using c by (auto simp: cl cl_enabled_ev_def wsi_to_client_def wsi_to_peer_def client_of_def demo_proxied_def demo_conn_def)
  from proxy_close_correct [OF demo_px_reachable(2) this, of ?c] c show ?thesis by (auto simp: cl)
qed

section \<open>Names, signatures and events\<close>

text \<open>
  \<^bold>\<open>Names of stubs and events.\<close> With an address of at most 50 bytes the name of a stub or an
  event never overflows its buffer: it is the address of the other end, without the prefix of an IPv4
  address in an IPv6 one, a slash, and the remote name; also with a hardware address in front the
  part behind the first slash is the remote name, so calls go to the right object.
\<close>

theorem proxied_name_exact:
  assumes "names_ok E"
  shows "proxied_name_fill E (proxied_name_size name) w name = Some (peer_prefix E w (proxied_name_size name) @ ''/'' @ name) \<and>
    after_slash (proxied_name_mac_prefix E (peer_prefix E w (proxied_name_size name) @ ''/'' @ name)
           (proxied_name_size name)) = Some name"
  using fill_eq [OF assms] stub_name [OF assms refl, of w name] after_slash_append by auto

theorem proxied_name_exact_witness:
  "proxied_name_fill (demo_penv Failed JNull) (proxied_name_size ''uci'') 5 ''uci'' = Some ''10.0.0.1/uci''"
  unfolding proxied_name_exact [OF demo_names_ok, THEN conjunct1]
  by (simp add: peer_prefix_def demo_penv_def strncmp_eq_0)

text \<open>
  \<^bold>\<open>The hardware address of another host.\<close> \<open>get_mac_by_ip\<close> returns the hardware address of the
  first lease with the wanted IP address; when no lease has it, it returns what the last line
  of the lease file holds, the hardware address of an unrelated host.
\<close>

theorem lease_lookup:
  assumes "px_alloc E A_mac" "dhcp_leases E = Some ls"
  shows "get_mac_by_ip E ip = Some (
     case List.find (\<lambda>l. fst (sscanf_lease l) = 2 \<and> snd (snd (sscanf_lease l)) = ip) ls of
       Some l \<Rightarrow> fst (snd (sscanf_lease l))
     | None \<Rightarrow> if ls = [] then [] else fst (snd (sscanf_lease (last ls))))"
proof -
  have "lease_loop ip ls m = (case List.find (\<lambda>l. fst (sscanf_lease l) = 2 \<and> snd (snd (sscanf_lease l)) = ip) ls of
       Some l \<Rightarrow> fst (snd (sscanf_lease l))
     | None \<Rightarrow> if ls = [] then m else fst (snd (sscanf_lease (last ls))))" for m
    by (induction ls arbitrary: m) (auto split: prod.split option.split)
  then show ?thesis using assms by (simp add: get_mac_by_ip_def)
qed

theorem lease_lookup_witness:
  "get_mac_by_ip ((demo_penv Failed JNull)\<lparr>dhcp_leases := Some [''1 aa:bb 10.0.0.7'']\<rparr>) ''10.0.0.1'' = Some ''aa:bb''"
proof -
  have "sscanf_lease ''1 aa:bb 10.0.0.7'' = (2, ''aa:bb'', ''10.0.0.7'')" by code_simp
  then show ?thesis
    using lease_lookup [of "(demo_penv Failed JNull)\<lparr>dhcp_leases := Some [''1 aa:bb 10.0.0.7'']\<rparr>"
        "[''1 aa:bb 10.0.0.7'']" "''10.0.0.1''"]
    by (simp add: demo_penv_def)
qed

text \<open>
  \<^bold>\<open>Signatures.\<close> For a signature that is an object of objects, the comparison with a stub
  tells exactly whether the stub has the methods, with the argument names and types and in the
  order, that a stub made from this signature has.
\<close>

theorem stub_signature_exact:
  assumes "Option.bind (json_members signature) (methods_of E) = Some ms"
  shows "wsu_local_stub_is_same_signature E stub signature = Some (st_methods stub = ms)"
  by (rule same_signature_eq [OF assms])

theorem stub_signature_exact_witness:
  "wsu_local_stub_is_same_signature (demo_penv Failed JNull) demo_stub (snd (hd demo_objects)) = Some True"
  by (subst stub_signature_exact)
    (simp_all add: demo_px_defs policy_of_def json_string_def blobmsg_type_from_str_def)

text \<open>
  \<^bold>\<open>Events of the remote bus.\<close> An event that does not announce that an object came or went is sent to
  the local bus once, under its name behind the address of the other end, with its data if
  that is an object; the connections and the stubs stay as they are.
\<close>

theorem remote_event_replayed:
  assumes "px_env_ok E" "type \<notin> {''ubus.object.add'', ''ubus.object.remove''}"
  shows "on_event E w type data px =
     Some (px\<lparr>px_out := px_out px @ [Bus_event (peer_prefix E w (proxied_name_size type) @ ''/'' @ type)
        (if is_object data then blobmsg_add_object (px_env E) data else [])]\<rparr>)"
proof -
  have "names_ok E" "px_alloc E A_event" using assms(1) by (auto simp: px_env_ok_def penv_ok_def)
  moreover have "''ubus.object.add'' \<noteq> type" "''ubus.object.remove'' \<noteq> type" using assms(2) by auto
  ultimately show ?thesis
    by (simp add: on_event_def wsu_local_proxied_event_create_def fill_eq Let_def)
qed

theorem remote_event_replayed_witness:
  "on_event (demo_penv Failed JNull) 5 ''wifi.up'' JNull demo_proxied =
     Some (demo_proxied\<lparr>px_out := px_out demo_proxied @ [Bus_event ''10.0.0.1/wifi.up'' []]\<rparr>)"
  by (subst remote_event_replayed [OF demo_penv_ok])
    (simp_all add: peer_prefix_def demo_penv_def strncmp_eq_0)

end
