(* ===== verification/Http_Serve.thy ===== *)
theory Http_Serve
  imports Owsd_Prelude
begin

text \<open>
  The file server, \<open>ws_http_serve.c\<close>: the path of the file for a request, its media type and
  encoding, the check of the cache headers, and the answer. The file system, the time functions and
  libwebsockets are parameters, the record \<open>http_env\<close>; what the code asks of libwebsockets is
  recorded in order, so that an answer is a list of \<open>lws_op\<close>s.
\<close>

section \<open>Environment and state\<close>

datatype http_token = WSI_TOKEN_HTTP_CACHE_CONTROL | WSI_TOKEN_HTTP_IF_MODIFIED_SINCE
  | WSI_TOKEN_HTTP_CONTENT_ENCODING | WSI_TOKEN_HTTP_LAST_MODIFIED

datatype header_line = Status_line int | Header_line http_token string | Location_line int string
  | Last_line | Cut_line string

datatype lws_op =
    Add_status int
  | Add_header http_token string
  | Redirect int string
  | Finalize
  | Write_headers "header_line list"
  | Return_status int
  | Serve_file string string "header_line list"
  | Transaction_completed

text \<open>The lines that a call of the library adds to the header buffer when it succeeds.\<close>

fun lines_of :: "lws_op \<Rightarrow> header_line list" where
  "lines_of (Add_status n) = [Status_line n]"
| "lines_of (Add_header t v) = [Header_line t v]"
| "lines_of (Redirect n l) = [Location_line n l]"
| "lines_of Finalize = [Last_line]"
| "lines_of _ = []"

datatype http_alloc = A_pathname | A_pathname_again | A_real_filepath

text \<open>
  \<open>hx_stat\<close> is the return value of \<open>stat\<close> and the time of modification; \<open>hx_hdr_copy\<close> is what
  \<open>lws_hdr_copy\<close> writes to the buffer, \<^term>\<open>None\<close> when it does not; \<open>hx_strptime\<close> the offset of the
  pointer \<open>strptime\<close> returns and the time \<open>mktime\<close> makes of what it read; \<open>hx_cut\<close> what a failing
  call leaves in the header buffer.
\<close>

record http_env =
  hx_alloc :: "http_alloc \<Rightarrow> bool"
  hx_access :: "string \<Rightarrow> bool"
  hx_stat :: "string \<Rightarrow> int \<times> int"
  hx_hdr_copy :: "http_token \<Rightarrow> string option"
  hx_strptime :: "string \<Rightarrow> (nat \<times> int) option"
  hx_strftime :: "int \<Rightarrow> string"
  hx_rc :: "lws_op \<Rightarrow> int"
  hx_cut :: "lws_op \<Rightarrow> header_line list"

record http_prog =
  www_path :: string
  redir_from :: "string option"
  redir_to :: "string option"

record http_state =
  headers :: "header_line list"
  asked :: "lws_op list"

definition lws_call :: "http_env \<Rightarrow> lws_op \<Rightarrow> http_state \<Rightarrow> int \<times> http_state" where
  "lws_call E c st =
     (let rc = hx_rc E c in
      (rc, st\<lparr>headers := headers st @ (if rc = 0 then lines_of c else hx_cut E c), asked := asked st @ [c]\<rparr>))"

section \<open>Return codes\<close>

definition ws_http_serve_interpret_retcode :: "http_env \<Rightarrow> int \<Rightarrow> http_state \<Rightarrow> int \<times> http_state" where
  "ws_http_serve_interpret_retcode E ret st =
     (if ret < 0 then (-1, st)
      else if ret > 0 then
        let (completed, st) = lws_call E Transaction_completed st in
        (if completed \<noteq> 0 then -1 else 0, st)
      else (0, st))"

section \<open>Paths\<close>

definition PATH_MAX :: nat where "PATH_MAX = 4096"

text \<open>
  \<open>snprintf\<close> returns the length of the whole text, or a negative value when an \<open>int\<close> does not hold it.
\<close>

definition snprintf_length :: "string \<Rightarrow> int" where
  "snprintf_length s = (if length s > 2147483647 then -1 else int (length s))"

definition request_pathname :: "string \<Rightarrow> string \<Rightarrow> string" where
  "request_pathname base inp =
     base @ ''/'' @ inp @ (if last inp = CHR ''/'' then ''index.html'' else [])"

text \<open>
  The outer \<^term>\<open>None\<close> is the run that goes wrong: without memory for the first buffer \<open>snprintf\<close>
  writes through a null pointer, and for the empty request the byte before the string is read. The
  inner one is the null pointer the function returns.
\<close>

definition ws_http_construct_pathname :: "http_env \<Rightarrow> string \<Rightarrow> string \<Rightarrow> string option option" where
  "ws_http_construct_pathname E base inp =
     (if \<not> hx_alloc E A_pathname \<or> inp = [] then None
      else
        let filepath = request_pathname base inp; written = snprintf_length filepath in
        if written < 0 then Some None
        else if written \<ge> int PATH_MAX then
          if hx_alloc E A_pathname_again then Some (Some (take (PATH_MAX - 1) filepath)) else Some None
        else Some (Some filepath))"

section \<open>Extensions\<close>

text \<open>\<open>filepath_strnrchr\<close>: the last of the first \<open>n\<close> bytes that is \<open>c\<close>, as an index.\<close>

fun filepath_strnrchr :: "string \<Rightarrow> nat \<Rightarrow> char \<Rightarrow> nat option" where
  "filepath_strnrchr filepath 0 c = None"
| "filepath_strnrchr filepath (Suc last_dot) c =
     (if filepath ! last_dot \<noteq> c then filepath_strnrchr filepath last_dot c else Some last_dot)"

definition tolower :: "char \<Rightarrow> char" where
  "tolower c = (if 65 \<le> byte_of c \<and> byte_of c \<le> 90 then char_of (byte_of c + 32) else c)"

definition strncasecmp :: "string \<Rightarrow> string \<Rightarrow> nat \<Rightarrow> int" where
  "strncasecmp a b n = strncmp (map tolower a) (map tolower b) n"

type_synonym fileext_map = "(string \<times> string) list"

fun mapping_by_extension :: "string \<Rightarrow> nat \<Rightarrow> fileext_map \<Rightarrow> string option" where
  "mapping_by_extension ext n [] = None"
| "mapping_by_extension ext n (m # ms) =
     (if strncasecmp ext (fst m) n = 0 then Some (snd m) else mapping_by_extension ext n ms)"

definition mime_map :: fileext_map where
  "mime_map =
     [(''html'', ''text/html''),
      (''js'', ''application/javascript''),
      (''png'', ''image/png''),
      (''gif'', ''image/gif''),
      (''jpg'', ''image/jpeg''),
      (''jpeg'', ''image/jpeg''),
      (''css'', ''text/css''),
      (''txt'', ''text/plain''),
      (''htm'', ''text/html''),
      (''bin'', ''application/octet-stream''),
      (''img'', ''application/octet-stream'')]"

definition determine_mimetype :: "string \<Rightarrow> nat \<Rightarrow> string option" where
  "determine_mimetype filepath n =
     (case filepath_strnrchr filepath n (CHR ''.'') of
        Some last_dot \<Rightarrow> mapping_by_extension (drop (last_dot + 1) filepath) (n - last_dot - 1) mime_map
      | None \<Rightarrow> None)"

section \<open>Data of a file\<close>

record file_meta =
  fm_status :: int
  fm_mtime :: int
  real_filepath :: string
  mime :: string
  enc :: "string option"

definition enc_map :: fileext_map where
  "enc_map = [(''br'', ''brotli''), (''gz'', ''gzip''), (''zz'', ''deflate'')]"

text \<open>The loop of \<open>determine_file_meta\<close>; after a failure the path is cut to its first \<open>n\<close> bytes again.\<close>

fun enc_loop :: "http_env \<Rightarrow> nat \<Rightarrow> fileext_map \<Rightarrow> string \<Rightarrow> string \<times> string option" where
  "enc_loop E n [] path = (path, None)"
| "enc_loop E n (m # ms) path =
     (let path = path @ ''.'' @ fst m in
      if hx_access E path then (path, Some (snd m))
      else enc_loop E n ms (take n path))"

definition determine_file_meta :: "http_env \<Rightarrow> string \<Rightarrow> nat \<Rightarrow> file_meta option" where
  "determine_file_meta E filepath n =
     (if \<not> hx_alloc E A_real_filepath then None
      else
        let m = determine_mimetype filepath n;
            (path, enc) = enc_loop E n enc_map filepath;
            (status, mtime) = hx_stat E path in
        Some \<lparr>fm_status = status, fm_mtime = mtime, real_filepath = path,
          mime = (case m of Some v \<Rightarrow> v | None \<Rightarrow> ''application/octet-stream''), enc = enc\<rparr>)"

section \<open>Cache headers\<close>

definition strtok_r :: "string \<Rightarrow> string \<Rightarrow> (string \<times> string) option" where
  "strtok_r s delim =
     (let s = dropWhile (\<lambda>c. c \<in> set delim) s in
      if s = [] then None
      else Some (takeWhile (\<lambda>c. c \<notin> set delim) s, drop 1 (dropWhile (\<lambda>c. c \<notin> set delim) s)))"

lemma strtok_r_shorter: "strtok_r s delim = Some (t, r) \<Longrightarrow> length r < length s"
proof -
  let ?s = "dropWhile (\<lambda>c. c \<in> set delim) s"
  assume "strtok_r s delim = Some (t, r)"
  then have "r = drop 1 (dropWhile (\<lambda>c. c \<notin> set delim) ?s)" "?s \<noteq> []"
    by (auto simp: strtok_r_def Let_def split: if_splits)
  then have "length r \<le> length ?s - 1" "0 < length ?s"
    using length_dropWhile_le [of "\<lambda>c. c \<notin> set delim" ?s] by auto
  then show ?thesis
    using length_dropWhile_le [of "\<lambda>c. c \<in> set delim" s] by linarith
qed

text \<open>\<open>foreach_strtoken\<close>: the tokens the loop takes one by one.\<close>

function strtokens :: "string \<Rightarrow> string \<Rightarrow> string list" where
  "strtokens delim s =
     (case strtok_r s delim of
        None \<Rightarrow> []
      | Some (cur, rest) \<Rightarrow> cur # strtokens delim rest)"
  by pat_completeness auto

termination
  by (relation "measure (\<lambda>(delim, s). length s)") (auto dest: strtok_r_shorter)

declare strtokens.simps [simp del]

definition can_reply_notmodified :: "http_env \<Rightarrow> file_meta \<Rightarrow> bool" where
  "can_reply_notmodified E meta =
     (if fm_status meta \<noteq> 0 then False
      else
        let buf = (case hx_hdr_copy E WSI_TOKEN_HTTP_CACHE_CONTROL of Some v \<Rightarrow> v | None \<Rightarrow> []) in
        if list_ex (\<lambda>cur. strcmp cur ''no-cache'' = 0 \<or> strstr_at_start cur ''no-cache='') (strtokens '',; '' buf)
        then False
        else
          let buf = (case hx_hdr_copy E WSI_TOKEN_HTTP_IF_MODIFIED_SINCE of Some v \<Rightarrow> v | None \<Rightarrow> []) in
          (case hx_strptime E buf of
             None \<Rightarrow> False
           | Some (p, iftime) \<Rightarrow>
               if int p < int (length buf) - 4 then False else fm_mtime meta \<le> iftime))"

section \<open>Serving a file\<close>

definition add_last_modified_header :: "http_env \<Rightarrow> file_meta \<Rightarrow> http_state \<Rightarrow> http_state" where
  "add_last_modified_header E meta st =
     snd (lws_call E (Add_header WSI_TOKEN_HTTP_LAST_MODIFIED (hx_strftime E (fm_mtime meta))) st)"

text \<open>A call after which the code goes to \<open>out\<close> when it does not return 0.\<close>

definition or_out :: "int \<times> http_state \<Rightarrow> (http_state \<Rightarrow> int \<times> http_state) \<Rightarrow> int \<times> http_state" where
  "or_out r k = (let (rc, st) = r in if rc \<noteq> 0 then (rc, st) else k st)"

definition write_headers :: "http_env \<Rightarrow> http_state \<Rightarrow> int \<times> http_state" where
  "write_headers E st = lws_call E (Write_headers (headers st)) st"

definition add_encoding :: "http_env \<Rightarrow> file_meta \<Rightarrow> http_state \<Rightarrow> int \<times> http_state" where
  "add_encoding E meta st =
     (case enc meta of
        Some v \<Rightarrow> lws_call E (Add_header WSI_TOKEN_HTTP_CONTENT_ENCODING v) st
      | None \<Rightarrow> (0, st))"

definition ws_http_serve_file :: "http_env \<Rightarrow> http_prog \<Rightarrow> string \<Rightarrow> (int \<times> http_state) option" where
  "ws_http_serve_file E prog inp = do {
     filepath \<leftarrow> ws_http_construct_pathname E (www_path prog) inp;
     let st = \<lparr>headers = [], asked = []\<rparr>;
     (case filepath of
        None \<Rightarrow> Some (-1, st)
      | Some filepath \<Rightarrow> do {
          let n = length filepath;
          meta \<leftarrow> determine_file_meta E filepath n;
          (rc, st) \<leftarrow>
            (if (case redir_from prog of Some r \<Rightarrow> strcmp inp r = 0 | None \<Rightarrow> False) then
               map_option (\<lambda>l.
                 or_out (lws_call E (Redirect 303 l) st) (\<lambda>st.
                 or_out (lws_call E Finalize st) (\<lambda>st.
                 write_headers E st))) (redir_to prog)
             else if can_reply_notmodified E meta then
               Some (
                 or_out (lws_call E (Add_status 304) st) (\<lambda>st.
                 or_out (add_encoding E meta st) (\<lambda>st.
                 or_out (lws_call E Finalize st) (\<lambda>st.
                 write_headers E st))))
             else
               Some (
                 or_out (add_encoding E meta st) (\<lambda>st.
                 if fm_status meta \<noteq> 0 then
                   let (ret, st) = lws_call E (Return_status 404) st in (if ret = 0 then 1 else -1, st)
                 else
                   let st = add_last_modified_header E meta st in
                   lws_call E (Serve_file (real_filepath meta) (mime meta) (headers st)) st)));
          Some (ws_http_serve_interpret_retcode E rc st)
        })
   }"

end
