(* ===== verification/Http.thy ===== *)
theory Http
  imports Http_Serve
begin

unbundle bit_operations_syntax

text \<open>
  The default protocol, \<open>ws_http.c\<close>: it joins the file descriptors of libwebsockets to the event loop
  of libubox, and hands HTTP requests to the file server. The table \<open>prog->ufds\<close> is a list with an
  entry for every descriptor; uloop is a parameter, the record \<open>uloop_lib\<close> over a state of its own.
\<close>

section \<open>Event masks\<close>

definition POLLIN :: u16 where "POLLIN = 1"
definition POLLOUT :: u16 where "POLLOUT = 4"
definition POLLHUP :: u16 where "POLLHUP = 16"
definition LWS_POLLHUP :: u16 where "LWS_POLLHUP = 24"
definition ULOOP_READ :: u32 where "ULOOP_READ = 1"
definition ULOOP_WRITE :: u32 where "ULOOP_WRITE = 2"
definition ULOOP_ERROR_CB :: u32 where "ULOOP_ERROR_CB = 64"

lemmas event_flags = POLLIN_def POLLOUT_def POLLHUP_def LWS_POLLHUP_def
  ULOOP_READ_def ULOOP_WRITE_def ULOOP_ERROR_CB_def

definition eventmask_ufd_to_pollfd :: "u32 \<Rightarrow> u16" where
  "eventmask_ufd_to_pollfd ufd_events =
     (if ufd_events AND ULOOP_READ \<noteq> 0 then POLLIN else 0) OR
     (if ufd_events AND ULOOP_WRITE \<noteq> 0 then POLLOUT else 0)"

definition eventmask_pollfd_to_ufd :: "u32 \<Rightarrow> u32" where
  "eventmask_pollfd_to_ufd pollfd_events =
     (if pollfd_events AND ucast POLLIN \<noteq> 0 then ULOOP_READ else 0) OR
     (if pollfd_events AND ucast POLLOUT \<noteq> 0 then ULOOP_WRITE else 0) OR
     ULOOP_ERROR_CB"

section \<open>State\<close>

text \<open>\<open>uf_cb\<close> says whether the callback of the entry is \<open>ufd_service_cb\<close>.\<close>

record uloop_fd =
  uf_fd :: int
  uf_cb :: bool
  uf_flags :: u32
  uf_eof :: bool
  uf_error :: bool

record 'u uloop_lib =
  uloop_fd_add :: "uloop_fd \<Rightarrow> u32 \<Rightarrow> 'u \<Rightarrow> int \<times> uloop_fd \<times> 'u"
  uloop_fd_delete :: "uloop_fd \<Rightarrow> 'u \<Rightarrow> 'u"
  calloc_ufd :: "'u \<Rightarrow> bool"

record 'u poll_state =
  ufds :: "uloop_fd option list"
  uloop :: 'u

text \<open>The first assertion of the three cases: the descriptor is one of the table.\<close>

definition fd_in_table :: "int \<Rightarrow> 'u poll_state \<Rightarrow> bool" where
  "fd_in_table fd s \<longleftrightarrow> fd \<ge> 0 \<and> fd > 0 \<and> fd < int (length (ufds s))"

section \<open>Callbacks\<close>

record pollfd =
  pfd_fd :: int
  pfd_events :: u16
  pfd_revents :: u16

text \<open>
  \<open>ufd_service_cb\<close>: the event handed to libwebsockets, and how often the library is serviced again;
  \<open>busy i\<close> says that the \<open>i\<close>-th call of \<open>lws_service_adjust_timeout\<close> returns 0.
\<close>

definition service_pollfd :: "uloop_fd \<Rightarrow> u32 \<Rightarrow> pollfd" where
  "service_pollfd ufd revents =
     (let events = eventmask_ufd_to_pollfd (uf_flags ufd);
          rev = eventmask_ufd_to_pollfd revents;
          rev = (if uf_eof ufd then rev OR POLLHUP else rev);
          rev = (if uf_error ufd then rev OR LWS_POLLHUP else rev) in
      \<lparr>pfd_fd = uf_fd ufd, pfd_events = events, pfd_revents = rev\<rparr>)"

fun service_again :: "nat \<Rightarrow> (nat \<Rightarrow> bool) \<Rightarrow> nat \<Rightarrow> nat" where
  "service_again 0 busy i = 0"
| "service_again (Suc count) busy i = (if busy i then Suc (service_again count busy (Suc i)) else 0)"

definition ufd_service_cb :: "(nat \<Rightarrow> bool) \<Rightarrow> uloop_fd \<Rightarrow> u32 \<Rightarrow> pollfd \<times> nat" where
  "ufd_service_cb busy ufd revents = (service_pollfd ufd revents, service_again 30 busy 0)"

datatype http_reason =
    LWS_CALLBACK_ADD_POLL_FD int u32
  | LWS_CALLBACK_DEL_POLL_FD int
  | LWS_CALLBACK_CHANGE_MODE_POLL_FD int u32
  | LWS_CALLBACK_FILTER_PROTOCOL_CONNECTION
  | LWS_CALLBACK_OPENSSL_PERFORM_CLIENT_CERT_VERIFICATION
  | LWS_CALLBACK_OPENSSL_LOAD_EXTRA_SERVER_VERIFY_CERTS
  | LWS_CALLBACK_HTTP string
  | LWS_CALLBACK_FILTER_HTTP_CONNECTION
  | LWS_CALLBACK_HTTP_BODY
  | LWS_CALLBACK_CLOSED_HTTP
  | LWS_CALLBACK_HTTP_BODY_COMPLETION
  | LWS_CALLBACK_HTTP_FILE_COMPLETION
  | LWS_CALLBACK_RECEIVE_PONG
  | Other_reason

definition add_poll_fd :: "'u uloop_lib \<Rightarrow> int \<Rightarrow> u32 \<Rightarrow> 'u poll_state \<Rightarrow> (int \<times> 'u poll_state) option" where
  "add_poll_fd U fd events s =
     (if \<not> fd_in_table fd s then None
      else if ufds s ! nat fd \<noteq> None then None
      else if \<not> calloc_ufd U (uloop s) then Some (1, s)
      else
        let ufd = \<lparr>uf_fd = fd, uf_cb = True, uf_flags = 0, uf_eof = False, uf_error = False\<rparr>;
            (rc, ufd, u) = uloop_fd_add U ufd (eventmask_pollfd_to_ufd events) (uloop s) in
        if rc \<noteq> 0 then Some (1, s\<lparr>uloop := u\<rparr>)
        else Some (0, s\<lparr>ufds := (ufds s)[nat fd := Some ufd], uloop := u\<rparr>))"

definition del_poll_fd :: "'u uloop_lib \<Rightarrow> int \<Rightarrow> 'u poll_state \<Rightarrow> (int \<times> 'u poll_state) option" where
  "del_poll_fd U fd s =
     (if \<not> fd_in_table fd s then None
      else
        (case ufds s ! nat fd of
           None \<Rightarrow> Some (0, s)
         | Some ufd \<Rightarrow>
             Some (0, s\<lparr>ufds := (ufds s)[nat fd := None], uloop := uloop_fd_delete U ufd (uloop s)\<rparr>)))"

definition change_mode_poll_fd ::
    "'u uloop_lib \<Rightarrow> int \<Rightarrow> u32 \<Rightarrow> 'u poll_state \<Rightarrow> (int \<times> 'u poll_state) option" where
  "change_mode_poll_fd U fd events s =
     (if \<not> fd_in_table fd s then None
      else
        (case ufds s ! nat fd of
           None \<Rightarrow> None
         | Some ufd \<Rightarrow>
             if uf_fd ufd \<noteq> fd \<or> \<not> uf_cb ufd then None
             else if eventmask_pollfd_to_ufd events \<noteq> uf_flags ufd then
               let (rc, ufd, u) = uloop_fd_add U ufd (eventmask_pollfd_to_ufd events) (uloop s) in
               Some (if rc \<noteq> 0 then 1 else 0, s\<lparr>ufds := (ufds s)[nat fd := Some ufd], uloop := u\<rparr>)
             else Some (0, s)))"

text \<open>The requests to libwebsockets that a callback makes are the last component of the result.\<close>

definition ws_http_cb ::
    "'u uloop_lib \<Rightarrow> http_env \<Rightarrow> http_prog \<Rightarrow> http_reason \<Rightarrow> 'u poll_state \<Rightarrow>
     (int \<times> 'u poll_state \<times> lws_op list) option" where
  "ws_http_cb U E prog reason s =
     (case reason of
        LWS_CALLBACK_ADD_POLL_FD fd events \<Rightarrow> map_option (\<lambda>(r, s). (r, s, [])) (add_poll_fd U fd events s)
      | LWS_CALLBACK_DEL_POLL_FD fd \<Rightarrow> map_option (\<lambda>(r, s). (r, s, [])) (del_poll_fd U fd s)
      | LWS_CALLBACK_CHANGE_MODE_POLL_FD fd events \<Rightarrow>
          map_option (\<lambda>(r, s). (r, s, [])) (change_mode_poll_fd U fd events s)
      | LWS_CALLBACK_FILTER_PROTOCOL_CONNECTION \<Rightarrow> Some (1, s, [])
      | LWS_CALLBACK_HTTP inp \<Rightarrow> map_option (\<lambda>(r, st). (r, s, asked st)) (ws_http_serve_file E prog inp)
      | LWS_CALLBACK_HTTP_BODY_COMPLETION \<Rightarrow>
          Some (if hx_rc E Transaction_completed \<noteq> 0 then -1 else 0, s, [Transaction_completed])
      | LWS_CALLBACK_HTTP_FILE_COMPLETION \<Rightarrow>
          Some (if hx_rc E Transaction_completed \<noteq> 0 then -1 else 0, s, [Transaction_completed])
      | _ \<Rightarrow> Some (0, s, []))"

end
