(* ===== verification/Http_Lemmas.thy ===== *)
theory Http_Lemmas
  imports Http
begin

text \<open>
  Facts on the pieces of the file server: the tokens \<open>strtok_r\<close> finds, the extension of a path, the
  file that is looked up, the answer on each branch; and the table of descriptors.
\<close>

section \<open>Tokens\<close>

lemma tokens_none: "strtokens d [] = []"
  by (simp add: strtokens.simps strtok_r_def)

lemma tokens_skip: "c \<in> set d \<Longrightarrow> strtokens d (c # s) = strtokens d s"
  by (simp add: strtokens.simps [of d "c # s"] strtokens.simps [of d s] strtok_r_def)

lemma tokens_word:
  assumes "t \<noteq> []" "set t \<inter> set d = {}"
  shows "strtokens d t = [t]" and "c \<in> set d \<Longrightarrow> strtokens d (t @ c # s) = t # strtokens d s"
proof -
  obtain a as where t: "t = a # as" "a \<notin> set d" using assms by (cases t) auto
  have w: "takeWhile (\<lambda>c. c \<notin> set d) t = t" "dropWhile (\<lambda>c. c \<notin> set d) t = []"
    using assms(2) by (auto simp: takeWhile_eq_all_conv)
  have "\<And>c. c \<in> set t \<Longrightarrow> c \<notin> set d" using assms(2) by blast
  then have v: "takeWhile (\<lambda>c. c \<notin> set d) (t @ c # s) = t" "dropWhile (\<lambda>c. c \<notin> set d) (t @ c # s) = c # s"
    if "c \<in> set d" using that by (simp_all add: takeWhile_append2 dropWhile_append2)
  show "strtokens d t = [t]"
  proof -
    have "dropWhile (\<lambda>c. c \<in> set d) t = t" using t by simp
    then show ?thesis using assms(1) by (simp add: strtokens.simps [of d t] tokens_none strtok_r_def w)
  qed
  show "strtokens d (t @ c # s) = t # strtokens d s" if "c \<in> set d"
  proof -
    have "strtok_r (t @ c # s) d = Some (t, s)" using v [OF that] t by (simp add: strtok_r_def)
    then show ?thesis by (simp add: strtokens.simps [of d "t @ c # s"])
  qed
qed

lemma tokens_append: "c \<in> set d \<Longrightarrow> strtokens d (a @ c # b) = strtokens d a @ strtokens d b"
proof (induction "length a" arbitrary: a rule: less_induct)
  case less
  let ?t = "takeWhile (\<lambda>c. c \<notin> set d) a"
  have t: "set ?t \<inter> set d = {}" by (auto dest: set_takeWhileD)
  show ?case
  proof (cases "dropWhile (\<lambda>c. c \<notin> set d) a")
    case Nil
    then have "?t = a" by (metis append_Nil2 takeWhile_dropWhile_id)
    with t have "set a \<inter> set d = {}" by metis
    then show ?thesis
      using tokens_word [of a d] less.prems by (cases "a = []") (simp_all add: tokens_none tokens_skip)
  next
    case (Cons e r)
    then have a: "a = ?t @ e # r" by (metis takeWhile_dropWhile_id)
    have e: "e \<in> set d" using Cons hd_dropWhile [of "\<lambda>c. c \<notin> set d" a] by auto
    have r: "strtokens d (r @ c # b) = strtokens d r @ strtokens d b"
    proof (rule less.hyps [OF _ less.prems])
      show "length r < length a" by (subst a) simp
    qed
    show ?thesis
    proof (cases "?t = []")
      case True
      then have "a = e # r" using a by simp
      then show ?thesis using r by (simp add: tokens_skip [OF e])
    next
      case False
      have "strtokens d (a @ c # b) = strtokens d (?t @ e # r @ c # b)"
        by (subst a) simp
      also have "\<dots> = ?t # strtokens d r @ strtokens d b"
        unfolding tokens_word(2) [OF False t e] r ..
      finally have "strtokens d (a @ c # b) = (?t # strtokens d r) @ strtokens d b" by simp
      moreover have "strtokens d a = ?t # strtokens d r"
        by (subst a) (rule tokens_word(2) [OF False t e])
      ultimately show ?thesis by simp
    qed
  qed
qed

text \<open>The tokens are the maximal pieces without a delimiter.\<close>

lemma tokens_exact:
  "t \<in> set (strtokens d s) \<longleftrightarrow> t \<noteq> [] \<and> set t \<inter> set d = {} \<and>
     (\<exists>u v. s = u @ t @ v \<and> (u = [] \<or> last u \<in> set d) \<and> (v = [] \<or> hd v \<in> set d))"
  (is "?l = ?r")
proof
  assume ?r
  then obtain u v where t: "t \<noteq> []" "set t \<inter> set d = {}" and s: "s = u @ t @ v"
    and u: "u = [] \<or> last u \<in> set d" and v: "v = [] \<or> hd v \<in> set d" by blast
  have tv: "t \<in> set (strtokens d (t @ v))"
    using v tokens_word [OF t] by (cases v) auto
  show ?l
  proof (cases u rule: rev_cases)
    case Nil
    then show ?thesis using tv s by simp
  next
    case (snoc w c)
    then have "strtokens d s = strtokens d w @ strtokens d (t @ v)"
      using tokens_append [of c d w "t @ v"] u s by simp
    then show ?thesis using tv by simp
  qed
next
  assume ?l
  then show ?r
  proof (induction "length s" arbitrary: s rule: less_induct)
    case less
    obtain a r where ar: "strtok_r s d = Some (a, r)"
      using less.prems by (cases "strtok_r s d") (auto simp: strtokens.simps [of d s])
    define e where "e = takeWhile (\<lambda>c. c \<in> set d) s"
    define w where "w = dropWhile (\<lambda>c. c \<in> set d) s"
    define x where "x = dropWhile (\<lambda>c. c \<notin> set d) w"
    have s: "s = e @ w" and w: "w = a @ x" "w \<noteq> []" "a = takeWhile (\<lambda>c. c \<notin> set d) w" and rx: "r = drop 1 x"
      using ar by (auto simp: strtok_r_def e_def w_def x_def Let_def split: if_splits)
    have e: "e = [] \<or> last e \<in> set d"
      using set_takeWhileD [of "last e" "\<lambda>c. c \<in> set d" s] last_in_set by (auto simp: e_def)
    have x: "x = [] \<or> hd x \<in> set d" using hd_dropWhile [of "\<lambda>c. c \<notin> set d" w] by (auto simp: x_def)
    have a: "a \<noteq> []" "set a \<inter> set d = {}"
      using w(2,3) hd_dropWhile [of "\<lambda>c. c \<in> set d" s]
      by (cases w; auto simp: w_def dest: set_takeWhileD)+
    consider "t = a" | "t \<in> set (strtokens d r)"
      using less.prems ar by (auto simp: strtokens.simps [of d s])
    then show ?case
    proof cases
      case 1
      then show ?thesis using a e x s w(1) by blast
    next
      case 2
      with less.hyps [OF strtok_r_shorter [OF ar] 2] obtain u v where t: "t \<noteq> []" "set t \<inter> set d = {}"
        and r: "r = u @ t @ v" and u: "u = [] \<or> last u \<in> set d" and v: "v = [] \<or> hd v \<in> set d" by blast
      then have "x = hd x # r" "x \<noteq> []" using rx by (cases x; auto)+
      then have "s = (e @ a @ hd x # u) @ t @ v" "last (e @ a @ hd x # u) \<in> set d"
        using s w(1) r u x by auto
      then show ?thesis using t v by blast
    qed
  qed
qed

section \<open>Segments of a path\<close>

abbreviation segments :: "string \<Rightarrow> string list" where
  "segments \<equiv> strtokens ''/''"

lemma segments_suffix:
  assumes "CHR ''/'' \<notin> set x" "x \<noteq> []" "last x \<noteq> CHR ''.''" "''..'' \<notin> set (segments p)"
  shows "''..'' \<notin> set (segments (p @ x))"
proof (cases "CHR ''/'' \<in> set p")
  case True
  then obtain a b where p: "p = a @ CHR ''/'' # b" "CHR ''/'' \<notin> set b"
    by (meson split_list_last)
  have "segments (p @ x) = segments a @ [b @ x]"
    using p assms(1,2) tokens_word(1) [of "b @ x" "''/''"] tokens_append [of "CHR ''/''" "''/''" a "b @ x"] by auto
  moreover have "segments p = segments a @ segments b"
    using p tokens_append [of "CHR ''/''" "''/''" a b] by simp
  moreover have "b @ x \<noteq> ''..''" using assms(2,3) by (cases x rule: rev_cases) (auto simp: append_eq_Cons_conv)
  ultimately show ?thesis using assms(4) by auto
next
  case False
  then have "segments (p @ x) = [p @ x]"
    using assms(1,2) tokens_word(1) [of "p @ x" "''/''"] by auto
  moreover have "p @ x \<noteq> ''..''" using assms(2,3) by (cases x rule: rev_cases) (auto simp: append_eq_Cons_conv)
  ultimately show ?thesis by simp
qed

lemma request_segments:
  assumes "''..'' \<notin> set (segments inp)"
  shows "''..'' \<notin> set (segments (drop (length base) (request_pathname base inp)))"
proof -
  have "drop (length base) (request_pathname base inp) =
      CHR ''/'' # inp @ (if last inp = CHR ''/'' then ''index.html'' else [])"
    by (simp add: request_pathname_def)
  then show ?thesis
    using assms segments_suffix [of "''index.html''" inp] by (simp add: tokens_skip)
qed

section \<open>Extensions\<close>

lemma strnrchr_exact:
  "filepath_strnrchr s n c = Some k \<longleftrightarrow> k < n \<and> s ! k = c \<and> (\<forall>j. k < j \<and> j < n \<longrightarrow> s ! j \<noteq> c)"
proof (induction n)
  case (Suc n)
  show ?case
    by (simp add: Suc) (metis less_Suc_eq not_less_eq)
qed simp

lemma strnrchr_none: "filepath_strnrchr s n c = None \<longleftrightarrow> (\<forall>j<n. s ! j \<noteq> c)"
  by (induction n) (auto simp: less_Suc_eq)

definition extension :: "string \<Rightarrow> string" where
  "extension path = rev (takeWhile (\<lambda>c. c \<noteq> CHR ''.'') (rev path))"

lemma mapping_find:
  "mapping_by_extension ext (length ext) ms =
     map_option snd (List.find (\<lambda>m. map tolower ext = take (length ext) (map tolower (fst m))) ms)"
  by (induction ms) (auto simp: strncasecmp_def strncmp_eq_0 )

lemma split_at_last_dot:
  assumes "CHR ''.'' \<in> set path"
  obtains a where "path = a @ CHR ''.'' # extension path" "CHR ''.'' \<notin> set (extension path)"
proof -
  from assms obtain a b where ab: "path = a @ CHR ''.'' # b" "CHR ''.'' \<notin> set b"
    by (meson split_list_last)
  then have "takeWhile (\<lambda>c. c \<noteq> CHR ''.'') (rev b @ CHR ''.'' # rev a) = rev b"
    by (subst takeWhile_append2) auto
  then have "extension path = b"
    by (simp add: extension_def ab(1))
  with ab show thesis by (intro that [of a]) simp_all
qed

lemma mimetype_find:
  "determine_mimetype path (length path) =
     (if CHR ''.'' \<in> set path
      then map_option snd (List.find (\<lambda>m. map tolower (extension path) =
             take (length (extension path)) (map tolower (fst m))) mime_map)
      else None)"
proof (cases "CHR ''.'' \<in> set path")
  case True
  then obtain a where a: "path = a @ CHR ''.'' # extension path" and e: "CHR ''.'' \<notin> set (extension path)"
    by (rule split_at_last_dot)
  have l: "length path = length a + 1 + length (extension path)"
    using arg_cong [OF a, of length] by simp
  have "filepath_strnrchr path (length path) (CHR ''.'') = Some (length a)"
    unfolding strnrchr_exact
  proof (intro conjI allI impI)
    show "length a < length path" using l by simp
    show "path ! length a = CHR ''.''" by (subst a) simp
    fix j assume j: "length a < j \<and> j < length path"
    then have "path ! j = extension path ! (j - length a - 1)"
      by (subst a) (simp add: nth_append nth_Cons')
    moreover have "j - length a - 1 < length (extension path)" using j l by linarith
    ultimately show "path ! j \<noteq> CHR ''.''" using e nth_mem by metis
  qed
  moreover have "drop (length a + 1) path = extension path" by (subst a) simp
  moreover have "length path - length a - 1 = length (extension path)" using l by simp
  ultimately show ?thesis
    using True by (simp add: determine_mimetype_def mapping_find)
next
  case False
  then have "filepath_strnrchr path (length path) (CHR ''.'') = None"
    by (metis nth_mem strnrchr_none)
  then show ?thesis using False by (simp add: determine_mimetype_def)
qed

section \<open>The file of a request\<close>

text \<open>
  The file that is looked up: the first of the compressed files that can be read, otherwise the
  file itself; with its encoding.
\<close>

definition chosen_file :: "http_env \<Rightarrow> string \<Rightarrow> string \<times> string option" where
  "chosen_file E path =
     (case List.find (\<lambda>m. hx_access E (path @ ''.'' @ fst m)) enc_map of
        None \<Rightarrow> (path, None)
      | Some m \<Rightarrow> (path @ ''.'' @ fst m, Some (snd m)))"

lemma enc_loop_find:
  "enc_loop E (length path) ms path =
     (case List.find (\<lambda>m. hx_access E (path @ ''.'' @ fst m)) ms of
        None \<Rightarrow> (path, None)
      | Some m \<Rightarrow> (path @ ''.'' @ fst m, Some (snd m)))"
  by (induction ms) (auto simp: Let_def)

lemma meta_chosen:
  assumes "determine_file_meta E path (length path) = Some meta"
  shows "(real_filepath meta, enc meta) = chosen_file E path"
    "fm_status meta = fst (hx_stat E (fst (chosen_file E path)))"
    "fm_mtime meta = snd (hx_stat E (fst (chosen_file E path)))"
    "mime meta = (case determine_mimetype path (length path) of Some v \<Rightarrow> v | None \<Rightarrow> ''application/octet-stream'')"
  using assms
  by (auto simp: determine_file_meta_def enc_loop_find chosen_file_def Let_def
      split: option.splits prod.splits if_splits)

lemma chosen_cases:
  obtains "chosen_file E path = (path, None)"
  | e v where "(e, v) \<in> set enc_map" "chosen_file E path = (path @ ''.'' @ e, Some v)"
      "hx_access E (path @ ''.'' @ e)"
proof (cases "List.find (\<lambda>m. hx_access E (path @ ''.'' @ fst m)) enc_map")
  case None
  then show thesis by (intro that(1)) (simp add: chosen_file_def)
next
  case (Some m)
  then have "m \<in> set enc_map" "hx_access E (path @ ''.'' @ fst m)"
    by (auto simp: find_Some_iff)
  with Some show thesis
    by (intro that(2) [of "fst m" "snd m"]) (simp_all add: chosen_file_def)
qed

lemma chosen_segments:
  assumes "''..'' \<notin> set (segments (drop n path))" "n \<le> length path"
  shows "''..'' \<notin> set (segments (drop n (fst (chosen_file E path))))"
proof (cases rule: chosen_cases [of E path])
  case 1
  then show ?thesis using assms by simp
next
  case (2 e v)
  then have "e \<noteq> [] \<and> CHR ''/'' \<notin> set e \<and> last e \<noteq> CHR ''.''" by (auto simp: enc_map_def)
  then show ?thesis
    using 2(2) assms segments_suffix [of "CHR ''.'' # e" "drop n path"] by simp
qed

text \<open>The buffer of \<open>n + 4\<close> bytes that holds the path takes every path the loop builds.\<close>

lemma real_filepath_fits: "length (fst (chosen_file E path)) + 1 \<le> length path + 4"
  by (cases rule: chosen_cases [of E path]) (auto simp: enc_map_def)

section \<open>The answer\<close>

lemma lws_call_sel [simp]:
  "fst (lws_call E c st) = hx_rc E c" "asked (snd (lws_call E c st)) = asked st @ [c]"
  by (simp_all add: lws_call_def Let_def)

lemma interpret_asked [simp]:
  "asked (snd (ws_http_serve_interpret_retcode E rc st)) = asked st @ (if rc > 0 then [Transaction_completed] else [])"
  by (auto simp: ws_http_serve_interpret_retcode_def lws_call_def Let_def)

text \<open>What \<open>ws_http_serve_file\<close> asks of libwebsockets, for a request that is not redirected.\<close>

definition file_answer :: "http_env \<Rightarrow> file_meta \<Rightarrow> int \<times> http_state" where
  "file_answer E meta =
     (let st = \<lparr>headers = [], asked = []\<rparr> in
      if can_reply_notmodified E meta then
        or_out (lws_call E (Add_status 304) st) (\<lambda>st.
        or_out (add_encoding E meta st) (\<lambda>st.
        or_out (lws_call E Finalize st) (write_headers E)))
      else
        or_out (add_encoding E meta st) (\<lambda>st.
        if fm_status meta \<noteq> 0 then
          let (ret, st) = lws_call E (Return_status 404) st in (if ret = 0 then 1 else -1, st)
        else
          let st = add_last_modified_header E meta st in
          lws_call E (Serve_file (real_filepath meta) (mime meta) (headers st)) st))"

lemma serve_file_answer:
  assumes "ws_http_serve_file E prog inp = Some (rc, st)" "redir_from prog \<noteq> Some inp"
    and "length (request_pathname (www_path prog) inp) < PATH_MAX"
  obtains meta where
    "determine_file_meta E (request_pathname (www_path prog) inp)
       (length (request_pathname (www_path prog) inp)) = Some meta"
    "asked st = asked (snd (file_answer E meta)) @ (if fst (file_answer E meta) > 0 then [Transaction_completed] else [])"
proof -
  let ?p = "request_pathname (www_path prog) inp"
  have no: "(case redir_from prog of Some r \<Rightarrow> strcmp inp r = 0 | None \<Rightarrow> False) = False"
    using assms(2) by (auto split: option.splits)
  have "ws_http_construct_pathname E (www_path prog) inp = Some (Some ?p)"
    using assms(1,3)
    by (auto simp: ws_http_serve_file_def ws_http_construct_pathname_def snprintf_length_def PATH_MAX_def
        Let_def bind_conv split: if_splits)
  then obtain meta where meta: "determine_file_meta E ?p (length ?p) = Some meta"
    and st: "(rc, st) = ws_http_serve_interpret_retcode E (fst (file_answer E meta)) (snd (file_answer E meta))"
    using assms(1) no
    by (auto simp: ws_http_serve_file_def Let_def bind_conv file_answer_def write_headers_def [abs_def]
        case_prod_beta split: if_splits)
  have "st = snd (ws_http_serve_interpret_retcode E (fst (file_answer E meta)) (snd (file_answer E meta)))"
    by (simp add: st [symmetric])
  then show thesis using that [OF meta] by simp
qed

lemma or_out_cases:
  "or_out r k = (if fst r \<noteq> 0 then r else k (snd r))"
  by (simp add: or_out_def split: prod.splits)

lemma add_encoding_sel [simp]:
  "asked (snd (add_encoding E meta st)) =
     asked st @ (case enc meta of Some v \<Rightarrow> [Add_header WSI_TOKEN_HTTP_CONTENT_ENCODING v] | None \<Rightarrow> [])"
  "fst (add_encoding E meta st) = 0 \<Longrightarrow> headers (snd (add_encoding E meta st)) =
     headers st @ (case enc meta of Some v \<Rightarrow> [Header_line WSI_TOKEN_HTTP_CONTENT_ENCODING v] | None \<Rightarrow> [])"
  by (auto simp: add_encoding_def lws_call_def Let_def split: option.splits)

lemma add_last_modified_sel:
  "asked (add_last_modified_header E meta st) =
     asked st @ [Add_header WSI_TOKEN_HTTP_LAST_MODIFIED (hx_strftime E (fm_mtime meta))]"
  "set (headers st) \<subseteq> set (headers (add_last_modified_header E meta st))"
  by (auto simp: add_last_modified_header_def lws_call_def Let_def)

lemma file_answer_serves:
  assumes "Serve_file p m hs \<in> set (asked (snd (file_answer E meta)))"
  shows "fm_status meta = 0 \<and> p = real_filepath meta \<and>
    (\<forall>v. enc meta = Some v \<longrightarrow> Header_line WSI_TOKEN_HTTP_CONTENT_ENCODING v \<in> set hs)"
  using assms add_last_modified_sel(2) [of "snd (add_encoding E meta \<lparr>headers = [], asked = []\<rparr>)" E meta]
  by (auto simp: file_answer_def or_out_cases write_headers_def Let_def case_prod_beta add_last_modified_sel(1)
      split: if_splits option.splits)

lemma file_answer_304:
  "Add_status 304 \<in> set (asked (snd (file_answer E meta))) \<longleftrightarrow> can_reply_notmodified E meta"
  "can_reply_notmodified E meta \<Longrightarrow> Return_status 404 \<notin> set (asked (snd (file_answer E meta)))"
  "can_reply_notmodified E meta \<Longrightarrow> Serve_file p m hs \<notin> set (asked (snd (file_answer E meta)))"
  by (auto simp: file_answer_def or_out_cases write_headers_def Let_def case_prod_beta add_last_modified_sel(1)
      split: if_splits option.splits)

lemma redirected_asked:
  assumes "ws_http_serve_file E prog inp = Some (rc, st)" "redir_from prog = Some inp"
  shows "Serve_file p m hs \<notin> set (asked st)"
proof
  assume *: "Serve_file p m hs \<in> set (asked st)"
  have yes: "(case redir_from prog of Some r \<Rightarrow> strcmp inp r = 0 | None \<Rightarrow> False) = True"
    using assms(2) by simp
  let ?s0 = "\<lparr>headers = [], asked = []\<rparr>"
  let ?ans = "\<lambda>l. or_out (lws_call E (Redirect 303 l) ?s0) (\<lambda>st. or_out (lws_call E Finalize st) (write_headers E))"
  obtain x where x: "ws_http_construct_pathname E (www_path prog) inp = Some x"
    using assms(1) by (auto simp: ws_http_serve_file_def bind_conv)
  have "st = ?s0 \<or> (\<exists>l. redir_to prog = Some l \<and>
      st = snd (ws_http_serve_interpret_retcode E (fst (?ans l)) (snd (?ans l))))"
  proof (cases x)
    case None
    then show ?thesis using x assms(1) by (simp add: ws_http_serve_file_def)
  next
    case (Some q)
    obtain l where "redir_to prog = Some l" "(rc, st) = ws_http_serve_interpret_retcode E (fst (?ans l)) (snd (?ans l))"
      using x Some assms(1) yes by (auto simp: ws_http_serve_file_def Let_def bind_conv case_prod_beta write_headers_def [abs_def])
    then show ?thesis by (metis snd_conv)
  qed
  then show False using * by (auto simp: or_out_cases write_headers_def split: if_splits)
qed

lemma strstr_at_start_iff: "strstr_at_start s p \<longleftrightarrow> (\<exists>w. s = p @ w)"
  unfolding strstr_at_start_def by (metis append_eq_conv_conj)

lemma no_token_iff:
  assumes "\<And>t. P t \<Longrightarrow> t \<noteq> []"
  shows "(\<nexists>t. t \<in> set (strtokens d s) \<and> P t) \<longleftrightarrow>
    (\<nexists>u t v. s = u @ t @ v \<and> (u = [] \<or> last u \<in> set d) \<and> (v = [] \<or> hd v \<in> set d) \<and> set t \<inter> set d = {} \<and> P t)"
  unfolding tokens_exact using assms by blast

lemma notmodified_iff:
  "can_reply_notmodified E meta \<longleftrightarrow> fm_status meta = 0 \<and>
     (\<nexists>t. t \<in> set (strtokens '',; '' (case hx_hdr_copy E WSI_TOKEN_HTTP_CACHE_CONTROL of Some v \<Rightarrow> v | None \<Rightarrow> [])) \<and>
        (t = ''no-cache'' \<or> (\<exists>w. t = ''no-cache='' @ w))) \<and>
     (\<exists>k time. hx_strptime E (case hx_hdr_copy E WSI_TOKEN_HTTP_IF_MODIFIED_SINCE of Some v \<Rightarrow> v | None \<Rightarrow> []) = Some (k, time) \<and>
        length (case hx_hdr_copy E WSI_TOKEN_HTTP_IF_MODIFIED_SINCE of Some v \<Rightarrow> v | None \<Rightarrow> []) \<le> k + 4 \<and> fm_mtime meta \<le> time)"
  (is "_ \<longleftrightarrow> _ \<and> ?c \<and> (\<exists>k time. hx_strptime E ?b = _ \<and> _)")
proof -
  have "list_ex (\<lambda>cur. strcmp cur ''no-cache'' = 0 \<or> strstr_at_start cur ''no-cache='')
      (strtokens '',; '' (case hx_hdr_copy E WSI_TOKEN_HTTP_CACHE_CONTROL of Some v \<Rightarrow> v | None \<Rightarrow> [])) \<longleftrightarrow> \<not> ?c"
    unfolding list_ex_iff strstr_at_start_iff strcmp_eq_0 by blast
  then show ?thesis
    unfolding can_reply_notmodified_def Let_def by (cases "hx_strptime E ?b") auto
qed

end
