(* ===== verification/Http_Poll.thy ===== *)
theory Http_Poll
  imports Http_Lemmas
begin

unbundle bit_operations_syntax

text \<open>
  The table of descriptors: what the code relies on of uloop, the invariant of the table, and the
  states the callbacks can reach.
\<close>

section \<open>Event masks\<close>

definition wants_events :: "u32 \<Rightarrow> bool" where
  "wants_events m \<longleftrightarrow> m AND ucast (POLLIN OR POLLOUT) \<noteq> 0"

definition rw_flags :: "u32 \<Rightarrow> bool" where
  "rw_flags m \<longleftrightarrow> m AND (ULOOP_READ OR ULOOP_WRITE) \<noteq> 0"

lemma and_two_bits: "(m :: 'a::len word) AND (a OR b) = 0 \<longleftrightarrow> m AND a = 0 \<and> m AND b = 0"
  by (simp add: bit.conj_disj_distrib or_eq_0_iff)

lemma pollfd_to_ufd_rw: "rw_flags (eventmask_pollfd_to_ufd m) \<longleftrightarrow> wants_events m"
proof -
  have "(ucast (POLLIN OR POLLOUT) :: u32) = ucast POLLIN OR ucast POLLOUT"
    by (simp add: event_flags)
  then have "wants_events m \<longleftrightarrow> m AND ucast POLLIN \<noteq> 0 \<or> m AND ucast POLLOUT \<noteq> 0"
    by (simp only: wants_events_def and_two_bits) blast
  then show ?thesis
    by (simp only: rw_flags_def eventmask_pollfd_to_ufd_def)
      (cases "m AND ucast POLLIN = 0"; cases "m AND ucast POLLOUT = 0"; simp add: event_flags)
qed

lemma ufd_to_pollfd_cases:
  "eventmask_ufd_to_pollfd (eventmask_pollfd_to_ufd m) =
     (if m AND ucast POLLIN \<noteq> 0 then POLLIN else 0) OR (if m AND ucast POLLOUT \<noteq> 0 then POLLOUT else 0)"
  unfolding eventmask_ufd_to_pollfd_def eventmask_pollfd_to_ufd_def
  by (cases "m AND ucast POLLIN = 0"; cases "m AND ucast POLLOUT = 0"; simp add: event_flags)

lemma one_bit: "(if (m :: u32) AND 2 ^ k \<noteq> 0 then 2 ^ k else 0 :: u16) = ucast m AND 2 ^ k" if "k < 16"
  by (rule bit_word_eqI)
    (use that in \<open>auto simp: and_exp_eq_0_iff_not_bit bit_and_iff bit_exp_iff bit_ucast_iff\<close>)

lemma and_one_or_four: "(x :: u16) AND 5 = x AND 1 OR x AND 4"
  using bit.conj_disj_distrib [of x 1 4] by simp

lemma pollfd_round_trip:
  "eventmask_ufd_to_pollfd (eventmask_pollfd_to_ufd m) = ucast m AND (POLLIN OR POLLOUT)"
  using one_bit [of 0 m] one_bit [of 2 m]
  by (cases "m AND 1 = 0"; cases "m AND 4 = 0")
    (simp_all add: ufd_to_pollfd_cases event_flags and_one_or_four)

section \<open>What the code relies on of uloop\<close>

text \<open>
  \<open>W u fd\<close>: in the state \<open>u\<close> the event loop watches \<open>fd\<close>. Adding keeps the descriptor and the
  callback of the structure and does not touch other descriptors. When it succeeds, the descriptor is
  watched exactly when the mask has one of the two events, and then the mask is the one of the
  structure; when it fails, it is watched as before. Deleting ends the watch of the one descriptor.
\<close>

definition uloop_ok :: "'u uloop_lib \<Rightarrow> ('u \<Rightarrow> int \<Rightarrow> bool) \<Rightarrow> bool" where
  "uloop_ok U W \<longleftrightarrow>
     (\<forall>f m u rc f' u'. uloop_fd_add U f m u = (rc, f', u') \<longrightarrow>
        uf_fd f' = uf_fd f \<and> uf_cb f' = uf_cb f \<and> (\<forall>g. g \<noteq> uf_fd f \<longrightarrow> W u' g = W u g) \<and>
        (rc = 0 \<longrightarrow> W u' (uf_fd f) = rw_flags m \<and> (if rw_flags m then uf_flags f' = m else \<not> rw_flags (uf_flags f'))) \<and>
        (rc \<noteq> 0 \<longrightarrow> W u' (uf_fd f) = W u (uf_fd f))) \<and>
     (\<forall>f u g. W (uloop_fd_delete U f u) g \<longleftrightarrow> W u g \<and> g \<noteq> uf_fd f)"

lemma uloop_add:
  assumes "uloop_ok U W" "uloop_fd_add U f m u = (rc, f', u')"
  shows "uf_fd f' = uf_fd f" "uf_cb f' = uf_cb f" "g \<noteq> uf_fd f \<Longrightarrow> W u' g = W u g"
    and "rc = 0 \<Longrightarrow> W u' (uf_fd f) = rw_flags m"
    and "rc = 0 \<Longrightarrow> rw_flags (uf_flags f') = rw_flags m"
    and "rc = 0 \<Longrightarrow> rw_flags m \<Longrightarrow> uf_flags f' = m"
    and "rc \<noteq> 0 \<Longrightarrow> W u' (uf_fd f) = W u (uf_fd f)"
  using assms unfolding uloop_ok_def by (metis+)

lemma uloop_del: "uloop_ok U W \<Longrightarrow> W (uloop_fd_delete U f u) g \<longleftrightarrow> W u g \<and> g \<noteq> uf_fd f"
  by (simp add: uloop_ok_def)

section \<open>Invariant\<close>

text \<open>
  Every entry of the table is for its own descriptor, and every watched descriptor has an entry; so
  the event loop never holds a structure that was freed. \<open>poll_sync\<close>: the flags of an entry say
  whether it is watched.
\<close>

definition entry :: "int \<Rightarrow> 'u poll_state \<Rightarrow> uloop_fd option" where
  "entry fd s = (if fd_in_table fd s then ufds s ! nat fd else None)"

definition poll_inv :: "('u \<Rightarrow> int \<Rightarrow> bool) \<Rightarrow> 'u poll_state \<Rightarrow> bool" where
  "poll_inv W s \<longleftrightarrow>
     (\<forall>fd f. entry fd s = Some f \<longrightarrow> uf_fd f = fd \<and> uf_cb f) \<and>
     (\<forall>fd. W (uloop s) fd \<longrightarrow> entry fd s \<noteq> None)"

definition poll_sync :: "('u \<Rightarrow> int \<Rightarrow> bool) \<Rightarrow> 'u poll_state \<Rightarrow> bool" where
  "poll_sync W s \<longleftrightarrow> (\<forall>fd f. entry fd s = Some f \<longrightarrow> W (uloop s) fd = rw_flags (uf_flags f))"

lemma entry_update:
  assumes "fd_in_table fd s"
  shows "entry g (s\<lparr>ufds := (ufds s)[nat fd := x], uloop := u\<rparr>) = (if g = fd then x else entry g s)"
    "entry g (s\<lparr>ufds := (ufds s)[nat fd := x]\<rparr>) = (if g = fd then x else entry g s)"
  using assms by (auto simp: entry_def fd_in_table_def)

lemma entry_uloop [simp]:
  "entry g (s\<lparr>uloop := u\<rparr>) = entry g s" "fd_in_table g (s\<lparr>uloop := u\<rparr>) = fd_in_table g s"
  by (simp_all add: entry_def fd_in_table_def)

lemma entry_in_table: "entry fd s = Some f \<Longrightarrow> fd_in_table fd s"
  by (simp add: entry_def split: if_splits)

section \<open>Callbacks\<close>

text \<open>
  libwebsockets names descriptors of the table only, adds a descriptor that is not in it and changes
  the mode of one that is; a request is not empty, and there is memory to answer it.
\<close>

definition http_enabled :: "http_env \<Rightarrow> http_prog \<Rightarrow> http_reason \<Rightarrow> 'u poll_state \<Rightarrow> bool" where
  "http_enabled E prog reason s =
     (case reason of
        LWS_CALLBACK_ADD_POLL_FD fd events \<Rightarrow> fd_in_table fd s \<and> entry fd s = None
      | LWS_CALLBACK_DEL_POLL_FD fd \<Rightarrow> fd_in_table fd s
      | LWS_CALLBACK_CHANGE_MODE_POLL_FD fd events \<Rightarrow> entry fd s \<noteq> None
      | LWS_CALLBACK_HTTP inp \<Rightarrow>
          inp \<noteq> [] \<and> hx_alloc E A_pathname \<and> hx_alloc E A_real_filepath \<and>
          (redir_from prog = Some inp \<longrightarrow> redir_to prog \<noteq> None)
      | _ \<Rightarrow> True)"

fun is_change :: "http_reason \<Rightarrow> bool" where
  "is_change (LWS_CALLBACK_CHANGE_MODE_POLL_FD fd events) = True"
| "is_change _ = False"

text \<open>\<open>clean\<close> says that no change of a mode has failed so far.\<close>

inductive poll_reachable ::
    "'u uloop_lib \<Rightarrow> ('u \<Rightarrow> int \<Rightarrow> bool) \<Rightarrow> bool \<Rightarrow> 'u poll_state \<Rightarrow> bool" for U W where
  started: "(\<And>fd. \<not> W u fd) \<Longrightarrow> poll_reachable U W True \<lparr>ufds = replicate n None, uloop = u\<rparr>"
| called: "poll_reachable U W clean s \<Longrightarrow> http_enabled E prog reason s \<Longrightarrow>
     ws_http_cb U E prog reason s = Some (r, s', ops) \<Longrightarrow>
     poll_reachable U W (clean \<and> (r = 0 \<or> \<not> is_change reason)) s'"

lemma add_step:
  assumes "uloop_ok U W" "poll_inv W s" "fd_in_table fd s" "entry fd s = None"
  shows "\<exists>r s'. add_poll_fd U fd events s = Some (r, s') \<and> poll_inv W s' \<and> (poll_sync W s \<longrightarrow> poll_sync W s') \<and>
    (\<forall>g. g \<noteq> fd \<longrightarrow> entry g s' = entry g s \<and> W (uloop s') g = W (uloop s) g) \<and>
    (r = 0 \<longrightarrow> entry fd s' \<noteq> None \<and> W (uloop s') fd = wants_events events)"
proof -
  let ?f = "\<lparr>uf_fd = fd, uf_cb = True, uf_flags = 0, uf_eof = False, uf_error = False\<rparr>"
  obtain rc f' u' where a: "uloop_fd_add U ?f (eventmask_pollfd_to_ufd events) (uloop s) = (rc, f', u')"
    by (metis prod_cases3)
  note ul = uloop_add [OF assms(1) a, simplified]
  have none: "\<not> W (uloop s) fd" using assms(2,4) by (auto simp: poll_inv_def)
  have e: "ufds s ! nat fd = None" using assms(3,4) by (simp add: entry_def)
  note upd = entry_update [OF assms(3)]
  consider "\<not> calloc_ufd U (uloop s)" | "calloc_ufd U (uloop s)" "rc \<noteq> 0" | "calloc_ufd U (uloop s)" "rc = 0" by blast
  then show ?thesis
  proof cases
    case 1
    then show ?thesis using assms e by (simp add: add_poll_fd_def)
  next
    case 2
    have "W u' g = W (uloop s) g" for g using ul(3,7) 2(2) by (cases "g = fd") auto
    then show ?thesis using assms 2 e a by (simp add: add_poll_fd_def poll_inv_def poll_sync_def)
  next
    case 3
    let ?s = "s\<lparr>ufds := (ufds s)[nat fd := Some f'], uloop := u'\<rparr>"
    have "add_poll_fd U fd events s = Some (0, ?s)" using assms(3) 3 e a by (simp add: add_poll_fd_def)
    moreover have "poll_inv W ?s"
      using assms(2) ul(1,2,3) unfolding poll_inv_def upd by auto
    moreover have "poll_sync W s \<longrightarrow> poll_sync W ?s"
      using ul(3-5) 3 unfolding poll_sync_def upd by auto
    ultimately show ?thesis
      using ul(3,4) 3 pollfd_to_ufd_rw [of events] by (auto simp: upd)
  qed
qed

lemma del_step:
  assumes "uloop_ok U W" "poll_inv W s" "fd_in_table fd s"
  shows "\<exists>s'. del_poll_fd U fd s = Some (0, s') \<and> poll_inv W s' \<and> (poll_sync W s \<longrightarrow> poll_sync W s') \<and>
    (\<forall>g. g \<noteq> fd \<longrightarrow> entry g s' = entry g s \<and> W (uloop s') g = W (uloop s) g) \<and>
    entry fd s' = None \<and> \<not> W (uloop s') fd"
proof (cases "ufds s ! nat fd")
  case None
  then have "entry fd s = None" using assms(3) by (simp add: entry_def)
  then show ?thesis using assms(2,3) None by (auto simp: del_poll_fd_def poll_inv_def)
next
  case (Some f)
  then have f: "uf_fd f = fd" using assms(2,3) by (simp add: poll_inv_def entry_def)
  let ?s = "s\<lparr>ufds := (ufds s)[nat fd := None], uloop := uloop_fd_delete U f (uloop s)\<rparr>"
  have d: "W (uloop ?s) g \<longleftrightarrow> W (uloop s) g \<and> g \<noteq> fd" for g
    using uloop_del [OF assms(1)] f by simp
  have "poll_inv W ?s" using assms(2) d unfolding poll_inv_def entry_update [OF assms(3)] by simp
  moreover have "poll_sync W s \<longrightarrow> poll_sync W ?s"
    using d unfolding poll_sync_def entry_update [OF assms(3)] by simp
  ultimately show ?thesis
    using assms(3) Some d by (simp add: del_poll_fd_def entry_update [OF assms(3)])
qed

lemma change_step:
  assumes "uloop_ok U W" "poll_inv W s" "entry fd s = Some f"
  shows "\<exists>r s'. change_mode_poll_fd U fd events s = Some (r, s') \<and> poll_inv W s' \<and>
    (poll_sync W s \<and> r = 0 \<longrightarrow> poll_sync W s') \<and>
    (\<forall>g. g \<noteq> fd \<longrightarrow> entry g s' = entry g s \<and> W (uloop s') g = W (uloop s) g) \<and>
    entry fd s' \<noteq> None \<and> (poll_sync W s \<and> r = 0 \<longrightarrow> W (uloop s') fd = wants_events events)"
proof -
  have t: "fd_in_table fd s" "ufds s ! nat fd = Some f" using assms(3) by (auto simp: entry_def split: if_splits)
  have f: "uf_fd f = fd" "uf_cb f" using assms(2,3) by (auto simp: poll_inv_def)
  obtain rc f' u' where a: "uloop_fd_add U f (eventmask_pollfd_to_ufd events) (uloop s) = (rc, f', u')"
    by (metis prod_cases3)
  note ul = uloop_add [OF assms(1) a, unfolded f(1)]
  note upd = entry_update [OF t(1)]
  show ?thesis
  proof (cases "eventmask_pollfd_to_ufd events = uf_flags f")
    case True
    then have "poll_sync W s \<longrightarrow> W (uloop s) fd = wants_events events"
      using assms(3) pollfd_to_ufd_rw [of events] by (auto simp: poll_sync_def)
    then show ?thesis using True t f assms(2,3) by (simp add: change_mode_poll_fd_def)
  next
    case False
    let ?s = "s\<lparr>ufds := (ufds s)[nat fd := Some f'], uloop := u'\<rparr>"
    have "change_mode_poll_fd U fd events s = Some (if rc \<noteq> 0 then 1 else 0, ?s)"
      using t f False a by (simp add: change_mode_poll_fd_def)
    moreover have "poll_inv W ?s"
      using assms(2,3) ul(1,2,3) f unfolding poll_inv_def upd by auto
    moreover have "poll_sync W s \<and> rc = 0 \<longrightarrow> poll_sync W ?s"
      using ul(3-5) unfolding poll_sync_def upd by auto
    ultimately show ?thesis
      using ul(3,4) pollfd_to_ufd_rw [of events] by (auto simp: upd)
  qed
qed

lemma serve_file_returns:
  assumes "inp \<noteq> []" "hx_alloc E A_pathname" "hx_alloc E A_real_filepath"
    and "redir_from prog = Some inp \<longrightarrow> redir_to prog \<noteq> None"
  shows "\<exists>r st. ws_http_serve_file E prog inp = Some (r, st)"
proof -
  obtain x where x: "ws_http_construct_pathname E (www_path prog) inp = Some x"
    using assms by (cases "ws_http_construct_pathname E (www_path prog) inp")
      (auto simp: ws_http_construct_pathname_def Let_def split: if_splits)
  show ?thesis
  proof (cases x)
    case None
    then show ?thesis using x by (simp add: ws_http_serve_file_def)
  next
    case (Some p)
    obtain meta where "determine_file_meta E p (length p) = Some meta"
      using assms(3) by (cases "determine_file_meta E p (length p)")
        (auto simp: determine_file_meta_def Let_def split: prod.splits)
    moreover have "(case redir_from prog of Some r \<Rightarrow> strcmp inp r = 0 | None \<Rightarrow> False) \<longleftrightarrow> redir_from prog = Some inp"
      by (auto split: option.splits)
    ultimately show ?thesis
      using x Some assms(4) by (cases "redir_to prog") (auto simp: ws_http_serve_file_def Let_def split: prod.splits)
  qed
qed

lemma http_cb_step:
  assumes "uloop_ok U W" "poll_inv W s" "http_enabled E prog reason s"
  shows "\<exists>r s' ops. ws_http_cb U E prog reason s = Some (r, s', ops) \<and> poll_inv W s' \<and>
    (poll_sync W s \<and> (r = 0 \<or> \<not> is_change reason) \<longrightarrow> poll_sync W s')"
proof (cases reason)
  case (LWS_CALLBACK_ADD_POLL_FD fd events)
  then show ?thesis
    using add_step [OF assms(1,2), of fd events] assms(3) by (auto simp: ws_http_cb_def http_enabled_def)
next
  case (LWS_CALLBACK_DEL_POLL_FD fd)
  then show ?thesis
    using del_step [OF assms(1,2), of fd] assms(3) by (auto simp: ws_http_cb_def http_enabled_def)
next
  case (LWS_CALLBACK_CHANGE_MODE_POLL_FD fd events)
  then obtain f where "entry fd s = Some f" using assms(3) by (auto simp: http_enabled_def)
  then show ?thesis
    using change_step [OF assms(1,2), of fd f events] LWS_CALLBACK_CHANGE_MODE_POLL_FD
    by (auto simp: ws_http_cb_def)
next
  case (LWS_CALLBACK_HTTP inp)
  then show ?thesis
    using serve_file_returns [of inp E prog] assms(2,3) by (auto simp: ws_http_cb_def http_enabled_def)
qed (use assms(2) in \<open>simp_all add: ws_http_cb_def\<close>)

lemma poll_reachable_inv:
  assumes "uloop_ok U W" "poll_reachable U W clean s"
  shows "poll_inv W s \<and> (clean \<longrightarrow> poll_sync W s)"
  using assms(2)
proof induction
  case (started u n)
  then show ?case
    by (auto simp: poll_inv_def poll_sync_def entry_def fd_in_table_def split: if_splits)
next
  case (called clean s E prog reason r s' ops)
  then show ?case
    using http_cb_step [OF assms(1), of s E prog reason] by auto
qed

end
