(* ===== verification/Http_Properties.thy ===== *)
theory Http_Properties
  imports Http_Poll
begin

unbundle bit_operations_syntax

text \<open>
  The properties of the file server and of the default protocol, and an instance of their
  parameters on which each of them is applied.
\<close>

section \<open>An instance\<close>

text \<open>
  A server of \<open>/www\<close> whose file \<open>/www//a.js.gz\<close> was modified at time 100, asked by a client that has
  it from time 200; and an event loop that keeps the list of the watched descriptors.
\<close>

definition demo_http :: "string \<Rightarrow> http_env" where
  "demo_http cache =
     \<lparr>hx_alloc = (\<lambda>_. True),
      hx_access = (\<lambda>p. p = ''/www//a.js.gz''),
      hx_stat = (\<lambda>p. if p = ''/www//a.js.gz'' then (0, 100) else (-1, 0)),
      hx_hdr_copy = (\<lambda>t. if t = WSI_TOKEN_HTTP_CACHE_CONTROL then Some cache else Some ''then''),
      hx_strptime = (\<lambda>b. Some (length b, 200)),
      hx_strftime = (\<lambda>t. ''now''),
      hx_rc = (\<lambda>c. case c of Write_headers _ \<Rightarrow> 1 | Serve_file _ _ _ \<Rightarrow> 1 | _ \<Rightarrow> 0),
      hx_cut = (\<lambda>_. [])\<rparr>"

definition demo_www :: http_prog where
  "demo_www = \<lparr>www_path = ''/www'', redir_from = None, redir_to = None\<rparr>"

definition demo_uloop :: "int list uloop_lib" where
  "demo_uloop =
     \<lparr>uloop_fd_add = (\<lambda>f m u. let rest = filter (\<lambda>g. g \<noteq> uf_fd f) u in
        (0, f\<lparr>uf_flags := if rw_flags m then m else 0\<rparr>, if rw_flags m then uf_fd f # rest else rest)),
      uloop_fd_delete = (\<lambda>f u. filter (\<lambda>g. g \<noteq> uf_fd f) u),
      calloc_ufd = (\<lambda>_. True)\<rparr>"

abbreviation demo_watched :: "int list \<Rightarrow> int \<Rightarrow> bool" where
  "demo_watched u fd \<equiv> fd \<in> set u"

lemma demo_uloop_ok: "uloop_ok demo_uloop demo_watched"
  by (auto simp: uloop_ok_def demo_uloop_def Let_def rw_flags_def)

lemmas demo_serve = demo_http_def demo_www_def ws_http_construct_pathname_def request_pathname_def
  snprintf_length_def PATH_MAX_def determine_file_meta_def determine_mimetype_def mime_map_def enc_map_def
  can_reply_notmodified_def or_out_cases add_encoding_def lws_call_def add_last_modified_header_def
  ws_http_serve_interpret_retcode_def strncasecmp_def tolower_def byte_of_def strstr_at_start_def

section \<open>The file server\<close>

text \<open>
  C16. \<^bold>\<open>Only files below the directory are served.\<close> When a request without a \<open>..\<close> segment, whose
  path fits a path name, is answered with a file, then that file exists and is the requested one
  (with \<open>index.html\<close> behind a slash) or, with its encoding in the headers, a compressed form of it
  that can be read; its path begins with the directory of the server and has no \<open>..\<close> behind it.
\<close>

theorem served_file_inside:
  assumes "ws_http_serve_file E prog inp = Some (rc, st)" "Serve_file p m hs \<in> set (asked st)"
    and "''..'' \<notin> set (segments inp)" "length (request_pathname (www_path prog) inp) < PATH_MAX"
  shows "fst (hx_stat E p) = 0 \<and> ''..'' \<notin> set (segments (drop (length (www_path prog)) p)) \<and>
    (p = request_pathname (www_path prog) inp \<or>
     (\<exists>e v. (e, v) \<in> set enc_map \<and> p = request_pathname (www_path prog) inp @ ''.'' @ e \<and> hx_access E p \<and>
        Header_line WSI_TOKEN_HTTP_CONTENT_ENCODING v \<in> set hs))"
proof -
  let ?p = "request_pathname (www_path prog) inp"
  have "redir_from prog \<noteq> Some inp"
    using assms(1,2) redirected_asked by blast
  then obtain meta where meta: "determine_file_meta E ?p (length ?p) = Some meta"
    and asked: "asked st = asked (snd (file_answer E meta)) @ (if fst (file_answer E meta) > 0 then [Transaction_completed] else [])"
    by (rule serve_file_answer [OF assms(1) _ assms(4)])
  have served: "fm_status meta = 0" "p = real_filepath meta"
    "\<And>v. enc meta = Some v \<Longrightarrow> Header_line WSI_TOKEN_HTTP_CONTENT_ENCODING v \<in> set hs"
    using file_answer_serves [of p m hs E meta] asked assms(2) by (auto split: if_splits)
  note ch = meta_chosen [OF meta]
  have p: "p = fst (chosen_file E ?p)" "enc meta = snd (chosen_file E ?p)"
    using ch(1) served(2) by (metis fst_conv, metis snd_conv)
  have "''..'' \<notin> set (segments (drop (length (www_path prog)) p))"
    unfolding p(1) by (rule chosen_segments [OF request_segments [OF assms(3)]]) (simp add: request_pathname_def)
  moreover have "fst (hx_stat E p) = 0" using ch(2) served(1) p(1) by simp
  ultimately show ?thesis
    using p served(3) by (cases rule: chosen_cases [of E ?p]) auto
qed

theorem served_file_inside_witness:
  "\<exists>rc st. ws_http_serve_file (demo_http ''no-cache'') demo_www ''/a.js'' = Some (rc, st) \<and>
     Serve_file ''/www//a.js.gz'' ''application/javascript''
       [Header_line WSI_TOKEN_HTTP_CONTENT_ENCODING ''gzip'', Header_line WSI_TOKEN_HTTP_LAST_MODIFIED ''now''] \<in> set (asked st) \<and>
     fst (hx_stat (demo_http ''no-cache'') ''/www//a.js.gz'') = 0"
proof -
  let ?E = "demo_http ''no-cache''"
  let ?hs = "[Header_line WSI_TOKEN_HTTP_CONTENT_ENCODING ''gzip'', Header_line WSI_TOKEN_HTTP_LAST_MODIFIED ''now'']"
  have "strtokens '',; '' ''no-cache'' = [''no-cache'']" "strtokens ''/'' ''/a.js'' = [''a.js'']"
    by (simp_all add: tokens_word(1) tokens_skip)
  then obtain rc st where st: "ws_http_serve_file ?E demo_www ''/a.js'' = Some (rc, st)"
    "Serve_file ''/www//a.js.gz'' ''application/javascript'' ?hs \<in> set (asked st)"
    by (simp add: ws_http_serve_file_def demo_serve Let_def)
  show ?thesis
    using served_file_inside [OF st] st \<open>strtokens ''/'' ''/a.js'' = _\<close>
    by (auto simp: demo_www_def request_pathname_def PATH_MAX_def)
qed

text \<open>
  C35. \<^bold>\<open>Not modified.\<close> A request that is not redirected is answered with status 304 exactly when
  the file exists, no directive of the cache control header is \<open>no-cache\<close> or begins with \<open>no-cache=\<close>,
  the header with the time was read to its last four bytes, and the file was not modified after that
  time; and a request answered so is not answered with the file or with status 404.
\<close>

theorem not_modified_exact:
  assumes "ws_http_serve_file E prog inp = Some (rc, st)" "redir_from prog \<noteq> Some inp"
    and "length (request_pathname (www_path prog) inp) < PATH_MAX"
  defines "file \<equiv> fst (chosen_file E (request_pathname (www_path prog) inp))"
    and "cache \<equiv> (case hx_hdr_copy E WSI_TOKEN_HTTP_CACHE_CONTROL of Some v \<Rightarrow> v | None \<Rightarrow> [])"
    and "since \<equiv> (case hx_hdr_copy E WSI_TOKEN_HTTP_IF_MODIFIED_SINCE of Some v \<Rightarrow> v | None \<Rightarrow> [])"
  shows "(Add_status 304 \<in> set (asked st) \<longleftrightarrow>
      fst (hx_stat E file) = 0 \<and>
      (\<nexists>u t v. cache = u @ t @ v \<and> (u = [] \<or> last u \<in> set '',; '') \<and> (v = [] \<or> hd v \<in> set '',; '') \<and>
         set t \<inter> set '',; '' = {} \<and> (t = ''no-cache'' \<or> (\<exists>w. t = ''no-cache='' @ w))) \<and>
      (\<exists>k time. hx_strptime E since = Some (k, time) \<and> length since \<le> k + 4 \<and> snd (hx_stat E file) \<le> time)) \<and>
    (Add_status 304 \<in> set (asked st) \<longrightarrow> Return_status 404 \<notin> set (asked st) \<and> (\<forall>p m hs. Serve_file p m hs \<notin> set (asked st)))"
proof -
  let ?p = "request_pathname (www_path prog) inp"
  obtain meta where meta: "determine_file_meta E ?p (length ?p) = Some meta"
    and asked: "asked st = asked (snd (file_answer E meta)) @ (if fst (file_answer E meta) > 0 then [Transaction_completed] else [])"
    by (rule serve_file_answer [OF assms(1-3)])
  have eq: "Add_status 304 \<in> set (asked st) \<longleftrightarrow> can_reply_notmodified E meta"
    using file_answer_304(1) by (simp add: asked)
  have no: "(\<nexists>u t v. cache = u @ t @ v \<and> (u = [] \<or> last u \<in> set '',; '') \<and> (v = [] \<or> hd v \<in> set '',; '') \<and>
         set t \<inter> set '',; '' = {} \<and> (t = ''no-cache'' \<or> (\<exists>w. t = ''no-cache='' @ w))) \<longleftrightarrow>
      (\<nexists>t. t \<in> set (strtokens '',; '' cache) \<and> (t = ''no-cache'' \<or> (\<exists>w. t = ''no-cache='' @ w)))"
    by (rule no_token_iff [symmetric]) auto
  have "Return_status 404 \<notin> set (asked st) \<and> (\<forall>p m hs. Serve_file p m hs \<notin> set (asked st))"
    if "can_reply_notmodified E meta"
    using file_answer_304(2,3) [OF that] asked by simp
  then show ?thesis
    unfolding no eq file_def using meta_chosen(2,3) [OF meta]
    by (simp only: notmodified_iff [of E meta, folded cache_def since_def]) blast
qed

theorem not_modified_exact_witness:
  "\<exists>rc st. ws_http_serve_file (demo_http ''max-age=0'') demo_www ''/a.js'' = Some (rc, st) \<and>
     Add_status 304 \<in> set (asked st)"
proof -
  let ?E = "demo_http ''max-age=0''"
  obtain rc st where st: "ws_http_serve_file ?E demo_www ''/a.js'' = Some (rc, st)"
    using serve_file_returns [of "''/a.js''" ?E demo_www] by (auto simp: demo_http_def demo_www_def)
  have path: "fst (chosen_file ?E (request_pathname (www_path demo_www) ''/a.js'')) = ''/www//a.js.gz''"
    by (simp add: chosen_file_def demo_http_def demo_www_def request_pathname_def enc_map_def)
  have t: "strtokens '',; '' ''max-age=0'' = [''max-age=0'']"
    by (simp add: tokens_word(1))
  have "\<nexists>u t v. ''max-age=0'' = u @ t @ v \<and> (u = [] \<or> last u \<in> set '',; '') \<and> (v = [] \<or> hd v \<in> set '',; '') \<and>
         set t \<inter> set '',; '' = {} \<and> (t = ''no-cache'' \<or> (\<exists>w. t = ''no-cache='' @ w))"
    by (subst no_token_iff [symmetric]) (auto simp: t)
  then show ?thesis
    using not_modified_exact [OF st] st
    by (simp add: path, simp add: demo_http_def demo_www_def request_pathname_def PATH_MAX_def)
qed

text \<open>
  The media type of a file is looked up by a prefix: a path that ends in a dot is sent as HTML, and a
  C source as a style sheet.
\<close>

lemma mimetype_of_prefix:
  "determine_mimetype ''/www/notes.'' (length ''/www/notes.'') = Some ''text/html''"
  "determine_mimetype ''/www/main.c'' (length ''/www/main.c'') = Some ''text/css''"
  using mimetype_find [of "''/www/notes.''"] mimetype_find [of "''/www/main.c''"]
  by (simp_all add: extension_def mime_map_def tolower_def byte_of_def)

section \<open>The default protocol\<close>


lemma demo_poll_reachable:
  "poll_reachable demo_uloop demo_watched True
     \<lparr>ufds = [None, None, None, Some \<lparr>uf_fd = 3, uf_cb = True, uf_flags = 65, uf_eof = False, uf_error = False\<rparr>],
      uloop = [3]\<rparr>"
proof -
  let ?s = "\<lparr>ufds = replicate 4 None, uloop = []\<rparr> :: int list poll_state"
  let ?r = "LWS_CALLBACK_ADD_POLL_FD 3 1"
  have "ws_http_cb demo_uloop (demo_http []) demo_www ?r ?s = Some (0,
     \<lparr>ufds = [None, None, None, Some \<lparr>uf_fd = 3, uf_cb = True, uf_flags = 65, uf_eof = False, uf_error = False\<rparr>],
      uloop = [3]\<rparr>, [])"
  proof -
    have "replicate 4 None = [None, None, None, None :: uloop_fd option]" "nat 3 = Suc (Suc (Suc 0))"
      by (simp_all add: numeral_eq_Suc)
    then show ?thesis
      by (simp add: ws_http_cb_def add_poll_fd_def fd_in_table_def demo_uloop_def eventmask_pollfd_to_ufd_def
          rw_flags_def event_flags)
  qed
  from poll_reachable.called [OF poll_reachable.started _ this] show ?thesis
    by (simp add: http_enabled_def entry_def fd_in_table_def)
qed


text \<open>
  \<^bold>\<open>Descriptors are watched as libwebsockets asks.\<close> As long as no change of a mode has failed, a
  descriptor is watched exactly when the mode of its last successful request has one of the two
  events, also when the code skips the request because the flags are the same; and the event loop
  keeps its watch of every other descriptor, whatever the request.
\<close>

theorem watch_mode_exact:
  assumes "uloop_ok U W" "poll_reachable U W True s"
    and "http_enabled E prog reason s" "ws_http_cb U E prog reason s = Some (r, s', ops)"
    and "reason = LWS_CALLBACK_ADD_POLL_FD fd events \<or> reason = LWS_CALLBACK_CHANGE_MODE_POLL_FD fd events \<or>
      reason = LWS_CALLBACK_DEL_POLL_FD fd"
  shows "(r = 0 \<longrightarrow> W (uloop s') fd = (reason \<noteq> LWS_CALLBACK_DEL_POLL_FD fd \<and> wants_events events)) \<and>
    (\<forall>g. g \<noteq> fd \<longrightarrow> W (uloop s') g = W (uloop s) g \<and> entry g s' = entry g s)"
proof -
  have inv: "poll_inv W s" "poll_sync W s" using poll_reachable_inv [OF assms(1,2)] by simp_all
  from assms(5) consider "reason = LWS_CALLBACK_ADD_POLL_FD fd events"
    | "reason = LWS_CALLBACK_CHANGE_MODE_POLL_FD fd events" | "reason = LWS_CALLBACK_DEL_POLL_FD fd" by blast
  then show ?thesis
  proof cases
    case 1
    then show ?thesis
      using add_step [OF assms(1) inv(1), of fd events] assms(3,4) by (auto simp: ws_http_cb_def http_enabled_def)
  next
    case 2
    then obtain f where "entry fd s = Some f" using assms(3) by (auto simp: http_enabled_def)
    then show ?thesis
      using 2 change_step [OF assms(1) inv(1), of fd f events] assms(4) inv(2) by (auto simp: ws_http_cb_def)
  next
    case 3
    then show ?thesis
      using del_step [OF assms(1) inv(1), of fd] assms(3,4) by (auto simp: ws_http_cb_def http_enabled_def)
  qed
qed

theorem watch_mode_exact_witness:
  "\<exists>r s' ops. ws_http_cb demo_uloop (demo_http []) demo_www (LWS_CALLBACK_CHANGE_MODE_POLL_FD 3 0)
     \<lparr>ufds = [None, None, None, Some \<lparr>uf_fd = 3, uf_cb = True, uf_flags = 65, uf_eof = False, uf_error = False\<rparr>],
      uloop = [3]\<rparr> = Some (r, s', ops) \<and> \<not> demo_watched (uloop s') 3"
proof -
  let ?s = "\<lparr>ufds = [None, None, None, Some \<lparr>uf_fd = 3, uf_cb = True, uf_flags = 65, uf_eof = False, uf_error = False\<rparr>],
      uloop = [3]\<rparr> :: int list poll_state"
  let ?r = "LWS_CALLBACK_CHANGE_MODE_POLL_FD 3 0"
  have en: "http_enabled (demo_http []) demo_www ?r ?s"
    by (simp add: http_enabled_def entry_def fd_in_table_def)
  obtain s' where s': "ws_http_cb demo_uloop (demo_http []) demo_www ?r ?s = Some (0, s', [])"
    by (simp add: ws_http_cb_def change_mode_poll_fd_def fd_in_table_def demo_uloop_def eventmask_pollfd_to_ufd_def
        rw_flags_def event_flags)
  show ?thesis
    using watch_mode_exact [OF demo_uloop_ok demo_poll_reachable en s', of 3 0] s' by (auto simp: wants_events_def)
qed

end
