(* ===== verification/Config.thy ===== *)
theory Config
  imports Local_Stub
begin

text \<open>
  The configuration, \<open>config.c\<close> and the options of \<open>main.c\<close>: the JSON file and the command line fill
  the global options and the list of virtual hosts, and call the client manager, the path patterns
  and the access list; then a virtual host is made in libwebsockets for every entry and every
  origin. \<open>getopt\<close> is left out: a command line is the list of options it returns.
\<close>

section \<open>State\<close>

text \<open>The flags of \<open>vh_info.options\<close> by name; no flag the code clears shares a bit with another one.\<close>

datatype lws_option =
    LWS_SERVER_OPTION_DISABLE_IPV6
  | LWS_SERVER_OPTION_IPV6_V6ONLY_MODIFY
  | LWS_SERVER_OPTION_IPV6_V6ONLY_VALUE
  | LWS_SERVER_OPTION_DO_SSL_GLOBAL_INIT
  | LWS_SERVER_OPTION_PEER_CERT_NOT_REQUIRED
  | LWS_SERVER_OPTION_REQUIRE_VALID_OPENSSL_CLIENT_CERT

record lws_vh_info =
  vi_port :: int
  vi_iface :: "string option"
  vi_vhost_name :: "string option"
  vi_ssl_cert :: "string option"
  vi_ssl_key :: "string option"
  vi_ssl_ca :: "string option"
  vi_options :: "lws_option set"

record vhinfo =
  vh_info :: lws_vh_info
  vh_ctx :: vh_context

record global_config =
  g_ubus_sock_path :: string
  g_www_dirpath :: string
  g_www_maxage :: int
  g_redir_from :: "string option"
  g_redir_to :: "string option"
  g_cgi_from :: "string option"
  g_cgi_to :: "string option"
  g_any_ssl :: bool

text \<open>
  \<open>cf_vhs\<close> is the list \<open>currvh\<close>, the last added host first; \<open>cf_allocs\<close> counts the calls of the
  allocator, which the environment answers one by one.
\<close>

record config =
  cf_global :: global_config
  cf_vhs :: "vhinfo list"
  cf_clients :: clvh_context
  cf_paths :: "string list"
  cf_acl :: "string list"
  cf_prefix_mac :: bool
  cf_allocs :: nat

record cfg_env =
  cg_get_string :: "json \<Rightarrow> string"
  cg_get_int :: "json \<Rightarrow> int"
  cg_get_boolean :: "json \<Rightarrow> bool"
  cg_parse_uri :: "string \<Rightarrow> (string \<times> string \<times> int \<times> string) option"
  cg_malloc :: "nat \<Rightarrow> bool"
  cg_cl :: cl_env
  cg_node_alloc :: "string \<Rightarrow> bool \<times> bool"
  cg_file :: "string \<Rightarrow> (nat \<times> string) option"
  cg_tokener_parse :: "string \<Rightarrow> json option"

definition malloc_cfg :: "cfg_env \<Rightarrow> config \<Rightarrow> bool \<times> config" where
  "malloc_cfg E s = (cg_malloc E (cf_allocs s), s\<lparr>cf_allocs := cf_allocs s + 1\<rparr>)"

abbreviation json_field :: "json \<Rightarrow> string \<Rightarrow> json" where
  "json_field j k \<equiv> snd (json_get_ex j k)"

text \<open>A store through \<open>currvh\<close>; \<^term>\<open>None\<close> when there is no virtual host yet.\<close>

definition on_currvh :: "(vhinfo \<Rightarrow> vhinfo) \<Rightarrow> config \<Rightarrow> config option" where
  "on_currvh f s = (case cf_vhs s of [] \<Rightarrow> None | vh # vhs \<Rightarrow> Some (s\<lparr>cf_vhs := f vh # vhs\<rparr>))"

abbreviation upd_info :: "(lws_vh_info \<Rightarrow> lws_vh_info) \<Rightarrow> vhinfo \<Rightarrow> vhinfo" where
  "upd_info f vh \<equiv> vh\<lparr>vh_info := f (vh_info vh)\<rparr>"

abbreviation upd_ctx :: "(vh_context \<Rightarrow> vh_context) \<Rightarrow> vhinfo \<Rightarrow> vhinfo" where
  "upd_ctx f vh \<equiv> vh\<lparr>vh_ctx := f (vh_ctx vh)\<rparr>"

section \<open>Virtual hosts\<close>

definition fresh_vhinfo :: vhinfo where
  "fresh_vhinfo =
     \<lparr>vh_info = \<lparr>vi_port = 0, vi_iface = None, vi_vhost_name = None, vi_ssl_cert = None, vi_ssl_key = None,
        vi_ssl_ca = None, vi_options = {LWS_SERVER_OPTION_DISABLE_IPV6}\<rparr>,
      vh_ctx = \<lparr>vh_origins = [], vh_users = [], vh_name = [], restrict_origins = True\<rparr>\<rparr>"

definition new_vhinfo_list :: "cfg_env \<Rightarrow> config \<Rightarrow> int \<times> config" where
  "new_vhinfo_list E s =
     (let (ok, s) = malloc_cfg E s in
      if \<not> ok then (-1, s) else (0, s\<lparr>cf_vhs := fresh_vhinfo # cf_vhs s\<rparr>))"

fun append_origins_loop :: "cfg_env \<Rightarrow> json list \<Rightarrow> config \<Rightarrow> (int \<times> config) option" where
  "append_origins_loop E [] s = Some (0, s)"
| "append_origins_loop E (e # es) s =
     (if e = JNull then append_origins_loop E es s
      else
        let (ok, s) = malloc_cfg E s in
        if \<not> ok then Some (-1, s)
        else do {
          s \<leftarrow> on_currvh (upd_ctx (\<lambda>c. c\<lparr>vh_origins := vh_origins c @ [cg_get_string E e]\<rparr>)) s;
          append_origins_loop E es s
        })"

definition append_origins :: "cfg_env \<Rightarrow> json \<Rightarrow> config \<Rightarrow> (int \<times> config) option" where
  "append_origins E cfg s =
     (case cfg of JArray es \<Rightarrow> append_origins_loop E es s | _ \<Rightarrow> Some (-1, s))"

fun append_users_loop :: "cfg_env \<Rightarrow> json list \<Rightarrow> config \<Rightarrow> config option" where
  "append_users_loop E [] s = Some s"
| "append_users_loop E (e # es) s =
     (if e = JNull then append_users_loop E es s
      else
        let (ok, s) = malloc_cfg E s in
        if \<not> ok then append_users_loop E es s
        else do {
          s \<leftarrow> on_currvh (upd_ctx (\<lambda>c. c\<lparr>vh_users := vh_users c @ [cg_get_string E e]\<rparr>)) s;
          append_users_loop E es s
        })"

definition vhost_tls :: "cfg_env \<Rightarrow> json \<Rightarrow> config \<Rightarrow> config option" where
  "vhost_tls E obj s =
     (let a = json_field obj ''ca''; k = json_field obj ''key''; c = json_field obj ''cert'' in
      if a \<noteq> JNull \<and> k \<noteq> JNull \<and> c \<noteq> JNull then
        on_currvh (upd_info (\<lambda>i. i\<lparr>vi_ssl_cert := Some (cg_get_string E c), vi_ssl_key := Some (cg_get_string E k),
            vi_ssl_ca := Some (cg_get_string E a),
            vi_options := vi_options i \<union> {LWS_SERVER_OPTION_DO_SSL_GLOBAL_INIT}\<rparr>))
          (s\<lparr>cf_global := (cf_global s)\<lparr>g_any_ssl := True\<rparr>\<rparr>)
      else Some s)"

definition vhost_acl :: "cfg_env \<Rightarrow> json \<Rightarrow> config \<Rightarrow> config" where
  "vhost_acl E obj s =
     (let arg = json_field obj ''ubusx_acl'' in
      if arg \<noteq> JNull then
        s\<lparr>cf_acl := ubusx_acl__add_objects olist_ops (cg_node_alloc E) (cf_acl s) (Some (cg_get_string E arg))\<rparr>
      else s)"

definition vhost_ipv6 :: "cfg_env \<Rightarrow> json \<Rightarrow> lws_vh_info \<Rightarrow> lws_vh_info" where
  "vhost_ipv6 E obj i =
     (let arg = json_field obj ''ipv6'';
          i = (if arg \<noteq> JNull \<and> cg_get_boolean E arg
               then i\<lparr>vi_options := vi_options i - {LWS_SERVER_OPTION_DISABLE_IPV6}\<rparr> else i);
          arg = json_field obj ''ipv6only'' in
      if arg \<noteq> JNull \<and> cg_get_boolean E arg
      then i\<lparr>vi_options := (vi_options i - {LWS_SERVER_OPTION_DISABLE_IPV6}) \<union>
             {LWS_SERVER_OPTION_IPV6_V6ONLY_MODIFY, LWS_SERVER_OPTION_IPV6_V6ONLY_VALUE}\<rparr>
      else i)"

definition create_vhost_by_json :: "cfg_env \<Rightarrow> string \<Rightarrow> json \<Rightarrow> config \<Rightarrow> (int \<times> config) option" where
  "create_vhost_by_json E key obj s =
     (let port = json_field obj ''port''; interface = json_field obj ''interface'' in
      if port = JNull then Some (-1, s)
      else if interface = JNull then Some (-1, s)
      else
        let (rv, s) = new_vhinfo_list E s in
        if rv \<noteq> 0 then Some (rv, s)
        else do {
          s \<leftarrow> on_currvh (\<lambda>vh. upd_ctx (\<lambda>c. c\<lparr>vh_name := key\<rparr>)
                 (upd_info (\<lambda>i. i\<lparr>vi_port := cg_get_int E port, vi_vhost_name := Some key,
                    vi_iface := Some (cg_get_string E interface)\<rparr>) vh)) s;
          s \<leftarrow> vhost_tls E obj s;
          let s = vhost_acl E obj s;
          let arg = json_field obj ''origin'';
          s \<leftarrow> (if arg \<noteq> JNull then map_option snd (append_origins E arg s) else Some s);
          let arg = json_field obj ''origin_check'';
          s \<leftarrow> (if arg \<noteq> JNull \<and> \<not> cg_get_boolean E arg
                then on_currvh (upd_ctx (\<lambda>c. c\<lparr>restrict_origins := False\<rparr>)) s else Some s);
          s \<leftarrow> on_currvh (upd_info (vhost_ipv6 E obj)) s;
          let arg = json_field obj ''restrict_to_user'';
          s \<leftarrow> (case arg of JArray es \<Rightarrow> append_users_loop E es s | _ \<Rightarrow> Some s);
          Some (rv, s)
        })"

section \<open>The file\<close>

definition file_to_str :: "cfg_env \<Rightarrow> string \<Rightarrow> config \<Rightarrow> (string option \<times> config) option" where
  "file_to_str E filename s =
     (case cg_file E filename of
        None \<Rightarrow> Some (None, s)
      | Some (string_size, contents) \<Rightarrow>
          let (ok, s) = malloc_cfg E s in
          if \<not> ok then None
          else if string_size \<noteq> length contents then Some (None, s)
          else Some (Some (takeWhile (\<lambda>c. byte_of c \<noteq> 0) contents), s))"

text \<open>\<open>strchr(s, ':')\<close>: what stands before and behind the first colon.\<close>

definition split_colon :: "string \<Rightarrow> (string \<times> string) option" where
  "split_colon s =
     (if CHR '':'' \<in> set s
      then Some (takeWhile (\<lambda>c. c \<noteq> CHR '':'') s, drop 1 (dropWhile (\<lambda>c. c \<noteq> CHR '':'') s))
      else None)"

text \<open>
  The text of a JSON string is changed in place, so that it ends at the colon when it is asked for
  again; the text of another value is printed anew.
\<close>

definition set_redirect :: "cfg_env \<Rightarrow> json \<Rightarrow> global_config \<Rightarrow> global_config" where
  "set_redirect E arg g =
     (case split_colon (cg_get_string E arg) of
        None \<Rightarrow> g\<lparr>g_redir_to := None\<rparr>
      | Some (from, to) \<Rightarrow>
          g\<lparr>g_redir_to := Some to,
            g_redir_from := Some (if is_string arg then from else cg_get_string E arg)\<rparr>)"

definition parse_global_json :: "cfg_env \<Rightarrow> json \<Rightarrow> config \<Rightarrow> config" where
  "parse_global_json E global s =
     (let g = cf_global s;
          arg = json_field global ''socket'';
          g = (if arg \<noteq> JNull then g\<lparr>g_ubus_sock_path := cg_get_string E arg\<rparr> else g);
          arg = json_field global ''www'';
          g = (if arg \<noteq> JNull then g\<lparr>g_www_dirpath := cg_get_string E arg\<rparr> else g);
          arg = json_field global ''redirect'';
          g = (if arg \<noteq> JNull then set_redirect E arg g else g);
          arg = json_field global ''www_maxage'';
          g = (if arg \<noteq> JNull then g\<lparr>g_www_maxage := cg_get_int E arg\<rparr> else g) in
      s\<lparr>cf_global := g\<rparr>)"

definition upd_clients :: "(clvh_context \<Rightarrow> clvh_context) \<Rightarrow> config \<Rightarrow> config" where
  "upd_clients f s = s\<lparr>cf_clients := f (cf_clients s)\<rparr>"

definition set_any_ssl :: "config \<Rightarrow> config" where
  "set_any_ssl s = s\<lparr>cf_global := (cf_global s)\<lparr>g_any_ssl := True\<rparr>\<rparr>"

definition add_pattern :: "cfg_env \<Rightarrow> string \<Rightarrow> config \<Rightarrow> config option" where
  "add_pattern E p s = do {
     r \<leftarrow> wsubus_client_path_pattern_add olist_ops (fst (cg_node_alloc E p)) (snd (cg_node_alloc E p)) (cf_paths s) p;
     t \<leftarrow> r;
     Some (s\<lparr>cf_paths := t\<rparr>)
   }"

fun add_patterns :: "cfg_env \<Rightarrow> json list \<Rightarrow> config \<Rightarrow> config option" where
  "add_patterns E [] s = Some s"
| "add_patterns E (e # es) s =
     (if e = JNull then add_patterns E es s
      else do {
        s \<leftarrow> add_pattern E (cg_get_string E e) s;
        add_patterns E es s
      })"

definition add_peer :: "cfg_env \<Rightarrow> string \<Rightarrow> int \<Rightarrow> string \<Rightarrow> config \<Rightarrow> config" where
  "add_peer E addr port path s =
     upd_clients (\<lambda>cs. snd (wsubus_client_create (cg_cl E) (Some addr) port (Some path) CLIENT_FROM_PROGARG cs))
       (set_any_ssl s)"

fun add_peers :: "cfg_env \<Rightarrow> json list \<Rightarrow> config \<Rightarrow> config" where
  "add_peers E [] s = s"
| "add_peers E (e # es) s =
     (if e = JNull then add_peers E es s
      else
        (case cg_parse_uri E (cg_get_string E e) of
           None \<Rightarrow> add_peers E es s
         | Some (proto, addr, port, path) \<Rightarrow>
             if strncmp proto ''wss'' 4 = 0 then add_peers E es (add_peer E addr port path s)
             else add_peers E es s))"

text \<open>The \<open>int\<close> of a time-out is the one of json-c or of \<open>atoi\<close>.\<close>

definition set_retry_timeout :: "int \<Rightarrow> config \<Rightarrow> config" where
  "set_retry_timeout t s = (if t > 0 then upd_clients (\<lambda>cs. cs\<lparr>cl_retry_timeout := t\<rparr>) s else s)"

definition parse_ubusx_json :: "cfg_env \<Rightarrow> json \<Rightarrow> config \<Rightarrow> config option" where
  "parse_ubusx_json E ubusx s =
     (let cert = json_field ubusx ''peer_cert''; key = json_field ubusx ''peer_key''; ca = json_field ubusx ''peer_ca'';
          s = (if cert \<noteq> JNull \<and> key \<noteq> JNull \<and> ca \<noteq> JNull then
                 upd_clients (wsubus_client_set_ca_filepath (cg_get_string E ca) \<circ>
                   wsubus_client_set_private_key_filepath (cg_get_string E key) \<circ>
                   wsubus_client_set_cert_filepath (cg_get_string E cert)) s
               else s);
          s = upd_clients wsubus_client_enable_proxy (set_any_ssl s);
          arg = json_field ubusx ''object'' in
      do {
        s \<leftarrow> (case arg of JArray es \<Rightarrow> add_patterns E es s | _ \<Rightarrow> Some s);
        let arg = json_field ubusx ''peer'';
        s \<leftarrow> (if arg = JNull then Some s
              else (case arg of JArray es \<Rightarrow> Some (add_peers E es s) | _ \<Rightarrow> None));
        let arg = json_field ubusx ''prefix'';
        let s = (if arg \<noteq> JNull \<and> strncmp (cg_get_string E arg) ''mac'' 4 = 0 then s\<lparr>cf_prefix_mac := True\<rparr> else s);
        let arg = json_field ubusx ''rpcd_integration'';
        let s = (if arg \<noteq> JNull \<and> cg_get_boolean E arg then upd_clients (wsubus_client_set_rpcd_integration True) s else s);
        let arg = json_field ubusx ''reconnect_timeout'';
        Some (if arg \<noteq> JNull then set_retry_timeout (cg_get_int E arg) s else s)
      })"

fun create_vhosts :: "cfg_env \<Rightarrow> string \<Rightarrow> json list \<Rightarrow> config \<Rightarrow> config option" where
  "create_vhosts E key [] s = Some s"
| "create_vhosts E key (e # es) s =
     (if e = JNull then create_vhosts E key es s
      else do {
        (_, s) \<leftarrow> create_vhost_by_json E key e s;
        create_vhosts E key es s
      })"

fun create_listeners :: "cfg_env \<Rightarrow> (string \<times> json) list \<Rightarrow> config \<Rightarrow> config option" where
  "create_listeners E [] s = Some s"
| "create_listeners E ((key, val) # fs) s =
     (case val of
        JArray es \<Rightarrow> do {
          s \<leftarrow> create_vhosts E key es s;
          create_listeners E fs s
        }
      | _ \<Rightarrow> create_listeners E fs s)"

text \<open>The loop over the members is defined for objects only.\<close>

definition parse_vhosts_json :: "cfg_env \<Rightarrow> json \<Rightarrow> config \<Rightarrow> config option" where
  "parse_vhosts_json E vhosts s = do {
     fs \<leftarrow> json_members vhosts;
     create_listeners E fs s
   }"

text \<open>The three sections of the file, in the order of the code.\<close>

definition parse_sections :: "cfg_env \<Rightarrow> json \<Rightarrow> config \<Rightarrow> config option" where
  "parse_sections E obj s = do {
     let global = json_field obj ''global'';
     let ubusx = json_field obj ''ubusproxy'';
     let vhosts = json_field obj ''owsd-listen'';
     let s = (if global \<noteq> JNull then parse_global_json E global s else s);
     s \<leftarrow> (if ubusx \<noteq> JNull then parse_ubusx_json E ubusx s else Some s);
     (if vhosts \<noteq> JNull then parse_vhosts_json E vhosts s else Some s)
   }"

definition parse_json_cfg :: "cfg_env \<Rightarrow> string \<Rightarrow> config \<Rightarrow> config option" where
  "parse_json_cfg E path s = do {
     (json, s) \<leftarrow> file_to_str E path s;
     (case Option.bind json (cg_tokener_parse E) of
        None \<Rightarrow> Some s
      | Some obj \<Rightarrow> parse_sections E obj s)
   }"

end
