(* ===== verification/Main_Options.thy ===== *)
theory Main_Options
  imports Config
begin

unbundle bit_operations_syntax

text \<open>
  The options of the command line and the making of the virtual hosts, \<open>main.c\<close>.
\<close>

section \<open>Numbers\<close>

text \<open>
  \<open>strtol(s, &error, 10)\<close>: white space, a sign and digits; the value is limited to the range of
  \<open>long\<close>, and the rest is the text behind the digits, or all of it when there are none. The
  assignment to an \<open>int\<close> keeps the low 32 bits.
\<close>

definition isspace :: "char \<Rightarrow> bool" where
  "isspace c \<longleftrightarrow> c = CHR '' '' \<or> 9 \<le> byte_of c \<and> byte_of c \<le> 13"

definition isdigit :: "char \<Rightarrow> bool" where
  "isdigit c \<longleftrightarrow> 48 \<le> byte_of c \<and> byte_of c \<le> 57"

definition digits_value :: "string \<Rightarrow> int" where
  "digits_value ds = foldl (\<lambda>n c. n * 10 + (int (byte_of c) - 48)) 0 ds"

definition strtol :: "string \<Rightarrow> int \<times> string" where
  "strtol s =
     (let t = dropWhile isspace s;
          neg = (t \<noteq> [] \<and> hd t = CHR ''-'');
          u = (if t \<noteq> [] \<and> (hd t = CHR ''-'' \<or> hd t = CHR ''+'') then tl t else t);
          ds = takeWhile isdigit u;
          v = (if neg then - digits_value ds else digits_value ds) in
      if ds = [] then (0, s)
      else (max (- (2 ^ 63)) (min (2 ^ 63 - 1) v), dropWhile isdigit u))"

definition to_int32 :: "int \<Rightarrow> int" where
  "to_int32 n = sint (word_of_int n :: 32 word)"

section \<open>Options\<close>

text \<open>How the loop goes on after an option.\<close>

datatype opt_outcome = Next | Exit int

definition set_global :: "(global_config \<Rightarrow> global_config) \<Rightarrow> config \<Rightarrow> config" where
  "set_global f s = s\<lparr>cf_global := f (cf_global s)\<rparr>"

definition opt_redirect :: "string \<Rightarrow> config \<Rightarrow> opt_outcome \<times> config" where
  "opt_redirect optarg s =
     (case split_colon optarg of
        None \<Rightarrow> (Exit 0, set_global (\<lambda>g. g\<lparr>g_redir_to := None\<rparr>) s)
      | Some (from, to) \<Rightarrow> (Next, set_global (\<lambda>g. g\<lparr>g_redir_to := Some to, g_redir_from := Some from\<rparr>) s))"

definition opt_cgi :: "string \<Rightarrow> config \<Rightarrow> opt_outcome \<times> config" where
  "opt_cgi optarg s =
     (case split_colon optarg of
        None \<Rightarrow> (Exit 0, set_global (\<lambda>g. g\<lparr>g_cgi_to := None\<rparr>) s)
      | Some (from, to) \<Rightarrow> (Next, set_global (\<lambda>g. g\<lparr>g_cgi_to := Some to, g_cgi_from := Some from\<rparr>) s))"

definition opt_maxage :: "string \<Rightarrow> config \<Rightarrow> opt_outcome \<times> config" where
  "opt_maxage optarg s =
     (let (secs, error) = strtol optarg in
      if error \<noteq> [] then (Exit 0, s)
      else (Next, set_global (\<lambda>g. g\<lparr>g_www_maxage := to_int32 secs\<rparr>) s))"

definition opt_port :: "cfg_env \<Rightarrow> string \<Rightarrow> config \<Rightarrow> (opt_outcome \<times> config) option" where
  "opt_port E optarg s =
     (let (rc, s) = new_vhinfo_list E s in
      if rc \<noteq> 0 then Some (Exit rc, s)
      else
        let (port, error) = strtol optarg in
        if error \<noteq> [] then Some (Exit rc, s)
        else map_option (Pair Next)
          (on_currvh (\<lambda>vh. upd_ctx (\<lambda>c. c\<lparr>vh_name := optarg\<rparr>) (upd_info (\<lambda>i. i\<lparr>vi_port := to_int32 port\<rparr>) vh)) s))"

definition opt_interface :: "cfg_env \<Rightarrow> string \<Rightarrow> config \<Rightarrow> (opt_outcome \<times> config) option" where
  "opt_interface E optarg s =
     (case cf_vhs s of
        [] \<Rightarrow> None
      | oldvh # _ \<Rightarrow>
          let set_iface = (\<lambda>s. map_option (Pair Next) (on_currvh (upd_info (\<lambda>i. i\<lparr>vi_iface := Some optarg\<rparr>)) s)) in
          if vi_iface (vh_info oldvh) \<noteq> None then
            let (rc, s) = new_vhinfo_list E s in
            if rc \<noteq> 0 then Some (Exit rc, s)
            else Option.bind
              (on_currvh (\<lambda>vh. upd_ctx (\<lambda>c. c\<lparr>vh_name := vh_name (vh_ctx oldvh)\<rparr>)
                 (upd_info (\<lambda>i. i\<lparr>vi_port := vi_port (vh_info oldvh)\<rparr>) vh)) s) set_iface
          else set_iface s)"

definition opt_str_list :: "cfg_env \<Rightarrow> (vh_context \<Rightarrow> vh_context) \<Rightarrow> config \<Rightarrow> (opt_outcome \<times> config) option" where
  "opt_str_list E add s =
     (let (ok, s) = malloc_cfg E s in
      if \<not> ok then Some (Next, s) else map_option (Pair Next) (on_currvh (upd_ctx add) s))"

definition opt_ipv6 :: "lws_vh_info \<Rightarrow> lws_vh_info" where
  "opt_ipv6 i =
     (if LWS_SERVER_OPTION_DISABLE_IPV6 \<in> vi_options i
      then i\<lparr>vi_options := vi_options i - {LWS_SERVER_OPTION_DISABLE_IPV6}\<rparr>
      else i\<lparr>vi_options := vi_options i \<union>
             {LWS_SERVER_OPTION_IPV6_V6ONLY_MODIFY, LWS_SERVER_OPTION_IPV6_V6ONLY_VALUE}\<rparr>)"

definition opt_tls :: "(lws_vh_info \<Rightarrow> lws_vh_info) \<Rightarrow> config \<Rightarrow> (opt_outcome \<times> config) option" where
  "opt_tls f s = do {
     s \<leftarrow> on_currvh (upd_info f) s;
     let s = set_any_ssl s;
     map_option (Pair Next)
       (on_currvh (upd_info (\<lambda>i. i\<lparr>vi_options := vi_options i \<union> {LWS_SERVER_OPTION_DO_SSL_GLOBAL_INIT}\<rparr>)) s)
   }"

definition opt_peer :: "cfg_env \<Rightarrow> string \<Rightarrow> config \<Rightarrow> opt_outcome \<times> config" where
  "opt_peer E optarg s =
     (case cg_parse_uri E optarg of
        None \<Rightarrow> (Exit 0, s)
      | Some (proto, addr, port, path) \<Rightarrow>
          if strncmp proto ''wss'' 4 \<noteq> 0 then (Exit 0, s)
          else (Next, add_peer E addr port path s))"

text \<open>
  One option: the letter \<open>getopt\<close> returns and \<open>optarg\<close>. The letters \<open>U\<close> and \<open>F\<close> have an argument or
  not, the others that use one always have it. \<^term>\<open>None\<close> is the run that goes wrong, above all the
  use of \<open>currvh\<close> when there is no virtual host.
\<close>

definition main_option :: "cfg_env \<Rightarrow> char \<Rightarrow> string option \<Rightarrow> config \<Rightarrow> (opt_outcome \<times> config) option" where
  "main_option E c arg s =
     (let optarg = (case arg of Some a \<Rightarrow> a | None \<Rightarrow> []); next_with = (\<lambda>s. Some (Next, s)) in
      if c = CHR ''s'' then next_with (set_global (\<lambda>g. g\<lparr>g_ubus_sock_path := optarg\<rparr>) s)
      else if c = CHR ''w'' then next_with (set_global (\<lambda>g. g\<lparr>g_www_dirpath := optarg\<rparr>) s)
      else if c = CHR ''t'' then Some (opt_maxage optarg s)
      else if c = CHR ''r'' then Some (opt_redirect optarg s)
      else if c = CHR ''m'' then Some (opt_cgi optarg s)
      else if c = CHR ''f'' then map_option (Pair Next) (parse_json_cfg E optarg s)
      else if c = CHR ''U'' then
        let s = upd_clients wsubus_client_enable_proxy (set_any_ssl s) in
        (case arg of None \<Rightarrow> next_with s | Some p \<Rightarrow> map_option (Pair Next) (add_pattern E p s))
      else if c = CHR ''F'' then
        (case arg of
           Some a \<Rightarrow> next_with (if strncmp a ''mac'' 4 = 0 then s\<lparr>cf_prefix_mac := True\<rparr> else s)
         | None \<Rightarrow> next_with s)
      else if c = CHR ''P'' then Some (opt_peer E optarg s)
      else if c = CHR ''C'' then next_with (upd_clients (wsubus_client_set_cert_filepath optarg) s)
      else if c = CHR ''K'' then next_with (upd_clients (wsubus_client_set_private_key_filepath optarg) s)
      else if c = CHR ''A'' then next_with (upd_clients (wsubus_client_set_ca_filepath optarg) s)
      else if c = CHR ''R'' then next_with (upd_clients (wsubus_client_set_rpcd_integration True) s)
      else if c = CHR ''p'' then opt_port E optarg s
      else if c = CHR ''i'' then opt_interface E optarg s
      else if c = CHR ''o'' then opt_str_list E (\<lambda>v. v\<lparr>vh_origins := vh_origins v @ [optarg]\<rparr>) s
      else if c = CHR ''O'' then
        map_option (Pair Next) (on_currvh (upd_ctx (\<lambda>v. v\<lparr>restrict_origins := False\<rparr>)) s)
      else if c = CHR ''u'' then opt_str_list E (\<lambda>v. v\<lparr>vh_users := vh_users v @ [optarg]\<rparr>) s
      else if c = CHR ''L'' then map_option (Pair Next) (on_currvh (upd_ctx (\<lambda>v. v\<lparr>vh_name := optarg\<rparr>)) s)
      else if c = CHR ''6'' then map_option (Pair Next) (on_currvh (upd_info opt_ipv6) s)
      else if c = CHR ''c'' then opt_tls (\<lambda>i. i\<lparr>vi_ssl_cert := Some optarg\<rparr>) s
      else if c = CHR ''k'' then opt_tls (\<lambda>i. i\<lparr>vi_ssl_key := Some optarg\<rparr>) s
      else if c = CHR ''a'' then opt_tls (\<lambda>i. i\<lparr>vi_ssl_ca := Some optarg\<rparr>) s
      else if c = CHR ''X'' then
        next_with (s\<lparr>cf_acl := ubusx_acl__add_objects olist_ops (cg_node_alloc E) (cf_acl s) (Some optarg)\<rparr>)
      else if c = CHR ''T'' then next_with (set_retry_timeout (to_int32 (fst (strtol optarg))) s)
      else if c = CHR ''h'' then Some (Exit 0, s)
      else Some (Exit (-2), s))"

fun main_options :: "cfg_env \<Rightarrow> (char \<times> string option) list \<Rightarrow> config \<Rightarrow> (opt_outcome \<times> config) option" where
  "main_options E [] s = Some (Next, s)"
| "main_options E ((c, arg) # opts) s = do {
     (r, s) \<leftarrow> main_option E c arg s;
     (case r of Exit rc \<Rightarrow> Some (Exit rc, s) | Next \<Rightarrow> main_options E opts s)
   }"

definition init_config :: "string \<Rightarrow> string \<Rightarrow> int \<Rightarrow> config" where
  "init_config ubus_path www_path www_maxage =
     \<lparr>cf_global = \<lparr>g_ubus_sock_path = ubus_path, g_www_dirpath = www_path, g_www_maxage = www_maxage,
        g_redir_from = None, g_redir_to = None, g_cgi_from = None, g_cgi_to = None, g_any_ssl = False\<rparr>,
      cf_vhs = [], cf_clients = init_clients, cf_paths = [], cf_acl = [], cf_prefix_mac = False, cf_allocs = 0\<rparr>"

section \<open>Virtual hosts\<close>

definition contains_substring :: "string \<Rightarrow> string \<Rightarrow> nat" where
  "contains_substring a b = (if strncmp a b (length b) = 0 then length b else 0)"

text \<open>
  The offset is the bitwise or of the two lengths; a name cannot begin with both. \<open>made\<close> is what
  libwebsockets was given: the name, the creation info, and the context its private data points to.
\<close>

type_synonym made_vhost = "lws_vh_info \<times> vh_context"

record vhost_env =
  ve_malloc :: "nat \<Rightarrow> bool"
  ve_create :: "lws_vh_info \<Rightarrow> bool"
  ve_zalloc :: "lws_vh_info \<Rightarrow> bool"

record vhost_state =
  vs_made :: "made_vhost list"
  vs_origins :: "vhinfo list"
  vs_allocs :: nat

definition create_vhost ::
    "vhost_env \<Rightarrow> lws_vh_info \<Rightarrow> vh_context \<Rightarrow> string \<Rightarrow> vhost_state \<Rightarrow> (int \<times> vhost_state) option" where
  "create_vhost V info ctx name st =
     (let offset = contains_substring name ''http://'' OR contains_substring name ''https://'';
          info = info\<lparr>vi_vhost_name := Some (drop offset name)\<rparr> in
      if \<not> ve_create V info then Some (-1, st)
      else if \<not> ve_zalloc V info then None
      else Some (0, st\<lparr>vs_made := vs_made st @ [(info, ctx)]\<rparr>))"

definition malloc_vhost :: "vhost_env \<Rightarrow> vhost_state \<Rightarrow> bool \<times> vhost_state" where
  "malloc_vhost V st = (ve_malloc V (vs_allocs st), st\<lparr>vs_allocs := vs_allocs st + 1\<rparr>)"

fun copy_strings :: "vhost_env \<Rightarrow> string list \<Rightarrow> vhost_state \<Rightarrow> string list \<times> vhost_state" where
  "copy_strings V [] st = ([], st)"
| "copy_strings V (x # xs) st =
     (let (ok, st) = malloc_vhost V st; (ys, st) = copy_strings V xs st in
      (if ok then x # ys else ys, st))"

definition copy_vhinfo_list :: "vhost_env \<Rightarrow> vhinfo \<Rightarrow> vhost_state \<Rightarrow> int \<times> vhost_state" where
  "copy_vhinfo_list V orig st =
     (let (ok, st) = malloc_vhost V st in
      if \<not> ok then (-1, st)
      else
        let (users, st) = copy_strings V (vh_users (vh_ctx orig)) st;
            (origins, st) = copy_strings V (vh_origins (vh_ctx orig)) st;
            newvh = \<lparr>vh_info = vh_info orig,
              vh_ctx = \<lparr>vh_origins = origins, vh_users = users, vh_name = vh_name (vh_ctx orig),
                restrict_origins = restrict_origins (vh_ctx orig)\<rparr>\<rparr> in
        (0, st\<lparr>vs_origins := newvh # vs_origins st\<rparr>))"

fun origin_vhosts :: "vhost_env \<Rightarrow> vhinfo \<Rightarrow> string list \<Rightarrow> vhost_state \<Rightarrow> vhost_state option" where
  "origin_vhosts V c [] st = Some st"
| "origin_vhosts V c (origin # os) st =
     (let (rc, st) = copy_vhinfo_list V c st in
      if rc \<noteq> 0 then origin_vhosts V c os st
      else
        (case vs_origins st of
           [] \<Rightarrow> None
         | vh # _ \<Rightarrow> do {
             (rc, st) \<leftarrow> create_vhost V (vh_info vh) (vh_ctx vh) origin st;
             origin_vhosts V c os st
           }))"

text \<open>The creation info of an entry with the flags for client certificates.\<close>

definition vhost_cert_options :: "lws_vh_info \<Rightarrow> lws_vh_info" where
  "vhost_cert_options i =
     (if vi_ssl_ca i \<noteq> None
      then i\<lparr>vi_options := vi_options i \<union> {LWS_SERVER_OPTION_PEER_CERT_NOT_REQUIRED,
             LWS_SERVER_OPTION_REQUIRE_VALID_OPENSSL_CLIENT_CERT}\<rparr>
      else i)"

fun make_vhosts :: "vhost_env \<Rightarrow> vhinfo list \<Rightarrow> vhost_state \<Rightarrow> vhost_state option" where
  "make_vhosts V [] st = Some st"
| "make_vhosts V (c # cs) st = do {
     let c = c\<lparr>vh_info := vhost_cert_options (vh_info c)\<rparr>;
     (_, st) \<leftarrow> create_vhost V (vh_info c) (vh_ctx c) ''default'' st;
     st \<leftarrow> origin_vhosts V c (vh_origins (vh_ctx c)) st;
     make_vhosts V cs st
   }"

end
