(* ===== verification/Config_Inv.thy ===== *)
theory Config_Inv
  imports Main_Options Client_Inv
begin

text \<open>
  What the configuration leaves for the parts of the program: the invariant of the client manager,
  patterns and access list in order, a positive time-out, and a redirection that has a target. And
  what the virtual hosts of a file and of libwebsockets are.
\<close>

section \<open>Patterns and access list\<close>

abbreviation paths_ok :: "string list \<Rightarrow> bool" where
  "paths_ok \<equiv> ordered_keys client_path_comp"

abbreviation acl_ok :: "string list \<Rightarrow> bool" where
  "acl_ok \<equiv> ordered_keys ubus_object_path_compare"

lemma olist_keys [simp]: "avl_keys olist_ops t = t"
  by (simp add: olist_ops_def)

lemma pattern_add_ordered:
  assumes "paths_ok t" "wsubus_client_path_pattern_add olist_ops a b t p = Some (Some t')"
  shows "paths_ok t'"
proof (cases "a \<and> b \<and> \<not> (p = [] \<and> [] \<in> set t)")
  case True
  then obtain i u where u: "pattern_mute_loop olist_ops t p = Some (Some (i, u))" "paths_ok u"
    "i \<longrightarrow> (\<forall>x\<in>set u. client_path_comp p x \<noteq> 0)"
    using pattern_mute_loop_correct [OF olist_path.avl_spec_axioms, of t p] assms(1) by auto
  then show ?thesis
    using True assms(2) olist_path.insert_new [of u p]
    by (cases "avl_insert olist_ops client_path_comp u p")
      (auto simp: wsubus_client_path_pattern_add_def split: if_splits)
next
  case False
  have "pattern_mute_loop olist_ops t p = Some None" if "p = []" "[] \<in> set t"
  proof -
    have "\<exists>x\<in>set t. client_path_comp [] x = 0"
      using that(2) path_order.comp_refl by blast
    then obtain x where "avl_find olist_ops client_path_comp t [] = Some x"
      using olist_path.find_iff [of t "[]"] assms(1) by auto
    then show ?thesis
      using that by (subst pattern_mute_loop.simps) (simp add: broader_pattern_def)
  qed
  then show ?thesis
    using False assms by (auto simp: wsubus_client_path_pattern_add_def split: if_splits)
qed

lemma pattern_add_returns:
  assumes "paths_ok t" "p \<noteq> []"
  shows "\<exists>t'. wsubus_client_path_pattern_add olist_ops a b t p = Some (Some t')"
proof -
  obtain i u where "pattern_mute_loop olist_ops t p = Some (Some (i, u))"
    using pattern_mute_loop_correct [OF olist_path.avl_spec_axioms, of t p] assms by auto
  then show ?thesis by (simp add: wsubus_client_path_pattern_add_def)
qed

lemma acl_add_ordered: "acl_ok t \<Longrightarrow> acl_ok (ubusx_acl__add_object olist_ops a b t obj)"
  using olist_acl.insert_new [of t "before_arrow obj"] olist_acl.insert_dup [of t _ "before_arrow obj"]
  by (cases "avl_insert olist_ops ubus_object_path_compare t (before_arrow obj)")
    (fastforce simp: ubusx_acl__add_object_def Let_def)

lemma acl_adds_ordered: "acl_ok t \<Longrightarrow> acl_ok (ubusx_acl__add_objects olist_ops al t objs)"
proof -
  have "acl_ok t \<Longrightarrow> acl_ok (foldl (\<lambda>t obj. ubusx_acl__add_object olist_ops (fst (al obj)) (snd (al obj)) t obj) t os)"
    for os by (induction os arbitrary: t) (simp_all add: acl_add_ordered)
  then show "acl_ok t \<Longrightarrow> ?thesis"
    by (simp add: ubusx_acl__add_objects_def split: option.split)
qed

section \<open>The invariant\<close>

definition redir_ok :: "global_config \<Rightarrow> bool" where
  "redir_ok g \<longleftrightarrow> g_redir_from g \<noteq> None \<longrightarrow> g_redir_to g \<noteq> None"

definition cfg_inv :: "config \<Rightarrow> bool" where
  "cfg_inv s \<longleftrightarrow> cl_inv (cf_clients s) \<and> 0 < cl_retry_timeout (cf_clients s) \<and> paths_ok (cf_paths s) \<and>
     acl_ok (cf_acl s) \<and> redir_ok (cf_global s)"

lemma cfg_inv_frame [simp]:
  "cfg_inv (s\<lparr>cf_allocs := n\<rparr>) = cfg_inv s" "cfg_inv (s\<lparr>cf_vhs := v\<rparr>) = cfg_inv s"
  "cfg_inv (s\<lparr>cf_prefix_mac := b\<rparr>) = cfg_inv s"
  "cfg_inv (s\<lparr>cf_global := (cf_global s)\<lparr>g_any_ssl := b\<rparr>\<rparr>) = cfg_inv s"
  "cfg_inv (s\<lparr>cf_global := (cf_global s)\<lparr>g_ubus_sock_path := p\<rparr>\<rparr>) = cfg_inv s"
  "cfg_inv (s\<lparr>cf_global := (cf_global s)\<lparr>g_www_dirpath := p\<rparr>\<rparr>) = cfg_inv s"
  "cfg_inv (s\<lparr>cf_global := (cf_global s)\<lparr>g_www_maxage := i\<rparr>\<rparr>) = cfg_inv s"
  by (simp_all add: cfg_inv_def redir_ok_def)

lemma malloc_cfg_inv [simp]: "cfg_inv (snd (malloc_cfg E s)) = cfg_inv s"
  "cf_vhs (snd (malloc_cfg E s)) = cf_vhs s"
  by (simp_all add: malloc_cfg_def)

lemma on_currvh_inv [simp]: "cfg_inv s \<Longrightarrow> wp (on_currvh f s) cfg_inv"
  by (simp add: on_currvh_def split: list.split)

lemma new_vhinfo_inv [simp]: "cfg_inv (snd (new_vhinfo_list E s)) = cfg_inv s"
  by (simp add: new_vhinfo_list_def case_prod_beta Let_def)

lemma set_any_ssl_inv [simp]: "cfg_inv (set_any_ssl s) = cfg_inv s"
  by (simp add: set_any_ssl_def)

lemma retry_inv [simp]: "cfg_inv s \<Longrightarrow> cfg_inv (set_retry_timeout t s)"
  by (simp add: set_retry_timeout_def upd_clients_def cfg_inv_def cl_inv_def)

lemma client_setters_inv [simp]:
  "cfg_inv (upd_clients (wsubus_client_set_cert_filepath p) s) = cfg_inv s"
  "cfg_inv (upd_clients (wsubus_client_set_private_key_filepath p) s) = cfg_inv s"
  "cfg_inv (upd_clients (wsubus_client_set_ca_filepath p) s) = cfg_inv s"
  "cfg_inv (upd_clients (wsubus_client_set_rpcd_integration b) s) = cfg_inv s"
  "cfg_inv (upd_clients wsubus_client_enable_proxy s) = cfg_inv s"
  "cfg_inv (upd_clients (wsubus_client_set_ca_filepath p \<circ> wsubus_client_set_private_key_filepath q \<circ>
     wsubus_client_set_cert_filepath r) s) = cfg_inv s"
  by (simp_all add: upd_clients_def cfg_inv_def cl_inv_def wsubus_client_set_cert_filepath_def
      wsubus_client_set_private_key_filepath_def wsubus_client_set_ca_filepath_def
      wsubus_client_set_rpcd_integration_def wsubus_client_enable_proxy_def)

text \<open>Every step keeps the invariant, so a sequence of steps does.\<close>

lemma wp_inv_bind:
  "wp k cfg_inv \<Longrightarrow> (\<And>y. cfg_inv y \<Longrightarrow> wp (f y) Q) \<Longrightarrow> wp (Option.bind k f) Q"
  by (auto simp: wp_def bind_conv)

lemma append_origins_loop_inv: "cfg_inv s \<Longrightarrow> wp (append_origins_loop E es s) (\<lambda>r. cfg_inv (snd r))"
  by (induction es arbitrary: s)
    (auto simp: case_prod_beta Let_def simp del: wp_simps(3) intro!: wp_inv_bind)

lemma append_origins_inv: "cfg_inv s \<Longrightarrow> wp (append_origins E arg s) (\<lambda>r. cfg_inv (snd r))"
  by (cases arg) (simp_all add: append_origins_def append_origins_loop_inv)

lemma append_users_inv: "cfg_inv s \<Longrightarrow> wp (append_users_loop E es s) cfg_inv"
  by (induction es arbitrary: s)
    (auto simp: case_prod_beta Let_def simp del: wp_simps(3) intro!: wp_inv_bind)

lemma vhost_acl_inv [simp]: "cfg_inv s \<Longrightarrow> cfg_inv (vhost_acl E obj s)"
  by (simp add: vhost_acl_def cfg_inv_def acl_adds_ordered Let_def)

lemma vhost_tls_inv: "cfg_inv s \<Longrightarrow> wp (vhost_tls E obj s) cfg_inv"
  by (simp add: vhost_tls_def Let_def)

lemma create_vhost_by_json_inv: "cfg_inv s \<Longrightarrow> wp (create_vhost_by_json E key obj s) (\<lambda>r. cfg_inv (snd r))"
  unfolding create_vhost_by_json_def Let_def case_prod_beta
  by (auto simp del: wp_simps(3) simp: append_origins_inv intro!: wp_inv_bind vhost_tls_inv
      split: json.split intro: append_users_inv)

lemma create_vhosts_inv: "cfg_inv s \<Longrightarrow> wp (create_vhosts E key es s) cfg_inv"
proof (induction es arbitrary: s)
  case (Cons e es)
  then show ?case
    by (auto simp: case_prod_beta intro!: wp_mono [OF create_vhost_by_json_inv])
qed simp

lemma create_listeners_inv: "cfg_inv s \<Longrightarrow> wp (create_listeners E fs s) cfg_inv"
proof (induction fs arbitrary: s)
  case (Cons f fs)
  then show ?case
    by (cases f; cases "snd f") (auto simp del: wp_simps(3) intro!: wp_inv_bind create_vhosts_inv)
qed simp

lemma parse_vhosts_inv: "cfg_inv s \<Longrightarrow> wp (parse_vhosts_json E vhosts s) cfg_inv"
  by (cases vhosts) (simp_all add: parse_vhosts_json_def create_listeners_inv)

text \<open>A file whose \<open>redirect\<close> has no colon is the one case that can break the redirection.\<close>

definition redirect_has_target :: "cfg_env \<Rightarrow> json \<Rightarrow> bool" where
  "redirect_has_target E obj \<longleftrightarrow>
     (let arg = json_field (json_field obj ''global'') ''redirect'' in
      arg \<noteq> JNull \<longrightarrow> CHR '':'' \<in> set (cg_get_string E arg))"

lemma parse_global_inv:
  assumes "cfg_inv s" "let arg = json_field g ''redirect'' in arg \<noteq> JNull \<longrightarrow> CHR '':'' \<in> set (cg_get_string E arg)"
  shows "cfg_inv (parse_global_json E g s)"
  using assms by (auto simp: parse_global_json_def cfg_inv_def redir_ok_def set_redirect_def split_colon_def Let_def)

lemma add_pattern_inv: "cfg_inv s \<Longrightarrow> wp (add_pattern E p s) cfg_inv"
  by (auto simp: add_pattern_def wp_def bind_conv cfg_inv_def intro: pattern_add_ordered)

lemma add_patterns_inv: "cfg_inv s \<Longrightarrow> wp (add_patterns E es s) cfg_inv"
  by (induction es arbitrary: s) (auto simp del: wp_simps(3) intro!: wp_inv_bind add_pattern_inv)

lemma create_retry: "cl_retry_timeout (snd (wsubus_client_create E a port p ty cs)) = cl_retry_timeout cs"
  by (auto simp: wsubus_client_create_def wsubus_client_enable_proxy_def Let_def split: option.split)

lemma add_peer_inv: "cl_env_ok (cg_cl E) \<Longrightarrow> cfg_inv s \<Longrightarrow> cfg_inv (add_peer E addr port path s)"
  using create_inv [of "cf_clients s" "cg_cl E" "Some addr" port "Some path" CLIENT_FROM_PROGARG]
  by (auto simp: add_peer_def upd_clients_def set_any_ssl_def cfg_inv_def redir_ok_def create_retry)

lemma add_peers_inv: "cl_env_ok (cg_cl E) \<Longrightarrow> cfg_inv s \<Longrightarrow> cfg_inv (add_peers E es s)"
  by (induction es arbitrary: s) (auto simp: add_peer_inv split: option.split)

lemma if_cfg_inv: "(b \<Longrightarrow> cfg_inv x) \<Longrightarrow> (\<not> b \<Longrightarrow> cfg_inv y) \<Longrightarrow> cfg_inv (if b then x else y)"
  by simp

lemma parse_ubusx_inv: "cl_env_ok (cg_cl E) \<Longrightarrow> cfg_inv s \<Longrightarrow> wp (parse_ubusx_json E u s) cfg_inv"
  unfolding parse_ubusx_json_def Let_def
proof (intro wp_inv_bind, goal_cases)
  case 1
  then show ?case by (cases "json_field u ''object''") (simp_all add: add_patterns_inv)
next
  case (2 t)
  then show ?case by (cases "json_field u ''peer''") (simp_all add: add_peers_inv)
next
  case (3 t v)
  then show ?case
    unfolding wp_simps(2) by (intro if_cfg_inv retry_inv) simp_all
qed

lemma parse_sections_inv:
  assumes "cl_env_ok (cg_cl E)" "cfg_inv s" "redirect_has_target E obj"
  shows "wp (parse_sections E obj s) cfg_inv"
proof -
  have "cfg_inv (if json_field obj ''global'' \<noteq> JNull then parse_global_json E (json_field obj ''global'') s else s)"
    using assms(2,3) parse_global_inv by (auto simp: redirect_has_target_def)
  then show ?thesis
    unfolding parse_sections_def Let_def
    by (intro wp_inv_bind) (simp_all add: parse_ubusx_inv [OF assms(1)] parse_vhosts_inv)
qed

lemma parse_json_cfg_inv:
  assumes "cl_env_ok (cg_cl E)" "cfg_inv s"
    and "\<And>t obj. cg_tokener_parse E t = Some obj \<Longrightarrow> redirect_has_target E obj"
  shows "wp (parse_json_cfg E path s) cfg_inv"
proof -
  have "wp (file_to_str E path s) (\<lambda>r. cfg_inv (snd r))"
    using assms(2) by (auto simp: file_to_str_def case_prod_beta Let_def split: option.split)
  then show ?thesis
    unfolding parse_json_cfg_def case_prod_beta wp_simps(3)
    by (rule wp_mono) (auto simp: bind_conv split: option.split intro: parse_sections_inv [OF assms(1)] assms(3))
qed

section \<open>Options\<close>

lemma opt_next_inv: "cfg_inv s \<Longrightarrow> wp (map_option (Pair Next) (on_currvh f s)) (\<lambda>r. cfg_inv (snd r))"
  by simp

lemma opt_inv:
  assumes "cfg_inv s"
  shows "cfg_inv (snd (opt_maxage a s))" "cfg_inv (snd (opt_cgi a s))"
    "wp (opt_port E a s) (\<lambda>r. cfg_inv (snd r))" "wp (opt_interface E a s) (\<lambda>r. cfg_inv (snd r))"
    "wp (opt_str_list E f s) (\<lambda>r. cfg_inv (snd r))" "wp (opt_tls h s) (\<lambda>r. cfg_inv (snd r))"
    "cl_env_ok (cg_cl E) \<Longrightarrow> cfg_inv (snd (opt_peer E a s))"
    "opt_redirect a s = (Next, s') \<Longrightarrow> cfg_inv s'"
  subgoal using assms by (simp add: opt_maxage_def set_global_def case_prod_beta)
  subgoal using assms by (auto simp: opt_cgi_def set_global_def cfg_inv_def redir_ok_def split: option.split)
  subgoal using assms by (simp add: opt_port_def case_prod_beta Let_def)
  subgoal using assms
    by (auto simp: opt_interface_def case_prod_beta Let_def simp del: wp_simps(3)
        intro!: wp_inv_bind split: list.split)
  subgoal using assms by (simp add: opt_str_list_def case_prod_beta)
  subgoal using assms by (auto simp: opt_tls_def simp del: wp_simps(3) intro!: wp_inv_bind)
  subgoal using assms by (auto simp: opt_peer_def add_peer_inv split: option.split)
  subgoal using assms by (auto simp: opt_redirect_def set_global_def cfg_inv_def redir_ok_def split: option.splits)
  done

lemma main_option_inv:
  assumes "cl_env_ok (cg_cl E)" "\<And>t obj. cg_tokener_parse E t = Some obj \<Longrightarrow> redirect_has_target E obj" "cfg_inv s"
  shows "wp (main_option E c arg s) (\<lambda>r. fst r = Next \<longrightarrow> cfg_inv (snd r))"
proof -
  have one: "wp m (\<lambda>r. cfg_inv (snd r)) \<Longrightarrow> wp m (\<lambda>r. fst r = Next \<longrightarrow> cfg_inv (snd r))" for m :: "(opt_outcome \<times> config) option"
    by (auto elim: wp_mono)
  have red: "fst (opt_redirect a s) = Next \<longrightarrow> cfg_inv (snd (opt_redirect a s))" for a
    using opt_inv(8) [OF assms(3)] by (metis prod.collapse)
  have acl: "cfg_inv (s\<lparr>cf_acl := ubusx_acl__add_objects olist_ops al (cf_acl s) x\<rparr>)" for al x
    using assms(3) by (simp add: cfg_inv_def acl_adds_ordered)
  show ?thesis
    unfolding main_option_def Let_def
    by (simp add: assms(3) one opt_inv opt_inv(7) [OF assms(3,1)] red acl set_global_def
        parse_json_cfg_inv [OF assms(1,3,2)] add_pattern_inv split: option.split)
qed

lemma main_options_inv:
  assumes "cl_env_ok (cg_cl E)" "\<And>t obj. cg_tokener_parse E t = Some obj \<Longrightarrow> redirect_has_target E obj" "cfg_inv s"
  shows "wp (main_options E opts s) (\<lambda>r. fst r = Next \<longrightarrow> cfg_inv (snd r))"
  using assms(3)
proof (induction opts arbitrary: s)
  case (Cons x opts)
  show ?case
    by (cases x) (auto simp: case_prod_beta Cons.IH split: opt_outcome.split
        intro!: wp_mono [OF main_option_inv [OF assms(1,2) Cons.prems]])
qed simp

section \<open>Options that are handled without a null pointer\<close>

text \<open>\<open>returns m Q\<close>: the computation returns, and its result satisfies \<open>Q\<close>.\<close>

definition returns :: "'a option \<Rightarrow> ('a \<Rightarrow> bool) \<Rightarrow> bool" where
  "returns m Q \<longleftrightarrow> (\<exists>x. m = Some x \<and> Q x)"

lemma returns_simps [simp]:
  "\<not> returns None Q" "returns (Some x) Q = Q x" "returns (map_option g l) Q = returns l (\<lambda>z. Q (g z))"
  by (auto simp: returns_def)

lemma returns_bind: "returns k P \<Longrightarrow> (\<And>y. P y \<Longrightarrow> returns (f y) Q) \<Longrightarrow> returns (Option.bind k f) Q"
  by (auto simp: returns_def)

lemma returns_mono: "returns k P \<Longrightarrow> (\<And>y. P y \<Longrightarrow> Q y) \<Longrightarrow> returns k Q"
  by (auto simp: returns_def)

text \<open>The patterns are in order, and with \<open>b\<close> there is a virtual host.\<close>

definition at_host :: "bool \<Rightarrow> config \<Rightarrow> bool" where
  "at_host b s \<longleftrightarrow> paths_ok (cf_paths s) \<and> (b \<longrightarrow> cf_vhs s \<noteq> [])"

lemma at_host_frame [simp]:
  "at_host b (s\<lparr>cf_allocs := n\<rparr>) = at_host b s" "at_host b (s\<lparr>cf_global := g\<rparr>) = at_host b s"
  "at_host b (s\<lparr>cf_acl := t\<rparr>) = at_host b s" "at_host b (s\<lparr>cf_prefix_mac := m\<rparr>) = at_host b s"
  "at_host b (upd_clients f s) = at_host b s" "at_host b (set_any_ssl s) = at_host b s"
  "at_host b (set_global h s) = at_host b s" "at_host b (set_retry_timeout i s) = at_host b s"
  "at_host b (snd (malloc_cfg E s)) = at_host b s" "at_host b (vhost_acl E obj s) = at_host b s"
  "at_host b (add_peer E a p q s) = at_host b s" "at_host b (parse_global_json E j s) = at_host b s"
  by (simp_all add: at_host_def upd_clients_def set_any_ssl_def set_global_def set_retry_timeout_def
      malloc_cfg_def vhost_acl_def add_peer_def parse_global_json_def Let_def)

lemma at_host_weaken: "at_host True s \<Longrightarrow> at_host b s"
  by (simp add: at_host_def)

lemma on_currvh_returns: "at_host True s \<Longrightarrow> returns (on_currvh f s) (at_host True)"
  by (cases "cf_vhs s") (simp_all add: on_currvh_def at_host_def)

lemma new_vhinfo_at: "at_host b s \<Longrightarrow> new_vhinfo_list E s = (rc, s') \<Longrightarrow> at_host b s' \<and> (rc = 0 \<longrightarrow> at_host True s')"
  by (auto simp: new_vhinfo_list_def malloc_cfg_def at_host_def Let_def split: if_splits)

lemma append_origins_returns:
  "at_host True s \<Longrightarrow> returns (append_origins E arg s) (\<lambda>r. at_host True (snd r))"
proof -
  have "at_host True s \<Longrightarrow> returns (append_origins_loop E es s) (\<lambda>r. at_host True (snd r))" for es
    by (induction es arbitrary: s) (auto simp: case_prod_beta Let_def intro!: returns_bind [OF on_currvh_returns])
  then show "at_host True s \<Longrightarrow> ?thesis" by (cases arg) (simp_all add: append_origins_def)
qed

lemma append_users_returns: "at_host True s \<Longrightarrow> returns (append_users_loop E es s) (at_host True)"
  by (induction es arbitrary: s) (auto simp: case_prod_beta Let_def intro!: returns_bind [OF on_currvh_returns])

lemma vhost_tls_returns: "at_host True s \<Longrightarrow> returns (vhost_tls E obj s) (at_host True)"
  by (simp add: vhost_tls_def Let_def on_currvh_returns)

lemma create_vhost_by_json_returns:
  assumes "at_host b s"
  shows "returns (create_vhost_by_json E key obj s) (\<lambda>r. at_host b (snd r))"
proof -
  obtain rc t where t: "new_vhinfo_list E s = (rc, t)" by fastforce
  note at = new_vhinfo_at [OF assms t]
  have "returns (append_origins E arg u) (\<lambda>r. at_host True (snd r))" if "at_host True u" for arg u
    using that by (rule append_origins_returns)
  then show ?thesis
    unfolding create_vhost_by_json_def Let_def t case_prod_conv
    using assms at
    by (auto intro!: returns_bind [where P = "at_host True"] on_currvh_returns vhost_tls_returns
        intro: at_host_weaken append_users_returns split: json.split)
qed

lemma create_vhosts_returns: "at_host b s \<Longrightarrow> returns (create_vhosts E key es s) (at_host b)"
  by (induction es arbitrary: s)
    (auto simp: case_prod_beta intro!: returns_bind [OF create_vhost_by_json_returns])

lemma create_listeners_returns: "at_host b s \<Longrightarrow> returns (create_listeners E fs s) (at_host b)"
proof (induction fs arbitrary: s)
  case (Cons f fs)
  then show ?case
    by (cases f; cases "snd f") (auto intro!: returns_bind [OF create_vhosts_returns])
qed simp

lemma add_pattern_returns: "at_host b s \<Longrightarrow> p \<noteq> [] \<Longrightarrow> returns (add_pattern E p s) (at_host b)"
  using pattern_add_returns [of "cf_paths s" p "fst (cg_node_alloc E p)" "snd (cg_node_alloc E p)"]
    pattern_add_ordered [of "cf_paths s" "fst (cg_node_alloc E p)" "snd (cg_node_alloc E p)" p]
  by (auto simp: add_pattern_def at_host_def)

lemma add_patterns_returns:
  "at_host b s \<Longrightarrow> \<forall>e\<in>set es. e \<noteq> JNull \<longrightarrow> cg_get_string E e \<noteq> [] \<Longrightarrow> returns (add_patterns E es s) (at_host b)"
  by (induction es arbitrary: s) (auto intro!: returns_bind [OF add_pattern_returns])

lemma add_peers_at [simp]: "at_host b (add_peers E es s) = at_host b s"
  by (induction es arbitrary: s) (auto split: option.split)

text \<open>
  A file that can be handled: its \<open>peer\<close> is an array, its \<open>owsd-listen\<close> an object, and none of its
  patterns is empty.
\<close>

definition json_cfg_ok :: "cfg_env \<Rightarrow> json \<Rightarrow> bool" where
  "json_cfg_ok E obj \<longleftrightarrow>
     (let u = json_field obj ''ubusproxy'' in
      (\<forall>es. json_field u ''object'' = JArray es \<longrightarrow> (\<forall>e\<in>set es. e \<noteq> JNull \<longrightarrow> cg_get_string E e \<noteq> [])) \<and>
      (json_field u ''peer'' = JNull \<or> is_array (json_field u ''peer''))) \<and>
     (json_field obj ''owsd-listen'' = JNull \<or> is_object (json_field obj ''owsd-listen''))"

lemma parse_ubusx_returns:
  assumes "at_host b s" "\<forall>es. json_field u ''object'' = JArray es \<longrightarrow> (\<forall>e\<in>set es. e \<noteq> JNull \<longrightarrow> cg_get_string E e \<noteq> [])"
    and "json_field u ''peer'' = JNull \<or> is_array (json_field u ''peer'')"
  shows "returns (parse_ubusx_json E u s) (at_host b)"
  unfolding parse_ubusx_json_def Let_def
proof (intro returns_bind [where P = "at_host b"], goal_cases)
  case 1
  then show ?case
    using assms(1,2) by (cases "json_field u ''object''") (simp_all add: add_patterns_returns)
next
  case (2 t)
  then show ?case using assms(3) by (cases "json_field u ''peer''") simp_all
next
  case (3 t v)
  then show ?case by simp
qed

lemma parse_json_cfg_returns:
  assumes "at_host b s" "\<And>n. cg_malloc E n" "\<And>t obj. cg_tokener_parse E t = Some obj \<Longrightarrow> json_cfg_ok E obj"
  shows "returns (parse_json_cfg E path s) (at_host b)"
proof -
  have "returns (parse_sections E obj t) (at_host b)" if "json_cfg_ok E obj" "at_host b t" for obj t
    unfolding parse_sections_def Let_def
  proof (intro returns_bind [where P = "at_host b"], goal_cases)
    case 1
    then show ?case using that by (simp add: json_cfg_ok_def Let_def parse_ubusx_returns)
  next
    case (2 u)
    then show ?case
      using that by (cases "json_field obj ''owsd-listen''")
        (simp_all add: json_cfg_ok_def parse_vhosts_json_def create_listeners_returns)
  qed
  moreover have "returns (file_to_str E path s) (\<lambda>r. at_host b (snd r))"
    using assms(1,2) by (auto simp: file_to_str_def malloc_cfg_def split: option.split)
  ultimately show ?thesis
    unfolding parse_json_cfg_def case_prod_beta
    by (intro returns_bind [where P = "\<lambda>r. at_host b (snd r)"])
      (auto simp: bind_conv assms(3) split: option.split)
qed

end
