(* ===== verification/Config_Properties.thy ===== *)
theory Config_Properties
  imports Config_Inv
begin

unbundle bit_operations_syntax

text \<open>
  The properties of the configuration: the command line is handled without a null pointer when the
  options come in the right order, it leaves every part of the program in a state that part accepts,
  the \<open>owsd-listen\<close> section becomes exactly the virtual hosts it asks for, and libwebsockets is
  given exactly these, once more for every origin.
\<close>

section \<open>An instance\<close>

definition demo_listen :: json where
  "demo_listen = JObject
     [(''lan'', JArray [JObject [(''port'', JInt 80), (''interface'', JString ''br-lan''),
        (''origin'', JArray [JString ''http://router'', JNull]), (''restrict_to_user'', JArray [JString ''admin''])],
        JNull, JObject [(''port'', JInt 81)]]),
      (''note'', JString ''x'')]"

definition demo_cfg :: "json option \<Rightarrow> cfg_env" where
  "demo_cfg parsed =
     \<lparr>cg_get_string = (\<lambda>j. case j of JString t \<Rightarrow> t | _ \<Rightarrow> ''?''),
      cg_get_int = (\<lambda>j. case j of JInt i \<Rightarrow> i | _ \<Rightarrow> 0),
      cg_get_boolean = (\<lambda>j. case j of JBool b \<Rightarrow> b | _ \<Rightarrow> False),
      cg_parse_uri = (\<lambda>u. None), cg_malloc = (\<lambda>n. True),
      cg_cl = \<lparr>cl_lib = undefined, cl_alloc = (\<lambda>_. True), inet_pton = (\<lambda>v6 a. False),
        lws_client_connect_via_info = (\<lambda>i. Failed), lws_create_vhost = None\<rparr>,
      cg_node_alloc = (\<lambda>p. (True, True)), cg_file = (\<lambda>f. Some (2, ''{}'')),
      cg_tokener_parse = (\<lambda>t. parsed)\<rparr>"

section \<open>The command line\<close>

abbreviation vhost_options :: string where
  "vhost_options \<equiv> ''ioOuL6cka''"

lemma opt_returns:
  assumes "at_host True s"
  shows "returns (opt_interface E a s) (\<lambda>r. at_host True (snd r))"
    "returns (opt_str_list E f s) (\<lambda>r. at_host True (snd r))"
    "returns (opt_tls h s) (\<lambda>r. at_host True (snd r))"
proof -
  note on_currvh_returns [simp]
  obtain vh vhs where v: "cf_vhs s = vh # vhs" using assms by (cases "cf_vhs s") (auto simp: at_host_def)
  obtain rc t where t: "new_vhinfo_list E s = (rc, t)" by fastforce
  note at = new_vhinfo_at [OF assms t]
  show "returns (opt_interface E a s) (\<lambda>r. at_host True (snd r))"
    using assms at by (auto simp: opt_interface_def v t intro!: returns_bind [where P = "at_host True"])
  show "returns (opt_str_list E f s) (\<lambda>r. at_host True (snd r))"
    using assms by (simp add: opt_str_list_def case_prod_beta)
  show "returns (opt_tls h s) (\<lambda>r. at_host True (snd r))"
    using assms by (auto simp: opt_tls_def intro!: returns_bind [where P = "at_host True"])
qed

lemma opt_port_returns:
  assumes "at_host b s"
  shows "returns (opt_port E a s) (\<lambda>r. at_host b (snd r) \<and> (fst r = Next \<longrightarrow> at_host True (snd r)))"
proof -
  obtain rc t where t: "new_vhinfo_list E s = (rc, t)" by fastforce
  note at = new_vhinfo_at [OF assms t]
  show ?thesis
  proof (cases "rc = 0")
    case True
    then have "returns (on_currvh f t) (\<lambda>u. at_host b u \<and> at_host True u)" for f
      using at by (intro returns_mono [OF on_currvh_returns]) (auto intro: at_host_weaken)
    then show ?thesis using True at by (simp add: opt_port_def t case_prod_beta)
  qed (use at in \<open>simp add: opt_port_def t\<close>)
qed

lemma at_host_options [simp]:
  "at_host b (snd (opt_maxage a s)) = at_host b s" "at_host b (snd (opt_redirect a s)) = at_host b s"
  "at_host b (snd (opt_cgi a s)) = at_host b s" "at_host b (snd (opt_peer E a s)) = at_host b s"
  by (auto simp: opt_maxage_def opt_redirect_def opt_cgi_def opt_peer_def case_prod_beta split: option.split)

lemma main_option_returns:
  assumes "at_host b s" "\<And>n. cg_malloc E n" "\<And>t obj. cg_tokener_parse E t = Some obj \<Longrightarrow> json_cfg_ok E obj"
    and "c \<in> set vhost_options \<longrightarrow> b" "c = CHR ''U'' \<longrightarrow> arg \<noteq> Some []"
  shows "returns (main_option E c arg s) (\<lambda>r. at_host b (snd r) \<and> (c = CHR ''p'' \<and> fst r = Next \<longrightarrow> at_host True (snd r)))"
proof (cases "c \<in> set vhost_options")
  case True
  then have b: "at_host True s" "b" using assms(1,4) by auto
  have "returns (main_option E c arg s) (\<lambda>r. at_host True (snd r))"
    using True b(1) unfolding main_option_def Let_def by (auto simp: opt_returns on_currvh_returns)
  then show ?thesis using b(2) by (auto elim: returns_mono)
next
  case False
  show ?thesis
  proof (cases "c = CHR ''p''")
    case True
    then show ?thesis using opt_port_returns [OF assms(1)] by (simp add: main_option_def)
  next
    case not_p: False
    have "returns (add_pattern E x (upd_clients wsubus_client_enable_proxy (set_any_ssl s))) (at_host b)"
      if "c = CHR ''U''" "arg = Some x" for x
      using that assms(1,5) by (intro add_pattern_returns) auto
    then have "returns (main_option E c arg s) (\<lambda>r. at_host b (snd r))"
      using False not_p assms(1,5) unfolding main_option_def Let_def
      by (simp add: parse_json_cfg_returns [OF assms(1-3)] split: option.split)
    then show ?thesis using not_p by simp
  qed
qed

text \<open>
  A command line whose options for a virtual host come after a
  \<open>-p\<close>, whose patterns are not empty, and whose files have an array of peers and an object of
  listeners, is handled to its end or to an orderly exit: no null pointer is used.
\<close>

lemma main_options_handled:
  assumes "\<And>n. cg_malloc E n" "\<And>t obj. cg_tokener_parse E t = Some obj \<Longrightarrow> json_cfg_ok E obj"
    and "(CHR ''U'', Some []) \<notin> set opts"
    and "\<And>xs c arg ys. opts = xs @ (c, arg) # ys \<Longrightarrow> c \<in> set vhost_options \<Longrightarrow> CHR ''p'' \<in> fst ` set xs"
  shows "\<exists>r s. main_options E opts (init_config ubus_path www maxage) = Some (r, s)"
proof -
  have "\<exists>r t. main_options E os s = Some (r, t)"
    if "at_host b s" "(CHR ''U'', Some []) \<notin> set os"
      "\<forall>xs c arg ys. os = xs @ (c, arg) # ys \<longrightarrow> c \<in> set vhost_options \<longrightarrow> b \<or> CHR ''p'' \<in> fst ` set xs" for b os s
    using that
  proof (induction os arbitrary: b s)
    case (Cons x os)
    obtain c arg where x: "x = (c, arg)" by fastforce
    have vh: "c \<in> set vhost_options \<longrightarrow> b" using Cons.prems(3) [rule_format, of "[]" c arg os] x by auto
    have U: "c = CHR ''U'' \<longrightarrow> arg \<noteq> Some []" using Cons.prems(2) x by auto
    have "returns (main_option E c arg s)
        (\<lambda>r. at_host b (snd r) \<and> (c = CHR ''p'' \<and> fst r = Next \<longrightarrow> at_host True (snd r)))"
      by (rule main_option_returns [OF Cons.prems(1)]) (use assms(1,2) vh U in \<open>blast+\<close>)
    then obtain y where y: "main_option E c arg s = Some y" "at_host b (snd y)"
      "c = CHR ''p'' \<and> fst y = Next \<longrightarrow> at_host True (snd y)"
      unfolding returns_def by blast
    obtain r t where "y = (r, t)" by fastforce
    with y have rt: "main_option E c arg s = Some (r, t)" "at_host b t" "c = CHR ''p'' \<and> r = Next \<longrightarrow> at_host True t"
      by simp_all
    show ?case
    proof (cases r)
      case Next
      have tail: "\<forall>xs d arg' ys. os = xs @ (d, arg') # ys \<longrightarrow> d \<in> set vhost_options \<longrightarrow>
          (b \<or> c = CHR ''p'') \<or> CHR ''p'' \<in> fst ` set xs"
      proof (intro allI impI)
        fix xs d arg' ys assume "os = xs @ (d, arg') # ys" "d \<in> set vhost_options"
        then have "b \<or> CHR ''p'' \<in> fst ` set (x # xs)"
          using Cons.prems(3) [rule_format, of "x # xs" d arg' ys] by simp
        then show "(b \<or> c = CHR ''p'') \<or> CHR ''p'' \<in> fst ` set xs" using x by auto
      qed
      have "at_host (b \<or> c = CHR ''p'') t" using rt Next by (auto simp: at_host_def)
      from Cons.IH [OF this _ tail] show ?thesis
        using Cons.prems(2) rt(1) Next x by auto
    qed (use rt(1) x in simp)
  qed simp
  moreover have "at_host False (init_config ubus_path www maxage)"
    by (simp add: at_host_def init_config_def ordered_keys_def)
  ultimately show ?thesis using assms(3,4) by blast
qed

text \<open>An option for a virtual host that comes first uses the null pointer.\<close>

lemma vhost_option_first: "main_options E ((CHR ''i'', arg) # opts) (init_config ubus_path www maxage) = None"
  by (simp add: main_option_def opt_interface_def init_config_def)

text \<open>
  What the configuration establishes: after any command line that does not exit, with files
  whose redirection has a colon, the list of clients satisfies the invariant of the client manager,
  the reconnection time-out is positive, the path patterns and the access list are in order, and a
  redirection has a target, which is what the file server relies on.
\<close>

lemma configured_state:
  assumes "cl_env_ok (cg_cl E)" "\<And>t obj. cg_tokener_parse E t = Some obj \<Longrightarrow> redirect_has_target E obj"
    and "main_options E opts (init_config ubus_path www maxage) = Some (Next, s)"
  shows "cl_inv (cf_clients s) \<and> 0 < cl_retry_timeout (cf_clients s) \<and>
    ordered_keys client_path_comp (cf_paths s) \<and> ordered_keys ubus_object_path_compare (cf_acl s) \<and>
    (g_redir_from (cf_global s) \<noteq> None \<longrightarrow> g_redir_to (cf_global s) \<noteq> None)"
proof -
  have "cfg_inv (init_config ubus_path www maxage)"
    by (simp add: cfg_inv_def init_config_def ordered_keys_def redir_ok_def init_clients_def cl_inv_def own_def)
  from main_options_inv [OF assms(1,2) this, THEN wpD, OF _ assms(3)] show ?thesis
    by (simp add: cfg_inv_def redir_ok_def)
qed

text \<open>A redirection on the command line and one without a colon in a file leave a redirection without a target.\<close>

lemma redirect_without_target:
  "\<exists>s. main_options (demo_cfg (Some (JObject [(''global'', JObject [(''redirect'', JString ''/home'')])])))
     [(CHR ''r'', Some ''/:/index.html''), (CHR ''f'', Some ''cfg'')] (init_config [] [] 0) = Some (Next, s) \<and>
     g_redir_from (cf_global s) = Some ''/'' \<and> g_redir_to (cf_global s) = None"
  by (simp add: main_option_def opt_redirect_def split_colon_def set_global_def parse_json_cfg_def file_to_str_def
      demo_cfg_def malloc_cfg_def parse_sections_def json_get_ex_def parse_global_json_def set_redirect_def init_config_def)

section \<open>Virtual hosts of a file\<close>

definition listed_strings :: "cfg_env \<Rightarrow> json \<Rightarrow> string list" where
  "listed_strings E j =
     (case j of JArray es \<Rightarrow> map (cg_get_string E) (filter (\<lambda>e. e \<noteq> JNull) es) | _ \<Rightarrow> [])"

definition json_true :: "cfg_env \<Rightarrow> json \<Rightarrow> string \<Rightarrow> bool" where
  "json_true E obj k \<longleftrightarrow> json_field obj k \<noteq> JNull \<and> cg_get_boolean E (json_field obj k)"

definition json_tls :: "json \<Rightarrow> bool" where
  "json_tls obj \<longleftrightarrow> (\<forall>k\<in>{''ca'', ''key'', ''cert''}. json_field obj k \<noteq> JNull)"

text \<open>The host an entry asks for.\<close>

definition wanted_vhost :: "cfg_env \<Rightarrow> string \<Rightarrow> json \<Rightarrow> vhinfo" where
  "wanted_vhost E key obj =
     (let path = (\<lambda>k. if json_tls obj then Some (cg_get_string E (json_field obj k)) else None) in
      \<lparr>vh_info = \<lparr>vi_port = cg_get_int E (json_field obj ''port''),
         vi_iface = Some (cg_get_string E (json_field obj ''interface'')), vi_vhost_name = Some key,
         vi_ssl_cert = path ''cert'', vi_ssl_key = path ''key'', vi_ssl_ca = path ''ca'',
         vi_options =
           (if json_true E obj ''ipv6'' \<or> json_true E obj ''ipv6only'' then {} else {LWS_SERVER_OPTION_DISABLE_IPV6}) \<union>
           (if json_tls obj then {LWS_SERVER_OPTION_DO_SSL_GLOBAL_INIT} else {}) \<union>
           (if json_true E obj ''ipv6only''
            then {LWS_SERVER_OPTION_IPV6_V6ONLY_MODIFY, LWS_SERVER_OPTION_IPV6_V6ONLY_VALUE} else {})\<rparr>,
       vh_ctx = \<lparr>vh_origins = listed_strings E (json_field obj ''origin''),
         vh_users = listed_strings E (json_field obj ''restrict_to_user''), vh_name = key,
         restrict_origins = (json_field obj ''origin_check'' = JNull \<or> json_true E obj ''origin_check'')\<rparr>\<rparr>)"

definition complete_entry :: "json \<Rightarrow> bool" where
  "complete_entry obj \<longleftrightarrow> obj \<noteq> JNull \<and> json_field obj ''port'' \<noteq> JNull \<and> json_field obj ''interface'' \<noteq> JNull"

definition wanted_vhosts :: "cfg_env \<Rightarrow> (string \<times> json) list \<Rightarrow> vhinfo list" where
  "wanted_vhosts E fs =
     concat (map (\<lambda>(key, val). case val of JArray es \<Rightarrow> map (wanted_vhost E key) (filter complete_entry es) | _ \<Rightarrow> []) fs)"

lemma origins_loop_run:
  assumes "\<And>n. cg_malloc E n" "cf_vhs s = vh # vhs"
  shows "\<exists>n. append_origins_loop E es s = Some (0, s\<lparr>cf_vhs := upd_ctx (\<lambda>c. c\<lparr>vh_origins :=
     vh_origins c @ listed_strings E (JArray es)\<rparr>) vh # vhs, cf_allocs := n\<rparr>)"
  using assms(2)
proof (induction es arbitrary: s vh)
  case Nil
  then show ?case by (intro exI [of _ "cf_allocs s"]) (simp add: listed_strings_def)
next
  case (Cons e es)
  show ?case
  proof (cases "e = JNull")
    case False
    let ?vh = "upd_ctx (\<lambda>c. c\<lparr>vh_origins := vh_origins c @ [cg_get_string E e]\<rparr>) vh"
    show ?thesis
      using Cons.IH [of "s\<lparr>cf_allocs := cf_allocs s + 1, cf_vhs := ?vh # vhs\<rparr>" ?vh] False Cons.prems assms(1)
      by (simp add: malloc_cfg_def on_currvh_def listed_strings_def)
  qed (use Cons in \<open>simp add: listed_strings_def\<close>)
qed

lemma users_loop_run:
  assumes "\<And>n. cg_malloc E n" "cf_vhs s = vh # vhs"
  shows "\<exists>n. append_users_loop E es s = Some (s\<lparr>cf_vhs := upd_ctx (\<lambda>c. c\<lparr>vh_users :=
     vh_users c @ listed_strings E (JArray es)\<rparr>) vh # vhs, cf_allocs := n\<rparr>)"
  using assms(2)
proof (induction es arbitrary: s vh)
  case Nil
  then show ?case by (intro exI [of _ "cf_allocs s"]) (simp add: listed_strings_def)
next
  case (Cons e es)
  show ?case
  proof (cases "e = JNull")
    case False
    let ?vh = "upd_ctx (\<lambda>c. c\<lparr>vh_users := vh_users c @ [cg_get_string E e]\<rparr>) vh"
    show ?thesis
      using Cons.IH [of "s\<lparr>cf_allocs := cf_allocs s + 1, cf_vhs := ?vh # vhs\<rparr>" ?vh] False Cons.prems assms(1)
      by (simp add: malloc_cfg_def on_currvh_def listed_strings_def)
  qed (use Cons in \<open>simp add: listed_strings_def\<close>)
qed

lemma append_origins_run:
  assumes "\<And>n. cg_malloc E n" "cf_vhs s = vh # vhs"
  shows "\<exists>r n. append_origins E arg s = Some (r, s\<lparr>cf_vhs := upd_ctx (\<lambda>c. c\<lparr>vh_origins :=
     vh_origins c @ listed_strings E arg\<rparr>) vh # vhs, cf_allocs := n\<rparr>)"
proof (cases arg)
  case (JArray es)
  then show ?thesis using origins_loop_run [OF assms, of es] by (auto simp: append_origins_def)
qed (use assms(2) in \<open>auto simp: append_origins_def listed_strings_def intro!: exI [of _ "cf_allocs s"]\<close>)

text \<open>The state \<open>t\<close> while the host \<open>vh\<close> is put in front of \<open>vhs\<close>, from the state \<open>s\<close> on.\<close>

definition building :: "config \<Rightarrow> vhinfo list \<Rightarrow> vhinfo \<Rightarrow> config \<Rightarrow> bool" where
  "building s vhs vh t \<longleftrightarrow> cf_vhs t = vh # vhs \<and> cf_paths t = cf_paths s \<and> cf_clients t = cf_clients s"

lemma building_step:
  "building s vhs vh t \<Longrightarrow> returns (on_currvh f t) (building s vhs (f vh))"
  "building s vhs vh t \<Longrightarrow> building s vhs vh (vhost_acl E obj t)"
  by (simp_all add: building_def on_currvh_def vhost_acl_def Let_def)

lemma building_if:
  "building s vhs vh t \<Longrightarrow> returns (if b then on_currvh f t else Some t) (building s vhs (if b then f vh else vh))"
  by (simp add: building_step(1))

lemma building_tls:
  "building s vhs vh t \<Longrightarrow> returns (vhost_tls E obj t) (building s vhs
     (if json_tls obj then upd_info (\<lambda>i. i\<lparr>vi_ssl_cert := Some (cg_get_string E (json_field obj ''cert'')),
        vi_ssl_key := Some (cg_get_string E (json_field obj ''key'')),
        vi_ssl_ca := Some (cg_get_string E (json_field obj ''ca'')),
        vi_options := vi_options i \<union> {LWS_SERVER_OPTION_DO_SSL_GLOBAL_INIT}\<rparr>) vh else vh))"
  by (auto simp: vhost_tls_def Let_def json_tls_def building_def on_currvh_def)

lemma building_origins:
  assumes "\<And>n. cg_malloc E n" "building s vhs vh t"
  shows "returns (if arg \<noteq> JNull then map_option snd (append_origins E arg t) else Some t)
    (building s vhs (upd_ctx (\<lambda>c. c\<lparr>vh_origins := vh_origins c @ listed_strings E arg\<rparr>) vh))"
proof (cases "arg = JNull")
  case True
  then show ?thesis using assms(2) by (simp add: listed_strings_def)
next
  case False
  obtain r n where "append_origins E arg t = Some (r, t\<lparr>cf_vhs := upd_ctx (\<lambda>c. c\<lparr>vh_origins :=
     vh_origins c @ listed_strings E arg\<rparr>) vh # vhs, cf_allocs := n\<rparr>)"
    using append_origins_run [of E t vh vhs arg] assms by (auto simp: building_def)
  then show ?thesis using False assms(2) by (simp add: building_def)
qed

lemma building_users:
  assumes "\<And>n. cg_malloc E n" "building s vhs vh t"
  shows "returns (case arg of JArray es \<Rightarrow> append_users_loop E es t | _ \<Rightarrow> Some t)
    (building s vhs (upd_ctx (\<lambda>c. c\<lparr>vh_users := vh_users c @ listed_strings E arg\<rparr>) vh))"
proof (cases arg)
  case (JArray es)
  obtain n where "append_users_loop E es t = Some (t\<lparr>cf_vhs := upd_ctx (\<lambda>c. c\<lparr>vh_users :=
     vh_users c @ listed_strings E (JArray es)\<rparr>) vh # vhs, cf_allocs := n\<rparr>)"
    using users_loop_run [of E t vh vhs es] assms by (auto simp: building_def)
  then show ?thesis using JArray assms(2) by (simp add: building_def)
qed (use assms(2) in \<open>simp_all add: listed_strings_def\<close>)

lemma built_vhost:
  "upd_ctx (\<lambda>c. c\<lparr>vh_users := vh_users c @ listed_strings E (json_field obj ''restrict_to_user'')\<rparr>)
    (upd_info (vhost_ipv6 E obj)
      (if json_field obj ''origin_check'' \<noteq> JNull \<and> \<not> cg_get_boolean E (json_field obj ''origin_check'')
       then upd_ctx (\<lambda>c. c\<lparr>restrict_origins := False\<rparr>) v else v)) = wanted_vhost E key obj"
  if "v = upd_ctx (\<lambda>c. c\<lparr>vh_origins := vh_origins c @ listed_strings E (json_field obj ''origin'')\<rparr>)
     (if json_tls obj then upd_info (\<lambda>i. i\<lparr>vi_ssl_cert := Some (cg_get_string E (json_field obj ''cert'')),
        vi_ssl_key := Some (cg_get_string E (json_field obj ''key'')),
        vi_ssl_ca := Some (cg_get_string E (json_field obj ''ca'')),
        vi_options := vi_options i \<union> {LWS_SERVER_OPTION_DO_SSL_GLOBAL_INIT}\<rparr>) u else u)"
    "u = upd_ctx (\<lambda>c. c\<lparr>vh_name := key\<rparr>)
     (upd_info (\<lambda>i. i\<lparr>vi_port := cg_get_int E (json_field obj ''port''), vi_vhost_name := Some key,
        vi_iface := Some (cg_get_string E (json_field obj ''interface''))\<rparr>) fresh_vhinfo)"
proof -
  have ctx: "vh_ctx v = \<lparr>vh_origins = listed_strings E (json_field obj ''origin''), vh_users = [], vh_name = key,
      restrict_origins = True\<rparr>"
    using that by (simp add: fresh_vhinfo_def)
  have info: "vh_info v = (vh_info (wanted_vhost E key obj))\<lparr>vi_options := {LWS_SERVER_OPTION_DISABLE_IPV6} \<union>
      (if json_tls obj then {LWS_SERVER_OPTION_DO_SSL_GLOBAL_INIT} else {})\<rparr>"
    using that by (simp add: fresh_vhinfo_def wanted_vhost_def Let_def insert_commute)
  have "vhost_ipv6 E obj (vh_info v) = vh_info (wanted_vhost E key obj)"
    unfolding info
    by (cases "json_true E obj ''ipv6''"; cases "json_true E obj ''ipv6only''"; cases "json_tls obj")
      (simp_all add: vhost_ipv6_def wanted_vhost_def Let_def json_true_def [symmetric] insert_Diff_if)
  then show ?thesis
    using ctx by (simp add: wanted_vhost_def json_true_def Let_def)
qed

lemma create_vhost_by_json_run:
  assumes "\<And>n. cg_malloc E n" "complete_entry obj"
  shows "returns (create_vhost_by_json E key obj s) (\<lambda>r. building s (cf_vhs s) (wanted_vhost E key obj) (snd r))"
proof -
  let ?s = "s\<lparr>cf_allocs := cf_allocs s + 1, cf_vhs := fresh_vhinfo # cf_vhs s\<rparr>"
  have n: "new_vhinfo_list E s = (0, ?s)"
    using assms(1) by (simp add: new_vhinfo_list_def malloc_cfg_def)
  have b: "building s (cf_vhs s) fresh_vhinfo ?s" by (simp add: building_def)
  have port: "json_field obj ''port'' \<noteq> JNull" "json_field obj ''interface'' \<noteq> JNull"
    using assms(2) by (simp_all add: complete_entry_def)
  show ?thesis
    unfolding create_vhost_by_json_def Let_def n case_prod_conv
    apply (simp only: port if_False simp_thms)
    apply (rule returns_bind [OF building_step(1) [OF b]])
    apply (rule returns_bind [OF building_tls], assumption)
    apply (rule returns_bind [OF building_origins [OF assms(1)]], rule building_step(2), assumption)
    apply (rule returns_bind [OF building_if], assumption)
    apply (rule returns_bind [OF building_step(1)], assumption)
    apply (rule returns_bind [OF building_users [OF assms(1)]], assumption)
    apply (simp only: returns_simps snd_conv built_vhost)
    done
qed

definition hosts_added :: "config \<Rightarrow> vhinfo list \<Rightarrow> config \<Rightarrow> bool" where
  "hosts_added s vhs t \<longleftrightarrow> cf_vhs t = rev vhs @ cf_vhs s \<and> cf_paths t = cf_paths s \<and> cf_clients t = cf_clients s"

lemma hosts_added_trans: "hosts_added s vs t \<Longrightarrow> hosts_added t ws u \<Longrightarrow> hosts_added s (vs @ ws) u"
  by (simp add: hosts_added_def)

lemma create_vhost_by_json_added:
  assumes "\<And>n. cg_malloc E n" "obj \<noteq> JNull"
  shows "returns (create_vhost_by_json E key obj s)
    (\<lambda>r. hosts_added s (if complete_entry obj then [wanted_vhost E key obj] else []) (snd r))"
proof (cases "complete_entry obj")
  case True
  show ?thesis
    by (rule returns_mono [OF create_vhost_by_json_run [OF assms(1) True]])
      (simp add: True building_def hosts_added_def)
next
  case False
  then show ?thesis
    using assms(2) by (auto simp: complete_entry_def create_vhost_by_json_def hosts_added_def Let_def)
qed

lemma create_vhosts_added:
  assumes "\<And>n. cg_malloc E n"
  shows "returns (create_vhosts E key es s) (hosts_added s (map (wanted_vhost E key) (filter complete_entry es)))"
proof (induction es arbitrary: s)
  case (Cons e es)
  show ?case
  proof (cases "e = JNull")
    case True
    then show ?thesis using Cons by (simp add: complete_entry_def)
  next
    case False
    let ?v = "if complete_entry e then [wanted_vhost E key e] else []"
    have "returns (create_vhosts E key es t) (hosts_added s (?v @ map (wanted_vhost E key) (filter complete_entry es)))"
      if "hosts_added s ?v t" for t
      by (rule returns_mono [OF Cons.IH]) (rule hosts_added_trans [OF that])
    then show ?thesis
      using False
      by (auto simp: case_prod_beta split: if_splits
          intro!: returns_bind [OF create_vhost_by_json_added [OF assms]])
  qed
qed (simp add: hosts_added_def)

lemma create_listeners_added:
  assumes "\<And>n. cg_malloc E n"
  shows "returns (create_listeners E fs s) (hosts_added s (wanted_vhosts E fs))"
proof (induction fs arbitrary: s)
  case (Cons f fs)
  obtain key val where f: "f = (key, val)" by fastforce
  show ?case
  proof (cases val)
    case (JArray es)
    let ?v = "map (wanted_vhost E key) (filter complete_entry es)"
    have "returns (create_listeners E fs t) (hosts_added s (?v @ wanted_vhosts E fs))" if "hosts_added s ?v t" for t
      by (rule returns_mono [OF Cons.IH]) (rule hosts_added_trans [OF that])
    then have "returns (create_listeners E (f # fs) s) (hosts_added s (?v @ wanted_vhosts E fs))"
      using f JArray by (auto intro!: returns_bind [OF create_vhosts_added [OF assms]])
    then show ?thesis using f JArray by (simp add: wanted_vhosts_def)
  qed (use Cons f in \<open>simp_all add: wanted_vhosts_def\<close>)
qed (simp add: hosts_added_def wanted_vhosts_def)

text \<open>
  C36. \<^bold>\<open>The listeners of a file.\<close> With memory available the \<open>owsd-listen\<close> section adds exactly one
  virtual host for every entry that has a port and an interface, in the order of the file (the last
  one in front), with the port, the interface, the certificates when all three are given, the IPv6
  flags, the origins, the restriction to them and the users the entry names; entries that lack a port or an interface, null
  entries and members that are not arrays add none, and nothing else of the configuration changes.
\<close>

theorem json_vhosts_exact:
  assumes "\<And>n. cg_malloc E n"
  shows "\<exists>t. parse_vhosts_json E (JObject fs) s = Some t \<and> cf_vhs t = rev (wanted_vhosts E fs) @ cf_vhs s \<and>
    cf_paths t = cf_paths s \<and> cf_clients t = cf_clients s"
  using create_listeners_added [OF assms, of fs s]
  by (auto simp: parse_vhosts_json_def returns_def hosts_added_def)

theorem json_vhosts_exact_witness:
  "\<exists>t vh. parse_vhosts_json (demo_cfg None) demo_listen (init_config [] [] 0) = Some t \<and> cf_vhs t = [vh] \<and>
     vi_port (vh_info vh) = 80 \<and> vh_origins (vh_ctx vh) = [''http://router''] \<and> vh_users (vh_ctx vh) = [''admin'']"
proof -
  let ?E = "demo_cfg None"
  obtain fs where fs: "demo_listen = JObject fs" by (simp add: demo_listen_def)
  have "\<And>n. cg_malloc ?E n" by (simp add: demo_cfg_def)
  from json_vhosts_exact [OF this, of fs "init_config [] [] 0"] show ?thesis
    using fs by (auto simp: demo_listen_def wanted_vhosts_def complete_entry_def json_get_ex_def init_config_def
        wanted_vhost_def listed_strings_def demo_cfg_def Let_def)
qed

section \<open>Virtual hosts of libwebsockets\<close>

definition without_scheme :: "string \<Rightarrow> string" where
  "without_scheme origin =
     (if take 7 origin = ''http://'' then drop 7 origin
      else if take 8 origin = ''https://'' then drop 8 origin else origin)"

text \<open>The hosts made for one entry: one for connections without a known name, one for each origin.\<close>

definition hosts_of :: "vhinfo \<Rightarrow> (lws_vh_info \<times> vh_context) list" where
  "hosts_of c =
     map (\<lambda>name. ((vhost_cert_options (vh_info c))\<lparr>vi_vhost_name := Some name\<rparr>, vh_ctx c))
       (''default'' # map without_scheme (vh_origins (vh_ctx c)))"

lemma offset_scheme: "drop (contains_substring o1 ''http://'' OR contains_substring o1 ''https://'') o1 = without_scheme o1"
proof -
  have "take 8 o1 = ''https://'' \<Longrightarrow> take 7 o1 = ''https:/''"
    using take_take [of 7 8 o1] by simp
  then show ?thesis
    by (auto simp: contains_substring_def without_scheme_def strncmp_eq_0 numeral_eq_Suc)
qed

lemma create_vhost_run:
  assumes "\<And>i. ve_zalloc V i"
  shows "\<exists>rc. create_vhost V info ctx name st = Some (rc, st\<lparr>vs_made := vs_made st @
    (let i = info\<lparr>vi_vhost_name := Some (without_scheme name)\<rparr> in if ve_create V i then [(i, ctx)] else [])\<rparr>)"
  using assms by (auto simp: create_vhost_def offset_scheme Let_def)

lemma copy_strings_run: "(\<And>n. ve_malloc V n) \<Longrightarrow> \<exists>n. copy_strings V xs st = (xs, st\<lparr>vs_allocs := n\<rparr>)"
proof (induction xs arbitrary: st)
  case Nil
  then show ?case by (auto intro!: exI [of _ "vs_allocs st"])
next
  case (Cons x xs)
  then show ?case
    using Cons.IH [OF Cons.prems, of "st\<lparr>vs_allocs := vs_allocs st + 1\<rparr>"] by (auto simp: malloc_vhost_def)
qed

lemma copy_vhinfo_run:
  assumes "\<And>n. ve_malloc V n"
  shows "\<exists>n. copy_vhinfo_list V c st = (0, st\<lparr>vs_origins := c # vs_origins st, vs_allocs := n\<rparr>)"
proof -
  obtain n where n: "copy_strings V (vh_users (vh_ctx c)) (st\<lparr>vs_allocs := vs_allocs st + 1\<rparr>) =
      (vh_users (vh_ctx c), st\<lparr>vs_allocs := n\<rparr>)"
    using copy_strings_run [OF assms, of "vh_users (vh_ctx c)" "st\<lparr>vs_allocs := vs_allocs st + 1\<rparr>"] by auto
  obtain m where m: "copy_strings V (vh_origins (vh_ctx c)) (st\<lparr>vs_allocs := n\<rparr>) =
      (vh_origins (vh_ctx c), st\<lparr>vs_allocs := m\<rparr>)"
    using copy_strings_run [OF assms, of "vh_origins (vh_ctx c)" "st\<lparr>vs_allocs := n\<rparr>"] by auto
  have "copy_vhinfo_list V c st = (0, st\<lparr>vs_origins := c # vs_origins st, vs_allocs := m\<rparr>)"
    using assms n m by (simp add: copy_vhinfo_list_def malloc_vhost_def)
  then show ?thesis by blast
qed

lemma origin_vhosts_run:
  assumes "\<And>n. ve_malloc V n" "\<And>i. ve_zalloc V i"
  shows "returns (origin_vhosts V c os st) (\<lambda>t. vs_made t = vs_made st @ filter (\<lambda>h. ve_create V (fst h))
    (map (\<lambda>name. ((vh_info c)\<lparr>vi_vhost_name := Some (without_scheme name)\<rparr>, vh_ctx c)) os))"
proof (induction os arbitrary: st)
  case (Cons x os)
  obtain n where n: "copy_vhinfo_list V c st = (0, st\<lparr>vs_origins := c # vs_origins st, vs_allocs := n\<rparr>)"
    using copy_vhinfo_run [OF assms(1)] by blast
  obtain rc where "create_vhost V (vh_info c) (vh_ctx c) x (st\<lparr>vs_origins := c # vs_origins st, vs_allocs := n\<rparr>) =
      Some (rc, st\<lparr>vs_made := vs_made st @ (let i = (vh_info c)\<lparr>vi_vhost_name := Some (without_scheme x)\<rparr> in
        if ve_create V i then [(i, vh_ctx c)] else []), vs_origins := c # vs_origins st, vs_allocs := n\<rparr>)"
    using create_vhost_run [OF assms(2), of "vh_info c" "vh_ctx c" x "st\<lparr>vs_origins := c # vs_origins st, vs_allocs := n\<rparr>"]
    by auto
  then show ?case
    by (auto simp: n Let_def intro: returns_mono [OF Cons.IH])
qed simp

text \<open>
  C37. \<^bold>\<open>The hosts of libwebsockets.\<close> With memory available, the virtual hosts that exist after the
  start are, of the ones libwebsockets makes, one without a name for every configured host, and one
  for every origin of it, named by the origin without its scheme; each of them has the users, the
  origins and the restriction of the host it was made for, and the flags that ask for a client
  certificate exactly when the host has a file of certificate authorities.
\<close>

theorem vhosts_made_exact:
  assumes "\<And>n. ve_malloc V n" "\<And>i. ve_zalloc V i"
  shows "\<exists>t. make_vhosts V vhs st = Some t \<and>
    vs_made t = vs_made st @ filter (\<lambda>h. ve_create V (fst h)) (concat (map hosts_of vhs))"
proof (induction vhs arbitrary: st)
  case (Cons c vhs)
  let ?c = "c\<lparr>vh_info := vhost_cert_options (vh_info c)\<rparr>"
  have d: "without_scheme ''default'' = ''default''" by (simp add: without_scheme_def numeral_eq_Suc)
  obtain rc where "create_vhost V (vh_info ?c) (vh_ctx ?c) ''default'' st =
      Some (rc, st\<lparr>vs_made := vs_made st @ (let i = (vh_info ?c)\<lparr>vi_vhost_name := Some ''default''\<rparr> in
        if ve_create V i then [(i, vh_ctx c)] else [])\<rparr>)" (is "_ = Some (rc, ?t)")
    using create_vhost_run [OF assms(2), of "vh_info ?c" "vh_ctx ?c" "''default''" st, unfolded d]
    by (auto simp: Let_def)
  moreover obtain u where "origin_vhosts V ?c (vh_origins (vh_ctx ?c)) ?t = Some u"
    "vs_made u = vs_made st @ filter (\<lambda>h. ve_create V (fst h)) (hosts_of c)"
    using origin_vhosts_run [OF assms, of ?c "vh_origins (vh_ctx ?c)" ?t]
    by (auto simp: returns_def hosts_of_def Let_def o_def)
  ultimately show ?case using Cons.IH [of u] by auto
qed simp

theorem vhosts_made_exact_witness:
  "\<exists>t. make_vhosts \<lparr>ve_malloc = \<lambda>_. True, ve_create = \<lambda>_. True, ve_zalloc = \<lambda>_. True\<rparr>
       [fresh_vhinfo\<lparr>vh_ctx := \<lparr>vh_origins = [''https://router''], vh_users = [''admin''], vh_name = [], restrict_origins = True\<rparr>\<rparr>]
       \<lparr>vs_made = [], vs_origins = [], vs_allocs = 0\<rparr> = Some t \<and>
     map (vi_vhost_name \<circ> fst) (vs_made t) = [Some ''default'', Some ''router''] \<and>
     map (vh_users \<circ> snd) (vs_made t) = [[''admin''], [''admin'']]"
proof -
  let ?V = "\<lparr>ve_malloc = \<lambda>_. True, ve_create = \<lambda>_. True, ve_zalloc = \<lambda>_. True\<rparr>"
  have "\<And>n. ve_malloc ?V n" "\<And>i. ve_zalloc ?V i" by simp_all
  from vhosts_made_exact [OF this, of "[fresh_vhinfo\<lparr>vh_ctx := \<lparr>vh_origins = [''https://router''],
      vh_users = [''admin''], vh_name = [], restrict_origins = True\<rparr>\<rparr>]" "\<lparr>vs_made = [], vs_origins = [], vs_allocs = 0\<rparr>"]
  show ?thesis by (auto simp: hosts_of_def without_scheme_def numeral_eq_Suc)
qed

end
