(* ===== verification/Main_Start.thy ===== *)
theory Main_Start
  imports Config_Properties Proxy_System Http_Poll System
begin

unbundle bit_operations_syntax

text \<open>
  The life of the program around the event loop, \<open>main\<close> of \<open>main.c\<close> behind the options: connecting
  to the buses, the tables and limits, the context of libwebsockets and its virtual hosts, the
  second timer, and the clean-up after the loop. What the program holds of the libraries is a list
  of resources, so that releasing one twice or using a released one is visible.
\<close>

section \<open>The environment\<close>

datatype main_resource = Res_uloop | Res_ubus | Res_dbus | Res_ufds | Res_lws | Res_validator | Res_json

datatype lws_context_option = LWS_SERVER_OPTION_EXPLICIT_VHOSTS | Ctx_DO_SSL_GLOBAL_INIT

record lws_context_info =
  li_options :: "lws_context_option set"
  li_server_string :: string
  li_ping_pong_interval :: nat

text \<open>
  \<open>sg_share\<close> is \<open>(int) ((tot_available * 0.3) / QUERY_SIZE)\<close>, which is computed in floating
  point. The first four fields are the switches of \<open>owsd-config.in.h\<close>.
\<close>

record main_env =
  WSD_HAVE_UBUS :: bool
  WSD_HAVE_DBUS :: bool
  WSD_HAVE_UBUSPROXY :: bool
  OWSD_JSON_VALIDATION :: bool
  sg_sigaction :: bool
  sg_ubus_connect :: "string \<Rightarrow> bool"
  sg_dbus_bus_get :: bool
  sg_rlim_cur :: nat
  sg_calloc_ufds :: "nat \<Rightarrow> bool"
  sg_phys_pages :: int
  sg_page_size :: int
  sg_share :: "u64 \<Rightarrow> int"
  sg_lws_create_context :: "lws_context_info \<Rightarrow> nat option"
  sg_vhosts :: vhost_env
  sg_clients :: cl_env

text \<open>A mount point of libwebsockets, whose length is kept in one byte.\<close>

record lws_mount =
  mt_mountpoint :: string
  mt_mountpoint_len :: "8 word"
  mt_origin :: string
  mt_def :: "string option"
  mt_cgi :: bool
  mt_cgienv :: "(string \<times> string) list"
  mt_cgi_timeout :: nat
  mt_cache :: bool
  mt_cache_max_age :: int

record main_state =
  mn_cfg :: config
  mn_prog :: http_prog
  mn_ufds :: "uloop_fd option list option"
  mn_total_req_max :: int
  mn_lws_ctx :: nat
  mn_mounts :: "lws_mount list"
  mn_made :: "made_vhost list"
  mn_vhs :: "vhinfo list"
  mn_utimer :: "nat option"
  mn_serviced :: nat
  mn_held :: "main_resource list"

definition main_hold :: "main_resource \<Rightarrow> main_state \<Rightarrow> main_state" where
  "main_hold r s = s\<lparr>mn_held := r # mn_held s\<rparr>"

definition main_hold_if :: "bool \<Rightarrow> main_resource \<Rightarrow> main_state \<Rightarrow> main_state" where
  "main_hold_if b r s = (if b then main_hold r s else s)"

text \<open>Releasing something that is not held is an error of memory.\<close>

definition main_release :: "main_resource \<Rightarrow> main_state \<Rightarrow> main_state option" where
  "main_release r s = (if r \<in> set (mn_held s) then Some (s\<lparr>mn_held := remove1 r (mn_held s)\<rparr>) else None)"

definition main_release_if :: "bool \<Rightarrow> main_resource \<Rightarrow> main_state \<Rightarrow> main_state option" where
  "main_release_if b r s = (if b then main_release r s else Some s)"

section \<open>Helpers of main\<close>

definition MAX_TOTAL_ASYNC_REQS :: int where "MAX_TOTAL_ASYNC_REQS = 30000"

definition MIN_TOTAL_ASYNC_REQS :: int where "MIN_TOTAL_ASYNC_REQS = 1024"

definition calculate_total_req_max :: "main_env \<Rightarrow> int" where
  "calculate_total_req_max M =
     (let tot_available = (word_of_int (sg_phys_pages M * sg_page_size M) :: u64);
          total_reqs = sg_share M tot_available in
      if total_reqs > MAX_TOTAL_ASYNC_REQS then MAX_TOTAL_ASYNC_REQS
      else if total_reqs < MIN_TOTAL_ASYNC_REQS then MIN_TOTAL_ASYNC_REQS
      else total_reqs)"

definition utimer_service :: "main_state \<Rightarrow> main_state" where
  "utimer_service s = s\<lparr>mn_serviced := mn_serviced s + 1, mn_utimer := Some 1000\<rparr>"

text \<open>The result is \<open>sigaction(...) != -1\<close>.\<close>

definition install_handler :: "main_env \<Rightarrow> bool" where
  "install_handler M = sg_sigaction M"

section \<open>Starting\<close>

text \<open>The handler and the buses; the value is the exit code when the start ends here.\<close>

definition start_buses :: "main_env \<Rightarrow> main_state \<Rightarrow> int option \<times> main_state" where
  "start_buses M s =
     (if \<not> install_handler M then (Some 0, s)
      else
        let s = main_hold Res_uloop s in
        if WSD_HAVE_UBUS M \<and> \<not> sg_ubus_connect M (g_ubus_sock_path (cf_global (mn_cfg s))) then (Some 2, s)
        else
          let s = main_hold_if (WSD_HAVE_UBUS M) Res_ubus s in
          if WSD_HAVE_DBUS M \<and> \<not> sg_dbus_bus_get M then (Some 2, s)
          else (None, main_hold_if (WSD_HAVE_DBUS M) Res_dbus s))"

text \<open>The settings of the file server, the table of descriptors and the limit on requests.\<close>

definition start_tables :: "main_env \<Rightarrow> main_state \<Rightarrow> main_state" where
  "start_tables M s =
     (let g = cf_global (mn_cfg s);
          s = s\<lparr>mn_prog := \<lparr>www_path = g_www_dirpath g, redir_from = g_redir_from g, redir_to = g_redir_to g\<rparr>\<rparr>;
          num_ufds = sg_rlim_cur M;
          s = s\<lparr>mn_ufds := (if sg_calloc_ufds M num_ufds then Some (replicate num_ufds None) else None)\<rparr>;
          s = main_hold Res_ufds s in
      s\<lparr>mn_total_req_max := calculate_total_req_max M\<rparr>)"

definition main_lws_info :: "config \<Rightarrow> lws_context_info" where
  "main_lws_info cfg =
     \<lparr>li_options = {LWS_SERVER_OPTION_EXPLICIT_VHOSTS} \<union>
        (if g_any_ssl (cf_global cfg) then {Ctx_DO_SSL_GLOBAL_INIT} else {}),
      li_server_string = ''owsd'', li_ping_pong_interval = 300\<rparr>"

definition wwwmount :: "global_config \<Rightarrow> lws_mount" where
  "wwwmount g =
     \<lparr>mt_mountpoint = ''/'', mt_mountpoint_len = of_nat (length ''/''), mt_origin = ''/dev/null'',
      mt_def = Some ''index.html'', mt_cgi = False, mt_cgienv = [], mt_cgi_timeout = 0,
      mt_cache = (g_www_maxage g \<noteq> 0), mt_cache_max_age = g_www_maxage g\<rparr>"

definition cgienv :: "(string \<times> string) list" where
  "cgienv =
     [(''DOCUMENT_ROOT'', ''/www''), (''SCRIPT_FILENAME'', ''/www/cgi-bin/luci''),
      (''SCRIPT_NAME'', ''/cgi-bin/luci''),
      (''PATH'', ''/bin:/usr/bin:/usr/local/bin:/usr/sbin:/sbin:/var/www/cgi-bin'')]"

definition cgimount :: "global_config \<Rightarrow> lws_mount" where
  "cgimount g =
     (let m = \<lparr>mt_mountpoint = ''/cgi-bin/luci'', mt_mountpoint_len = of_nat (length ''/cgi-bin/luci''),
                mt_origin = ''/www/cgi-bin/luci'', mt_def = None, mt_cgi = True, mt_cgienv = cgienv,
                mt_cgi_timeout = 5000, mt_cache = False, mt_cache_max_age = 0\<rparr> in
      case (g_cgi_from g, g_cgi_to g) of
        (Some from, Some to) \<Rightarrow>
          m\<lparr>mt_mountpoint := from, mt_mountpoint_len := of_nat (length from), mt_origin := to\<rparr>
      | _ \<Rightarrow> m)"

text \<open>
  The virtual hosts; the entries made for the origins are appended to the list of the configured
  ones, of which there is a last one unless the list is empty.
\<close>

definition start_vhosts :: "main_env \<Rightarrow> main_state \<Rightarrow> main_state option" where
  "start_vhosts M s =
     (let g = cf_global (mn_cfg s); currvh = cf_vhs (mn_cfg s);
          s = s\<lparr>mn_mounts := [cgimount g, wwwmount g]\<rparr> in
      map_option (\<lambda>st. s\<lparr>mn_made := vs_made st,
          mn_vhs := (if currvh = [] then currvh else currvh @ vs_origins st)\<rparr>)
        (make_vhosts (sg_vhosts M) currvh \<lparr>vs_made = [], vs_origins = [], vs_allocs = 0\<rparr>))"

definition start_services :: "main_env \<Rightarrow> main_state \<Rightarrow> main_state" where
  "start_services M s =
     (let cfg = mn_cfg s;
          s = (if WSD_HAVE_UBUSPROXY M
               then s\<lparr>mn_cfg := cfg\<lparr>cf_clients := snd (wsubus_client_start_proxying (sg_clients M) (mn_lws_ctx s)
                     (cf_clients cfg))\<rparr>\<rparr>
               else s);
          s = s\<lparr>mn_utimer := Some 1000\<rparr> in
      main_hold_if (OWSD_JSON_VALIDATION M) Res_validator s)"

section \<open>Ending\<close>

text \<open>The label \<open>error_ubus_ufds\<close>; \<open>json\<close> says that \<open>json_cfg\<close> is not null.\<close>

definition release_buses :: "main_env \<Rightarrow> bool \<Rightarrow> main_state \<Rightarrow> main_state option" where
  "release_buses M json s = do {
     s \<leftarrow> main_release Res_ufds s;
     s \<leftarrow> main_release_if (WSD_HAVE_UBUS M) Res_ubus s;
     s \<leftarrow> main_release_if (WSD_HAVE_DBUS M) Res_dbus s;
     main_release_if json Res_json s
   }"

text \<open>
  The loop over the entries: the nodes it frees, in order. The next entry is read before its
  predecessor is freed.
\<close>

datatype vh_node = Str_node string | Vh_entry vhinfo

fun free_vhosts :: "vhinfo list \<Rightarrow> vh_node list" where
  "free_vhosts [] = []"
| "free_vhosts (c # cs) =
     map Str_node (vh_origins (vh_ctx c)) @ map Str_node (vh_users (vh_ctx c)) @ Vh_entry c # free_vhosts cs"

text \<open>
  Destroying the context closes every connection: the callbacks take the descriptors out of the
  table and cancel requests on the bus, which have to be there.
\<close>

definition destroy_context :: "main_env \<Rightarrow> main_state \<Rightarrow> main_state option" where
  "destroy_context M s =
     (if Res_ufds \<in> set (mn_held s) \<and> (WSD_HAVE_UBUS M \<longrightarrow> Res_ubus \<in> set (mn_held s))
      then main_release Res_lws s else None)"

definition main_cleanup :: "main_env \<Rightarrow> bool \<Rightarrow> main_state \<Rightarrow> (vh_node list \<times> main_state) option" where
  "main_cleanup M json s = do {
     s \<leftarrow> main_release Res_uloop s;
     s \<leftarrow> main_release_if (OWSD_JSON_VALIDATION M) Res_validator s;
     let cfg = mn_cfg s;
     let s = (if WSD_HAVE_UBUSPROXY M
              then s\<lparr>mn_cfg := cfg\<lparr>cf_acl := ubusx_acl__destroy olist_ops (cf_acl cfg),
                     cf_clients := wsubus_client_clean (cf_clients cfg)\<rparr>\<rparr>
              else s);
     let freed = free_vhosts (mn_vhs s);
     let s = s\<lparr>mn_vhs := []\<rparr>;
     s \<leftarrow> destroy_context M s;
     s \<leftarrow> release_buses M json s;
     Some (freed, s)
   }"

section \<open>The program\<close>

text \<open>How the start ends: with an exit code, or in the event loop.\<close>

datatype main_outcome = Exited int | Running

definition main_startup :: "main_env \<Rightarrow> bool \<Rightarrow> main_state \<Rightarrow> (main_outcome \<times> main_state) option" where
  "main_startup M json s =
     (case start_buses M s of
        (Some rc, s) \<Rightarrow> Some (Exited rc, s)
      | (None, s) \<Rightarrow>
          let s = start_tables M s in
          (case sg_lws_create_context M (main_lws_info (mn_cfg s)) of
             None \<Rightarrow> map_option (Pair (Exited 1)) (release_buses M json s)
           | Some lws_ctx \<Rightarrow>
               let s = main_hold Res_lws (s\<lparr>mn_lws_ctx := lws_ctx\<rparr>) in
               map_option (\<lambda>s. (Running, start_services M s)) (start_vhosts M s)))"

definition main_init :: "bool \<Rightarrow> config \<Rightarrow> main_state" where
  "main_init json cfg =
     \<lparr>mn_cfg = cfg, mn_prog = \<lparr>www_path = [], redir_from = None, redir_to = None\<rparr>, mn_ufds = None,
      mn_total_req_max = 0, mn_lws_ctx = 0, mn_mounts = [], mn_made = [], mn_vhs = [], mn_utimer = None,
      mn_serviced = 0, mn_held = (if json then [Res_json] else [])\<rparr>"

text \<open>
  \<open>main\<close> from the options to the exit code. \<open>uloop_run\<close> is the event loop, which returns when it is
  asked to end; it gets the state the start leaves and gives back the one the callbacks leave.
\<close>

definition owsd_main ::
    "cfg_env \<Rightarrow> main_env \<Rightarrow> (main_state \<Rightarrow> main_state) \<Rightarrow> bool \<Rightarrow> (char \<times> string option) list \<Rightarrow> config \<Rightarrow>
      (int \<times> main_state) option" where
  "owsd_main E M uloop_run json opts cfg = do {
     (r, cfg) \<leftarrow> main_options E opts cfg;
     (case r of
        Exit rc \<Rightarrow> Some (rc, main_init json cfg)
      | Next \<Rightarrow> do {
          (r, s) \<leftarrow> main_startup M json (main_init json cfg);
          (case r of
             Exited rc \<Rightarrow> Some (rc, s)
           | Running \<Rightarrow> map_option (\<lambda>(freed, s). (0, s)) (main_cleanup M json (uloop_run s)))
        })
   }"

section \<open>The machines the loop runs\<close>

text \<open>The states in which the callbacks of the server and of the proxy begin.\<close>

definition main_server :: "main_state \<Rightarrow> server" where
  "main_server s = init_server (mn_total_req_max s) (cf_acl (mn_cfg s))"

definition main_proxy :: "main_state \<Rightarrow> proxy" where
  "main_proxy s = init_proxy (main_server s) (cf_clients (mn_cfg s)) (cf_paths (mn_cfg s))"

end
