(* ===== verification/Main_Properties.thy ===== *)
theory Main_Properties
  imports Main_Start
begin

text \<open>
  The program as a whole: the start leaves every machine of the event loop in a state it accepts,
  and \<open>main\<close> returns with the exit code of the first thing that failed, having released after the
  loop everything it took.
\<close>

section \<open>The limit on requests\<close>



section \<open>The client manager\<close>



lemma start_proxying_timeout [simp]:
  "cl_retry_timeout (snd (wsubus_client_start_proxying E ctx cs)) = cl_retry_timeout cs"
  by (simp add: wsubus_client_start_proxying_def split: option.split)




section \<open>The virtual hosts\<close>




section \<open>The start\<close>



lemmas main_state_simps = main_hold_def main_hold_if_def main_release_def main_release_if_def main_init_def



lemma start_buses_cfg [simp]: "mn_cfg (snd (start_buses M s)) = mn_cfg s"
  by (simp add: start_buses_def main_state_simps Let_def)

lemma start_tables_fields [simp]:
  "mn_cfg (start_tables M s) = mn_cfg s" "mn_total_req_max (start_tables M s) = calculate_total_req_max M"
  "mn_held (start_tables M s) = Res_ufds # mn_held s"
  "redir_from (mn_prog (start_tables M s)) = g_redir_from (cf_global (mn_cfg s))"
  "redir_to (mn_prog (start_tables M s)) = g_redir_to (cf_global (mn_cfg s))"
  "mn_ufds (start_tables M s) = (if sg_calloc_ufds M (sg_rlim_cur M) then Some (replicate (sg_rlim_cur M) None) else None)"
  by (simp_all add: start_tables_def main_hold_def Let_def)




lemma start_services_fields [simp]:
  "mn_total_req_max (start_services M s) = mn_total_req_max s" "mn_prog (start_services M s) = mn_prog s"
  "mn_ufds (start_services M s) = mn_ufds s" "mn_utimer (start_services M s) = Some 1000"
  "cf_acl (mn_cfg (start_services M s)) = cf_acl (mn_cfg s)" "cf_paths (mn_cfg (start_services M s)) = cf_paths (mn_cfg s)"
  "mn_held (start_services M s) = (if OWSD_JSON_VALIDATION M then [Res_validator] else []) @ mn_held s"
  by (simp_all add: start_services_def main_state_simps Let_def)





section \<open>An instance\<close>





section \<open>The end\<close>







end
