(* ===== verification/Uproxyd.thy ===== *)
theory Uproxyd
  imports Local_Stub Main_Options
begin

text \<open>
  The companion program, \<open>uproxyd.c\<close>: it tells owsd over the local bus which servers to connect to.
  It follows the events of network clients, asks \<open>router.network\<close> for the hosts from time to time,
  and removes the connections that failed too often. libubus and json-c are the record \<open>up_env\<close>; the
  calls the program makes are recorded in order.
\<close>

section \<open>State\<close>

datatype invocation =
    Inv_add string
  | Inv_remove_ip string
  | Inv_remove_index int
  | Inv_list
  | Inv_hosts

text \<open>
  \<open>up_lookup\<close> is the value of \<open>id\<close> after \<open>ubus_lookup_id\<close>; \<open>up_reply\<close> is the message of the reply as a
  JSON value, \<^term>\<open>None\<close> when there is none or when it cannot be formatted and parsed.
\<close>

record up_env =
  up_lookup :: "string \<Rightarrow> u32"
  up_invoke :: "invocation \<Rightarrow> int"
  up_reply :: "invocation \<Rightarrow> json option"
  up_get_int :: "json \<Rightarrow> int"
  up_get_string :: "json \<Rightarrow> string"

record up_state =
  client_max_reconnect_time :: int
  all_clients_check_timeout :: int
  up_list_id :: u32
  up_calls :: "invocation list"
  up_add_timer :: "int option"
  up_clean_timer :: "int option"

definition UBUS_CALL_TIMEOUT :: int where "UBUS_CALL_TIMEOUT = 2 * 1000"
definition CLEAN_TIMEOUT :: int where "CLEAN_TIMEOUT = UBUS_CALL_TIMEOUT + 3 * 1000"
definition MAX_RECONNECT_COUNT :: int where "MAX_RECONNECT_COUNT = 10"

definition init_uproxy :: up_state where
  "init_uproxy = \<lparr>client_max_reconnect_time = MAX_RECONNECT_COUNT, all_clients_check_timeout = 3600000,
     up_list_id = 0, up_calls = [], up_add_timer = None, up_clean_timer = None\<rparr>"

section \<open>JSON\<close>

fun is_bool :: "json \<Rightarrow> bool" where
  "is_bool (JBool _) = True"
| "is_bool _ = False"

definition json_get_int :: "up_env \<Rightarrow> json \<Rightarrow> string \<Rightarrow> int" where
  "json_get_int E object key =
     (if \<not> is_object object then -1
      else
        let (ret, v) = json_get_ex object key in
        if \<not> ret \<or> v = JNull \<or> \<not> is_int v then -1 else up_get_int E v)"

definition json_get_bool :: "json \<Rightarrow> string \<Rightarrow> int" where
  "json_get_bool object key =
     (if \<not> is_object object then -1
      else
        let (ret, v) = json_get_ex object key in
        if \<not> ret \<or> v = JNull \<or> \<not> is_bool v then -1 else if v = JBool True then 1 else 0)"

definition json_get_string :: "up_env \<Rightarrow> json \<Rightarrow> string \<Rightarrow> string option" where
  "json_get_string E object key =
     (if \<not> is_object object then None
      else
        let (ret, v) = json_get_ex object key in
        if \<not> ret \<or> v = JNull \<or> \<not> is_string v then None else Some (up_get_string E v))"

section \<open>Calls of owsd\<close>

definition OWSD_OBJECT_NAME :: string where "OWSD_OBJECT_NAME = ''owsd.ubusproxy''"

definition invoke_owsd :: "up_env \<Rightarrow> invocation \<Rightarrow> up_state \<Rightarrow> up_state" where
  "invoke_owsd E c s =
     (if up_lookup E OWSD_OBJECT_NAME = 0 then s else s\<lparr>up_calls := up_calls s @ [c]\<rparr>)"

definition owsd_add_client :: "up_env \<Rightarrow> string \<Rightarrow> up_state \<Rightarrow> up_state" where
  "owsd_add_client E ip s = invoke_owsd E (Inv_add ip) s"

definition owsd_remove_client :: "up_env \<Rightarrow> int \<Rightarrow> string option \<Rightarrow> up_state \<Rightarrow> up_state" where
  "owsd_remove_client E index ip s =
     invoke_owsd E (case ip of Some a \<Rightarrow> Inv_remove_ip a | None \<Rightarrow> Inv_remove_index index) s"

definition receive_event_cb :: "up_env \<Rightarrow> json option \<Rightarrow> up_state \<Rightarrow> up_state" where
  "receive_event_cb E msg s =
     (case msg of
        None \<Rightarrow> s
      | Some json_msg \<Rightarrow>
          if \<not> is_object json_msg then s
          else
            (case json_get_string E json_msg ''action'' of
               None \<Rightarrow> s
             | Some action \<Rightarrow>
                 (case json_get_string E json_msg ''ipaddr'' of
                    None \<Rightarrow> s
                  | Some ipaddr \<Rightarrow>
                      if strcmp action ''connect'' = 0 then owsd_add_client E ipaddr s
                      else if strcmp action ''disconnect'' = 0 then owsd_remove_client E 0 (Some ipaddr) s
                      else s)))"

section \<open>Removing the clients that failed too often\<close>

text \<open>
  The loop of \<open>clean_stale_clients_cb\<close>. Its counter \<open>index\<close> is also the variable for the index of the
  client, so that the loop goes on behind the place with that number. \<^term>\<open>None\<close>: the loop does not end.
\<close>

partial_function (option) clean_clients_loop ::
    "up_env \<Rightarrow> json list \<Rightarrow> int \<Rightarrow> up_state \<Rightarrow> up_state option" where
  "clean_clients_loop E clients index s =
     (if index \<ge> int (length clients) then Some s
      else
        let client = json_array_get_idx (JArray clients) (nat index) in
        if client = JNull then clean_clients_loop E clients (index + 1) s
        else if json_get_int E client ''reconnect_count'' \<le> client_max_reconnect_time s
        then clean_clients_loop E clients (index + 1) s
        else
          let index = json_get_int E client ''index'';
              s = (if index \<ge> 0 then owsd_remove_client E index None s else s) in
          clean_clients_loop E clients (index + 1) s)"

definition clean_stale_clients_cb :: "up_env \<Rightarrow> json option \<Rightarrow> up_state \<Rightarrow> up_state option" where
  "clean_stale_clients_cb E msg s =
     (case msg of
        None \<Rightarrow> Some s
      | Some json_msg \<Rightarrow>
          if \<not> is_object json_msg then Some s
          else
            (case snd (json_get_ex json_msg ''clients'') of
               JArray clients \<Rightarrow> clean_clients_loop E clients 0 s
             | _ \<Rightarrow> Some s))"

text \<open>The callback runs inside \<open>ubus_invoke\<close> when a reply comes.\<close>

definition clean_stale_clients :: "up_env \<Rightarrow> up_state \<Rightarrow> up_state option" where
  "clean_stale_clients E s =
     (let s = (if up_list_id s = 0 then s\<lparr>up_list_id := up_lookup E OWSD_OBJECT_NAME\<rparr> else s) in
      if up_list_id s = 0 then Some (s\<lparr>up_clean_timer := Some CLEAN_TIMEOUT\<rparr>)
      else do {
        s \<leftarrow> clean_stale_clients_cb E (up_reply E Inv_list) (s\<lparr>up_calls := up_calls s @ [Inv_list]\<rparr>);
        let s = (if up_invoke E Inv_list \<noteq> 0 then s\<lparr>up_list_id := 0\<rparr> else s);
        Some (s\<lparr>up_clean_timer := Some CLEAN_TIMEOUT\<rparr>)
      })"

section \<open>Adding the hosts of the network\<close>

fun add_hosts :: "up_env \<Rightarrow> json list \<Rightarrow> up_state \<Rightarrow> up_state" where
  "add_hosts E [] s = s"
| "add_hosts E (elem # hosts) s =
     (if elem = JNull then add_hosts E hosts s
      else if json_get_bool elem ''connected'' = 0 then add_hosts E hosts s
      else
        (case json_get_string E elem ''ipaddr'' of
           None \<Rightarrow> add_hosts E hosts s
         | Some ipaddr \<Rightarrow> add_hosts E hosts (owsd_add_client E ipaddr s)))"

definition add_all_clients_cb :: "up_env \<Rightarrow> json option \<Rightarrow> up_state \<Rightarrow> up_state" where
  "add_all_clients_cb E msg s =
     (case msg of
        None \<Rightarrow> s
      | Some json_msg \<Rightarrow>
          if \<not> is_object json_msg then s
          else
            (case snd (json_get_ex json_msg ''hosts'') of
               JArray hosts \<Rightarrow> add_hosts E hosts s
             | _ \<Rightarrow> s))"

definition add_all_clients :: "up_env \<Rightarrow> up_state \<Rightarrow> up_state" where
  "add_all_clients E s =
     (if up_lookup E ''router.network'' = 0
      then s\<lparr>up_add_timer := Some (all_clients_check_timeout s)\<rparr>
      else
        let s = add_all_clients_cb E (up_reply E Inv_hosts) (s\<lparr>up_calls := up_calls s @ [Inv_hosts]\<rparr>) in
        s\<lparr>up_add_timer := Some (if up_invoke E Inv_hosts \<noteq> 0 then 5000 else all_clients_check_timeout s)\<rparr>)"

definition prepare_timers :: "up_state \<Rightarrow> up_state" where
  "prepare_timers s = s\<lparr>up_add_timer := Some 1000, up_clean_timer := Some CLEAN_TIMEOUT\<rparr>"

section \<open>Options\<close>

text \<open>\<^term>\<open>None\<close> when the program shows its usage and ends.\<close>

fun uproxyd_options :: "(char \<times> string) list \<Rightarrow> up_state \<Rightarrow> up_state option" where
  "uproxyd_options [] s = Some s"
| "uproxyd_options ((opt, optarg) # opts) s =
     (let n = to_int32 (fst (strtol optarg)) in
      if opt = CHR ''r'' then uproxyd_options opts (if n > 0 then s\<lparr>client_max_reconnect_time := n\<rparr> else s)
      else if opt = CHR ''t'' then uproxyd_options opts (if n > 0 then s\<lparr>all_clients_check_timeout := n\<rparr> else s)
      else None)"

end
