(* ===== verification/Dubus.thy ===== *)
theory Dubus
  imports Json_Rpc
begin

text \<open>
  The conversions between D-Bus and ubus: names and paths (\<open>src/src/dubus_conversions_names.c\<close>),
  types and values (\<open>src/src/dubus_conversions_types.c\<close>), and the check of a reply
  (\<open>src/src/util_dbus.c\<close>).

  A D-Bus type code is the \<^typ>\<open>char\<close> that stands for it in a signature. A message is the list of
  its arguments; an iterator over it is the list that is left. The configured
  \<open>WSD_DBUS_OBJECTS_PATH\<close> is the argument \<open>P\<close>. The tests libdbus provides, its iterators over
  signatures, the formatting of an argument's number and what a walk with the wrong macro visits
  are the record \<open>dbus_lib\<close>.
\<close>

section \<open>Names\<close>

text \<open>The loop \<open>for (p = s; (p = strchr(p, a)); ++p) *p = b\<close>.\<close>

fun replace_char :: "char \<Rightarrow> char \<Rightarrow> string \<Rightarrow> string" where
  "replace_char a b [] = []"
| "replace_char a b (c # cs) = (if c = a then b else c) # replace_char a b cs"

definition duconv_name_dbus_name_to_path :: "string \<Rightarrow> string" where
  "duconv_name_dbus_name_to_path dbus_name = replace_char (CHR ''.'') (CHR ''/'') dbus_name"

text \<open>The copy starts at the second byte, so the empty path is read past its end.\<close>

definition duconv_name_dbus_path_to_name :: "string \<Rightarrow> string option" where
  "duconv_name_dbus_path_to_name dbus_path =
     (case dbus_path of [] \<Rightarrow> None | _ # p \<Rightarrow> Some (replace_char (CHR ''/'') (CHR ''.'') p))"

definition duconv_name_ubus_to_dbus_path :: "string \<Rightarrow> string \<Rightarrow> string" where
  "duconv_name_ubus_to_dbus_path P ubus_objname =
     replace_char (CHR ''.'') (CHR ''/'')
       (P @ (if take 1 ubus_objname \<noteq> ''/'' then ''/'' else []) @ ubus_objname)"

definition duconv_name_ubus_to_dbus_name :: "string \<Rightarrow> string \<Rightarrow> string option" where
  "duconv_name_ubus_to_dbus_name P ubus_objname =
     duconv_name_dbus_path_to_name (duconv_name_ubus_to_dbus_path P ubus_objname)"

text \<open>The test of both conversions back: the prefix, the separator, and at least one byte more.\<close>

definition after_prefix :: "string \<Rightarrow> char \<Rightarrow> string \<Rightarrow> string option" where
  "after_prefix p sep s =
     (if strstr_at_start s p
      then (case drop (length p) s of
              c # d # r \<Rightarrow> if c = sep then Some (d # r) else None
            | _ \<Rightarrow> None)
      else None)"

definition duconv_name_dbus_name_to_ubus :: "string \<Rightarrow> string \<Rightarrow> string option option" where
  "duconv_name_dbus_name_to_ubus P dbus_name =
     map_option (\<lambda>tmp. after_prefix tmp (CHR ''.'') dbus_name) (duconv_name_dbus_path_to_name P)"

definition duconv_name_dbus_path_to_ubus :: "string \<Rightarrow> string \<Rightarrow> string option" where
  "duconv_name_dbus_path_to_ubus P dbus_path = after_prefix P (CHR ''/'') dbus_path"

section \<open>Values and type codes\<close>

datatype dbus_value =
    DByte u8 | DBoolean u32 | DInt16 u16 | DUint16 u16 | DInt32 u32 | DUint32 u32
  | DInt64 u64 | DUint64 u64 | DDouble u64 | DString string | DObject_path string
  | DSignature string | DUnix_fd u32 | DArray string "dbus_value list"
  | DVariant dbus_value | DStruct "dbus_value list"

abbreviation (input) DBUS_TYPE_INVALID :: char where "DBUS_TYPE_INVALID \<equiv> CHR 0x00"
abbreviation (input) DBUS_TYPE_BOOLEAN :: char where "DBUS_TYPE_BOOLEAN \<equiv> CHR ''b''"
abbreviation (input) DBUS_TYPE_INT16 :: char where "DBUS_TYPE_INT16 \<equiv> CHR ''n''"
abbreviation (input) DBUS_TYPE_UINT16 :: char where "DBUS_TYPE_UINT16 \<equiv> CHR ''q''"
abbreviation (input) DBUS_TYPE_INT32 :: char where "DBUS_TYPE_INT32 \<equiv> CHR ''i''"
abbreviation (input) DBUS_TYPE_UINT32 :: char where "DBUS_TYPE_UINT32 \<equiv> CHR ''u''"
abbreviation (input) DBUS_TYPE_INT64 :: char where "DBUS_TYPE_INT64 \<equiv> CHR ''x''"
abbreviation (input) DBUS_TYPE_UINT64 :: char where "DBUS_TYPE_UINT64 \<equiv> CHR ''t''"
abbreviation (input) DBUS_TYPE_STRING :: char where "DBUS_TYPE_STRING \<equiv> CHR ''s''"
abbreviation (input) DBUS_TYPE_OBJECT_PATH :: char where "DBUS_TYPE_OBJECT_PATH \<equiv> CHR ''o''"
abbreviation (input) DBUS_TYPE_SIGNATURE :: char where "DBUS_TYPE_SIGNATURE \<equiv> CHR ''g''"
abbreviation (input) DBUS_TYPE_ARRAY :: char where "DBUS_TYPE_ARRAY \<equiv> CHR ''a''"

fun dbus_type_of :: "dbus_value \<Rightarrow> char" where
  "dbus_type_of (DByte _) = CHR ''y''"
| "dbus_type_of (DBoolean _) = DBUS_TYPE_BOOLEAN"
| "dbus_type_of (DInt16 _) = DBUS_TYPE_INT16"
| "dbus_type_of (DUint16 _) = DBUS_TYPE_UINT16"
| "dbus_type_of (DInt32 _) = DBUS_TYPE_INT32"
| "dbus_type_of (DUint32 _) = DBUS_TYPE_UINT32"
| "dbus_type_of (DInt64 _) = DBUS_TYPE_INT64"
| "dbus_type_of (DUint64 _) = DBUS_TYPE_UINT64"
| "dbus_type_of (DDouble _) = CHR ''d''"
| "dbus_type_of (DString _) = DBUS_TYPE_STRING"
| "dbus_type_of (DObject_path _) = DBUS_TYPE_OBJECT_PATH"
| "dbus_type_of (DSignature _) = DBUS_TYPE_SIGNATURE"
| "dbus_type_of (DUnix_fd _) = CHR ''h''"
| "dbus_type_of (DArray _ _) = DBUS_TYPE_ARRAY"
| "dbus_type_of (DVariant _) = CHR ''v''"
| "dbus_type_of (DStruct _) = CHR ''r''"

text \<open>
  \<open>dbus_message_iter_get_basic\<close> copies as many bytes as the value at the iterator has;
  \<^term>\<open>None\<close> is a copy into a variable of another size or kind.
\<close>

fun get_u64 :: "dbus_value \<Rightarrow> u64 option" where
  "get_u64 (DInt64 v) = Some v" | "get_u64 (DUint64 v) = Some v" | "get_u64 _ = None"

fun get_u32 :: "dbus_value \<Rightarrow> u32 option" where
  "get_u32 (DInt32 v) = Some v" | "get_u32 (DUint32 v) = Some v" | "get_u32 (DBoolean v) = Some v"
| "get_u32 _ = None"

fun get_u16 :: "dbus_value \<Rightarrow> u16 option" where
  "get_u16 (DInt16 v) = Some v" | "get_u16 (DUint16 v) = Some v" | "get_u16 _ = None"

fun get_str :: "dbus_value \<Rightarrow> string option" where
  "get_str (DString s) = Some s" | "get_str (DObject_path s) = Some s"
| "get_str (DSignature s) = Some s" | "get_str _ = None"

text \<open>
  \<open>accepts v\<close>: \<open>dbus_message_iter_append_basic\<close> appends the value (it refuses strings that are
  not UTF-8 and fails without memory; the sources do not look at its result).
\<close>

record 's dbus_lib =
  dbus_type_is_basic :: "char \<Rightarrow> bool"
  dbus_signature_validate_single :: "string \<Rightarrow> bool"
  sig_init :: "string \<Rightarrow> 's"
  sig_current_type :: "'s \<Rightarrow> char"
  sig_element_type :: "'s \<Rightarrow> char"
  sig_recurse :: "'s \<Rightarrow> 's"
  sig_next :: "'s \<Rightarrow> 's"
  accepts :: "dbus_value \<Rightarrow> bool"
  format_arg :: "string \<Rightarrow> int \<Rightarrow> string option"
  blob_walk_of_data :: "blob_attr list \<Rightarrow> blob_attr list"

section \<open>From D-Bus to ubus\<close>

text \<open>
  The buffer, the iterator and the name are pointers that may be \<open>NULL\<close>; a value is added only
  when none is. The result is the buffer's attributes and the type.
\<close>

type_synonym target = "blob_attr list option \<times> dbus_value option \<times> string option"

definition add_if ::
    "target \<Rightarrow> (dbus_value \<Rightarrow> blob option) \<Rightarrow> blobmsg_type \<Rightarrow>
     (blob_attr list option \<times> blobmsg_type) option" where
  "add_if tg conv ty =
     (case tg of
        (Some b, Some v, Some name) \<Rightarrow> map_option (\<lambda>w. (Some (b @ [(name, w)]), ty)) (conv v)
      | (b, _, _) \<Rightarrow> Some (b, ty))"

definition duconv_dbus_to_ubus_basic ::
    "target \<Rightarrow> char \<Rightarrow> (blob_attr list option \<times> blobmsg_type) option" where
  "duconv_dbus_to_ubus_basic tg dbus_type =
     (if dbus_type = DBUS_TYPE_UINT64 \<or> dbus_type = DBUS_TYPE_INT64 then
        add_if tg (\<lambda>v. map_option BInt64 (get_u64 v)) BLOBMSG_TYPE_INT64
      else if dbus_type = DBUS_TYPE_UINT32 \<or> dbus_type = DBUS_TYPE_INT32 then
        add_if tg (\<lambda>v. map_option BInt32 (get_u32 v)) BLOBMSG_TYPE_INT32
      else if dbus_type = DBUS_TYPE_UINT16 \<or> dbus_type = DBUS_TYPE_INT16 then
        add_if tg (\<lambda>v. map_option BInt16 (get_u16 v)) BLOBMSG_TYPE_INT16
      else if dbus_type = DBUS_TYPE_BOOLEAN then
        add_if tg (\<lambda>v. map_option (\<lambda>x. BInt8 (if x \<noteq> 0 then 1 else 0)) (get_u32 v)) BLOBMSG_TYPE_INT8
      else if dbus_type = DBUS_TYPE_OBJECT_PATH \<or> dbus_type = DBUS_TYPE_SIGNATURE
              \<or> dbus_type = DBUS_TYPE_STRING then
        add_if tg (\<lambda>v. map_option BString (get_str v)) BLOBMSG_TYPE_STRING
      else Some (fst tg, BLOBMSG_TYPE_UNSPEC))"

text \<open>The elements of an array, each added under the empty name.\<close>

fun convert_elems :: "char \<Rightarrow> dbus_value list \<Rightarrow> blob_attr list \<Rightarrow> blob_attr list option" where
  "convert_elems et [] b = Some b"
| "convert_elems et (v # vs) b =
     Option.bind (duconv_dbus_to_ubus_basic (Some b, Some v, Some []) et)
       (\<lambda>(b, _). Option.bind b (convert_elems et vs))"

text \<open>\<open>dbus_message_iter_recurse\<close> needs an iterator at a container.\<close>

fun recurse_array :: "dbus_value \<Rightarrow> dbus_value list option" where
  "recurse_array (DArray _ vs) = Some vs"
| "recurse_array _ = None"

definition duconv_dbus_to_ubus ::
    "'s dbus_lib \<Rightarrow> target \<Rightarrow> char \<Rightarrow> char \<Rightarrow> (blob_attr list option \<times> blobmsg_type) option" where
  "duconv_dbus_to_ubus D tg dbus_type dbus_elem_type =
     (if dbus_type_is_basic D dbus_type then duconv_dbus_to_ubus_basic tg dbus_type
      else if dbus_type = DBUS_TYPE_ARRAY then
        if \<not> dbus_type_is_basic D dbus_elem_type then Some (fst tg, BLOBMSG_TYPE_UNSPEC)
        else add_if tg (\<lambda>v. Option.bind (recurse_array v)
               (\<lambda>vs. map_option BArray (convert_elems dbus_elem_type vs []))) BLOBMSG_TYPE_ARRAY
      else Some (fst tg, BLOBMSG_TYPE_UNSPEC))"

text \<open>With null pointers nothing is read, so the conversion of a type alone always returns.\<close>

definition duconv_type_dbus_to_ubus :: "'s dbus_lib \<Rightarrow> char \<Rightarrow> char \<Rightarrow> blobmsg_type option" where
  "duconv_type_dbus_to_ubus D dbus_type dbus_elem_type =
     map_option snd (duconv_dbus_to_ubus D (None, None, None) dbus_type dbus_elem_type)"

definition duconv_type_dbus_sigiter_to_ubus :: "'s dbus_lib \<Rightarrow> 's \<Rightarrow> blobmsg_type option" where
  "duconv_type_dbus_sigiter_to_ubus D it =
     (let dbus_type = sig_current_type D it in
      duconv_type_dbus_to_ubus D dbus_type
        (if dbus_type = DBUS_TYPE_ARRAY then sig_element_type D it else DBUS_TYPE_INVALID))"

text \<open>The type code at an iterator over a message, and the element type of an array there.\<close>

fun arg_type_at :: "dbus_value list \<Rightarrow> char" where
  "arg_type_at [] = DBUS_TYPE_INVALID"
| "arg_type_at (v # _) = dbus_type_of v"

fun element_type_at :: "dbus_value list \<Rightarrow> char" where
  "element_type_at (DArray (c # _) _ # _) = c"
| "element_type_at _ = DBUS_TYPE_INVALID"

definition duconv_msg_dbus_to_ubus ::
    "'s dbus_lib \<Rightarrow> blob_attr list \<Rightarrow> dbus_value list \<Rightarrow> string option \<Rightarrow>
     (blob_attr list \<times> blobmsg_type) option" where
  "duconv_msg_dbus_to_ubus D b it arg_name = do {
     let dbus_type = arg_type_at it;
     let dbus_elem_type =
       (if dbus_type = DBUS_TYPE_ARRAY then element_type_at it else DBUS_TYPE_INVALID);
     (b, ty) \<leftarrow> duconv_dbus_to_ubus D (Some b, (case it of [] \<Rightarrow> None | v # _ \<Rightarrow> Some v), arg_name)
                 dbus_type dbus_elem_type;
     b \<leftarrow> b;
     Some (b, ty)
   }"

text \<open>
  The \<open>duconv_convert\<close> structure. \<open>arg_fmt\<close> is the copy of the format, \<open>NULL\<close> when \<open>strdup\<close>
  failed; \<open>format_arg\<close> answers \<^term>\<open>None\<close> when the buffer of the name cannot be allocated.
\<close>

record duconv_convert =
  cv_b :: "blob_attr list"
  arg_fmt :: string
  arg_num :: int

definition duconv_convert_init :: "string \<Rightarrow> duconv_convert" where
  "duconv_convert_init fmt = \<lparr>cv_b = [], arg_fmt = fmt, arg_num = 0\<rparr>"

definition duconv_convert_get_next_arg :: "'s dbus_lib \<Rightarrow> duconv_convert \<Rightarrow> string option" where
  "duconv_convert_get_next_arg D c = format_arg D (arg_fmt c) (arg_num c)"

text \<open>A null name is written as the empty one by libubox.\<close>

definition name_or_empty :: "string option \<Rightarrow> string" where
  "name_or_empty n = (case n of Some s \<Rightarrow> s | None \<Rightarrow> [])"

fun blobmsg_type_value :: "blobmsg_type \<Rightarrow> u32" where
  "blobmsg_type_value BLOBMSG_TYPE_UNSPEC = 0"
| "blobmsg_type_value BLOBMSG_TYPE_ARRAY = 1"
| "blobmsg_type_value BLOBMSG_TYPE_TABLE = 2"
| "blobmsg_type_value BLOBMSG_TYPE_STRING = 3"
| "blobmsg_type_value BLOBMSG_TYPE_INT64 = 4"
| "blobmsg_type_value BLOBMSG_TYPE_INT32 = 5"
| "blobmsg_type_value BLOBMSG_TYPE_INT16 = 6"
| "blobmsg_type_value BLOBMSG_TYPE_INT8 = 7"
| "blobmsg_type_value BLOBMSG_TYPE_DOUBLE = 8"
| "blobmsg_type_value BLOBMSG_TYPE_LAST = 9"

definition duconv_msig_dbus_to_ubus_add_arg ::
    "'s dbus_lib \<Rightarrow> duconv_convert \<Rightarrow> string \<Rightarrow> string option \<Rightarrow> (bool \<times> duconv_convert) option" where
  "duconv_msig_dbus_to_ubus_add_arg D c arg_type arg_name =
     (if \<not> dbus_signature_validate_single D arg_type then Some (False, c)
      else do {
        ubus_type \<leftarrow> duconv_type_dbus_sigiter_to_ubus D (sig_init D arg_type);
        let arg_name = (if arg_name = None then duconv_convert_get_next_arg D c else arg_name);
        Some (True, c\<lparr>arg_num := arg_num c + 1,
                      cv_b := cv_b c @ [(name_or_empty arg_name,
                                         BInt32 (blobmsg_type_value ubus_type))]\<rparr>)
      })"

definition duconv_msgiter_dbus_to_ubus_add_arg ::
    "'s dbus_lib \<Rightarrow> duconv_convert \<Rightarrow> dbus_value list \<Rightarrow> string option \<Rightarrow>
     (bool \<times> duconv_convert) option" where
  "duconv_msgiter_dbus_to_ubus_add_arg D c it arg_name = do {
     let arg_name = (if arg_name = None then duconv_convert_get_next_arg D c else arg_name);
     (b, ubus_type) \<leftarrow> duconv_msg_dbus_to_ubus D (cv_b c) it arg_name;
     Some (ubus_type \<noteq> BLOBMSG_TYPE_UNSPEC, c\<lparr>arg_num := arg_num c + 1, cv_b := b\<rparr>)
   }"

section \<open>From ubus to D-Bus\<close>

text \<open>
  A message being written: its arguments, and whether a container is open below the iterator.
  libdbus forbids to append to an iterator while a container opened from it is not closed.
\<close>

record out_iter =
  out_args :: "dbus_value list"
  out_open :: bool

definition append_basic :: "'s dbus_lib \<Rightarrow> dbus_value \<Rightarrow> out_iter \<Rightarrow> out_iter option" where
  "append_basic D v oit =
     (if out_open oit then None
      else Some (if accepts D v then oit\<lparr>out_args := out_args oit @ [v]\<rparr> else oit))"

definition append_opt ::
    "'s dbus_lib \<Rightarrow> out_iter option \<Rightarrow> char \<Rightarrow> dbus_value \<Rightarrow> (out_iter option \<times> char) option" where
  "append_opt D oit ty v =
     (case oit of None \<Rightarrow> Some (None, ty)
      | Some i \<Rightarrow> map_option (\<lambda>i. (Some i, ty)) (append_basic D v i))"

definition wanted_type :: "'s dbus_lib \<Rightarrow> 's option \<Rightarrow> char \<Rightarrow> char" where
  "wanted_type D wanted dflt = (case wanted of None \<Rightarrow> dflt | Some it \<Rightarrow> sig_current_type D it)"

definition duconv_msg_ubus_to_dbus_basic ::
    "'s dbus_lib \<Rightarrow> out_iter option \<Rightarrow> blob \<Rightarrow> 's option \<Rightarrow> (out_iter option \<times> char) option" where
  "duconv_msg_ubus_to_dbus_basic D oit cur_arg wanted =
     (case cur_arg of
        BInt32 res \<Rightarrow>
          (let ty = wanted_type D wanted DBUS_TYPE_INT32 in
           if ty \<noteq> DBUS_TYPE_INT32 \<and> ty \<noteq> DBUS_TYPE_UINT32 then Some (oit, DBUS_TYPE_INVALID)
           else append_opt D oit ty (if ty = DBUS_TYPE_INT32 then DInt32 res else DUint32 res))
      | BInt16 res \<Rightarrow>
          (let ty = wanted_type D wanted DBUS_TYPE_INT16 in
           if ty \<noteq> DBUS_TYPE_INT16 \<and> ty \<noteq> DBUS_TYPE_UINT16 then Some (oit, DBUS_TYPE_INVALID)
           else append_opt D oit ty (if ty = DBUS_TYPE_INT16 then DInt16 res else DUint16 res))
      | BInt8 res \<Rightarrow>
          (let ty = wanted_type D wanted DBUS_TYPE_BOOLEAN in
           if ty \<noteq> DBUS_TYPE_BOOLEAN then Some (oit, DBUS_TYPE_INVALID)
           else append_opt D oit ty (DBoolean (if res \<noteq> 0 then 1 else 0)))
      | BString str \<Rightarrow>
          (let ty = wanted_type D wanted DBUS_TYPE_STRING in
           if ty \<noteq> DBUS_TYPE_STRING \<and> ty \<noteq> DBUS_TYPE_SIGNATURE \<and> ty \<noteq> DBUS_TYPE_OBJECT_PATH
           then Some (oit, DBUS_TYPE_INVALID)
           else append_opt D oit ty
                  (if ty = DBUS_TYPE_STRING then DString str
                   else if ty = DBUS_TYPE_SIGNATURE then DSignature str else DObject_path str))
      | _ \<Rightarrow> Some (oit, DBUS_TYPE_INVALID))"

text \<open>The loop that appends the elements: to the iterator of the message, not of the array.\<close>

fun append_elems ::
    "'s dbus_lib \<Rightarrow> 's option \<Rightarrow> blob_attr list \<Rightarrow> out_iter \<Rightarrow> out_iter option" where
  "append_elems D wanted [] i = Some i"
| "append_elems D wanted ((_, v) # xs) i =
     Option.bind (duconv_msg_ubus_to_dbus_basic D (Some i) v wanted)
       (\<lambda>(i, _). Option.bind i (append_elems D (map_option (sig_next D) wanted) xs))"

definition duconv_msg_ubus_to_dbus ::
    "'s dbus_lib \<Rightarrow> out_iter option \<Rightarrow> blob \<Rightarrow> 's option \<Rightarrow> (out_iter option \<times> char) option" where
  "duconv_msg_ubus_to_dbus D oit cur_arg wanted =
     (case cur_arg of
        BArray xs \<Rightarrow>
          (if wanted_type D wanted DBUS_TYPE_ARRAY \<noteq> DBUS_TYPE_ARRAY
              \<or> (\<exists>x \<in> set xs. type_of_blob (snd x) \<noteq> type_of_blob (snd (hd xs)))
           then Some (oit, DBUS_TYPE_INVALID)
           else do {
             let wanted_elem = map_option (sig_recurse D) wanted;
             elem_type \<leftarrow>
               (case xs of
                  x # _ \<Rightarrow> map_option snd (duconv_msg_ubus_to_dbus_basic D None (snd x) wanted_elem)
                | [] \<Rightarrow> Some (wanted_type D wanted_elem DBUS_TYPE_INVALID));
             if elem_type = DBUS_TYPE_INVALID then Some (oit, DBUS_TYPE_INVALID)
             else
               (case oit of
                  None \<Rightarrow> Some (None, DBUS_TYPE_ARRAY)
                | Some i \<Rightarrow>
                    if out_open i then None
                    else do {
                      i' \<leftarrow> append_elems D wanted_elem (blob_walk_of_data D xs) (i\<lparr>out_open := True\<rparr>);
                      Some (Some (i'\<lparr>out_open := False,
                                     out_args := out_args i' @ [DArray [elem_type] []]\<rparr>),
                            DBUS_TYPE_ARRAY)
                    })
           })
      | BTable _ \<Rightarrow> Some (oit, DBUS_TYPE_INVALID)
      | _ \<Rightarrow> duconv_msg_ubus_to_dbus_basic D oit cur_arg wanted)"

section \<open>Replies\<close>

datatype dbus_message =
    Method_return string "dbus_value list"
  | Error_reply string "string option"
  | Other_message

text \<open>
  The error text is added when the reply carries a string. The result is the verdict and the
  attributes of the buffer, when there is one.
\<close>

definition check_reply_and_make_error ::
    "dbus_message \<Rightarrow> string option \<Rightarrow> blob_attr list option \<Rightarrow> bool \<times> blob_attr list option" where
  "check_reply_and_make_error reply expected errordata =
     (case reply of
        Error_reply name text \<Rightarrow>
          (False, map_option (\<lambda>b. b @ [(''data'', BTable
                     ((''DBus'', BString name) #
                      (case text of Some t \<Rightarrow> [(''text'', BString t)] | None \<Rightarrow> [])))]) errordata)
      | Other_message \<Rightarrow> (False, errordata)
      | Method_return sig _ \<Rightarrow>
          (if expected \<noteq> None \<and> strcmp sig (the expected) \<noteq> 0
           then (False, map_option (\<lambda>b. b @ [(''data'', BTable [(''DBus'',
                   BString ''org.freedesktop.DBus.Error.InvalidSignature'')])]) errordata)
           else (True, errordata)))"

end
