(* ===== verification/Dbus_Rpc.thy ===== *)
theory Dbus_Rpc
  imports Dubus Rpc_Call Rpc_List Rpc_Sub
begin

text \<open>
  The RPCs of a build with ubus and D-Bus: \<open>src/src/rpc_list_dbus.c\<close>, \<open>src/src/rpc_call_dbus.h\<close>, the
  D-Bus signals of \<open>src/src/rpc_sub.c\<close>, and the handlers of \<open>rpc_list.c\<close> and \<open>rpc_call.c\<close> that try
  D-Bus. The state is that of the server together with the contexts of the D-Bus requests, the
  D-Bus members of every client's \<open>rpc_call_q\<close>, and the pending calls of libdbus with the functions
  they notify. A context of a list is freed through the data slot of the reply it holds, when that
  reply is released.

  libdbus, libxml2 and their answers are the record \<open>dbus_env\<close>. An XML node is an element with its
  name, attributes and children, or another node with a name.
\<close>

section \<open>State\<close>

datatype xml_node = XElement string "(string \<times> string) list" "xml_node list" | XOther string

fun xml_name :: "xml_node \<Rightarrow> string" where
  "xml_name (XElement n _ _) = n" | "xml_name (XOther n) = n"

fun xml_children :: "xml_node \<Rightarrow> xml_node list" where
  "xml_children (XElement _ _ cs) = cs" | "xml_children (XOther _) = []"

fun xmlGetProp :: "xml_node \<Rightarrow> string \<Rightarrow> string option" where
  "xmlGetProp (XElement _ as _) n = map_of as n" | "xmlGetProp (XOther _) n = None"

fun is_element :: "xml_node \<Rightarrow> bool" where
  "is_element (XElement _ _ _) = True" | "is_element (XOther _) = False"

record introspection_target =
  it_service :: string
  it_path :: string

text \<open>
  \<open>introspectables\<close> is \<^term>\<open>None\<close> while the list head is as \<open>calloc\<close> left it. \<open>list_reply\<close> tells
  whether the context holds the reply.
\<close>

record wsd_list_ctx =
  lc_wsi :: wsi
  lc_id :: "blob_attr option"
  lc_retbuf :: "blob_attr list"
  list_reply :: bool
  lc_call_req :: "addr option"
  introspectables :: "introspection_target list option"

record wsd_call_ctx =
  cc_wsi :: wsi
  cc_id :: "blob_attr option"
  cc_retbuf :: "blob_attr list"
  cc_args :: ubusrpc_blob_call
  cc_call_req :: "addr option"

datatype drpc_ref = RDList addr | RDCall addr

datatype notify = On_list addr | On_introspect addr | On_call addr

text \<open>A method call: destination, path, interface, member and arguments.\<close>

record method_call =
  mc_service :: string
  mc_path :: string
  mc_iface :: string
  mc_member :: string
  mc_args :: "dbus_value list"

record dbus_state =
  ds_server :: server
  list_heap :: "addr \<Rightarrow> wsd_list_ctx option"
  dcall_heap :: "addr \<Rightarrow> wsd_call_ctx option"
  dbus_q :: "wsi \<Rightarrow> drpc_ref list"
  pending :: "addr \<Rightarrow> notify option"
  d_next :: addr
  d_sent :: "(addr \<times> method_call) list"

datatype send_result = Send_oom | Send_null | Send_ok

datatype lookup_result = Lookup_reply | Lookup_unknown | Lookup_failed

record 's dbus_env =
  srv_env :: env
  dlib :: "'s dbus_lib"
  objects_path :: string
  new_method_call :: "string \<Rightarrow> string \<Rightarrow> string \<Rightarrow> string \<Rightarrow> bool"
  send_with_reply :: "method_call \<Rightarrow> send_result"
  set_notify_ok :: bool
  dbus_validate_bus_name :: "string \<Rightarrow> bool"
  send_and_block :: "method_call \<Rightarrow> lookup_result"
  xmlParseMemory :: "string \<Rightarrow> xml_node option"
  dcalloc :: bool
  fnmatch :: "string \<Rightarrow> string \<Rightarrow> bool"

definition DBUS_INTERFACE_INTROSPECTABLE :: string where
  "DBUS_INTERFACE_INTROSPECTABLE = ''org.freedesktop.DBus.Introspectable''"

definition ds_write :: "'s dbus_env \<Rightarrow> wsi \<Rightarrow> string option \<Rightarrow> dbus_state \<Rightarrow> dbus_state option" where
  "ds_write E w str s = map_option (\<lambda>srv. s\<lparr>ds_server := srv\<rparr>) (queue_write (srv_env E) w str (ds_server s))"

text \<open>\<open>dbus_connection_send_with_reply\<close> with a pending call, before its notification is set.\<close>

definition ds_send :: "method_call \<Rightarrow> dbus_state \<Rightarrow> addr \<times> dbus_state" where
  "ds_send m s = (d_next s, s\<lparr>d_next := d_next s + 1, d_sent := d_sent s @ [(d_next s, m)]\<rparr>)"

definition ds_set_list :: "addr \<Rightarrow> wsd_list_ctx option \<Rightarrow> dbus_state \<Rightarrow> dbus_state" where
  "ds_set_list a c s = s\<lparr>list_heap := (list_heap s)(a := c)\<rparr>"

definition ds_set_call :: "addr \<Rightarrow> wsd_call_ctx option \<Rightarrow> dbus_state \<Rightarrow> dbus_state" where
  "ds_set_call a c s = s\<lparr>dcall_heap := (dcall_heap s)(a := c)\<rparr>"

definition dq_del :: "wsi \<Rightarrow> drpc_ref \<Rightarrow> dbus_state \<Rightarrow> dbus_state option" where
  "dq_del w r s =
     (if r \<in> set (dbus_q s w) then Some (s\<lparr>dbus_q := (dbus_q s)(w := remove1 r (dbus_q s w))\<rparr>) else None)"

section \<open>Listing objects\<close>

definition wsd_list_ctx_free :: "addr \<Rightarrow> dbus_state \<Rightarrow> dbus_state option" where
  "wsd_list_ctx_free a s = (if list_heap s a = None then None else Some (ds_set_list a None s))"

text \<open>
  On a list head that was not initialised, \<open>list_empty\<close> is false and the first entry lies at an
  invalid address.
\<close>

definition wsd_list_ctx_cancel_and_destroy :: "addr \<Rightarrow> dbus_state \<Rightarrow> dbus_state option" where
  "wsd_list_ctx_cancel_and_destroy a s = do {
     ctx \<leftarrow> list_heap s a;
     let s = (case lc_call_req ctx of Some p \<Rightarrow> s\<lparr>pending := (pending s)(p := None)\<rparr> | None \<Rightarrow> s);
     _ \<leftarrow> introspectables ctx;
     wsd_list_ctx_free a s
   }"

text \<open>
  Without a pending call that could be stored, \<open>introspect_call\<close> is used uninitialised; a null one
  leaves the context waiting for nothing.
\<close>

definition introspect_list_next :: "'s dbus_env \<Rightarrow> addr \<Rightarrow> dbus_state \<Rightarrow> dbus_state option" where
  "introspect_list_next E a s = do {
     ctx \<leftarrow> list_heap s a;
     ts \<leftarrow> introspectables ctx;
     cur \<leftarrow> (case ts of [] \<Rightarrow> None | t # _ \<Rightarrow> Some t);
     let m = \<lparr>mc_service = it_service cur, mc_path = it_path cur,
              mc_iface = DBUS_INTERFACE_INTROSPECTABLE, mc_member = ''Introspect'', mc_args = []\<rparr>;
     if \<not> new_method_call E (mc_service m) (mc_path m) (mc_iface m) (mc_member m)
        \<or> lc_call_req ctx \<noteq> None then None
     else
       (case send_with_reply E m of
          Send_oom \<Rightarrow> None
        | Send_null \<Rightarrow> Some s
        | Send_ok \<Rightarrow>
            (let (p, s) = ds_send m s;
                 s = (if set_notify_ok E
                      then s\<lparr>pending := (pending s)(p \<mapsto> On_introspect a)\<rparr> else s) in
             Some (ds_set_list a (Some (ctx\<lparr>lc_call_req := Some p\<rparr>)) s)))
   }"

definition introspect_list_finish :: "'s dbus_env \<Rightarrow> addr \<Rightarrow> dbus_state \<Rightarrow> dbus_state option" where
  "introspect_list_finish E a s = do {
     ctx \<leftarrow> list_heap s a;
     s \<leftarrow> ds_write E (lc_wsi ctx)
           (jsonrpc__resp_ubus (lib (srv_env E)) (lc_id ctx) 0 (Some ([], BTable (lc_retbuf ctx)))) s;
     s \<leftarrow> dq_del (lc_wsi ctx) (RDList a) s;
     wsd_list_ctx_free a s
   }"

text \<open>
  The type codes of an argument: the first two bytes of the attribute. For an empty attribute the
  second lies past its end.
\<close>

fun type_codes :: "string \<Rightarrow> (char \<times> char) option" where
  "type_codes [] = None"
| "type_codes [c] = Some (c, DBUS_TYPE_INVALID)"
| "type_codes (c # d # _) = Some (c, d)"

text \<open>
  The loop over the arguments of a method or signal. \<open>q\<close> is the open table of the method, which is
  opened for the first argument.
\<close>

fun arg_loop ::
    "'s dbus_env \<Rightarrow> bool \<Rightarrow> xml_node list \<Rightarrow> blob_attr list option \<Rightarrow> blob_attr list option option" where
  "arg_loop E is_method [] q = Some q"
| "arg_loop E is_method (arg # args) q =
     (if strcmp (xml_name arg) ''arg'' \<noteq> 0 then arg_loop E is_method args q
      else
        (case xmlGetProp arg ''type'' of
           None \<Rightarrow> arg_loop E is_method args q
         | Some arg_type \<Rightarrow>
             (let arg_is_out = (is_method \<and> xmlGetProp arg ''direction'' = Some ''out'');
                  q = (if is_method \<and> q = None then Some [] else q) in
              (case q of
                 Some attrs \<Rightarrow>
                   if arg_is_out then arg_loop E is_method args q
                   else do {
                     (c, d) \<leftarrow> type_codes arg_type;
                     ubus_type \<leftarrow> duconv_type_dbus_to_ubus (dlib E) c d;
                     typestr \<leftarrow> blobmsg_type_to_str ubus_type;
                     arg_loop E is_method args
                       (Some (attrs @ [(name_or_empty (xmlGetProp arg ''name''),
                          BString (case typestr of Some ts \<Rightarrow> ts | None \<Rightarrow> ''unknown''))]))
                   }
               | None \<Rightarrow> arg_loop E is_method args q))))"

text \<open>The members of an interface; properties add nothing.\<close>

fun member_loop :: "'s dbus_env \<Rightarrow> xml_node list \<Rightarrow> blob_attr list \<Rightarrow> blob_attr list option" where
  "member_loop E [] p = Some p"
| "member_loop E (member # ms) p =
     (let is_method = (strcmp (xml_name member) ''method'' = 0);
          is_signal = (strcmp (xml_name member) ''signal'' = 0) in
      if \<not> is_element member then member_loop E ms p
      else
        (case xmlGetProp member ''name'' of
           None \<Rightarrow> member_loop E ms p
         | Some m_name \<Rightarrow>
             if is_method \<or> is_signal then
               Option.bind (arg_loop E is_method (xml_children member) None)
                 (\<lambda>q. member_loop E ms
                        (case q of Some attrs \<Rightarrow> p @ [(m_name, BTable attrs)] | None \<Rightarrow> p))
             else member_loop E ms p))"

definition child_path :: "string \<Rightarrow> string \<Rightarrow> string" where
  "child_path path node_name =
     path @ (if last path \<noteq> CHR ''/'' then ''/'' else []) @ node_name"

text \<open>
  The loop over the children of the root: nodes are queued, an interface whose name is that of the
  object is listed. \<open>name\<close> is \<^term>\<open>None\<close> when only sub nodes are of interest.
\<close>

fun subnode_loop ::
    "'s dbus_env \<Rightarrow> introspection_target \<Rightarrow> string option \<Rightarrow> xml_node list \<Rightarrow>
     blob_attr list \<Rightarrow> introspection_target list \<Rightarrow> (blob_attr list \<times> introspection_target list) option" where
  "subnode_loop E cur name [] retbuf ts = Some (retbuf, ts)"
| "subnode_loop E cur name (subnode # ns) retbuf ts =
     (if \<not> is_element subnode then subnode_loop E cur name ns retbuf ts
      else if strcmp (xml_name subnode) ''node'' = 0 then
        (case xmlGetProp subnode ''name'' of
           None \<Rightarrow> subnode_loop E cur name ns retbuf ts
         | Some node_name \<Rightarrow>
             subnode_loop E cur name ns retbuf
               (ts @ [\<lparr>it_service = it_service cur, it_path = child_path (it_path cur) node_name\<rparr>]))
      else
        (case (name, xmlGetProp subnode ''name'') of
           (Some name', Some iface_name) \<Rightarrow>
             if strcmp (xml_name subnode) ''interface'' \<noteq> 0
             then subnode_loop E cur name ns retbuf ts
             else do {
               name'' \<leftarrow> duconv_name_dbus_name_to_ubus (objects_path E) iface_name;
               if name'' = Some name' then do {
                 p \<leftarrow> member_loop E (xml_children subnode) [];
                 subnode_loop E cur name ns (retbuf @ [(name', BTable p)]) ts
               }
               else subnode_loop E cur name ns retbuf ts
             }
         | _ \<Rightarrow> subnode_loop E cur name ns retbuf ts))"

text \<open>
  What the reply to an introspection adds to the buffer and to the list. A document that cannot be
  parsed has no root, which is dereferenced.
\<close>

definition introspect_reply ::
    "'s dbus_env \<Rightarrow> introspection_target \<Rightarrow> dbus_message \<Rightarrow> blob_attr list \<Rightarrow>
     introspection_target list \<Rightarrow> (blob_attr list \<times> introspection_target list) option" where
  "introspect_reply E cur reply retbuf ts =
     (let name = duconv_name_dbus_path_to_ubus (objects_path E) (it_path cur) in
      if \<not> fst (check_reply_and_make_error reply (Some ''s'') None) then Some (retbuf, ts)
      else
        (case reply of
           Method_return _ (DString xml # _) \<Rightarrow> do {
             xml_root \<leftarrow> xmlParseMemory E xml;
             if \<not> is_element xml_root \<or> strcmp (xml_name xml_root) ''node'' \<noteq> 0
                \<or> xml_children xml_root = []
             then Some (retbuf, ts)
             else subnode_loop E cur name (xml_children xml_root) retbuf ts
           }
         | _ \<Rightarrow> None))"

definition wsd_introspect_cb ::
    "'s dbus_env \<Rightarrow> addr \<Rightarrow> addr \<Rightarrow> dbus_message \<Rightarrow> dbus_state \<Rightarrow> dbus_state option" where
  "wsd_introspect_cb E p a reply s = do {
     ctx \<leftarrow> list_heap s a;
     if lc_call_req ctx \<noteq> Some p then None
     else do {
       let s = s\<lparr>pending := (pending s)(p := None)\<rparr>;
       ts \<leftarrow> introspectables ctx;
       cur \<leftarrow> (case ts of [] \<Rightarrow> None | t # _ \<Rightarrow> Some t);
       (retbuf, ts) \<leftarrow> introspect_reply E cur reply (lc_retbuf ctx) ts;
       let ts = tl ts;
       let s = ds_set_list a (Some (ctx\<lparr>lc_call_req := None, lc_retbuf := retbuf,
                                        introspectables := Some ts\<rparr>)) s;
       if ts \<noteq> [] then introspect_list_next E a s else introspect_list_finish E a s
     }
   }"

text \<open>The names that are not unique connection names, each with the root path.\<close>

fun list_targets :: "string \<Rightarrow> dbus_value list \<Rightarrow> introspection_target list option" where
  "list_targets P [] = Some []"
| "list_targets P (v # vs) = do {
     service \<leftarrow> get_str v;
     rest \<leftarrow> list_targets P vs;
     Some (if take 1 service = '':'' then rest
           else \<lparr>it_service = service, it_path = P\<rparr> # rest)
   }"

text \<open>\<open>blobmsg_data(retbuf.head)\<close> is the first attribute of the buffer.\<close>

definition first_attr :: "blob_attr list \<Rightarrow> blob_attr option" where
  "first_attr b = (case b of [] \<Rightarrow> None | a # _ \<Rightarrow> Some a)"

definition wsd_list_cb ::
    "'s dbus_env \<Rightarrow> addr \<Rightarrow> addr \<Rightarrow> dbus_message \<Rightarrow> dbus_state \<Rightarrow> dbus_state option" where
  "wsd_list_cb E p a reply s = do {
     ctx \<leftarrow> list_heap s a;
     if lc_call_req ctx \<noteq> Some p then None
     else do {
       let s = s\<lparr>pending := (pending s)(p := None)\<rparr>;
       let (ok, retbuf) = check_reply_and_make_error reply (Some ''as'') (Some (lc_retbuf ctx));
       retbuf \<leftarrow> retbuf;
       let ctx = ctx\<lparr>lc_call_req := None, list_reply := True, lc_retbuf := retbuf\<rparr>;
       if \<not> ok then do {
         d \<leftarrow> first_attr retbuf;
         s \<leftarrow> ds_write E (lc_wsi ctx)
               (jsonrpc__resp_error (lib (srv_env E)) (lc_id ctx) JSONRPC_ERRORCODE__OTHER (Some d)) s;
         wsd_list_ctx_free a s
       }
       else do {
         vs \<leftarrow> (case reply of Method_return _ (DArray _ vs # _) \<Rightarrow> Some vs | _ \<Rightarrow> None);
         ts \<leftarrow> list_targets (objects_path E) vs;
         let s = ds_set_list a (Some (ctx\<lparr>introspectables := Some ts\<rparr>)) s;
         if ts \<noteq> [] then introspect_list_next E a s else introspect_list_finish E a s
       }
     }
   }"

text \<open>
  When the notification cannot be set, the parsed arguments, which were destroyed before, are
  freed again. On the other errors the context is neither freed nor queued.
\<close>

definition handle_list_dbus :: "'s dbus_env \<Rightarrow> addr \<Rightarrow> wsi \<Rightarrow> dbus_state \<Rightarrow> (int \<times> dbus_state) option" where
  "handle_list_dbus E a w s =
     (let m = \<lparr>mc_service = ''org.freedesktop.DBus'', mc_path = ''/org/freedesktop/DBus'',
               mc_iface = ''org.freedesktop.DBus'', mc_member = ''ListNames'', mc_args = []\<rparr> in
      if \<not> new_method_call E (mc_service m) (mc_path m) (mc_iface m) (mc_member m) then Some (-1, s)
      else if send_with_reply E m \<noteq> Send_ok then Some (-1, s)
      else do {
        ctx \<leftarrow> list_heap s a;
        let (p, s) = ds_send m s;
        if \<not> set_notify_ok E then None
        else do {
          _ \<leftarrow> wsi_to_client (ds_server s) w;
          Some (0, ds_set_list a (Some (ctx\<lparr>lc_call_req := Some p\<rparr>))
                     (s\<lparr>pending := (pending s)(p \<mapsto> On_list a),
                        dbus_q := (dbus_q s)(w := dbus_q s w @ [RDList a])\<rparr>))
        }
      })"

definition ubusrpc_handle_list_both ::
    "'s dbus_env \<Rightarrow> wsi \<Rightarrow> string option \<Rightarrow> blob_attr option \<Rightarrow> dbus_state \<Rightarrow> (int \<times> dbus_state) option" where
  "ubusrpc_handle_list_both E w pattern rid s =
     (if \<not> alloc (srv_env E) A_list_req \<or> rid = None then None
      else do {
        _ \<leftarrow> wsi_to_peer (ds_server s) w;
        retbuf \<leftarrow> lookup_all (srv_env E) (ds_server s) w [] (snd (ubus_lookup (srv_env E) pattern));
        srv \<leftarrow> rpc_q_len_dec w (ds_server s);
        let a = d_next s;
        let ctx = \<lparr>lc_wsi = w, lc_id = rid, lc_retbuf = retbuf, list_reply = False,
                   lc_call_req = None, introspectables = None\<rparr>;
        (_, s) \<leftarrow> handle_list_dbus E a w
                   (ds_set_list a (Some ctx) (s\<lparr>ds_server := srv, d_next := a + 1\<rparr>));
        Some (0, s)
      })"

section \<open>Calling methods\<close>

definition wsd_call_ctx_free :: "addr \<Rightarrow> dbus_state \<Rightarrow> dbus_state option" where
  "wsd_call_ctx_free a s = (if dcall_heap s a = None then None else Some (ds_set_call a None s))"

text \<open>A context whose call is pending is not freed.\<close>

definition wsd_call_ctx_cancel_and_destroy :: "addr \<Rightarrow> dbus_state \<Rightarrow> dbus_state option" where
  "wsd_call_ctx_cancel_and_destroy a s = do {
     ctx \<leftarrow> dcall_heap s a;
     (case cc_call_req ctx of
        Some p \<Rightarrow> Some (s\<lparr>pending := (pending s)(p := None)\<rparr>)
      | None \<Rightarrow> wsd_call_ctx_free a s)
   }"

text \<open>The arguments of a reply as the elements of an array.\<close>

fun reply_elems :: "'s dbus_lib \<Rightarrow> dbus_value list \<Rightarrow> blob_attr list \<Rightarrow> blob_attr list option" where
  "reply_elems D [] b = Some b"
| "reply_elems D (v # vs) b =
     Option.bind (duconv_msg_dbus_to_ubus D b (v # vs) (Some [])) (\<lambda>(b, _). reply_elems D vs b)"

definition wsd_call_cb ::
    "'s dbus_env \<Rightarrow> addr \<Rightarrow> addr \<Rightarrow> dbus_message \<Rightarrow> dbus_state \<Rightarrow> dbus_state option" where
  "wsd_call_cb E p a reply s = do {
     ctx \<leftarrow> dcall_heap s a;
     if cc_call_req ctx \<noteq> Some p then None
     else do {
       let s = s\<lparr>pending := (pending s)(p := None)\<rparr>;
       let (ok, retbuf) = check_reply_and_make_error reply None (Some (cc_retbuf ctx));
       retbuf \<leftarrow> retbuf;
       response \<leftarrow>
         (if \<not> ok then do {
            d \<leftarrow> first_attr retbuf;
            Some (jsonrpc__resp_error (lib (srv_env E)) (cc_id ctx) JSONRPC_ERRORCODE__OTHER (Some d))
          }
          else
            (case reply of
               Method_return sig vs \<Rightarrow> do {
                 elems \<leftarrow> reply_elems (dlib E) vs [];
                 Some (jsonrpc__resp_ubus (lib (srv_env E)) (cc_id ctx) 0
                         (Some ([], BTable (retbuf @ [(sig, BArray elems)]))))
               }
             | _ \<Rightarrow> None));
       s \<leftarrow> ds_write E (cc_wsi ctx) response s;
       s \<leftarrow> dq_del (cc_wsi ctx) (RDCall a) s;
       wsd_call_ctx_cancel_and_destroy a (ds_set_call a (Some (ctx\<lparr>cc_call_req := None\<rparr>)) s)
     }
   }"

text \<open>The arguments of the call; the result is \<^term>\<open>None\<close> inside when one cannot be converted.\<close>

fun call_args :: "'s dbus_lib \<Rightarrow> blob_attr list \<Rightarrow> out_iter \<Rightarrow> out_iter option option" where
  "call_args D [] i = Some (Some i)"
| "call_args D ((_, v) # xs) i = do {
     (i, ty) \<leftarrow> duconv_msg_ubus_to_dbus D (Some i) v None;
     i \<leftarrow> i;
     if ty = DBUS_TYPE_INVALID then Some None else call_args D xs i
   }"

text \<open>
  The message is released twice when the notification cannot be set, which includes a pending call
  that is null.
\<close>

definition handle_call_dbus ::
    "'s dbus_env \<Rightarrow> wsi \<Rightarrow> ubusrpc_blob_call \<Rightarrow> blob_attr option \<Rightarrow> dbus_state \<Rightarrow> (int \<times> dbus_state) option" where
  "handle_call_dbus E w req rid s = do {
     service \<leftarrow> duconv_name_ubus_to_dbus_name (objects_path E) (uc_object req);
     if \<not> dbus_validate_bus_name E service then Some (-1, s)
     else do {
       let path = duconv_name_ubus_to_dbus_path (objects_path E) (uc_object req);
       let lookup = \<lparr>mc_service = service, mc_path = ''/lookup'', mc_iface = service,
                     mc_member = uc_method req, mc_args = []\<rparr>;
       if send_and_block E lookup = Lookup_unknown then Some (1, s)
       else if \<not> new_method_call E service path service (uc_method req) then Some (-1, s)
       else do {
         args \<leftarrow> call_args (dlib E) (uc_params req) \<lparr>out_args = [], out_open = False\<rparr>;
         (case args of
            None \<Rightarrow> Some (-1, s)
          | Some i \<Rightarrow>
              (let m = lookup\<lparr>mc_path := path, mc_args := out_args i\<rparr> in
               (case send_with_reply E m of
                  Send_oom \<Rightarrow> Some (-1, s)
                | Send_null \<Rightarrow> if \<not> dcalloc E then Some (-1, s) else None
                | Send_ok \<Rightarrow>
                    (let (p, s) = ds_send m s; a = d_next s in
                     if \<not> dcalloc E then Some (-1, s)
                     else if \<not> set_notify_ok E then None
                     else do {
                       _ \<leftarrow> wsi_to_client (ds_server s) w;
                       Some (0, ds_set_call a
                         (Some \<lparr>cc_wsi = w, cc_id = rid, cc_retbuf = [], cc_args = req,
                                cc_call_req = Some p\<rparr>)
                         (s\<lparr>d_next := a + 1, pending := (pending s)(p \<mapsto> On_call a),
                            dbus_q := (dbus_q s)(w := dbus_q s w @ [RDCall a])\<rparr>))
                     }))))
       }
     }
   }"

definition ubusrpc_handle_call_both ::
    "'s dbus_env \<Rightarrow> wsi \<Rightarrow> ubusrpc_blob_call \<Rightarrow> blob_attr option \<Rightarrow> dbus_state \<Rightarrow> (int \<times> dbus_state) option" where
  "ubusrpc_handle_call_both E w req rid s = do {
     (ret, s) \<leftarrow> handle_call_dbus E w req rid s;
     if ret = 0 then Some (ret, s)
     else map_option (\<lambda>(ret, srv). (ret, s\<lparr>ds_server := srv\<rparr>))
            (handle_call_ubus (srv_env E) w req rid (ds_server s))
   }"

text \<open>The requests of a client that goes away, in the order of its queue.\<close>

fun cancel_dbus_requests :: "drpc_ref list \<Rightarrow> dbus_state \<Rightarrow> dbus_state option" where
  "cancel_dbus_requests [] s = Some s"
| "cancel_dbus_requests (RDList a # rs) s =
     Option.bind (wsd_list_ctx_cancel_and_destroy a s) (cancel_dbus_requests rs)"
| "cancel_dbus_requests (RDCall a # rs) s =
     Option.bind (wsd_call_ctx_cancel_and_destroy a s) (cancel_dbus_requests rs)"

section \<open>Signals\<close>

text \<open>
  The arguments of a signal; the loop runs once for a signal without arguments, at an iterator
  that is at the end.
\<close>

fun signal_rest :: "'s dbus_lib \<Rightarrow> dbus_value list \<Rightarrow> duconv_convert \<Rightarrow> duconv_convert option" where
  "signal_rest D [] c = Some c"
| "signal_rest D (v # vs) c =
     Option.bind (duconv_msgiter_dbus_to_ubus_add_arg D c (v # vs) None)
       (\<lambda>(_, c). signal_rest D vs c)"

definition signal_args :: "'s dbus_lib \<Rightarrow> dbus_value list \<Rightarrow> blob_attr list option" where
  "signal_args D vs =
     (if vs = [] then
        map_option (\<lambda>(_, c). cv_b c)
          (duconv_msgiter_dbus_to_ubus_add_arg D (duconv_convert_init ''arg%d'') [] None)
      else map_option cv_b (signal_rest D vs (duconv_convert_init ''arg%d'')))"

fun signal_loop ::
    "'s dbus_env \<Rightarrow> string \<Rightarrow> dbus_value list \<Rightarrow> addr list \<Rightarrow> server \<Rightarrow> server option" where
  "signal_loop E type vs [] s = Some s"
| "signal_loop E type vs (a # as) s = do {
     elem \<leftarrow> sub_heap s a;
     if \<not> fnmatch E (si_pattern elem) type then signal_loop E type vs as s
     else do {
       msg \<leftarrow> signal_args (dlib E) vs;
       s \<leftarrow> queue_write (srv_env E) (si_wsi elem)
             (blobmsg_format_json (lib (srv_env E)) (event_attrs type msg elem)) s;
       signal_loop E type vs as s
     }
   }"

definition ws_sub_cb_dbus ::
    "'s dbus_env \<Rightarrow> bool \<Rightarrow> string \<Rightarrow> dbus_value list \<Rightarrow> server \<Rightarrow> (bool \<times> server) option" where
  "ws_sub_cb_dbus E is_signal type vs s =
     (if \<not> is_signal then Some (False, s)
      else map_option (Pair True) (signal_loop E type vs (listen_list s) s))"

end
