(* ===== verification/Dbus_Walk.thy ===== *)
theory Dbus_Walk
  imports Dbus_Rpc
begin

text \<open>
  The walk over the objects of all D-Bus services: what one reply adds, the walk in level order as
  the reference, and that the queue of targets carries it out.
\<close>

section \<open>Replies add at the end\<close>

definition prefixed ::
    "blob_attr list \<Rightarrow> introspection_target list \<Rightarrow> blob_attr list \<times> introspection_target list \<Rightarrow>
     blob_attr list \<times> introspection_target list" where
  "prefixed rb ts x = (rb @ fst x, ts @ snd x)"

lemma prefixed_twice [simp]:
  "prefixed rb ts (rb', ts') = (rb @ rb', ts @ ts')"
  "prefixed rb ts (prefixed rb' ts' x) = prefixed (rb @ rb') (ts @ ts') x"
  "prefixed [] [] x = x"
  by (simp_all add: prefixed_def)

lemma subnode_loop_adds:
  "subnode_loop E cur name ns rb ts = map_option (prefixed rb ts) (subnode_loop E cur name ns [] [])"
proof (induction ns arbitrary: name rb ts)
  case Nil
  then show ?case
    by simp
next
  case (Cons n ns)
  have IH: "subnode_loop E cur name ns (rb @ x) (ts @ y)
      = map_option (prefixed rb ts) (subnode_loop E cur name ns x y)" for name x y
    using Cons [of name "rb @ x" "ts @ y"] Cons [of name x y] by (simp add: option.map_comp comp_def)
  note IH' = IH [of _ "[]" "[]", simplified] IH [of _ _ "[]", simplified] IH [of _ "[]", simplified]
  show ?case
    by (cases "duconv_name_dbus_name_to_ubus (objects_path E) (the (xmlGetProp n ''name''))";
        cases "member_loop E (xml_children n) []"; cases "xmlGetProp n ''name''"; cases name)
      (simp_all add: IH' del: strcmp_eq_0)
qed

lemma introspect_reply_adds:
  "introspect_reply E cur reply rb ts = map_option (prefixed rb ts) (introspect_reply E cur reply [] [])"
  by (simp add: introspect_reply_def Let_def subnode_loop_adds [of E cur _ _ rb ts] bind_map_option
      split: dbus_message.split list.split dbus_value.split option.split Option.bind_split)

section \<open>The walk over the objects\<close>

text \<open>
  The services answer introspections by the function \<open>R\<close> of service and path. What one object adds
  to the answer, the objects below it, the objects \<open>d\<close> levels down, and the answer in level order.
\<close>

type_synonym introspection = "string \<Rightarrow> string \<Rightarrow> dbus_message"

definition node_reply ::
    "'s dbus_env \<Rightarrow> introspection \<Rightarrow> introspection_target \<Rightarrow>
     (blob_attr list \<times> introspection_target list) option" where
  "node_reply E R t = introspect_reply E t (R (it_service t) (it_path t)) [] []"

definition entries :: "'s dbus_env \<Rightarrow> introspection \<Rightarrow> introspection_target \<Rightarrow> blob_attr list" where
  "entries E R t = (case node_reply E R t of Some (e, _) \<Rightarrow> e | None \<Rightarrow> [])"

definition sub_objects ::
    "'s dbus_env \<Rightarrow> introspection \<Rightarrow> introspection_target \<Rightarrow> introspection_target list" where
  "sub_objects E R t = (case node_reply E R t of Some (_, c) \<Rightarrow> c | None \<Rightarrow> [])"

fun levels_down ::
    "'s dbus_env \<Rightarrow> introspection \<Rightarrow> nat \<Rightarrow> introspection_target list \<Rightarrow> introspection_target list" where
  "levels_down E R 0 ts = ts"
| "levels_down E R (Suc d) ts = levels_down E R d (concat (map (sub_objects E R) ts))"

fun level_order ::
    "'s dbus_env \<Rightarrow> introspection \<Rightarrow> nat \<Rightarrow> introspection_target list \<Rightarrow> blob_attr list" where
  "level_order E R 0 ts = []"
| "level_order E R (Suc d) ts =
     concat (map (entries E R) ts) @ level_order E R d (concat (map (sub_objects E R) ts))"

text \<open>\<open>n\<close> replies to the introspections of the list context at \<open>a\<close>, one after the other.\<close>

fun deliver ::
    "'s dbus_env \<Rightarrow> introspection \<Rightarrow> nat \<Rightarrow> addr \<Rightarrow> dbus_state \<Rightarrow> dbus_state option" where
  "deliver E R 0 a s = Some s"
| "deliver E R (Suc n) a s = do {
     ctx \<leftarrow> list_heap s a;
     p \<leftarrow> lc_call_req ctx;
     ts \<leftarrow> introspectables ctx;
     t \<leftarrow> (case ts of [] \<Rightarrow> None | t # _ \<Rightarrow> Some t);
     s \<leftarrow> wsd_introspect_cb E p a (R (it_service t) (it_path t)) s;
     deliver E R n a s
   }"

lemma deliver_add:
  "deliver E R (m + n) a s = Option.bind (deliver E R m a s) (deliver E R n a)"
  by (induction m arbitrary: s) (simp_all split: Option.bind_split)

lemma deliver_stop [simp]: "Option.bind m (deliver E R 0 a) = m"
  by (cases m) auto

text \<open>libdbus has the memory for its messages and is connected.\<close>

definition dbus_up :: "'s dbus_env \<Rightarrow> bool" where
  "dbus_up E \<longleftrightarrow> (\<forall>a b c d. new_method_call E a b c d) \<and> (\<forall>m. send_with_reply E m = Send_ok)
     \<and> set_notify_ok E"

text \<open>The context waits for the introspection of the first target; the rest of the state is \<open>s0\<close>'s.\<close>

definition walking ::
    "dbus_state \<Rightarrow> addr \<Rightarrow> wsi \<Rightarrow> blob_attr option \<Rightarrow> blob_attr list \<Rightarrow> introspection_target list \<Rightarrow>
     dbus_state \<Rightarrow> bool" where
  "walking s0 a w rid rb ts s \<longleftrightarrow> ds_server s = ds_server s0 \<and> dbus_q s = dbus_q s0
     \<and> dcall_heap s = dcall_heap s0
     \<and> (\<exists>ctx p. list_heap s a = Some ctx \<and> lc_call_req ctx = Some p \<and> lc_wsi ctx = w
          \<and> lc_id ctx = rid \<and> lc_retbuf ctx = rb \<and> introspectables ctx = Some ts)"

text \<open>The answer is queued, the context is gone from the queue and from memory.\<close>

definition list_answer :: "'s dbus_env \<Rightarrow> blob_attr option \<Rightarrow> blob_attr list \<Rightarrow> string option" where
  "list_answer E rid rb = jsonrpc__resp_ubus (lib (srv_env E)) rid 0 (Some ([], BTable rb))"

definition answered ::
    "'s dbus_env \<Rightarrow> dbus_state \<Rightarrow> addr \<Rightarrow> wsi \<Rightarrow> blob_attr option \<Rightarrow> blob_attr list \<Rightarrow> dbus_state \<Rightarrow> bool" where
  "answered E s0 a w rid rb s \<longleftrightarrow>
     queue_write (srv_env E) w (list_answer E rid rb) (ds_server s0) = Some (ds_server s)
     \<and> list_heap s a = None \<and> dcall_heap s = dcall_heap s0
     \<and> dbus_q s = (dbus_q s0)(w := remove1 (RDList a) (dbus_q s0 w))"

lemma next_walks:
  assumes "dbus_up E" "list_heap s a = Some ctx" "lc_call_req ctx = None" "introspectables ctx = Some ts"
    "ts \<noteq> []"
  shows "\<exists>s'. introspect_list_next E a s = Some s' \<and> walking s a (lc_wsi ctx) (lc_id ctx) (lc_retbuf ctx) ts s'"
  using assms by (cases ts) (auto simp: introspect_list_next_def dbus_up_def ds_send_def ds_set_list_def
      walking_def Let_def)

lemma finish_answers:
  assumes "list_heap s a = Some ctx" "RDList a \<in> set (dbus_q s (lc_wsi ctx))"
    "queue_write (srv_env E) (lc_wsi ctx) (list_answer E (lc_id ctx) (lc_retbuf ctx)) (ds_server s) = Some srv"
  shows "\<exists>s'. introspect_list_finish E a s = Some s'
     \<and> answered E s a (lc_wsi ctx) (lc_id ctx) (lc_retbuf ctx) s'"
  using assms by (auto simp: introspect_list_finish_def ds_write_def dq_del_def wsd_list_ctx_free_def
      ds_set_list_def answered_def list_answer_def)

text \<open>One reply: on to the next target, or the answer.\<close>

definition reply_effect ::
    "'s dbus_env \<Rightarrow> dbus_state \<Rightarrow> addr \<Rightarrow> wsi \<Rightarrow> blob_attr option \<Rightarrow> blob_attr list \<Rightarrow>
     introspection_target list \<Rightarrow> dbus_state \<Rightarrow> bool" where
  "reply_effect E s0 a w rid rb ts s \<longleftrightarrow>
     (if ts \<noteq> [] then walking s0 a w rid rb ts s else answered E s0 a w rid rb s)"

lemma one_reply:
  assumes E: "dbus_up E" and s: "walking s0 a w rid rb (t # ts) s"
    and t: "node_reply E R t \<noteq> None" and q: "RDList a \<in> set (dbus_q s0 w)"
    and wr: "ts @ sub_objects E R t = [] \<Longrightarrow>
      \<exists>srv. queue_write (srv_env E) w (list_answer E rid (rb @ entries E R t)) (ds_server s0) = Some srv"
  shows "\<exists>s'. deliver E R 1 a s = Some s'
     \<and> reply_effect E s0 a w rid (rb @ entries E R t) (ts @ sub_objects E R t) s'"
proof -
  obtain ctx p where ctx: "list_heap s a = Some ctx" "lc_call_req ctx = Some p" "lc_wsi ctx = w"
    "lc_id ctx = rid" "lc_retbuf ctx = rb" "introspectables ctx = Some (t # ts)"
    and s0: "ds_server s = ds_server s0" "dbus_q s = dbus_q s0" "dcall_heap s = dcall_heap s0"
    using s by (auto simp: walking_def)
  let ?rb = "rb @ entries E R t" and ?ts = "ts @ sub_objects E R t"
  let ?ctx = "ctx\<lparr>lc_call_req := None, lc_retbuf := ?rb, introspectables := Some ?ts\<rparr>"
  let ?s = "ds_set_list a (Some ?ctx) (s\<lparr>pending := (pending s)(p := None)\<rparr>)"
  have "introspect_reply E t (R (it_service t) (it_path t)) rb (t # ts) = Some (?rb, t # ?ts)"
    using t by (auto simp: introspect_reply_adds [of E t _ rb] node_reply_def entries_def
        sub_objects_def prefixed_def)
  then have d: "deliver E R 1 a s
      = (if ?ts \<noteq> [] then introspect_list_next E a ?s else introspect_list_finish E a ?s)"
    using ctx by (simp add: wsd_introspect_cb_def Let_def)
  have h: "list_heap ?s a = Some ?ctx" "ds_server ?s = ds_server s0" "dbus_q ?s = dbus_q s0"
    "dcall_heap ?s = dcall_heap s0"
    using s0 by (simp_all add: ds_set_list_def)
  show ?thesis
  proof (cases "?ts = []")
    case True
    then obtain srv where srv:
      "queue_write (srv_env E) w (list_answer E rid ?rb) (ds_server s0) = Some srv"
      using wr by blast
    have "\<exists>s'. introspect_list_finish E a ?s = Some s' \<and> answered E ?s a w rid ?rb s'"
      using finish_answers [OF h(1), of E srv] q srv h ctx by simp
    then show ?thesis
      using True d h(2-4) unfolding reply_effect_def answered_def by auto
  next
    case False
    have "\<exists>s'. introspect_list_next E a ?s = Some s' \<and> walking ?s a w rid ?rb ?ts s'"
      using next_walks [OF E h(1) _ _ False] ctx by simp
    then show ?thesis
      using False d h(2-4) unfolding reply_effect_def walking_def by auto
  qed
qed

lemma level_replies:
  assumes E: "dbus_up E" and R: "\<And>t. node_reply E R t \<noteq> None" and q: "RDList a \<in> set (dbus_q s0 w)"
    and us: "us \<noteq> []" and s: "walking s0 a w rid rb (us @ vs) s"
    and wr: "vs @ concat (map (sub_objects E R) us) = [] \<Longrightarrow> \<exists>srv. queue_write (srv_env E) w
      (list_answer E rid (rb @ concat (map (entries E R) us))) (ds_server s0) = Some srv"
  shows "\<exists>n s'. deliver E R n a s = Some s'
     \<and> reply_effect E s0 a w rid (rb @ concat (map (entries E R) us))
         (vs @ concat (map (sub_objects E R) us)) s'"
  using us s wr
proof (induction us arbitrary: vs rb s)
  case (Cons t us)
  let ?rb = "rb @ entries E R t" and ?ts = "us @ vs @ sub_objects E R t"
  have "?ts = [] \<Longrightarrow> \<exists>srv. queue_write (srv_env E) w (list_answer E rid ?rb) (ds_server s0) = Some srv"
    using Cons.prems(3) by simp
  then obtain s1 where s1: "deliver E R 1 a s = Some s1" "reply_effect E s0 a w rid ?rb ?ts s1"
    using one_reply [OF E, of s0 a w rid rb t "us @ vs" s R] Cons.prems(2) R q by auto
  show ?case
  proof (cases "us = []")
    case True
    then show ?thesis
      using s1 by (intro exI [of _ 1] exI [of _ s1]) (simp del: One_nat_def)
  next
    case False
    then have "walking s0 a w rid ?rb (us @ (vs @ sub_objects E R t)) s1"
      using s1(2) by (simp add: reply_effect_def)
    from Cons.IH [OF False this] Cons.prems(3)
    obtain n s' where "deliver E R n a s1 = Some s'"
      "reply_effect E s0 a w rid (?rb @ concat (map (entries E R) us))
         ((vs @ sub_objects E R t) @ concat (map (sub_objects E R) us)) s'"
      by auto
    then show ?thesis
      using s1(1) deliver_add [of E R 1 n a s] by (intro exI [of _ "1 + n"]) auto
  qed
qed simp

lemma all_replies:
  assumes E: "dbus_up E" and R: "\<And>t. node_reply E R t \<noteq> None" and q: "RDList a \<in> set (dbus_q s0 w)"
    and d: "levels_down E R d ts = []" and s: "reply_effect E s0 a w rid rb ts s"
    and wr: "queue_write (srv_env E) w (list_answer E rid (rb @ level_order E R d ts)) (ds_server s0)
      = Some srv"
  shows "\<exists>n s'. deliver E R n a s = Some s' \<and> answered E s0 a w rid (rb @ level_order E R d ts) s'"
  using d s wr
proof (induction d arbitrary: ts rb s)
  case 0
  then show ?case
    by (intro exI [of _ 0]) (simp add: reply_effect_def)
next
  case (Suc d)
  have nil: "level_order E R k [] = []" for k
    by (induction k) auto
  show ?case
  proof (cases "ts = []")
    case True
    then show ?thesis
      using Suc.prems(2) nil by (intro exI [of _ 0]) (simp add: reply_effect_def)
  next
    case False
    let ?us = "concat (map (sub_objects E R) ts)"
    have "walking s0 a w rid rb (ts @ []) s"
      using Suc.prems(2) False by (simp add: reply_effect_def)
    then obtain m s1 where s1: "deliver E R m a s = Some s1"
      "reply_effect E s0 a w rid (rb @ concat (map (entries E R) ts)) ?us s1"
      using level_replies [OF E R q False, of rid rb "[]" s] Suc.prems(3) nil by fastforce
    then obtain n s' where "deliver E R n a s1 = Some s'"
      "answered E s0 a w rid ((rb @ concat (map (entries E R) ts)) @ level_order E R d ?us) s'"
      using Suc.IH [of ?us "rb @ concat (map (entries E R) ts)" s1] Suc.prems by auto
    then show ?thesis
      using s1(1) deliver_add [of E R m n a s] by (intro exI [of _ "m + n"]) auto
  qed
qed

end
