(* ===== verification/Dbus_Io.thy ===== *)
theory Dbus_Io
  imports Machine Http
begin

text \<open>
  \<open>src/src/dbus-io.c\<close>: the timeouts and watches of libdbus on the event loop of libubox. A slot of
  \<open>timers\<close> or \<open>fds\<close> holds the pointer to the object of libdbus and whether uloop has the timer
  pending, or the mask the descriptor is watched with. The data pointers libdbus keeps for its
  objects are the maps \<open>tdata\<close> and \<open>fdata\<close>, as indices of the tables; \<open>live_t\<close> and \<open>live_w\<close> are the
  objects that were added with success and not removed, which is what libdbus calls the other
  functions for. What libdbus and uloop answer is the record \<open>io_env\<close>.
\<close>

type_synonym dtimeout = nat
type_synonym dwatch = nat

definition MAX_WSD_TIMERS :: nat where "MAX_WSD_TIMERS = 10"
definition MAX_WSD_FDS :: nat where "MAX_WSD_FDS = 4"

record wsd_utimer =
  ut_pending :: "int option"
  dtimer :: "dtimeout option"

record wsd_ufd =
  wu_fd :: int
  wu_flags :: "u8 option"
  dfd :: "dwatch option"

record dbus_io =
  timers_d :: "wsd_utimer list"
  fds_d :: "wsd_ufd list"
  tdata :: "dtimeout \<Rightarrow> nat option"
  fdata :: "dwatch \<Rightarrow> nat option"
  live_t :: "dtimeout set"
  live_w :: "dwatch set"
  dispatch_dbus :: "nat option"
  udefer :: bool

record io_env =
  dbus_timeout_get_enabled :: "dtimeout \<Rightarrow> bool"
  dbus_timeout_get_interval :: "dtimeout \<Rightarrow> int"
  dbus_watch_get_enabled :: "dwatch \<Rightarrow> bool"
  dbus_watch_get_flags :: "dwatch \<Rightarrow> u32"
  dbus_watch_get_socket :: "dwatch \<Rightarrow> int"
  uloop_add_ok :: "int \<Rightarrow> bool"

definition io_init :: dbus_io where
  "io_init = \<lparr>timers_d = replicate MAX_WSD_TIMERS \<lparr>ut_pending = None, dtimer = None\<rparr>,
     fds_d = replicate MAX_WSD_FDS \<lparr>wu_fd = 0, wu_flags = None, dfd = None\<rparr>,
     tdata = (\<lambda>_. None), fdata = (\<lambda>_. None), live_t = {}, live_w = {},
     dispatch_dbus = None, udefer = False\<rparr>"

section \<open>Timeouts\<close>

text \<open>The loop that looks for a free slot, for both tables.\<close>

fun free_slot :: "('a \<Rightarrow> bool) \<Rightarrow> 'a list \<Rightarrow> nat \<Rightarrow> nat option" where
  "free_slot free [] i = None"
| "free_slot free (x # xs) i = (if free x then Some i else free_slot free xs (Suc i))"

definition set_timer :: "nat \<Rightarrow> wsd_utimer \<Rightarrow> dbus_io \<Rightarrow> dbus_io" where
  "set_timer i t s = s\<lparr>timers_d := (timers_d s)[i := t]\<rparr>"

definition wsd_add_timeout :: "io_env \<Rightarrow> dtimeout \<Rightarrow> dbus_io \<Rightarrow> bool \<times> dbus_io" where
  "wsd_add_timeout E timeout s =
     (case free_slot (\<lambda>t. dtimer t = None) (timers_d s) 0 of
        None \<Rightarrow> (False, s)
      | Some i \<Rightarrow>
          (True, set_timer i
             \<lparr>ut_pending = (if dbus_timeout_get_enabled E timeout
                             then Some (dbus_timeout_get_interval E timeout)
                             else ut_pending (timers_d s ! i)),
              dtimer = Some timeout\<rparr>
             (s\<lparr>tdata := (tdata s)(timeout \<mapsto> i), live_t := insert timeout (live_t s)\<rparr>)))"

text \<open>The slot the data pointer names; \<^term>\<open>None\<close> is the failed assertion.\<close>

definition timer_of :: "dtimeout \<Rightarrow> dbus_io \<Rightarrow> (nat \<times> wsd_utimer) option" where
  "timer_of timeout s = do {
     i \<leftarrow> tdata s timeout;
     if i < length (timers_d s) then Some (i, timers_d s ! i) else None
   }"

definition wsd_mod_timeout :: "io_env \<Rightarrow> dtimeout \<Rightarrow> dbus_io \<Rightarrow> dbus_io option" where
  "wsd_mod_timeout E timeout s = do {
     (i, wsd) \<leftarrow> timer_of timeout s;
     Some (set_timer i
       (wsd\<lparr>ut_pending := (if dbus_timeout_get_enabled E timeout
                            then Some (dbus_timeout_get_interval E timeout) else None)\<rparr>) s)
   }"

definition wsd_del_timeout :: "dtimeout \<Rightarrow> dbus_io \<Rightarrow> dbus_io option" where
  "wsd_del_timeout timeout s = do {
     (i, wsd) \<leftarrow> timer_of timeout s;
     Some (set_timer i (wsd\<lparr>ut_pending := None, dtimer := None\<rparr>)
             (s\<lparr>live_t := live_t s - {timeout}\<rparr>))
   }"

text \<open>
  uloop clears the timer and calls back; \<open>dbus_timeout_handle\<close> may remove timeouts, those of the
  list \<open>dels\<close>. A null timeout, or one that was removed, must not be handed to libdbus.
\<close>

fun del_timeouts :: "dtimeout list \<Rightarrow> dbus_io \<Rightarrow> dbus_io option" where
  "del_timeouts [] s = Some s"
| "del_timeouts (t # ts) s =
     (if t \<notin> live_t s then del_timeouts ts s else Option.bind (wsd_del_timeout t s) (del_timeouts ts))"

definition wsd_trigger_timer :: "io_env \<Rightarrow> dtimeout list \<Rightarrow> nat \<Rightarrow> dbus_io \<Rightarrow> dbus_io option" where
  "wsd_trigger_timer E dels i s = do {
     let wsd = timers_d s ! i;
     timeout \<leftarrow> dtimer wsd;
     if timeout \<notin> live_t s then None
     else do {
       s \<leftarrow> del_timeouts dels (set_timer i (wsd\<lparr>ut_pending := None\<rparr>) s);
       let wsd = timers_d s ! i;
       if dtimer wsd = None then Some s
       else if timeout \<notin> live_t s then None
       else Some (set_timer i (wsd\<lparr>ut_pending := Some (dbus_timeout_get_interval E timeout)\<rparr>) s)
     }
   }"

section \<open>Watches\<close>

definition DBUS_WATCH_READABLE :: u32 where "DBUS_WATCH_READABLE = 1"
definition DBUS_WATCH_WRITABLE :: u32 where "DBUS_WATCH_WRITABLE = 2"
definition DBUS_WATCH_ERROR :: u32 where "DBUS_WATCH_ERROR = 4"
definition DBUS_WATCH_HANGUP :: u32 where "DBUS_WATCH_HANGUP = 8"

lemmas dbus_flags = DBUS_WATCH_READABLE_def DBUS_WATCH_WRITABLE_def DBUS_WATCH_ERROR_def
  DBUS_WATCH_HANGUP_def ULOOP_READ_def ULOOP_WRITE_def

definition eventmask_dbus_to_ufd :: "u32 \<Rightarrow> u8" where
  "eventmask_dbus_to_ufd d =
     ucast ((if d AND DBUS_WATCH_READABLE \<noteq> 0 then ULOOP_READ else 0) OR
            (if d AND DBUS_WATCH_WRITABLE \<noteq> 0 then ULOOP_WRITE else 0))"

definition eventmask_ufd_to_dbus :: "u32 \<Rightarrow> bool \<Rightarrow> bool \<Rightarrow> u32" where
  "eventmask_ufd_to_dbus u hup err =
     (if u AND ULOOP_READ \<noteq> 0 then DBUS_WATCH_READABLE else 0) OR
     (if u AND ULOOP_WRITE \<noteq> 0 then DBUS_WATCH_WRITABLE else 0) OR
     (if hup then DBUS_WATCH_HANGUP else 0) OR
     (if err then DBUS_WATCH_ERROR else 0)"

definition set_fd :: "nat \<Rightarrow> wsd_ufd \<Rightarrow> dbus_io \<Rightarrow> dbus_io" where
  "set_fd i f s = s\<lparr>fds_d := (fds_d s)[i := f]\<rparr>"

text \<open>The watch and the flags handed to \<open>dbus_watch_handle\<close>.\<close>

definition wsd_trigger_io :: "nat \<Rightarrow> u32 \<Rightarrow> bool \<Rightarrow> bool \<Rightarrow> dbus_io \<Rightarrow> (dwatch \<times> u32) option" where
  "wsd_trigger_io i flags eof err s = do {
     w \<leftarrow> dfd (fds_d s ! i);
     if w \<notin> live_w s then None else Some (w, eventmask_ufd_to_dbus flags eof err)
   }"

text \<open>A descriptor uloop refuses is not watched, but its slot stays taken.\<close>

definition wsd_add_fd :: "io_env \<Rightarrow> dwatch \<Rightarrow> dbus_io \<Rightarrow> bool \<times> dbus_io" where
  "wsd_add_fd E w s =
     (case free_slot (\<lambda>f. dfd f = None) (fds_d s) 0 of
        None \<Rightarrow> (False, s)
      | Some i \<Rightarrow>
          (let fd = dbus_watch_get_socket E w;
               s' = s\<lparr>fdata := (fdata s)(w \<mapsto> i)\<rparr>;
               f = (fds_d s ! i)\<lparr>wu_fd := fd, dfd := Some w\<rparr> in
           if \<not> dbus_watch_get_enabled E w then (True, set_fd i f s'\<lparr>live_w := insert w (live_w s')\<rparr>)
           else if uloop_add_ok E fd then
             (True, set_fd i (f\<lparr>wu_flags := Some (eventmask_dbus_to_ufd (dbus_watch_get_flags E w))\<rparr>)
                      s'\<lparr>live_w := insert w (live_w s')\<rparr>)
           else (False, set_fd i f s')))"

definition watch_of :: "dwatch \<Rightarrow> dbus_io \<Rightarrow> (nat \<times> wsd_ufd) option" where
  "watch_of w s = do {
     i \<leftarrow> fdata s w;
     if i < length (fds_d s) then Some (i, fds_d s ! i) else None
   }"

definition wsd_mod_fd :: "io_env \<Rightarrow> dwatch \<Rightarrow> dbus_io \<Rightarrow> dbus_io option" where
  "wsd_mod_fd E w s = do {
     (i, f) \<leftarrow> watch_of w s;
     d \<leftarrow> dfd f;
     if d \<notin> live_w s then None
     else if dbus_watch_get_enabled E d then
       (let fd = dbus_watch_get_socket E d in
        Some (set_fd i (f\<lparr>wu_fd := fd,
                          wu_flags := (if uloop_add_ok E fd
                                       then Some (eventmask_dbus_to_ufd (dbus_watch_get_flags E d))
                                       else wu_flags f)\<rparr>) s))
     else Some (set_fd i (f\<lparr>wu_flags := None\<rparr>) s)
   }"

text \<open>The slot is not cleared: \<open>dfd\<close> keeps the pointer to the removed watch.\<close>

definition wsd_del_fd :: "dwatch \<Rightarrow> dbus_io \<Rightarrow> dbus_io option" where
  "wsd_del_fd w s = do {
     (i, f) \<leftarrow> watch_of w s;
     Some (set_fd i (f\<lparr>wu_flags := None\<rparr>) s\<lparr>live_w := live_w s - {w}\<rparr>)
   }"

section \<open>Dispatching\<close>

text \<open>
  \<open>remains k\<close> says that the \<open>k\<close>-th dispatch leaves data; the loop ends when libdbus has none left.
\<close>

fun dispatch_rounds :: "nat \<Rightarrow> (nat \<Rightarrow> bool) \<Rightarrow> nat \<Rightarrow> nat option" where
  "dispatch_rounds 0 remains k = None"
| "dispatch_rounds (Suc fuel) remains k =
     (if remains k then dispatch_rounds fuel remains (Suc k) else Some (Suc k))"

definition wsd_dispatch_cb :: "nat \<Rightarrow> bool \<Rightarrow> dbus_io \<Rightarrow> dbus_io option" where
  "wsd_dispatch_cb dbus_ctx remains s =
     (if dispatch_dbus s \<noteq> None \<and> dispatch_dbus s \<noteq> Some dbus_ctx then None
      else Some (s\<lparr>dispatch_dbus := Some dbus_ctx, udefer := (udefer s \<or> remains)\<rparr>))"

section \<open>The calls of libdbus and uloop\<close>

datatype io_event =
    Add_timeout dtimeout | Mod_timeout dtimeout | Del_timeout dtimeout
  | Timer_expired nat "dtimeout list"
  | Add_watch dwatch | Mod_watch dwatch | Del_watch dwatch
  | Watch_ready nat u32 bool bool
  | Dispatch_status nat bool

fun io_step :: "io_env \<times> io_event \<Rightarrow> dbus_io \<Rightarrow> dbus_io option" where
  "io_step (E, Add_timeout t) s = Some (snd (wsd_add_timeout E t s))"
| "io_step (E, Mod_timeout t) s = wsd_mod_timeout E t s"
| "io_step (E, Del_timeout t) s = wsd_del_timeout t s"
| "io_step (E, Timer_expired i dels) s = wsd_trigger_timer E dels i s"
| "io_step (E, Add_watch w) s = Some (snd (wsd_add_fd E w s))"
| "io_step (E, Mod_watch w) s = wsd_mod_fd E w s"
| "io_step (E, Del_watch w) s = wsd_del_fd w s"
| "io_step (E, Watch_ready i flags eof err) s = map_option (\<lambda>_. s) (wsd_trigger_io i flags eof err s)"
| "io_step (E, Dispatch_status d r) s = wsd_dispatch_cb d r s"

text \<open>
  The contract of libdbus: it adds objects that are not there, changes and removes objects that
  are, and has one connection, number 0. uloop runs timers that are pending and
  reports descriptors that are watched.
\<close>

fun io_enabled :: "dbus_io \<Rightarrow> io_env \<times> io_event \<Rightarrow> bool" where
  "io_enabled s (E, Add_timeout t) \<longleftrightarrow> t \<notin> live_t s"
| "io_enabled s (E, Mod_timeout t) \<longleftrightarrow> t \<in> live_t s"
| "io_enabled s (E, Del_timeout t) \<longleftrightarrow> t \<in> live_t s"
| "io_enabled s (E, Timer_expired i dels) \<longleftrightarrow>
     i < length (timers_d s) \<and> ut_pending (timers_d s ! i) \<noteq> None"
| "io_enabled s (E, Add_watch w) \<longleftrightarrow> w \<notin> live_w s"
| "io_enabled s (E, Mod_watch w) \<longleftrightarrow> w \<in> live_w s"
| "io_enabled s (E, Del_watch w) \<longleftrightarrow> w \<in> live_w s"
| "io_enabled s (E, Watch_ready i flags eof err) \<longleftrightarrow>
     i < length (fds_d s) \<and> wu_flags (fds_d s ! i) \<noteq> None"
| "io_enabled s (E, Dispatch_status d r) \<longleftrightarrow> d = 0"

section \<open>Invariant\<close>

definition timers_ok :: "dbus_io \<Rightarrow> bool" where
  "timers_ok s \<longleftrightarrow> length (timers_d s) = MAX_WSD_TIMERS
     \<and> (\<forall>t \<in> live_t s. \<exists>i. tdata s t = Some i \<and> i < length (timers_d s) \<and> dtimer (timers_d s ! i) = Some t)
     \<and> (\<forall>i < length (timers_d s). \<forall>t. dtimer (timers_d s ! i) = Some t \<longrightarrow> t \<in> live_t s \<and> tdata s t = Some i)
     \<and> (\<forall>i < length (timers_d s). ut_pending (timers_d s ! i) \<noteq> None \<longrightarrow> dtimer (timers_d s ! i) \<noteq> None)"

definition fds_ok :: "dbus_io \<Rightarrow> bool" where
  "fds_ok s \<longleftrightarrow> length (fds_d s) = MAX_WSD_FDS
     \<and> (\<forall>w \<in> live_w s. \<exists>i. fdata s w = Some i \<and> i < length (fds_d s) \<and> dfd (fds_d s ! i) = Some w)
     \<and> (\<forall>i < length (fds_d s). wu_flags (fds_d s ! i) \<noteq> None \<longrightarrow>
          (\<exists>w \<in> live_w s. fdata s w = Some i \<and> dfd (fds_d s ! i) = Some w))"

definition io_ok :: "dbus_io \<Rightarrow> bool" where
  "io_ok s \<longleftrightarrow> timers_ok s \<and> fds_ok s \<and> dispatch_dbus s \<in> {None, Some 0}"

lemma free_slot_spec:
  "free_slot free xs i = Some j \<Longrightarrow> i \<le> j \<and> j < i + length xs \<and> free (xs ! (j - i))"
  by (induction free xs i rule: free_slot.induct) (auto split: if_splits simp: nth_Cons')

lemma free_slot_None: "free_slot free xs i = None \<longleftrightarrow> (\<forall>x \<in> set xs. \<not> free x)"
  by (induction free xs i rule: free_slot.induct) auto

lemma free_slot_Some:
  "free_slot free xs 0 = Some j \<Longrightarrow> j < length xs \<and> free (xs ! j)"
  using free_slot_spec [of free xs 0 j] by simp

text \<open>The operations of one table leave the other alone.\<close>

definition same_fds :: "dbus_io \<Rightarrow> dbus_io \<Rightarrow> bool" where
  "same_fds s s' \<longleftrightarrow> fds_d s' = fds_d s \<and> fdata s' = fdata s \<and> live_w s' = live_w s
     \<and> dispatch_dbus s' = dispatch_dbus s \<and> length (timers_d s') = length (timers_d s)"

definition same_timers :: "dbus_io \<Rightarrow> dbus_io \<Rightarrow> bool" where
  "same_timers s s' \<longleftrightarrow> timers_d s' = timers_d s \<and> tdata s' = tdata s \<and> live_t s' = live_t s
     \<and> dispatch_dbus s' = dispatch_dbus s"

lemma same_fds_ok: "same_fds s s' \<Longrightarrow> timers_ok s' \<Longrightarrow> io_ok s \<Longrightarrow> io_ok s'"
  by (clarsimp simp add: io_ok_def fds_ok_def same_fds_def)

lemma same_timers_ok: "same_timers s s' \<Longrightarrow> fds_ok s' \<Longrightarrow> io_ok s \<Longrightarrow> io_ok s'"
  by (clarsimp simp add: io_ok_def timers_ok_def same_timers_def)

lemma same_fds_set [simp]: "same_fds s (set_timer i x s)" "same_fds s (set_timer i x (s\<lparr>live_t := l\<rparr>))"
  "same_fds s (snd (wsd_add_timeout E t s))"
  by (simp_all add: same_fds_def set_timer_def wsd_add_timeout_def split: option.splits)

lemma same_timers_set [simp]: "same_timers s (set_fd i x s)"
  "same_timers s (set_fd i x s\<lparr>live_w := l\<rparr>)" "same_timers s (snd (wsd_add_fd E w s))"
  by (simp_all add: same_timers_def set_fd_def wsd_add_fd_def Let_def split: option.splits)

lemma add_timeout_ok:
  assumes "timers_ok s" "t \<notin> live_t s"
  shows "timers_ok (snd (wsd_add_timeout E t s))"
proof (cases "free_slot (\<lambda>t. dtimer t = None) (timers_d s) 0")
  case None
  then show ?thesis
    using assms by (simp add: wsd_add_timeout_def)
next
  case (Some i)
  note i = free_slot_Some [OF Some]
  show ?thesis
    using assms i unfolding timers_ok_def
    by (auto simp: wsd_add_timeout_def Some set_timer_def nth_list_update split: if_splits)
      (metis option.distinct(1) option.inject)+
qed

lemma timer_of_live:
  assumes "timers_ok s" "t \<in> live_t s"
  obtains i where "timer_of t s = Some (i, timers_d s ! i)" "tdata s t = Some i"
    "i < length (timers_d s)" "dtimer (timers_d s ! i) = Some t"
  using assms by (auto simp: timers_ok_def timer_of_def)

lemma set_timer_ok:
  assumes "timers_ok s" "i < length (timers_d s)" "dtimer (timers_d s ! i) = Some t" "dtimer x = Some t"
  shows "timers_ok (set_timer i x s)"
proof -
  have "dtimer ((timers_d s)[i := x] ! j) = dtimer (timers_d s ! j)" for j
    using assms by (cases "i = j") auto
  moreover have "(timers_d s)[i := x] ! j = timers_d s ! j" if "j \<noteq> i" for j
    using that by simp
  ultimately show ?thesis
    using assms unfolding timers_ok_def set_timer_def by (simp, metis)
qed

lemma mod_timeout_ok:
  assumes "timers_ok s" "t \<in> live_t s"
  shows "\<exists>s'. wsd_mod_timeout E t s = Some s' \<and> timers_ok s' \<and> same_fds s s'"
proof -
  obtain i where i: "timer_of t s = Some (i, timers_d s ! i)" "i < length (timers_d s)"
    "dtimer (timers_d s ! i) = Some t"
    using timer_of_live [OF assms] by blast
  then show ?thesis
    by (simp add: wsd_mod_timeout_def set_timer_ok [OF assms(1) i(2,3)])
qed

lemma del_timeout_ok:
  assumes "timers_ok s" "t \<in> live_t s"
  shows "\<exists>s'. wsd_del_timeout t s = Some s' \<and> timers_ok s' \<and> same_fds s s'
     \<and> tdata s' = tdata s \<and> live_t s' = live_t s - {t}"
proof -
  obtain i where i: "timer_of t s = Some (i, timers_d s ! i)" "tdata s t = Some i"
    "i < length (timers_d s)" "dtimer (timers_d s ! i) = Some t"
    using timer_of_live [OF assms] by blast
  let ?s = "set_timer i ((timers_d s ! i)\<lparr>ut_pending := None, dtimer := None\<rparr>)
          (s\<lparr>live_t := live_t s - {t}\<rparr>)"
  have "timers_ok ?s"
    using assms i unfolding timers_ok_def
    by (auto simp: set_timer_def nth_list_update) (metis option.inject)+
  then show ?thesis
    using i by (simp add: wsd_del_timeout_def) (simp add: set_timer_def)
qed

lemma del_timeouts_ok:
  assumes "timers_ok s"
  shows "\<exists>s'. del_timeouts ts s = Some s' \<and> timers_ok s' \<and> same_fds s s'
     \<and> tdata s' = tdata s \<and> live_t s' \<subseteq> live_t s"
  using assms
proof (induction ts arbitrary: s)
  case (Cons t ts)
  show ?case
  proof (cases "t \<in> live_t s")
    case True
    then obtain s' where d: "wsd_del_timeout t s = Some s'" "timers_ok s'" "same_fds s s'"
      "tdata s' = tdata s" "live_t s' = live_t s - {t}"
      using del_timeout_ok [OF Cons.prems] by blast
    from Cons.IH [OF d(2)] show ?thesis
      using True d by (auto simp: same_fds_def)
  qed (use Cons in simp)
qed (simp add: same_fds_def)

lemma trigger_timer_ok:
  assumes "timers_ok s" "i < length (timers_d s)" "ut_pending (timers_d s ! i) \<noteq> None"
  shows "\<exists>s'. wsd_trigger_timer E dels i s = Some s' \<and> timers_ok s' \<and> same_fds s s'"
proof -
  obtain t where t: "dtimer (timers_d s ! i) = Some t" "t \<in> live_t s" "tdata s t = Some i"
    using assms by (auto simp: timers_ok_def)
  let ?s = "set_timer i ((timers_d s ! i)\<lparr>ut_pending := None\<rparr>) s"
  have "timers_ok ?s"
    using assms t by (intro set_timer_ok) auto
  then obtain s' where s': "del_timeouts dels ?s = Some s'" "timers_ok s'" "same_fds ?s s'"
    "tdata s' = tdata s" "live_t s' \<subseteq> live_t s"
    using del_timeouts_ok [of ?s dels] by (auto simp: set_timer_def)
  have len: "length (timers_d s') = length (timers_d s)"
    using s'(3) by (simp add: same_fds_def set_timer_def)
  show ?thesis
  proof (cases "dtimer (timers_d s' ! i)")
    case None
    then show ?thesis
      using t s' by (auto simp: wsd_trigger_timer_def same_fds_def set_timer_def)
  next
    case (Some t')
    then have t': "t' \<in> live_t s'" "tdata s t' = Some i"
      using s'(2,4) assms(2) len by (auto simp: timers_ok_def)
    with s'(5) assms(1) t(1) have "t' = t"
      by (fastforce simp: timers_ok_def)
    then show ?thesis
      using t s' t' Some assms(2) len set_timer_ok [OF s'(2), of i t]
      by (auto simp: wsd_trigger_timer_def same_fds_def set_timer_def)
  qed
qed

text \<open>The watches.\<close>

lemma watch_of_live:
  assumes "fds_ok s" "w \<in> live_w s"
  obtains i where "watch_of w s = Some (i, fds_d s ! i)" "fdata s w = Some i"
    "i < length (fds_d s)" "dfd (fds_d s ! i) = Some w"
  using assms by (auto simp: fds_ok_def watch_of_def)

lemma watched_live:
  assumes "fds_ok s" "i < length (fds_d s)" "wu_flags (fds_d s ! i) \<noteq> None"
  obtains w where "w \<in> live_w s" "fdata s w = Some i" "dfd (fds_d s ! i) = Some w"
  using assms unfolding fds_ok_def by blast

lemma fds_okI:
  assumes "length (fds_d s) = MAX_WSD_FDS"
    "\<And>w. w \<in> live_w s \<Longrightarrow> \<exists>i. fdata s w = Some i \<and> i < length (fds_d s) \<and> dfd (fds_d s ! i) = Some w"
    "\<And>i. i < length (fds_d s) \<Longrightarrow> wu_flags (fds_d s ! i) \<noteq> None \<Longrightarrow>
       \<exists>w \<in> live_w s. fdata s w = Some i \<and> dfd (fds_d s ! i) = Some w"
  shows "fds_ok s"
  using assms unfolding fds_ok_def by blast

lemma take_slot_ok:
  assumes s: "fds_ok s" "w \<notin> live_w s" and i: "i < length (fds_d s)" "dfd (fds_d s ! i) = None"
    and f: "dfd f = Some w" "wu_flags f \<noteq> None \<Longrightarrow> w \<in> live_w s'"
    and s': "fds_d s' = (fds_d s)[i := f]" "fdata s' = (fdata s)(w \<mapsto> i)"
      "live_w s \<subseteq> live_w s'" "live_w s' \<subseteq> insert w (live_w s)"
  shows "fds_ok s'"
proof (rule fds_okI)
  show "length (fds_d s') = MAX_WSD_FDS"
    using s s' by (simp add: fds_ok_def)
next
  fix v
  assume v: "v \<in> live_w s'"
  show "\<exists>j. fdata s' v = Some j \<and> j < length (fds_d s') \<and> dfd (fds_d s' ! j) = Some v"
  proof (cases "v = w")
    case True
    then show ?thesis
      using s' i f by simp
  next
    case False
    then obtain j where "fdata s v = Some j" "j < length (fds_d s)" "dfd (fds_d s ! j) = Some v"
      using watch_of_live [OF s(1), of v] v s'(4) by blast
    then show ?thesis
      using False i(2) s' by (cases "i = j") auto
  qed
next
  fix j
  assume j: "j < length (fds_d s')" "wu_flags (fds_d s' ! j) \<noteq> None"
  show "\<exists>v \<in> live_w s'. fdata s' v = Some j \<and> dfd (fds_d s' ! j) = Some v"
  proof (cases "i = j")
    case True
    then show ?thesis
      using j s' f i by (intro bexI [of _ w]) auto
  next
    case False
    then obtain v where "v \<in> live_w s" "fdata s v = Some j" "dfd (fds_d s ! j) = Some v"
      using watched_live [OF s(1), of j] j s' by auto
    then show ?thesis
      using False s(2) s' by (intro bexI [of _ v]) auto
  qed
qed

lemma add_fd_ok:
  assumes "fds_ok s" "w \<notin> live_w s"
  shows "fds_ok (snd (wsd_add_fd E w s))"
proof (cases "free_slot (\<lambda>f. dfd f = None) (fds_d s) 0")
  case None
  then show ?thesis
    using assms by (simp add: wsd_add_fd_def)
next
  case (Some i)
  note i = free_slot_Some [OF Some]
  have "wu_flags (fds_d s ! i) = None"
    using watched_live [OF assms(1), of i] i by fastforce
  then show ?thesis
    using i by (auto simp: wsd_add_fd_def Some set_fd_def Let_def intro!: take_slot_ok [OF assms, of i])
qed

lemma set_fd_ok:
  assumes "fds_ok s" "w \<in> live_w s" "fdata s w = Some i" "i < length (fds_d s)"
    "dfd (fds_d s ! i) = Some w" "dfd x = Some w"
  shows "fds_ok (set_fd i x s)"
proof -
  have "dfd ((fds_d s)[i := x] ! j) = dfd (fds_d s ! j)" for j
    using assms by (cases "i = j") auto
  then show ?thesis
    using assms(1-5) watched_live [OF assms(1)]
    by (intro fds_okI) (auto simp: set_fd_def nth_list_update fds_ok_def split: if_splits)
qed

lemma mod_fd_ok:
  assumes "fds_ok s" "w \<in> live_w s"
  shows "\<exists>s'. wsd_mod_fd E w s = Some s' \<and> fds_ok s' \<and> same_timers s s'"
proof -
  obtain i where i: "watch_of w s = Some (i, fds_d s ! i)" "fdata s w = Some i"
    "i < length (fds_d s)" "dfd (fds_d s ! i) = Some w"
    using watch_of_live [OF assms] by blast
  then show ?thesis
    by (simp add: wsd_mod_fd_def Let_def assms(2) set_fd_ok [OF assms i(2-4)])
qed

lemma del_fd_ok:
  assumes "fds_ok s" "w \<in> live_w s"
  shows "\<exists>s'. wsd_del_fd w s = Some s' \<and> fds_ok s' \<and> same_timers s s'"
proof -
  obtain i where i: "watch_of w s = Some (i, fds_d s ! i)" "fdata s w = Some i"
    "i < length (fds_d s)" "dfd (fds_d s ! i) = Some w"
    using watch_of_live [OF assms] by blast
  have "fds_ok (set_fd i ((fds_d s ! i)\<lparr>wu_flags := None\<rparr>) s\<lparr>live_w := live_w s - {w}\<rparr>)"
  proof (rule fds_okI, goal_cases)
    case (2 v)
    then obtain j where "fdata s v = Some j" "j < length (fds_d s)" "dfd (fds_d s ! j) = Some v"
      using watch_of_live [OF assms(1), of v] by auto
    then show ?case
      using 2 i by (cases "i = j") (auto simp: set_fd_def)
  next
    case (3 j)
    then obtain v where "v \<in> live_w s" "fdata s v = Some j" "dfd (fds_d s ! j) = Some v" "i \<noteq> j"
      using watched_live [OF assms(1), of j] i(3) by (cases "i = j") (auto simp: set_fd_def)
    then show ?case
      using i by (intro bexI [of _ v]) (auto simp: set_fd_def)
  qed (use assms in \<open>simp add: fds_ok_def set_fd_def\<close>)
  then show ?thesis
    using i by (simp add: wsd_del_fd_def)
qed

lemma trigger_io_ok:
  assumes "fds_ok s" "i < length (fds_d s)" "wu_flags (fds_d s ! i) \<noteq> None"
  shows "\<exists>w. w \<in> live_w s \<and> dfd (fds_d s ! i) = Some w
     \<and> wsd_trigger_io i flags eof err s = Some (w, eventmask_ufd_to_dbus flags eof err)"
  using assms by (fastforce simp: fds_ok_def wsd_trigger_io_def)

interpretation dbus_loop: safe_machine io_step io_enabled io_ok
proof
  fix s and e :: "io_env \<times> io_event"
  assume s: "io_ok s" and e: "io_enabled s e"
  obtain E ev where ev: "e = (E, ev)"
    by fastforce
  have ok: "timers_ok s" "fds_ok s" "dispatch_dbus s \<in> {None, Some 0}"
    using s by (simp_all add: io_ok_def)
  show "\<exists>s'. io_step e s = Some s' \<and> io_ok s'"
  proof (cases ev)
    case (Add_timeout t)
    then show ?thesis
      using e ev same_fds_ok [OF _ add_timeout_ok [OF ok(1)] s] by simp
  next
    case (Mod_timeout t)
    then show ?thesis
      using e ev mod_timeout_ok [OF ok(1)] same_fds_ok s by fastforce
  next
    case (Del_timeout t)
    then show ?thesis
      using e ev del_timeout_ok [OF ok(1)] same_fds_ok s by fastforce
  next
    case (Timer_expired i dels)
    then show ?thesis
      using e ev trigger_timer_ok [OF ok(1)] same_fds_ok s by fastforce
  next
    case (Add_watch w)
    then show ?thesis
      using e ev same_timers_ok [OF _ add_fd_ok [OF ok(2)] s] by simp
  next
    case (Mod_watch w)
    then show ?thesis
      using e ev mod_fd_ok [OF ok(2)] same_timers_ok s by fastforce
  next
    case (Del_watch w)
    then show ?thesis
      using e ev del_fd_ok [OF ok(2)] same_timers_ok s by fastforce
  next
    case (Watch_ready i flags eof err)
    then show ?thesis
      using e ev s trigger_io_ok [OF ok(2)] by fastforce
  next
    case (Dispatch_status d r)
    then show ?thesis
      using e ev ok by (auto simp: io_ok_def wsd_dispatch_cb_def timers_ok_def fds_ok_def)
  qed
qed

lemma io_init_ok: "io_ok io_init"
  by (auto simp: io_ok_def io_init_def timers_ok_def fds_ok_def)

section \<open>Capacity\<close>

lemma used_slots:
  assumes "timers_ok s"
  shows "card (live_t s) = card {i. i < length (timers_d s) \<and> dtimer (timers_d s ! i) \<noteq> None}"
proof (rule bij_betw_same_card)
  let ?U = "{i. i < length (timers_d s) \<and> dtimer (timers_d s ! i) \<noteq> None}"
  have "inj_on (\<lambda>t. the (tdata s t)) (live_t s)"
    using assms unfolding timers_ok_def inj_on_def by (metis option.inject option.sel)
  moreover have "(\<lambda>t. the (tdata s t)) ` live_t s = ?U"
    using assms unfolding timers_ok_def by (auto simp: image_iff) (metis option.sel)+
  ultimately show "bij_betw (\<lambda>t. the (tdata s t)) (live_t s) ?U"
    by (simp add: bij_betw_def)
qed

lemma card_below:
  fixes U :: "nat set"
  assumes "U \<subseteq> {..< n}"
  shows "U \<noteq> {..< n} \<longleftrightarrow> card U < n"
  using psubset_card_mono [OF finite_lessThan, of U n] assms by auto

lemma add_timeout_capacity:
  assumes "timers_ok s"
  shows "card (live_t s) \<le> MAX_WSD_TIMERS"
    "fst (wsd_add_timeout E t s) \<longleftrightarrow> card (live_t s) < MAX_WSD_TIMERS"
proof -
  let ?U = "{i. i < length (timers_d s) \<and> dtimer (timers_d s ! i) \<noteq> None}"
  have len: "length (timers_d s) = MAX_WSD_TIMERS"
    using assms by (simp add: timers_ok_def)
  have sub: "?U \<subseteq> {..< MAX_WSD_TIMERS}"
    using len by auto
  show "card (live_t s) \<le> MAX_WSD_TIMERS"
    using card_mono [OF _ sub] used_slots [OF assms] by simp
  have "fst (wsd_add_timeout E t s) \<longleftrightarrow> free_slot (\<lambda>t. dtimer t = None) (timers_d s) 0 \<noteq> None"
    by (simp add: wsd_add_timeout_def split: option.split)
  also have "\<dots> \<longleftrightarrow> \<not> (\<forall>i < MAX_WSD_TIMERS. dtimer (timers_d s ! i) \<noteq> None)"
    by (simp only: free_slot_None all_set_conv_all_nth len)
  also have "\<dots> \<longleftrightarrow> ?U \<noteq> {..< MAX_WSD_TIMERS}"
    unfolding set_eq_iff mem_Collect_eq lessThan_iff len by blast
  also have "\<dots> \<longleftrightarrow> card ?U < MAX_WSD_TIMERS"
    using sub by (rule card_below)
  finally show "fst (wsd_add_timeout E t s) \<longleftrightarrow> card (live_t s) < MAX_WSD_TIMERS"
    unfolding used_slots [OF assms] .
qed

end
