(* ===== verification/Dubus_Properties.thy ===== *)
theory Dubus_Properties
  imports Dubus
begin

text \<open>
  What the conversions between D-Bus and ubus keep: names and values survive the way there and
  back, and the type announced for a signature is the type of the value that is delivered.
\<close>

section \<open>Names\<close>

lemma replace_char_map: "replace_char a b s = map (\<lambda>c. if c = a then b else c) s"
  by (induction s) auto

lemma replace_char_append [simp]:
  "replace_char a b (s @ t) = replace_char a b s @ replace_char a b t"
  by (simp add: replace_char_map)

lemma replace_char_id [simp]: "a \<notin> set s \<Longrightarrow> replace_char a b s = s"
  by (induction s) auto

lemma replace_char_gone [simp]: "a \<noteq> b \<Longrightarrow> a \<notin> set (replace_char a b s)"
  by (induction s) auto

lemma replace_char_keeps [simp]:
  "c \<noteq> a \<Longrightarrow> c \<noteq> b \<Longrightarrow> c \<in> set (replace_char a b s) \<longleftrightarrow> c \<in> set s"
  by (induction s) auto

lemma replace_char_back: "b \<notin> set s \<Longrightarrow> replace_char b a (replace_char a b s) = s"
  by (induction s) auto

lemma replace_char_twice: "replace_char b a (replace_char a b s) = replace_char b a s"
  by (induction s) auto

lemma length_replace_char [simp]: "length (replace_char a b s) = length s"
  by (simp add: replace_char_map)

lemma replace_char_Nil [simp]: "replace_char a b s = [] \<longleftrightarrow> s = []"
  by (cases s) auto

lemma after_prefix_append [simp]: "after_prefix p sep (p @ sep # c # r) = Some (c # r)"
  by (simp add: after_prefix_def strstr_at_start_def)

lemma after_prefix_Some:
  "after_prefix p sep s = Some r \<longleftrightarrow> r \<noteq> [] \<and> s = p @ sep # r"
  by (auto simp: after_prefix_def strstr_at_start_def split: list.splits)
    (metis append_take_drop_id)

text \<open>An object path of D-Bus: it starts with a slash and has no dot.\<close>

definition object_path :: "string \<Rightarrow> bool" where
  "object_path P \<longleftrightarrow> take 1 P = ''/'' \<and> CHR ''.'' \<notin> set P"

lemma object_path_cases:
  assumes "object_path P"
  obtains p where "P = CHR ''/'' # p" "CHR ''.'' \<notin> set p"
  using assms by (cases P) (auto simp: object_path_def)

lemma ubus_to_dbus_path_conv:
  assumes "object_path P" "n \<noteq> []" "CHR ''/'' \<notin> set n"
  shows "duconv_name_ubus_to_dbus_path P n
           = P @ CHR ''/'' # replace_char (CHR ''.'') (CHR ''/'') n"
  using assms by (cases n) (auto simp: duconv_name_ubus_to_dbus_path_def object_path_def)

lemma path_to_name_path:
  assumes "object_path P"
  shows "duconv_name_dbus_path_to_name (P @ s)
           = Some (the (duconv_name_dbus_path_to_name P) @ replace_char (CHR ''/'') (CHR ''.'') s)"
    "duconv_name_dbus_path_to_name P \<noteq> None"
  using assms by (auto elim!: object_path_cases simp: duconv_name_dbus_path_to_name_def)

lemma name_round_trip:
  assumes "object_path P" "n \<noteq> []" "CHR ''/'' \<notin> set n"
  shows "\<exists>d. duconv_name_ubus_to_dbus_name P n = Some d \<and> CHR ''/'' \<notin> set d
           \<and> duconv_name_dbus_name_to_ubus P d = Some (Some n)"
proof -
  obtain p where p: "duconv_name_dbus_path_to_name P = Some p"
    using path_to_name_path(2) [OF assms(1)] by blast
  have "CHR ''/'' \<notin> set p"
    using p by (auto simp: duconv_name_dbus_path_to_name_def split: list.splits)
  moreover have "replace_char (CHR ''/'') (CHR ''.'')
      (CHR ''/'' # replace_char (CHR ''.'') (CHR ''/'') n) = CHR ''.'' # n"
    using assms(3) by (simp add: replace_char_back)
  ultimately show ?thesis
    using assms p path_to_name_path(1) [OF assms(1)]
    by (simp add: duconv_name_ubus_to_dbus_name_def duconv_name_dbus_name_to_ubus_def
        ubus_to_dbus_path_conv after_prefix_Some del: replace_char.simps)
qed

text \<open>
  C24. Below an object path, the D-Bus name made for a ubus object is converted back to the name
  of the object, for every name without a slash; so no two such objects share a D-Bus name.
\<close>

theorem dbus_name_round_trip:
  assumes "object_path P" "n \<noteq> []" "CHR ''/'' \<notin> set n"
  shows "\<exists>d. duconv_name_ubus_to_dbus_name P n = Some d \<and> CHR ''/'' \<notin> set d
           \<and> duconv_name_dbus_name_to_ubus P d = Some (Some n)"
  using assms by (rule name_round_trip)

theorem dbus_name_round_trip_witness:
  "\<exists>d. duconv_name_ubus_to_dbus_name ''/se/inteno/iopsys'' ''network.lan'' = Some d
      \<and> CHR ''/'' \<notin> set d
      \<and> duconv_name_dbus_name_to_ubus ''/se/inteno/iopsys'' d = Some (Some ''network.lan'')"
  by (rule dbus_name_round_trip) (simp_all add: object_path_def)

text \<open>
  The path of an object does not give its name back when the name has a dot: path and interface
  of an object \<open>a.b\<close> are converted to the different names \<open>a/b\<close> and \<open>a.b\<close>.
\<close>

theorem dbus_path_loses_dots:
  assumes "object_path P" "n \<noteq> []" "CHR ''/'' \<notin> set n"
  shows "duconv_name_dbus_path_to_ubus P (duconv_name_ubus_to_dbus_path P n)
           = Some (replace_char (CHR ''.'') (CHR ''/'') n)"
  using assms
  by (simp add: duconv_name_dbus_path_to_ubus_def after_prefix_Some ubus_to_dbus_path_conv)

section \<open>Types and values\<close>

text \<open>
  What the sources rely on: the basic types are those of the D-Bus specification, an array has
  an element type and elements of that type only.
\<close>

definition basic_types :: string where
  "basic_types = ''ybnqiuxtdhsog''"

definition dbus_lib_ok :: "'s dbus_lib \<Rightarrow> bool" where
  "dbus_lib_ok D \<longleftrightarrow> (\<forall>c. dbus_type_is_basic D c \<longleftrightarrow> c \<in> set basic_types)"

fun value_ok :: "dbus_value \<Rightarrow> bool" where
  "value_ok (DArray sig vs) \<longleftrightarrow> sig \<noteq> [] \<and>
     (hd sig \<in> set basic_types \<longrightarrow> (\<forall>v \<in> set vs. dbus_type_of v = hd sig))"
| "value_ok _ \<longleftrightarrow> True"

lemma basic_converts:
  assumes "dbus_type_of v = c"
  obtains w where
    "duconv_dbus_to_ubus_basic (Some b, Some v, Some n) c = Some (Some (b @ [(n, w)]), type_of_blob w)"
    "duconv_dbus_to_ubus_basic (None, None, None) c = Some (None, type_of_blob w)"
    "type_of_blob w \<noteq> BLOBMSG_TYPE_UNSPEC"
  | "duconv_dbus_to_ubus_basic (Some b, Some v, Some n) c = Some (Some b, BLOBMSG_TYPE_UNSPEC)"
    "duconv_dbus_to_ubus_basic (None, None, None) c = Some (None, BLOBMSG_TYPE_UNSPEC)"
  using assms by (cases v) (auto simp: duconv_dbus_to_ubus_basic_def add_if_def)

lemma convert_elems_returns:
  assumes "\<forall>v \<in> set vs. dbus_type_of v = c"
  shows "\<exists>b'. convert_elems c vs b = Some b'"
  using assms
proof (induction vs arbitrary: b)
  case (Cons v vs)
  then have "dbus_type_of v = c"
    by simp
  then show ?case
    using Cons by (cases rule: basic_converts [of v c b "[]"]) auto
qed simp

lemma basic_of_elem: "duconv_dbus_to_ubus_basic tg (CHR ''a'') = Some (fst tg, BLOBMSG_TYPE_UNSPEC)"
  by (simp add: duconv_dbus_to_ubus_basic_def)

text \<open>
  C23. Every argument of a D-Bus message is converted: the result is of the type that is announced
  for its signature, and the attribute that is added has that type; nothing is added exactly when
  the type is not supported.
\<close>

theorem dbus_value_has_announced_type:
  assumes D: "dbus_lib_ok D" and v: "value_ok v"
  shows "\<exists>b' ty. duconv_msg_dbus_to_ubus D b (v # vs) (Some n) = Some (b', ty)
           \<and> duconv_type_dbus_to_ubus D (dbus_type_of v) (element_type_at [v]) = Some ty
           \<and> (if ty = BLOBMSG_TYPE_UNSPEC then b' = b
              else \<exists>w. b' = b @ [(n, w)] \<and> type_of_blob w = ty)"
proof (cases "\<exists>sig xs. v = DArray sig xs")
  case True
  then obtain c sig xs where v': "v = DArray (c # sig) xs"
    using v by (cases v rule: value_ok.cases) (auto simp: neq_Nil_conv)
  show ?thesis
  proof (cases "c \<in> set basic_types")
    case True
    then obtain b' where "convert_elems c xs [] = Some b'"
      using convert_elems_returns [of xs c "[]"] v v' by auto
    then show ?thesis
      using D True v' by (auto simp: duconv_msg_dbus_to_ubus_def duconv_dbus_to_ubus_def add_if_def
          duconv_type_dbus_to_ubus_def dbus_lib_ok_def basic_types_def)
  next
    case False
    then show ?thesis
      using D v' by (auto simp: duconv_msg_dbus_to_ubus_def duconv_dbus_to_ubus_def
          duconv_type_dbus_to_ubus_def dbus_lib_ok_def basic_types_def)
  qed
next
  case False
  then have na: "dbus_type_of v \<noteq> CHR ''a''"
    by (cases v) auto
  show ?thesis
  proof (cases "dbus_type_of v \<in> set basic_types")
    case True
    show ?thesis
      by (cases rule: basic_converts [of v "dbus_type_of v" b n, OF refl])
        (use D True na in \<open>auto simp: duconv_msg_dbus_to_ubus_def duconv_dbus_to_ubus_def
           duconv_type_dbus_to_ubus_def dbus_lib_ok_def\<close>)
  next
    case False
    then show ?thesis
      using D na by (auto simp: duconv_msg_dbus_to_ubus_def duconv_dbus_to_ubus_def
          duconv_type_dbus_to_ubus_def dbus_lib_ok_def)
  qed
qed

text \<open>A libdbus that answers as documented.\<close>

definition demo_dbus :: "string dbus_lib" where
  "demo_dbus = \<lparr>dbus_type_is_basic = (\<lambda>c. c \<in> set basic_types),
     dbus_signature_validate_single = (\<lambda>s. length s = 1), sig_init = id,
     sig_current_type = (\<lambda>s. case s of [] \<Rightarrow> CHR 0x00 | c # _ \<Rightarrow> c),
     sig_element_type = (\<lambda>s. case s of _ # c # _ \<Rightarrow> c | _ \<Rightarrow> CHR 0x00), sig_recurse = tl,
     sig_next = id, accepts = (\<lambda>_. True), format_arg = (\<lambda>f _. Some f),
     blob_walk_of_data = (\<lambda>_. [])\<rparr>"

lemma demo_dbus_ok: "dbus_lib_ok demo_dbus"
  by (simp add: dbus_lib_ok_def demo_dbus_def)

theorem dbus_value_has_announced_type_witness:
  "\<exists>b' ty. duconv_msg_dbus_to_ubus demo_dbus [] [DArray ''i'' [DInt32 1, DInt32 2]] (Some ''x'')
             = Some (b', ty)
     \<and> duconv_type_dbus_to_ubus demo_dbus (CHR ''a'') (CHR ''i'') = Some ty
     \<and> (if ty = BLOBMSG_TYPE_UNSPEC then b' = []
        else \<exists>w. b' = [] @ [(''x'', w)] \<and> type_of_blob w = ty)"
  using dbus_value_has_announced_type [OF demo_dbus_ok, of "DArray ''i'' [DInt32 1, DInt32 2]" "[]"
      "[]" "''x''"] by simp

fun plain_value :: "blob \<Rightarrow> bool" where
  "plain_value (BInt32 _) = True"
| "plain_value (BInt16 _) = True"
| "plain_value (BString _) = True"
| "plain_value (BInt8 x) = (x = 0 \<or> x = 1)"
| "plain_value _ = False"

lemma plain_round_trip:
  assumes "dbus_lib_ok D" "plain_value w" "\<And>d. accepts D d"
  shows "\<exists>d. duconv_msg_ubus_to_dbus D (Some \<lparr>out_args = args, out_open = False\<rparr>) w None
             = Some (Some \<lparr>out_args = args @ [d], out_open = False\<rparr>, dbus_type_of d)
           \<and> (\<forall>b ds n. duconv_msg_dbus_to_ubus D b (d # ds) (Some n) = Some (b @ [(n, w)], type_of_blob w))"
  using assms
  by (cases w rule: plain_value.cases)
    (auto simp: duconv_msg_ubus_to_dbus_def duconv_msg_ubus_to_dbus_basic_def wanted_type_def
      append_opt_def append_basic_def duconv_msg_dbus_to_ubus_def duconv_dbus_to_ubus_def
      duconv_dbus_to_ubus_basic_def add_if_def dbus_lib_ok_def basic_types_def)

text \<open>
  Numbers of 32 and 16 bits, strings and truth values come back from D-Bus as they were sent,
  with the type they had.
\<close>

theorem dbus_value_round_trip:
  assumes "dbus_lib_ok D" "plain_value w" "\<And>d. accepts D d"
  shows "\<exists>d ty. duconv_msg_ubus_to_dbus D (Some \<lparr>out_args = args, out_open = False\<rparr>) w None
             = Some (Some \<lparr>out_args = args @ [d], out_open = False\<rparr>, ty)
           \<and> ty = dbus_type_of d
           \<and> duconv_msg_dbus_to_ubus D b (d # ds) (Some n) = Some (b @ [(n, w)], type_of_blob w)"
  using plain_round_trip [OF assms(1,2), of args] assms(3) by blast

theorem dbus_value_round_trip_witness:
  "\<exists>d ty. duconv_msg_ubus_to_dbus demo_dbus (Some \<lparr>out_args = [], out_open = False\<rparr>) (BInt32 7) None
       = Some (Some \<lparr>out_args = [] @ [d], out_open = False\<rparr>, ty)
     \<and> ty = dbus_type_of d
     \<and> duconv_msg_dbus_to_ubus demo_dbus [] [d] (Some ''x'')
         = Some ([] @ [(''x'', BInt32 7)], type_of_blob (BInt32 7))"
  by (rule dbus_value_round_trip) (simp_all add: demo_dbus_ok, simp add: demo_dbus_def)

text \<open>
  The elements of an array are never sent: whatever the walk over the array visits, the message
  gets an empty array, or none, when the conversion returns at all.
\<close>

lemma append_elems_closed:
  "append_elems D wanted xs i = Some i' \<Longrightarrow> out_open i \<Longrightarrow> i' = i"
  by (induction D wanted xs i rule: append_elems.induct)
    (auto simp: bind_conv duconv_msg_ubus_to_dbus_basic_def append_opt_def append_basic_def Let_def
      split: blob.splits if_splits)

theorem array_elements_not_sent:
  assumes "duconv_msg_ubus_to_dbus D (Some i) (BArray xs) wanted = Some (Some i', ty)"
  shows "out_args i' = out_args i \<or> (\<exists>et. out_args i' = out_args i @ [DArray [et] []])"
  using assms
  by (auto simp: duconv_msg_ubus_to_dbus_def bind_conv Let_def dest!: append_elems_closed
      split: if_splits)

end
