(* ===== verification/Dbus_Properties.thy ===== *)
theory Dbus_Properties
  imports Dbus_Walk Dbus_Io Dubus_Properties Demo
begin

text \<open>
  The D-Bus side of the program: the walk over the objects of all services ends with one answer in
  level order; a call goes to the object it names; the timers of libdbus never overflow their
  table. The last theorems of a section show where the code goes wrong.
\<close>

section \<open>Listing\<close>












text \<open>
  The name of an object below another one has a slash when it comes from the path and dots when it
  comes from the interface, so objects that are not directly below the root are never listed.
\<close>

theorem nested_objects_not_listed:
  assumes "object_path (objects_path E)" "CHR ''/'' \<notin> set iface"
    and "name = duconv_name_dbus_path_to_ubus (objects_path E) (it_path t)"
    and "name = Some (x @ CHR ''/'' # y)"
  shows "subnode_loop E t name (XElement ''interface'' [(''name'', iface)] ms # ns) rb ts
           = subnode_loop E t name ns rb ts"
proof -
  obtain p where p: "duconv_name_dbus_path_to_name (objects_path E) = Some p"
    using path_to_name_path(2) [OF assms(1)] by blast
  have "after_prefix p (CHR ''.'') iface \<noteq> Some (x @ CHR ''/'' # y)"
    using assms(2) by (auto simp: after_prefix_Some)
  then show ?thesis
    using assms(4) p by (simp add: duconv_name_dbus_name_to_ubus_def)
qed

text \<open>A method without arguments is not listed: its table is opened with its first argument.\<close>

theorem method_without_args_not_listed:
  "member_loop E (XElement ''method'' [(''name'', m)] [] # ms) p = member_loop E ms p"
  by simp

text \<open>
  A client that goes away while the list of names is awaited takes the program down: the list of
  targets is not initialised yet.
\<close>

theorem early_close_crashes:
  assumes "dbus_up E" "ubusrpc_handle_list_both E w pattern rid s = Some (ret, s')" "dbus_q s w = []"
  shows "cancel_dbus_requests (dbus_q s' w) s' = None"
  using assms
  by (auto simp: ubusrpc_handle_list_both_def bind_conv handle_list_dbus_def dbus_up_def Let_def
      ds_send_def ds_set_list_def wsd_list_ctx_cancel_and_destroy_def split: if_splits)

text \<open>When the bus refuses the list of names, the freed request stays in the client's queue.\<close>

theorem list_error_leaves_dangling:
  assumes "wsd_list_cb E p a (Error_reply err text) s = Some s'" "list_heap s a = Some ctx"
    "RDList a \<in> set (dbus_q s (lc_wsi ctx))"
  shows "RDList a \<in> set (dbus_q s' (lc_wsi ctx)) \<and> list_heap s' a = None"
  using assms
  by (auto simp: wsd_list_cb_def check_reply_and_make_error_def bind_conv ds_write_def Let_def
      wsd_list_ctx_free_def ds_set_list_def split: if_splits)

section \<open>Calls\<close>





text \<open>
  The session of the request plays no part: the same message is sent whatever the session, without
  a question to the session object.
\<close>

theorem dbus_call_ignores_session:
  "map_option (\<lambda>(ret, s'). (ret, d_sent s', ds_server s')) (handle_call_dbus E w (req\<lparr>uc_sid := sid\<rparr>) rid s)
     = map_option (\<lambda>(ret, s'). (ret, d_sent s', ds_server s')) (handle_call_dbus E w req rid s)"
  by (simp add: handle_call_dbus_def Let_def ds_send_def ds_set_call_def
      split: Option.bind_split option.split send_result.split)

text \<open>
  The context of a call that is cancelled while its reply is awaited stays in memory, though the
  reply will not come any more.
\<close>

theorem cancelled_call_leaks:
  assumes "dcall_heap s a = Some ctx" "cc_call_req ctx = Some p"
  shows "\<exists>s'. wsd_call_ctx_cancel_and_destroy a s = Some s' \<and> dcall_heap s' a = Some ctx \<and> pending s' p = None"
  using assms by (simp add: wsd_call_ctx_cancel_and_destroy_def)

text \<open>
  A call over D-Bus is never counted down: neither the call nor its reply changes the number of
  requests in progress that the handler of messages counted up.
\<close>

lemma queue_write_q_len:
  "queue_write E w str s = Some s' \<Longrightarrow>
   map_option rpc_q_len (wsi_to_client s' v) = map_option rpc_q_len (wsi_to_client s v)"
  by (auto simp: queue_write_def wsu_queue_write_str_def wsi_to_client_def wsi_to_peer_def set_peer_def
      client_of_def Let_def split: option.splits if_splits)

theorem dbus_call_not_counted_down:
  assumes "wsd_call_cb E p a reply s = Some s'"
  shows "map_option rpc_q_len (wsi_to_client (ds_server s') v)
       = map_option rpc_q_len (wsi_to_client (ds_server s) v)"
proof -
  obtain str srv where w: "queue_write (srv_env E) (cc_wsi (the (dcall_heap s a))) str (ds_server s) = Some srv"
    and "ds_server s' = srv"
    using assms
    by (auto simp: wsd_call_cb_def bind_conv ds_write_def dq_del_def wsd_call_ctx_cancel_and_destroy_def
        wsd_call_ctx_free_def ds_set_call_def Let_def split: if_splits prod.splits)
  then show ?thesis
    using queue_write_q_len [OF w] by simp
qed

section \<open>The event loop\<close>

text \<open>
  C25. \<^bold>\<open>The timers of libdbus.\<close> After any calls that keep the contract of libdbus and uloop, none has
  failed and none that keeps it can fail next, so that no removed timeout or watch is handed to
  libdbus; at most ten timeouts are in use, and another one is accepted exactly when there are fewer.
\<close>

theorem dbus_timers_bounded:
  assumes "admitted io_step io_enabled evs io_init"
  shows "\<exists>s. run_events io_step evs io_init = Some s \<and> card (live_t s) \<le> MAX_WSD_TIMERS
    \<and> (\<forall>E t. fst (wsd_add_timeout E t s) \<longleftrightarrow> card (live_t s) < MAX_WSD_TIMERS)
    \<and> (\<forall>e. io_enabled s e \<longrightarrow> io_step e s \<noteq> None)"
proof -
  obtain s where s: "run_events io_step evs io_init = Some s" "io_ok s"
    using dbus_loop.run_safe [OF io_init_ok assms] by blast
  have "io_step e s \<noteq> None" if "io_enabled s e" for e
    using dbus_loop.run_next_safe [OF io_init_ok assms s(1) that] by auto
  then show ?thesis
    using s add_timeout_capacity by (auto simp: io_ok_def)
qed

definition demo_io_env :: io_env where
  "demo_io_env = \<lparr>dbus_timeout_get_enabled = (\<lambda>_. True), dbus_timeout_get_interval = (\<lambda>_. 25),
     dbus_watch_get_enabled = (\<lambda>_. True), dbus_watch_get_flags = (\<lambda>_. 1),
     dbus_watch_get_socket = (\<lambda>_. 9), uloop_add_ok = (\<lambda>_. True)\<rparr>"

definition demo_io_events :: "(io_env \<times> io_event) list" where
  "demo_io_events = map (Pair demo_io_env)
     [Add_timeout 1, Add_watch 1, Add_timeout 2, Timer_expired 0 [1], Del_watch 1]"

theorem dbus_timers_bounded_witness:
  "\<exists>s. run_events io_step demo_io_events io_init = Some s \<and> card (live_t s) \<le> MAX_WSD_TIMERS
    \<and> (\<forall>E t. fst (wsd_add_timeout E t s) \<longleftrightarrow> card (live_t s) < MAX_WSD_TIMERS)
    \<and> (\<forall>e. io_enabled s e \<longrightarrow> io_step e s \<noteq> None)"
  by (rule dbus_timers_bounded)
    (simp add: demo_io_events_def demo_io_env_def io_init_def MAX_WSD_TIMERS_def MAX_WSD_FDS_def
      wsd_add_timeout_def wsd_add_fd_def set_timer_def set_fd_def Let_def wsd_trigger_timer_def
      wsd_del_timeout_def timer_of_def wsd_del_fd_def watch_of_def numeral_eq_Suc)

text \<open>
  A slot for a watch is taken for ever: removing a watch does not free its slot. Once four watches
  were added no other is accepted, however many of them are removed.
\<close>

theorem watch_slots_used_up:
  assumes "\<forall>f \<in> set (fds_d s). dfd f \<noteq> None" "wsd_del_fd w s = Some s'"
  shows "\<not> fst (wsd_add_fd E v s')"
proof -
  obtain i where i: "i < length (fds_d s)" "fds_d s' = (fds_d s)[i := (fds_d s ! i)\<lparr>wu_flags := None\<rparr>]"
    using assms(2) by (auto simp: wsd_del_fd_def watch_of_def bind_conv set_fd_def split: if_splits)
  then have "\<forall>f \<in> set (fds_d s'). dfd f \<noteq> None"
    using assms(1) set_update_subset_insert [of "fds_d s" i] by (fastforce simp del: not_None_eq)
  then show ?thesis
    using free_slot_None [of "\<lambda>f. dfd f = None" "fds_d s'" 0] by (simp add: wsd_add_fd_def)
qed

end
