(* ===== verification/Schema.thy ===== *)
theory Schema
  imports Json_Rpc
begin

text \<open>
  The store of JSON schemas, \<open>schema.c\<close>: files that describe the arguments and results of the methods
  of an object are read into a tree of objects, each with a tree of methods, and looked up by the
  name of an object or by a regular expression. The store is not a part of the default build.
\<close>

section \<open>Trees\<close>

record schema_method =
  sm_key :: "string option"
  sm_input :: "string option"
  sm_output :: "string option"

record schema_object =
  so_key :: "string option"
  so_definitions :: "string option"
  so_regex :: bool
  so_regex_exp :: "(string \<Rightarrow> bool) option"
  so_methods :: "schema_method list"

text \<open>
  An AVL tree with \<open>avl_strcmp\<close> and without duplicates is the list of its nodes in order. Inserting
  a key that is there leaves the tree alone; a null key cannot be compared.
\<close>

fun tree_insert :: "('a \<Rightarrow> string option) \<Rightarrow> 'a \<Rightarrow> 'a list \<Rightarrow> 'a list option" where
  "tree_insert key x [] = Some [x]"
| "tree_insert key x (y # ys) =
     (case (key x, key y) of
        (Some k, Some l) \<Rightarrow>
          if strcmp k l < 0 then Some (x # y # ys)
          else if strcmp k l = 0 then Some (y # ys)
          else map_option ((#) y) (tree_insert key x ys)
      | _ \<Rightarrow> None)"

definition METHOD_NAME_MAX_LEN :: nat where "METHOD_NAME_MAX_LEN = 64"

definition OBJECT_NAME_MAX_LEN :: nat where "OBJECT_NAME_MAX_LEN = 64"

datatype schema_alloc = Alloc_schema_object | Alloc_schema_method | Alloc_object_key | Alloc_method_key

text \<open>\<open>sx_regcomp\<close> gives the expression, as the names it matches, or fails.\<close>

record schema_env =
  sx_lib :: libubox
  sx_get_bool :: "blob \<Rightarrow> bool"
  sx_json_from_file :: "string \<Rightarrow> blob_attr list option"
  sx_alloc :: "schema_alloc \<Rightarrow> bool"
  sx_regcomp :: "string \<Rightarrow> (string \<Rightarrow> bool) option"
  sx_glob :: "string list option"

section \<open>Clearing\<close>

text \<open>The nodes that are freed, in order.\<close>

datatype schema_node = Method_node schema_method | Object_node schema_object

definition schema_flush_methods :: "schema_object \<Rightarrow> schema_node list" where
  "schema_flush_methods s_object = map Method_node (so_methods s_object)"

definition schema_flush_object :: "schema_object \<Rightarrow> schema_node list" where
  "schema_flush_object s_object = schema_flush_methods s_object @ [Object_node s_object]"

fun schema_flush_objects :: "schema_object list \<Rightarrow> schema_node list \<times> schema_object list" where
  "schema_flush_objects [] = ([], [])"
| "schema_flush_objects (s_object # tree) =
     (let (freed, tree) = schema_flush_objects tree in (schema_flush_object s_object @ freed, tree))"

section \<open>Reading\<close>

definition format_attr :: "schema_env \<Rightarrow> blob \<Rightarrow> string option" where
  "format_attr E v = blobmsg_format_json (sx_lib E) (blobmsg_attrs (sx_lib E) v)"

text \<open>The loop over the properties of a method.\<close>

fun schema_fill_method :: "schema_env \<Rightarrow> blob_attr list \<Rightarrow> schema_method \<Rightarrow> schema_method" where
  "schema_fill_method E [] s_method = s_method"
| "schema_fill_method E ((name, v) # attrs) s_method =
     schema_fill_method E attrs
       (if strncmp name ''input'' 6 = 0 then s_method\<lparr>sm_input := format_attr E v\<rparr>
        else if strncmp name ''output'' 7 = 0 then s_method\<lparr>sm_output := format_attr E v\<rparr>
        else s_method)"

fun schema_parse_object ::
    "schema_env \<Rightarrow> string \<Rightarrow> blob_attr list \<Rightarrow> schema_object \<Rightarrow> schema_object option" where
  "schema_parse_object E object [] schema_object = Some schema_object"
| "schema_parse_object E object ((name, v) # attrs) schema_object =
     (if strncmp name ''properties'' 11 \<noteq> 0 then schema_parse_object E object attrs schema_object
      else if \<not> sx_alloc E Alloc_schema_method then schema_parse_object E object attrs schema_object
      else do {
        let s_method = \<lparr>sm_key = (if sx_alloc E Alloc_method_key then Some object else None),
                         sm_input = None, sm_output = None\<rparr>;
        let s_method = schema_fill_method E (blobmsg_attrs (sx_lib E) v) s_method;
        tree \<leftarrow> tree_insert sm_key s_method (so_methods schema_object);
        schema_parse_object E object attrs (schema_object\<lparr>so_methods := tree\<rparr>)
      })"

fun schema_parse_methods :: "schema_env \<Rightarrow> blob_attr list \<Rightarrow> schema_object \<Rightarrow> schema_object option" where
  "schema_parse_methods E [] schema_object = Some schema_object"
| "schema_parse_methods E ((name, v) # attrs) schema_object =
     (if type_of_blob v \<noteq> BLOBMSG_TYPE_TABLE then schema_parse_methods E attrs schema_object
      else Option.bind (schema_parse_object E name (blobmsg_attrs (sx_lib E) v) schema_object)
        (schema_parse_methods E attrs))"

text \<open>
  The loop over the attributes of the file; the flag says that it ended early at \<open>out_flush\<close>. The
  last component is the local variable \<open>definitions\<close>.
\<close>

fun schema_read_root ::
    "schema_env \<Rightarrow> blob_attr list \<Rightarrow> schema_object \<Rightarrow> string option \<Rightarrow>
      (bool \<times> schema_object \<times> string option) option" where
  "schema_read_root E [] o' definitions = Some (True, o', definitions)"
| "schema_read_root E ((name, v) # attrs) o' definitions =
     (let o' = (if strncmp name ''regex'' 6 = 0 then o'\<lparr>so_regex := sx_get_bool E v\<rparr> else o');
          is_key = (strncmp name ''object'' 7 = 0);
          o' = (if is_key then o'\<lparr>so_key := (if sx_alloc E Alloc_object_key
                  then Some (blobmsg_get_string (sx_lib E) v) else None)\<rparr> else o') in
      if is_key \<and> so_key o' = None then Some (False, o', definitions)
      else
        let definitions = (if strncmp name ''definitions'' 12 = 0 then format_attr E v else definitions) in
        if strncmp name ''properties'' 11 \<noteq> 0 then schema_read_root E attrs o' definitions
        else Option.bind (schema_parse_methods E (blobmsg_attrs (sx_lib E) v) o')
          (\<lambda>o'. schema_read_root E attrs o' definitions))"

definition empty_schema :: schema_object where
  "empty_schema = \<lparr>so_key = None, so_definitions = None, so_regex = False, so_regex_exp = None, so_methods = []\<rparr>"

definition schema_compile_regex :: "schema_env \<Rightarrow> schema_object \<Rightarrow> (bool \<times> schema_object) option" where
  "schema_compile_regex E o' =
     (if \<not> so_regex o' then Some (True, o')
      else
        case so_key o' of
          None \<Rightarrow> None
        | Some key \<Rightarrow>
            (case sx_regcomp E key of
               None \<Rightarrow> Some (False, o')
             | Some m \<Rightarrow> Some (True, o'\<lparr>so_regex_exp := Some m\<rparr>)))"

definition schema_setup_file :: "schema_env \<Rightarrow> string \<Rightarrow> schema_object list \<Rightarrow> schema_object list option" where
  "schema_setup_file E path tree =
     (case sx_json_from_file E path of
        None \<Rightarrow> Some tree
      | Some acl \<Rightarrow>
          if \<not> sx_alloc E Alloc_schema_object then Some tree
          else do {
            (ok, schema_object, definitions) \<leftarrow> schema_read_root E acl empty_schema None;
            if \<not> ok then Some tree
            else do {
              (ok, schema_object) \<leftarrow> schema_compile_regex E schema_object;
              if \<not> ok then Some tree
              else if so_key schema_object = None then Some tree
              else tree_insert so_key (schema_object\<lparr>so_definitions := definitions\<rparr>) tree
            }
          })"

fun schema_setup_files :: "schema_env \<Rightarrow> string list \<Rightarrow> schema_object list \<Rightarrow> schema_object list option" where
  "schema_setup_files E [] tree = Some tree"
| "schema_setup_files E (path # paths) tree =
     Option.bind (schema_setup_file E path tree) (schema_setup_files E paths)"

definition schema_setup_json :: "schema_env \<Rightarrow> schema_object list option" where
  "schema_setup_json E = (case sx_glob E of None \<Rightarrow> Some [] | Some paths \<Rightarrow> schema_setup_files E paths [])"

section \<open>Looking up\<close>

text \<open>An expression that was not compiled, and a null key, cannot be used.\<close>

fun schema_get_object_schema :: "schema_object list \<Rightarrow> string \<Rightarrow> schema_object option option" where
  "schema_get_object_schema [] object = Some None"
| "schema_get_object_schema (s_object # tree) object =
     (if so_regex s_object then
        (case so_regex_exp s_object of
           None \<Rightarrow> None
         | Some matches \<Rightarrow>
             if matches object then Some (Some s_object) else schema_get_object_schema tree object)
      else
        (case so_key s_object of
           None \<Rightarrow> None
         | Some key \<Rightarrow>
             if strncmp object key OBJECT_NAME_MAX_LEN = 0 then Some (Some s_object)
             else schema_get_object_schema tree object))"

fun schema_find_method :: "schema_method list \<Rightarrow> string \<Rightarrow> schema_method option option" where
  "schema_find_method [] method = Some None"
| "schema_find_method (s_method # tree) method =
     (case sm_key s_method of
        None \<Rightarrow> None
      | Some key \<Rightarrow>
          if strncmp method key METHOD_NAME_MAX_LEN = 0 then Some (Some s_method)
          else schema_find_method tree method)"

definition schema_get_method_schema :: "schema_object list \<Rightarrow> string \<Rightarrow> string \<Rightarrow> schema_method option option" where
  "schema_get_method_schema tree object method = do {
     s_object \<leftarrow> schema_get_object_schema tree object;
     (case s_object of None \<Rightarrow> Some None | Some s_object \<Rightarrow> schema_find_method (so_methods s_object) method)
   }"

definition schema_get_definitions_schema :: "schema_object list \<Rightarrow> string \<Rightarrow> string option option" where
  "schema_get_definitions_schema tree object =
     map_option (\<lambda>s_object. Option.bind s_object so_definitions) (schema_get_object_schema tree object)"

end
