(* ===== verification/Schema_Properties.thy ===== *)
theory Schema_Properties
  imports Schema
begin

text \<open>
  The schema store: reading a directory returns and gives trees in order whose expressions are
  compiled, the first file for an object counts, and a look-up finds the schema of the object and
  method it names, as long as the names are shorter than the 64 bytes that are compared.
\<close>

section \<open>Trees\<close>

definition tree_ok :: "('a \<Rightarrow> string option) \<Rightarrow> 'a list \<Rightarrow> bool" where
  "tree_ok key t \<longleftrightarrow> (\<forall>x\<in>set t. key x \<noteq> None) \<and> sorted_wrt (\<lambda>x y. bytes (the (key x)) < bytes (the (key y))) t"

lemma tree_ok_Cons:
  "tree_ok key (y # ys) \<longleftrightarrow>
     tree_ok key ys \<and> key y \<noteq> None \<and> (\<forall>x\<in>set ys. bytes (the (key y)) < bytes (the (key x)))"
  by (auto simp: tree_ok_def)

text \<open>An insertion adds the node, or leaves the tree alone when it has a node with the key.\<close>

lemma tree_insert_ok:
  assumes "tree_ok key t" "key x = Some k"
  shows "\<exists>t'. tree_insert key x t = Some t' \<and> tree_ok key t' \<and>
    set t' = (if \<exists>y\<in>set t. key y = Some k then set t else insert x (set t))"
  using assms(1)
proof (induction t)
  case (Cons y ys)
  obtain l where l: "key y = Some l" using Cons.prems by (auto simp: tree_ok_Cons)
  have above: "\<forall>z\<in>set ys. key z \<noteq> None \<and> bytes l < bytes (the (key z))"
    using Cons.prems l by (auto simp: tree_ok_Cons tree_ok_def)
  consider "bytes k < bytes l" | "k = l" | "bytes l < bytes k" by (metis strcmp_neg strcmp_pos strcmp_eq_0 linorder_cases)
  then show ?case
  proof cases
    case 1
    then have "\<forall>z\<in>set (y # ys). key z \<noteq> Some k" using above l by fastforce
    then show ?thesis
      using 1 l assms(2) Cons.prems above
      by (auto simp: tree_ok_Cons strcmp_neg intro: order.strict_trans)
  next
    case 2
    then show ?thesis using l assms(2) Cons.prems by (auto simp: strcmp_neg)
  next
    case 3
    then have "\<not> strcmp k l < 0" "strcmp k l \<noteq> 0" by (auto simp: strcmp_neg)
    moreover have "key y \<noteq> Some k" using 3 l by auto
    ultimately show ?thesis
      using Cons.IH Cons.prems l assms(2) 3 by (auto simp: tree_ok_Cons split: if_splits)
  qed
qed (use assms(2) in \<open>simp add: tree_ok_def\<close>)

lemma tree_find:
  assumes "tree_ok key t" "x \<in> set t" "y \<in> set t" "key x = key y"
  shows "x = y"
  using assms by (induction t) (fastforce simp: tree_ok_Cons)+

lemma strncmp_whole: "strncmp a b (Suc (length b)) = 0 \<longleftrightarrow> a = b"
proof
  assume "strncmp a b (Suc (length b)) = 0"
  then have t: "take (Suc (length b)) a = b" by (simp add: strncmp_eq_0)
  then have "length a \<le> length b" by (metis length_take min.absorb_iff2 not_less_eq_eq min_def n_not_Suc_n)
  then show "a = b" using t by simp
qed (simp add: strncmp_eq_0)

lemma strncmp_short: "length a < n \<Longrightarrow> length b < n \<Longrightarrow> strncmp a b n = 0 \<longleftrightarrow> a = b"
  by (simp add: strncmp_eq_0)

section \<open>Reading\<close>

definition schema_ok :: "schema_object \<Rightarrow> bool" where
  "schema_ok o' \<longleftrightarrow> tree_ok sm_key (so_methods o') \<and> (so_regex o' \<longrightarrow> so_regex_exp o' \<noteq> None)"

definition store_ok :: "schema_object list \<Rightarrow> bool" where
  "store_ok t \<longleftrightarrow> tree_ok so_key t \<and> (\<forall>o'\<in>set t. schema_ok o')"

text \<open>What reading a method or a file does not change.\<close>

abbreviation same_head :: "schema_object \<Rightarrow> schema_object \<Rightarrow> bool" where
  "same_head o' p \<equiv> so_key p = so_key o' \<and> so_regex p = so_regex o'"

lemma fill_method_key [simp]: "sm_key (schema_fill_method E attrs m) = sm_key m"
  by (induction E attrs m rule: schema_fill_method.induct) simp_all

lemma parse_object_returns:
  assumes "\<And>a. sx_alloc E a" "tree_ok sm_key (so_methods o')"
  shows "\<exists>p. schema_parse_object E name attrs o' = Some p \<and> tree_ok sm_key (so_methods p) \<and> same_head o' p"
  using assms(2)
proof (induction attrs arbitrary: o')
  case (Cons x attrs)
  obtain n v where x: "x = (n, v)" by fastforce
  let ?m = "schema_fill_method E (blobmsg_attrs (sx_lib E) v) \<lparr>sm_key = Some name, sm_input = None, sm_output = None\<rparr>"
  obtain t where "tree_insert sm_key ?m (so_methods o') = Some t" "tree_ok sm_key t"
    using tree_insert_ok [OF Cons.prems, of ?m name] by auto
  then show ?case
    using Cons.IH [OF Cons.prems] Cons.IH [of "o'\<lparr>so_methods := t\<rparr>"] assms(1) x by (auto simp: Let_def)
qed simp

lemma parse_methods_returns:
  assumes "\<And>a. sx_alloc E a" "tree_ok sm_key (so_methods o')"
  shows "\<exists>p. schema_parse_methods E attrs o' = Some p \<and> tree_ok sm_key (so_methods p) \<and> same_head o' p"
  using assms(2)
proof (induction attrs arbitrary: o')
  case (Cons x attrs)
  obtain n v where x: "x = (n, v)" by fastforce
  obtain p where "schema_parse_object E n (blobmsg_attrs (sx_lib E) v) o' = Some p" "tree_ok sm_key (so_methods p)"
    "same_head o' p"
    using parse_object_returns [OF assms(1) Cons.prems] by blast
  then show ?case using Cons.IH [OF Cons.prems] Cons.IH [of p] x by auto
qed simp

lemma attr_names [simp]:
  "strncmp name ''object'' 7 = 0 \<longleftrightarrow> name = ''object''" "strncmp name ''properties'' 11 = 0 \<longleftrightarrow> name = ''properties''"
  "strncmp name ''input'' 6 = 0 \<longleftrightarrow> name = ''input''" "strncmp name ''output'' 7 = 0 \<longleftrightarrow> name = ''output''"
  "strncmp name ''regex'' 6 = 0 \<longleftrightarrow> name = ''regex''" "strncmp name ''definitions'' 12 = 0 \<longleftrightarrow> name = ''definitions''"
  using strncmp_whole [of name "''regex''"] strncmp_whole [of name "''definitions''"] strncmp_whole [of name "''object''"] strncmp_whole [of name "''properties''"]
    strncmp_whole [of name "''input''"] strncmp_whole [of name "''output''"]
  by (simp_all add: eval_nat_numeral)

lemma read_root_returns:
  assumes "\<And>a. sx_alloc E a" "tree_ok sm_key (so_methods o')"
  shows "\<exists>p ds. schema_read_root E attrs o' defs = Some (True, p, ds) \<and> tree_ok sm_key (so_methods p) \<and>
    (so_key o' \<noteq> None \<or> ''object'' \<in> fst ` set attrs \<longrightarrow> so_key p \<noteq> None)"
  using assms(2)
proof (induction attrs arbitrary: o' defs)
  case (Cons x attrs)
  obtain n v where x: "x = (n, v)" by fastforce
  define q where "q = (if strncmp n ''regex'' 6 = 0 then o'\<lparr>so_regex := sx_get_bool E v\<rparr> else o')"
  define r where "r = (if n = ''object'' then q\<lparr>so_key := Some (blobmsg_get_string (sx_lib E) v)\<rparr> else q)"
  have r: "tree_ok sm_key (so_methods r)" "so_key o' \<noteq> None \<or> n = ''object'' \<longrightarrow> so_key r \<noteq> None"
    using Cons.prems by (simp_all add: r_def q_def)
  obtain p where p: "schema_parse_methods E (blobmsg_attrs (sx_lib E) v) r = Some p" "tree_ok sm_key (so_methods p)"
    "same_head r p"
    using parse_methods_returns [OF assms(1) r(1)] by blast
  define u where "u = (if n = ''properties'' then p else r)"
  define d where "d = (if strncmp n ''definitions'' 12 = 0 then format_attr E v else defs)"
  have run: "schema_read_root E (x # attrs) o' defs = schema_read_root E attrs u d"
    using p(1) assms(1) r(2) unfolding x u_def d_def r_def q_def by (auto simp: Let_def split: if_splits)
  have "tree_ok sm_key (so_methods u)" "so_key o' \<noteq> None \<or> n = ''object'' \<longrightarrow> so_key u \<noteq> None"
    using r p(2,3) by (simp_all add: u_def)
  then show ?case using Cons.IH [of u d] x unfolding run by auto
qed simp

definition names_objects :: "schema_env \<Rightarrow> bool" where
  "names_objects E \<longleftrightarrow> (\<forall>path acl. sx_json_from_file E path = Some acl \<longrightarrow> ''object'' \<in> fst ` set acl)"

text \<open>
  \<^bold>\<open>Reading a directory.\<close> With memory available and files that name their object, the store is read:
  no null key is compared or compiled, the trees are in order without duplicates, and every
  expression is compiled.
\<close>

lemma setup_file_returns:
  assumes "\<And>a. sx_alloc E a" "names_objects E" "store_ok t"
  shows "\<exists>t'. schema_setup_file E path t = Some t' \<and> store_ok t' \<and> set t \<subseteq> set t'"
proof (cases "sx_json_from_file E path")
  case (Some acl)
  have "tree_ok sm_key (so_methods empty_schema)" by (simp add: empty_schema_def tree_ok_def)
  then obtain p ds k where p: "schema_read_root E acl empty_schema None = Some (True, p, ds)"
    "tree_ok sm_key (so_methods p)" "so_key p = Some k"
    using read_root_returns [OF assms(1), of empty_schema acl None] assms(2) Some by (auto simp: names_objects_def)
  show ?thesis
  proof (cases "so_regex p \<and> sx_regcomp E k = None")
    case True
    then show ?thesis using Some assms(1,3) p by (simp add: schema_setup_file_def schema_compile_regex_def)
  next
    case False
    then obtain q where q: "schema_compile_regex E p = Some (True, q)" "so_key q = Some k"
      "so_methods q = so_methods p" "so_regex q \<longrightarrow> so_regex_exp q \<noteq> None"
      by (cases "so_regex p"; cases "sx_regcomp E k") (auto simp: schema_compile_regex_def p(3))
    let ?q = "q\<lparr>so_definitions := ds\<rparr>"
    obtain t' where t': "tree_insert so_key ?q t = Some t'" "tree_ok so_key t'"
      "set t' = (if \<exists>y\<in>set t. so_key y = Some k then set t else insert ?q (set t))"
      using tree_insert_ok [of so_key t ?q k] assms(3) q(2) by (auto simp: store_ok_def)
    moreover have "schema_ok ?q" using p(2) q by (simp add: schema_ok_def)
    ultimately have "store_ok t'" "set t \<subseteq> set t'" using assms(3) by (auto simp: store_ok_def)
    then show ?thesis using Some assms(1) p q t'(1) by (simp add: schema_setup_file_def)
  qed
qed (use assms(3) in \<open>simp add: schema_setup_file_def\<close>)

lemma setup_files_returns:
  assumes "\<And>a. sx_alloc E a" "names_objects E" "store_ok t"
  shows "\<exists>t'. schema_setup_files E paths t = Some t' \<and> store_ok t' \<and> set t \<subseteq> set t'"
  using assms(3)
proof (induction paths arbitrary: t)
  case (Cons path paths)
  obtain u where "schema_setup_file E path t = Some u" "store_ok u" "set t \<subseteq> set u"
    using setup_file_returns [OF assms(1,2) Cons.prems] by blast
  then show ?case using Cons.IH [of u] by auto
qed simp

lemma schema_setup_returns:
  assumes "\<And>a. sx_alloc E a" "names_objects E"
  shows "\<exists>t. schema_setup_json E = Some t \<and> store_ok t"
proof -
  have "store_ok []" by (simp add: store_ok_def tree_ok_def)
  from setup_files_returns [OF assms this] have "\<exists>t. schema_setup_files E paths [] = Some t \<and> store_ok t" for paths
    by blast
  then show ?thesis using \<open>store_ok []\<close> by (simp add: schema_setup_json_def split: option.split)
qed

text \<open>A second file for an object is ignored.\<close>

lemma second_file_ignored:
  assumes "tree_ok so_key t" "y \<in> set t" "so_key y = so_key x" "so_key x = Some k"
  shows "\<exists>t'. tree_insert so_key x t = Some t' \<and> set t' = set t"
  using tree_insert_ok [OF assms(1,4)] assms(2-4) by auto

section \<open>Looking up\<close>

definition schema_accepts :: "string \<Rightarrow> schema_object \<Rightarrow> bool" where
  "schema_accepts name o' \<longleftrightarrow>
     (if so_regex o' then the (so_regex_exp o') name else take 64 name = take 64 (the (so_key o')))"

text \<open>The first object in the order of the keys that accepts the name.\<close>

lemma get_object_first:
  assumes "store_ok t"
  shows "schema_get_object_schema t name = Some (List.find (schema_accepts name) t)"
  using assms
  by (induction t) (auto simp: store_ok_def tree_ok_Cons schema_ok_def schema_accepts_def OBJECT_NAME_MAX_LEN_def
      strncmp_eq_0)

lemma find_method_exact:
  assumes "tree_ok sm_key ms" "m \<in> set ms" "sm_key m = Some name" "length name < 64"
    "\<forall>x\<in>set ms. length (the (sm_key x)) < 64"
  shows "schema_find_method ms name = Some (Some m)"
  using assms
proof (induction ms)
  case (Cons x ms)
  obtain k where k: "sm_key x = Some k" "length k < 64" using Cons.prems(1,5) by (auto simp: tree_ok_Cons)
  show ?case
  proof (cases "k = name")
    case True
    then have "x = m" using tree_find [OF Cons.prems(1), of x m] Cons.prems(2,3) k by simp
    then show ?thesis using k True by (simp add: METHOD_NAME_MAX_LEN_def strncmp_eq_0)
  next
    case False
    then have "m \<in> set ms" using Cons.prems(2,3) k by auto
    then show ?thesis
      using Cons k False by (auto simp: METHOD_NAME_MAX_LEN_def strncmp_short tree_ok_Cons)
  qed
qed simp

text \<open>
  \<^bold>\<open>The look-up is exact.\<close> In a store without expressions and with names below 64 bytes the schema
  that is found for an object and a method is the one that was read for them.
\<close>

lemma get_method_exact:
  assumes t: "store_ok t" "\<forall>x\<in>set t. \<not> so_regex x \<and> length (the (so_key x)) < 64"
    and o: "o' \<in> set t" "so_key o' = Some object" and m: "m \<in> set (so_methods o')" "sm_key m = Some method"
    and len: "\<forall>x\<in>set (so_methods o'). length (the (sm_key x)) < 64"
  shows "schema_get_method_schema t object method = Some (Some m)"
proof -
  have short: "length object < 64" "length method < 64" using t(2) o m len by force+
  have acc: "schema_accepts object x \<longleftrightarrow> x = o'" if "x \<in> set t" for x
    using that t short(1) o tree_find [of so_key t x o'] by (auto simp: schema_accepts_def store_ok_def tree_ok_def)
  then have "List.find (schema_accepts object) t = Some o'"
    using o(1) by (induction t) auto
  moreover have "tree_ok sm_key (so_methods o')" using t(1) o(1) by (simp add: store_ok_def schema_ok_def)
  ultimately show ?thesis
    using find_method_exact [OF _ m short(2) len] by (simp add: schema_get_method_schema_def get_object_first [OF t(1)])
qed

text \<open>Longer names are taken for one another when their first 64 bytes agree.\<close>

lemma long_names_confused:
  "schema_get_object_schema [empty_schema\<lparr>so_key := Some (replicate 64 CHR ''a'' @ ''b'')\<rparr>] (replicate 64 CHR ''a'' @ ''c'') \<noteq>
     Some None"
  by (simp add: empty_schema_def OBJECT_NAME_MAX_LEN_def strncmp_eq_0)

text \<open>A file that asks for an expression and names no object compiles a null pointer.\<close>

lemma regex_without_object:
  assumes "sx_alloc E Alloc_schema_object" "sx_json_from_file E path = Some [(''regex'', v)]" "sx_get_bool E v"
  shows "schema_setup_file E path t = None"
  using assms by (simp add: schema_setup_file_def schema_compile_regex_def empty_schema_def)

text \<open>Clearing the store frees every node once, the methods of an object before the object.\<close>

lemma flush_all: "schema_flush_objects t = (concat (map schema_flush_object t), [])"
  by (induction t) simp_all

end
