(* ===== verification/Spec2Isabelle.thy ===== *)
theory Spec2Isabelle
  imports Rpc_Properties Proxy_Properties Http_Properties Main_Properties Uproxyd_Properties
    Dbus_Properties Schema_Properties
begin

text \<open>
  \<^bold>\<open>owsd, a WebSocket server for ubus.\<close> The program (\<open>src/src\<close>) lets web clients call objects of
  the ubus message bus, subscribe to its events and list its objects with JSON-RPC over WebSocket;
  it serves the files of the web interface; and it connects to other owsd servers and shows their
  objects on the local bus. It runs one event loop: libwebsockets, libubus and uloop call it back,
  and everything it does happens in such a callback. This development models the callbacks and what
  they call, and proves that they work together.

  \<^bold>\<open>Conventions.\<close> A C structure is a record with the fields of the source, an enumeration or a
  tagged union a datatype. Structures that are referred to by pointers (calls, subscriptions, event
  notifications, pending checks) live in heaps, maps from addresses, so that freeing one and using
  it later is visible. A function that can touch freed or null memory, read out of bounds or fail an
  \<open>assert\<close> returns an option: \<^term>\<open>None\<close> is the run that goes wrong, and theorems that something
  returns exclude it. Machine integers have their width where it matters: the mask of call slots and
  the request limit, event masks, \<open>strtol\<close>. What the sources only call (libwebsockets, libubus,
  libubox, json-c, the file system, the allocator) is a parameter, a record of functions that answer
  for it; what the code relies on is a predicate on that record (\<open>env_ok\<close>, \<open>write_ok\<close>, \<open>cl_env_ok\<close>,
  \<open>px_env_ok\<close>, \<open>uloop_ok\<close>), and every predicate has an instance in the development. Logging is
  left out.

  \<^bold>\<open>The server side.\<close>
  \<open>Json_Rpc\<close> has the values of blobmsg and JSON and the messages of \<open>util_jsonrpc.c\<close>; \<open>Rpc_Parse\<close> the
  parsers of \<open>rpc.c\<close>, \<open>rpc_call.c\<close>, \<open>rpc_sub.c\<close> and \<open>rpc_list.c\<close>; \<open>Server_State\<close> the state of the
  program (\<open>common.h\<close>, \<open>wsubus.impl.h\<close>); \<open>Access_Check\<close> the chain of checkers of \<open>access_check.c\<close>;
  \<open>Rpc_Call\<close>, \<open>Rpc_Sub\<close> and \<open>Rpc_List\<close> the handlers of \<open>rpc_call_ubus.h\<close>, \<open>rpc_sub.c\<close> and
  \<open>rpc_list_ubus.h\<close>; \<open>Peer\<close> the life of a connection (\<open>wsubus.impl.h\<close>), with the timer that cleans stale
  calls; \<open>Wsubus\<close> the protocol callback of \<open>wsubus.c\<close>; \<open>System\<close> the step relation of all callbacks.
  \<open>Ownership\<close> is the abstract specification: a machine of objects (a call, a subscription, an event
  notification), each owned by one client and waiting for at most one thing. \<open>Server_Inv\<close> ties the
  heap to it, \<open>Inv_Access\<close>, \<open>Inv_Call\<close>, \<open>Inv_Sub\<close>, \<open>Inv_Event\<close> and \<open>Inv_Peer\<close> show that every handler
  implements a move of it; the handlers share the contract \<open>rpc_handler\<close>, a locale that is interpreted for each of
  them. The theorems: every callback returns and keeps the invariant, a server without clients
  holds nothing, the counters are exact, every call waits for one thing (this theory); calls are made only after a
  positive verdict (\<open>Calls_Checked\<close>, this theory); \<open>Rpc_Properties\<close> has the behaviour of each handler.
  The steps for which the theorems hold are the \<open>safe\<close> ones: they leave out the situations in which
  the code does go wrong (a list request without an id, calls of \<open>ubus.object.\<close> names by a session of a certificate,
  the cleaner or an unsubscribe while a check is pending); \<open>Rpc_Properties\<close> proves that these do
  occur. \<open>Writer\<close> shows that the writer ends: its loop is a partial function that returns when the
  library accepts what it is given.

  \<^bold>\<open>Patterns and slots.\<close> \<open>Patterns\<close> has the path patterns of \<open>wsubus_client.c\<close> and the access list of
  \<open>ubusx_acl.c\<close>; the AVL tree of libubox is the locale \<open>avl_spec\<close> over the orders of the two
  comparison functions, and an ordered list is its instance. \<open>Proxied_Calls\<close> has the 20 slots for calls
  that wait for a remote server, in a mask of 32 bits, with the locale \<open>slot_table\<close> as its contract.

  \<^bold>\<open>The proxy.\<close> \<open>Client_Manager\<close> has the connections to other servers of \<open>wsubus_client.c\<close>, \<open>Client_Inv\<close>
  its step relation and invariant, \<open>Client_Properties\<close> its theorems. \<open>Local_Stub\<close> has the objects that
  stand for remote ones (\<open>local_stub.c\<close>), \<open>Proxy\<close> the protocol callback of \<open>ws_ubusproxy.c\<close>. \<open>Proxy_Merge\<close>
  compares the loop that merges a list of remote objects into the tree of stubs with a reference
  that looks every object up; \<open>Proxy_Put\<close> says what the reference does; \<open>Proxy_Inv\<close>, \<open>Proxy_Safe\<close> and
  \<open>Proxy_System\<close> have the invariant and the step relation; \<open>Proxy_Properties\<close> the theorems. The merge
  is exact on sorted lists unless two new objects follow the last stub; there it goes wrong, which
  is proved too.

  \<^bold>\<open>HTTP.\<close> \<open>Http_Serve\<close> has the file server (\<open>ws_http_serve.c\<close>), \<open>Http\<close> the default protocol (\<open>ws_http.c\<close>) with the
  table of file descriptors that joins libwebsockets and uloop; \<open>Http_Lemmas\<close> and \<open>Http_Poll\<close> their
  facts and \<open>Http_Properties\<close> their theorems: only files below the directory of the server are
  served, the answer 304 is exact, and the event loop never holds a structure that was freed.

  \<^bold>\<open>Configuration.\<close> \<open>Config\<close> has the JSON file (\<open>config.c\<close>), \<open>Main_Options\<close> the options of the command line
  and the making of the virtual hosts (\<open>main.c\<close>). They call the client manager, the patterns and
  the access list; \<open>Config_Inv\<close> and \<open>Config_Properties\<close> show that the state they leave is one these parts
  accept, that a well-ordered command line uses no null pointer, and that the virtual hosts are
  exactly the configured ones. \<open>Main_Start\<close> has the rest of \<open>main\<close>: the buses, the tables and limits, the
  context of libwebsockets, the timers, and the clean-up, with what the program holds as a list of
  resources. \<open>Main_Properties\<close> shows that the start leaves the machines of the loop (the server, the
  proxy, the client manager, the table of descriptors) in states that satisfy their invariants, from
  which every admitted sequence of callbacks is handled, and that \<open>main\<close> returns with the right code and releases everything once.

  \<^bold>\<open>The companion program.\<close> \<open>Uproxyd\<close> has \<open>uproxyd.c\<close>, which tells owsd which servers to connect to;
  \<open>Uproxyd_Properties\<close> shows that its loop over the clients, whose counter is overwritten in its body, ends on
  every list of the client manager, and that it does not end on others.

  \<^bold>\<open>D-Bus.\<close> A build with D-Bus tries D-Bus before ubus. \<open>Dubus\<close> has the conversions of names, types and
  values (\<open>dubus_conversions_names.c\<close>, \<open>dubus_conversions_types.c\<close>) and the check of replies (\<open>util_dbus.c\<close>);
  \<open>Dbus_Rpc\<close> the requests (\<open>rpc_list_dbus.c\<close>, \<open>rpc_call_dbus.h\<close>, the signals of \<open>rpc_sub.c\<close>) on top of the state
  of the server; \<open>Dbus_Io\<close> the tables that join libdbus and uloop (\<open>dbus-io.c\<close>), an instance of the locale
  \<open>safe_machine\<close> of \<open>Machine\<close>, as the server and the proxy are.
  \<open>Dubus_Properties\<close>, \<open>Dbus_Walk\<close> and \<open>Dbus_Properties\<close> show that names and values survive the way there
  and back, that a list ends with one answer whose order is the level order of the objects, that a call goes to the object it names, and that the timers stay within their
  table; they prove the errors of this side too (a client that leaves early, a failing list,
  nested objects, arrays, watches that are never released, calls without an access check).

  \<^bold>\<open>Validation.\<close> \<open>Json_Validation\<close> has \<open>util_json_validation.c\<close>, which the handlers of messages and of results
  call when it is built in; that it returns on every request that was parsed is a part of the
  theorem on the server as a whole. \<open>Schema\<close> has the store of schemas of \<open>schema.c\<close>, which the build does not
  compile; \<open>Schema_Properties\<close> shows that reading a directory gives ordered trees and that a look-up is exact
  for names below the 64 bytes that are compared.

  \<^bold>\<open>Bounds.\<close> There is no fuel: loops are structural recursion, functions with a measure
  (\<open>wsu_proxied_call_foreach_from\<close>, \<open>strtokens\<close>, the carry of the clock), or partial functions in the option monad whose
  return is proved (\<open>pattern_mute_loop\<close>, \<open>write_loop\<close>, \<open>clean_clients_loop\<close>). The constants are the ones of the source.

  \<^bold>\<open>Not modelled.\<close> Logging, the usage text, the time zone and the locale; and of \<open>uproxyd.c\<close> the connection to the bus and the run of the loop. \<open>getopt\<close> is
  the list of options it returns, the event loop of \<open>main\<close> a function from the state it gets to the
  state it leaves, and the share of the memory that is computed in floating point a parameter.
  Time passes only as the answers of the clock and the timers that fire.
\<close>

section \<open>The server as a whole\<close>



text \<open>
  C6. Nothing leaks: when the last client is gone, no call, subscription, event notification or
  access check is left on the heap, and no request, timer or event handler is pending.
\<close>

theorem idle_server_holds_nothing:
  assumes "reachable (init_server tot acl) s" "\<And>w. wsi_to_client s w = None"
  shows "call_heap s = Map.empty \<and> sub_heap s = Map.empty \<and> ev_heap s = Map.empty \<and>
     chk_heap s = Map.empty \<and> ubus_reqs s = {} \<and> timers s = {} \<and> ev_handlers s = {} \<and>
     listen_list s = [] \<and> num_active_ses s = 0"
proof -
  have inv: "server_inv s" by (rule reachable_inv [OF assms(1) init_inv])
  then have v: "view_inv (view_of s)" and n: "num_active_ses s = 0"
    using assms(2) by (simp_all add: server_inv_def sessions_ok_def)
  have call: "call_heap s a = None" for a
    using call_queued [OF v] assms(2) by (metis not_None_eq option.distinct(1))
  have sub: "sub_heap s a = None" for a
    using sub_queued [OF v] assms(2) by (metis not_None_eq option.distinct(1))
  have ev: "ev_heap s a = None" for a
    using ev_queued [OF v] assms(2) by (metis not_None_eq option.distinct(1))
  have chk: "chk_heap s b = None" for b
    using owner_of_check [OF v, of b] call ev
    by (cases "chk_heap s b") (auto split: chk_owner.splits)
  have "UCall a \<notin> ubus_reqs s" "UChk a \<notin> ubus_reqs s" for a
    by (metis pending_call [OF v] call option.distinct(1),
        metis pending_check [OF v] chk option.distinct(1))
  then have "ubus_reqs s = {}" by (metis ubus_req.exhaust all_not_in_conv)
  moreover have "b \<notin> timers s" for b using pending_timer [OF v] chk by auto
  moreover have "a \<notin> ev_handlers s" "a \<notin> set (listen_list s)" for a
    using v sub by (simp_all add: view_inv_def listen_ok_def sub_view_def)
  then have "ev_handlers s = {}" "listen_list s = []"
    by (blast, metis list.set_intros(1) neq_Nil_conv)
  ultimately show ?thesis using call sub ev chk n by (auto simp: fun_eq_iff)
qed

theorem idle_server_holds_nothing_witness:
  "call_heap (init_server 1024 []) = Map.empty \<and> sub_heap (init_server 1024 []) = Map.empty \<and>
   ev_heap (init_server 1024 []) = Map.empty \<and> chk_heap (init_server 1024 []) = Map.empty \<and>
   ubus_reqs (init_server 1024 []) = {} \<and> timers (init_server 1024 []) = {} \<and>
   ev_handlers (init_server 1024 []) = {} \<and> listen_list (init_server 1024 []) = [] \<and>
   num_active_ses (init_server 1024 []) = 0"
  by (rule idle_server_holds_nothing [OF start])
    (simp add: init_server_def wsi_to_client_def wsi_to_peer_def)

text \<open>
  C8. Every call in progress belongs to a live client, stands in that client's queue exactly once,
  and waits for exactly one thing: the ubus request of the call itself, the ubus request of its
  access check, or the timer of its access check.
\<close>

theorem live_call_has_one_request:
  assumes "reachable (init_server tot acl) s" "call_heap s a = Some k"
  shows "\<exists>c. wsi_to_client s (pc_wsi k) = Some c \<and> count_list (rpc_call_q c) (RCall a) = 1 \<and>
     (case pc_check k of
        None \<Rightarrow> UCall a \<in> ubus_reqs s
      | Some b \<Rightarrow> UCall a \<notin> ubus_reqs s \<and> (UChk b \<in> ubus_reqs s) \<noteq> (b \<in> timers s))"
proof -
  have v: "view_inv (view_of s)"
    using reachable_inv [OF assms(1) init_inv] by (simp add: server_inv_def)
  obtain c where c: "wsi_to_client s (pc_wsi k) = Some c" "RCall a \<in> set (rpc_call_q c)"
    "distinct (rpc_call_q c)"
    using call_queued [OF v assms(2)] by metis
  have "count_list (rpc_call_q c) (RCall a) = 1"
    using c(2,3) by (simp add: count_list_distinct)
  moreover have "(UChk b \<in> ubus_reqs s) \<noteq> (b \<in> timers s)" if b: "pc_check k = Some b" for b
  proof -
    obtain r where "chk_heap s b = Some r" using check_of_call [OF v assms(2) b] by blast
    then show ?thesis using check_pending_by_tag [OF v, of b r] by (cases "ck_tag r") auto
  qed
  ultimately show ?thesis
    using c(1) call_phase [OF v assms(2)] by (auto split: option.splits)
qed

theorem live_call_has_one_request_witness:
  "\<exists>c. wsi_to_client demo_called 1 = Some c \<and> count_list (rpc_call_q c) (RCall 0) = 1 \<and>
     UCall 0 \<notin> ubus_reqs demo_called \<and> (UChk 1 \<in> ubus_reqs demo_called) \<noteq> (1 \<in> timers demo_called)"
  using live_call_has_one_request [OF demo_reachable(2), of 0 demo_ctx]
  by (simp add: demo_called_def demo_ctx_def)

text \<open>
  C7. The bookkeeping of a client and of the server is exact: \<open>rpc_q_len\<close> counts the calls in
  progress of the client, \<open>num_active_ses\<close> counts the clients, and the request limit is the one
  computed from that count.
\<close>

theorem queue_length_counts_calls:
  assumes "reachable (init_server tot acl) s" "wsi_to_client s w = Some c"
  shows "rpc_q_len c = of_nat (card {a. \<exists>k. call_heap s a = Some k \<and> pc_wsi k = w}) \<and>
     num_active_ses s = of_nat (card {w. wsi_to_client s w \<noteq> None}) \<and>
     (num_active_ses s \<noteq> 0 \<longrightarrow> req_max s = recalc_req_max (total_req_max s) (num_active_ses s))"
proof -
  have inv: "server_inv s" by (rule reachable_inv [OF assms(1) init_inv])
  have q: "distinct (rq s w)" "\<And>a. RCall a \<in> set (rq s w) \<longleftrightarrow> (\<exists>k. call_heap s a = Some k \<and> pc_wsi k = w)"
    using inv by (auto simp: server_inv_def view_inv_def queues_ok_def call_view_def)
  have "set (filter is_RCall (rq s w)) = RCall ` {a. \<exists>k. call_heap s a = Some k \<and> pc_wsi k = w}"
    using q(2) by (auto elim: is_RCall.elims)
  then have "length (filter is_RCall (rq s w)) = card {a. \<exists>k. call_heap s a = Some k \<and> pc_wsi k = w}"
    using distinct_card [of "filter is_RCall (rq s w)"] q(1)
    by (simp add: card_image inj_on_def)
  then show ?thesis
    using inv assms(2) by (simp add: server_inv_def len_ok_def sessions_ok_def rq_def)
qed

theorem queue_length_counts_calls_witness:
  "rpc_q_len (demo_client\<lparr>rpc_q_len := 1, rpc_call_q := [RCall 0], access_check_q := [OCall 0]\<rparr>) =
     of_nat (card {a. \<exists>k. call_heap demo_called a = Some k \<and> pc_wsi k = 1}) \<and>
   num_active_ses demo_called = of_nat (card {w. wsi_to_client demo_called w \<noteq> None}) \<and>
   req_max demo_called = recalc_req_max (total_req_max demo_called) (num_active_ses demo_called)"
proof -
  have c: "wsi_to_client demo_called 1 =
      Some (demo_client\<lparr>rpc_q_len := 1, rpc_call_q := [RCall 0], access_check_q := [OCall 0]\<rparr>)"
    and n: "num_active_ses demo_called \<noteq> 0"
    by (simp_all add: demo_states wsi_to_client_def wsi_to_peer_def client_of_def)
  show ?thesis using queue_length_counts_calls [OF demo_reachable(2) c] n by simp
qed

text \<open>
  C3. No method runs without a positive verdict: a step adds a call to the requests handed to the
  bus only when it completes the access check of that very call, the check's result is positive
  (and its ubus request succeeded), and what is invoked is the method and object the call names.
\<close>

theorem calls_only_after_check:
  assumes "step E ev s = Some s'"
  shows "ucalls s' = ucalls s \<or>
     (\<exists>a b r k obj args. chk_heap s b = Some r \<and> ck_owner r = OCall a \<and> ck_result r \<and>
        (ev = CheckDone b 0 \<or> ev = Deferred b \<and> ck_tag r = REQ_TAG_DEFER) \<and>
        call_heap s a = Some k \<and> pc_check k = Some b \<and>
        ubus_lookup_id E (uc_object (pc_args k)) = (0, obj) \<and>
        owsd_listen E (pc_wsi k) (pc_args k) = Some args \<and> uc_method args = uc_method (pc_args k) \<and>
        ucalls s' = ucalls s @ [(UCall a, obj, uc_method args, uc_params args)])"
proof -
  have m: "uc_method args = uc_method k" if "owsd_listen E w k = Some args" for w k args
    using that by (auto simp: owsd_listen_def split: if_splits option.splits)
  from step_calls [OF assms] show ?thesis
  proof
    assume "\<exists>a b r. chk_heap s b = Some r \<and> ck_owner r = OCall a \<and> ck_result r \<and>
        (ev = CheckDone b 0 \<or> ev = Deferred b \<and> ck_tag r = REQ_TAG_DEFER) \<and> call_logged E s b a s'"
    then show ?thesis
      using m unfolding call_logged_def
      by (elim exE conjE, intro disjI2) (intro exI conjI; blast)
  qed simp
qed

theorem calls_only_after_check_witness:
  "ucalls demo_invoked = ucalls demo_granted @ [(UCall 0, 7, ''get'', uc_params demo_session_args)]"
  using calls_only_after_check [OF demo_invoke_step]
  by (auto simp: demo_states ucalls_def owsd_listen_def)

end
